(* ===== verification/Prelude.thy ===== *)
theory Prelude
  imports Main "HOL-Library.Code_Target_Numeral" "HOL-Library.Char_ord" "HOL-Library.List_Lexorder" "HOL-Library.AList" "HOL-Library.Multiset"
begin

text \<open>
  Shared vocabulary of the development: how Go's error returns, loops that stop at the
  first error, maps and sorted name lists are written, and the lemmas on them that the
  component theories use. Nothing here models a line of the repository by itself.

  \<^item> A Go \<^verbatim>\<open>error\<close> result is an \<open>'e option\<close>, \<open>None\<close> being \<^verbatim>\<open>nil\<close>; a pair of a value and an
    error is an \<open>'e + 'a\<close>.
  \<^item> A Go map is an association list with distinct keys (\<open>gomap\<close>). The order of the list
    stands for the order in which \<^verbatim>\<open>range\<close> happens to visit the entries, so a statement for every
    such list holds for every iteration order.
  \<^item> A Go string is a list of bytes, which is what \<^typ>\<open>string\<close> is. Strings are ordered
    lexicographically by byte, as Go compares them.
\<close>

named_theorems err_simps \<open>evaluation of error chains\<close>
named_theorems go_simps \<open>evaluation of Go library functions\<close>

section \<open>Error returns\<close>

definition fail_if :: "bool \<Rightarrow> 'e \<Rightarrow> 'e option" where
  "fail_if c e = (if c then Some e else None)"

primrec first_err :: "'e option list \<Rightarrow> 'e option" where
  "first_err [] = None"
| "first_err (x # xs) = (case x of Some e \<Rightarrow> Some e | None \<Rightarrow> first_err xs)"

primrec try_bind :: "'e + 'a \<Rightarrow> ('a \<Rightarrow> 'e + 'b) \<Rightarrow> 'e + 'b" where
  "try_bind (Inl e) f = Inl e"
| "try_bind (Inr x) f = f x"

primrec require :: "'e option \<Rightarrow> 'e + 'b \<Rightarrow> 'e + 'b" where
  "require None r = r"
| "require (Some e) r = Inl e"

primrec fold_try :: "('a \<Rightarrow> 's \<Rightarrow> 'e + 's) \<Rightarrow> 'a list \<Rightarrow> 's \<Rightarrow> 'e + 's" where
  "fold_try f [] s = Inr s"
| "fold_try f (x # xs) s = (case f x s of Inl e \<Rightarrow> Inl e | Inr s' \<Rightarrow> fold_try f xs s')"

lemma fail_if_None [simp, err_simps]: "fail_if c e = None \<longleftrightarrow> \<not> c"
  by (simp add: fail_if_def)

lemma fail_if_Some [simp, err_simps]: "fail_if c e = Some x \<longleftrightarrow> c \<and> e = x"
  by (auto simp: fail_if_def)

lemma Some_fail_if [simp]: "Some x = fail_if c e \<longleftrightarrow> c \<and> e = x"
  by (auto simp: fail_if_def)

lemma fail_if_bool [simp]: "fail_if True e = Some e" "fail_if False e = None"
  by (simp_all add: fail_if_def)

lemma first_err_None [err_simps]: "first_err xs = None \<longleftrightarrow> (\<forall>x\<in>set xs. x = None)"
  by (induction xs) (auto split: option.splits)

lemma first_err_Cons_None [simp]:
  "first_err (x # xs) = None \<longleftrightarrow> x = None \<and> first_err xs = None"
  by (auto split: option.splits)

lemma first_err_map_None [simp]:
  "first_err (map f xs) = None \<longleftrightarrow> (\<forall>x\<in>set xs. f x = None)"
  by (auto simp: first_err_None)

lemma first_err_append [simp]:
  "first_err (xs @ ys) = (case first_err xs of Some e \<Rightarrow> Some e | None \<Rightarrow> first_err ys)"
  by (induction xs) (auto split: option.splits)

lemma first_err_Some_mem: "first_err xs = Some e \<Longrightarrow> Some e \<in> set xs"
  by (induction xs) (auto split: option.splits)

lemma try_bind_Inr [simp, err_simps]:
  "try_bind r f = Inr y \<longleftrightarrow> (\<exists>x. r = Inr x \<and> f x = Inr y)"
  by (cases r) auto

lemma try_bind_Inl: "try_bind r f = Inl e \<longleftrightarrow> r = Inl e \<or> (\<exists>x. r = Inr x \<and> f x = Inl e)"
  by (cases r) auto

lemma require_Inr [simp, err_simps]: "require x r = Inr y \<longleftrightarrow> x = None \<and> r = Inr y"
  by (cases x) auto

lemma require_Inl: "require x r = Inl e \<longleftrightarrow> x = Some e \<or> x = None \<and> r = Inl e"
  by (cases x) auto

lemma fold_try_append:
  "fold_try f (xs @ ys) s = try_bind (fold_try f xs s) (fold_try f ys)"
  by (induction xs arbitrary: s) (auto split: sum.splits)

lemma fold_try_invariant:
  assumes "fold_try f xs s = Inr t" and "I s"
    and "\<And>x s s'. x \<in> set xs \<Longrightarrow> I s \<Longrightarrow> f x s = Inr s' \<Longrightarrow> I s'"
  shows "I t"
  using assms
proof (induction xs arbitrary: s)
  case Nil
  then show ?case by simp
next
  case (Cons x xs)
  then obtain s' where s': "f x s = Inr s'" "fold_try f xs s' = Inr t"
    by (auto split: sum.splits)
  moreover have "I s'"
    using Cons.prems(3)[OF _ Cons.prems(2) s'(1)] by simp
  ultimately show ?case
    by (intro Cons.IH[OF s'(2)]) (auto intro: Cons.prems(3))
qed

section \<open>Go maps\<close>

type_synonym ('k, 'v) gomap = "('k \<times> 'v) list"

definition go_map :: "('k, 'v) gomap \<Rightarrow> bool" where
  "go_map m = distinct (map fst m)"

definition map_keys :: "('k, 'v) gomap \<Rightarrow> 'k list" where
  "map_keys m = map fst m"

lemma map_keys_simps [simp]:
  "map_keys [] = []" "map_keys (p # m) = fst p # map_keys m"
  by (simp_all add: map_keys_def)

lemma length_map_keys [simp]: "length (map_keys m) = length m"
  by (simp add: map_keys_def)

lemma set_map_keys [simp]: "set (map_keys m) = dom (map_of m)"
  by (simp add: map_keys_def dom_map_of_conv_image_fst)

lemma go_map_update [simp]: "go_map m \<Longrightarrow> go_map (AList.update k v m)"
  by (simp add: go_map_def distinct_update)

lemma go_map_delete [simp]: "go_map m \<Longrightarrow> go_map (AList.delete k m)"
  by (simp add: go_map_def distinct_delete)

lemma go_map_Nil [simp]: "go_map []"
  by (simp add: go_map_def)

lemma map_of_update [simp]: "map_of (AList.update k v m) = (map_of m)(k \<mapsto> v)"
  by (rule update_conv')

lemma map_of_delete [simp]: "map_of (AList.delete k m) = (map_of m)(k := None)"
  by (rule delete_conv')

lemma go_map_entry: "go_map m \<Longrightarrow> (k, v) \<in> set m \<longleftrightarrow> map_of m k = Some v"
  by (auto simp: go_map_def intro: map_of_is_SomeI dest: map_of_SomeD)

section \<open>64-bit integers\<close>

text \<open>Go's \<^verbatim>\<open>int\<close> and \<^verbatim>\<open>int64\<close> arithmetic wraps around at 64 bits, in two's complement.\<close>

definition int64 :: "int \<Rightarrow> int" where
  "int64 x = (x + 2 ^ 63) mod 2 ^ 64 - 2 ^ 63"

definition in_int64 :: "int \<Rightarrow> bool" where
  "in_int64 x = (- (2 ^ 63) \<le> x \<and> x < 2 ^ 63)"

lemma int64_in [simp]: "in_int64 x \<Longrightarrow> int64 x = x"
  by (simp add: int64_def in_int64_def)

lemma in_int64_int64 [simp]: "in_int64 (int64 x)"
proof -
  have "0 \<le> (x + 2 ^ 63) mod 2 ^ 64" "(x + 2 ^ 63) mod 2 ^ 64 < (2 ^ 64 :: int)" by simp_all
  then show ?thesis unfolding int64_def in_int64_def by simp
qed

section \<open>Sorted name lists\<close>

lemma sorted_distinct_unique:
  assumes "sorted xs" "distinct xs" "sorted ys" "distinct ys" "set xs = set ys"
  shows "xs = (ys :: 'a::linorder list)"
  using assms by (simp add: sorted_distinct_set_unique)

definition sorted_names :: "'a::linorder list \<Rightarrow> bool" where
  "sorted_names xs = (sorted xs \<and> distinct xs)"

lemma sorted_names_sort_remdups [simp]: "sorted_names (sort (remdups xs))"
  by (simp add: sorted_names_def)

lemma sorted_names_eqI:
  "sorted_names xs \<Longrightarrow> sorted_names ys \<Longrightarrow> set xs = set ys \<Longrightarrow> xs = ys"
  by (auto simp: sorted_names_def intro: sorted_distinct_unique)

lemma sorted_wrt_map_distinct_unique:
  fixes f :: "'a \<Rightarrow> 'b::linorder"
  assumes "sorted (map f xs)" "sorted (map f ys)" "distinct (map f xs)" "mset xs = mset ys"
  shows "xs = ys"
proof -
  have eq: "set xs = set ys" using assms(4) by (rule mset_eq_setD)
  have "distinct (map f ys)"
    using assms(3,4) by (metis distinct_map mset_eq_imp_distinct_iff eq)
  then have "map f xs = map f ys"
    using assms eq by (intro sorted_distinct_unique) auto
  moreover have "inj_on f (set xs \<union> set ys)"
    using assms(3) eq by (simp add: distinct_map)
  ultimately show ?thesis by (simp add: inj_on_map_eq_map)
qed

end
