(* ===== verification/Go_Strings.thy ===== *)
theory Go_Strings
  imports Prelude
begin

text \<open>
  The functions of Go's \<^verbatim>\<open>strings\<close>, \<^verbatim>\<open>strconv\<close> and \<^verbatim>\<open>path\<close> packages that the modelled code calls,
  with the documented behaviour of each, and the facts the components use: decimal printing and
  parsing are inverse, \<^verbatim>\<open>Split\<close> and \<^verbatim>\<open>Join\<close> are inverse, and a path that \<^verbatim>\<open>path.Clean\<close> leaves alone
  has only proper components.
\<close>

section \<open>strings\<close>

definition HasPrefix :: "string \<Rightarrow> string \<Rightarrow> bool" where
  "HasPrefix s p = (take (length p) s = p)"

definition HasSuffix :: "string \<Rightarrow> string \<Rightarrow> bool" where
  "HasSuffix s p = (length p \<le> length s \<and> drop (length s - length p) s = p)"

definition TrimPrefix :: "string \<Rightarrow> string \<Rightarrow> string" where
  "TrimPrefix s p = (if HasPrefix s p then drop (length p) s else s)"

definition TrimSuffix :: "string \<Rightarrow> string \<Rightarrow> string" where
  "TrimSuffix s p = (if HasSuffix s p then take (length s - length p) s else s)"

definition CutPrefix :: "string \<Rightarrow> string \<Rightarrow> string option" where
  "CutPrefix s p = (if HasPrefix s p then Some (drop (length p) s) else None)"

fun Contains :: "string \<Rightarrow> string \<Rightarrow> bool" where
  "Contains [] p = (p = [])"
| "Contains (c # s) p = (HasPrefix (c # s) p \<or> Contains s p)"

definition ContainsAny :: "string \<Rightarrow> string \<Rightarrow> bool" where
  "ContainsAny s cs = list_ex (\<lambda>c. c \<in> set cs) s"

text \<open>\<^verbatim>\<open>Split\<close> with a one-byte separator: always at least one piece.\<close>

fun Split :: "string \<Rightarrow> char \<Rightarrow> string list" where
  "Split [] d = [[]]"
| "Split (c # s) d =
     (if c = d then [] # Split s d
      else (case Split s d of [] \<Rightarrow> [[c]] | w # ws \<Rightarrow> (c # w) # ws))"

fun Join :: "string list \<Rightarrow> char \<Rightarrow> string" where
  "Join [] d = []"
| "Join [w] d = w"
| "Join (w # v # ws) d = w @ d # Join (v # ws) d"

text \<open>\<^verbatim>\<open>Cut\<close> around the first one-byte separator: before, after, found.\<close>

definition Cut :: "string \<Rightarrow> char \<Rightarrow> string \<times> string \<times> bool" where
  "Cut s d = (takeWhile (\<lambda>c. c \<noteq> d) s, tl (dropWhile (\<lambda>c. c \<noteq> d) s), d \<in> set s)"

text \<open>\<^verbatim>\<open>ReplaceAll\<close> for a pattern that is not empty: occurrences from the left, without overlap.\<close>

function ReplaceAll :: "string \<Rightarrow> string \<Rightarrow> string \<Rightarrow> string" where
  "ReplaceAll [] p q = []"
| "ReplaceAll (c # s) p q =
     (if p \<noteq> [] \<and> HasPrefix (c # s) p then q @ ReplaceAll (drop (length p) (c # s)) p q
      else c # ReplaceAll s p q)"
  by pat_completeness auto
termination
  by (relation "measure (\<lambda>(s, p, q). length s)") auto

lemma HasPrefix_append [simp]: "HasPrefix (p @ s) p"
  by (simp add: HasPrefix_def)

lemma HasPrefix_iff: "HasPrefix s p \<longleftrightarrow> (\<exists>t. s = p @ t)"
  by (metis HasPrefix_def HasPrefix_append append_take_drop_id)

lemma HasPrefix_Nil [simp]: "HasPrefix s []" "HasPrefix [] p \<longleftrightarrow> p = []"
  by (auto simp: HasPrefix_def)

lemma HasPrefix_Cons [simp]: "HasPrefix (c # s) (d # p) \<longleftrightarrow> c = d \<and> HasPrefix s p"
  by (auto simp: HasPrefix_def)

lemma HasSuffix_iff: "HasSuffix s p \<longleftrightarrow> (\<exists>t. s = t @ p)"
  by (auto simp: HasSuffix_def) (metis append_take_drop_id)

lemma TrimPrefix_append [simp]: "TrimPrefix (p @ s) p = s"
  by (simp add: TrimPrefix_def)

lemma CutPrefix_Some: "CutPrefix s p = Some t \<longleftrightarrow> s = p @ t"
  by (auto simp: CutPrefix_def HasPrefix_iff)

lemma Contains_iff: "Contains s p \<longleftrightarrow> (\<exists>u v. s = u @ p @ v)"
proof (induction s)
  case Nil
  then show ?case by auto
next
  case (Cons c s)
  have "(\<exists>u v. c # s = u @ p @ v) \<longleftrightarrow> (\<exists>v. c # s = p @ v) \<or> (\<exists>u v. s = u @ p @ v)"
    by (metis append_Cons append_Nil neq_Nil_conv list.inject)
  then show ?case using Cons by (simp add: HasPrefix_iff)
qed

lemma ContainsAny_iff: "ContainsAny s cs \<longleftrightarrow> set s \<inter> set cs \<noteq> {}"
  by (auto simp: ContainsAny_def list_ex_iff)

lemma Split_not_Nil [simp]: "Split s d \<noteq> []"
  by (induction s) (auto split: list.splits)

lemma Split_no_sep: "w \<in> set (Split s d) \<Longrightarrow> d \<notin> set w"
proof (induction s arbitrary: w)
  case (Cons c s)
  then show ?case by (cases "Split s d") (auto split: if_splits)
qed simp

lemma Join_Split [simp]: "Join (Split s d) d = s"
proof (induction s)
  case (Cons c s)
  then show ?case
    by (cases "Split s d" rule: remdups_adj.cases) auto
qed simp

lemma Split_word: "d \<notin> set w \<Longrightarrow> Split w d = [w]"
  by (induction w) auto

lemma Split_append_sep: "d \<notin> set w \<Longrightarrow> Split (w @ d # s) d = w # Split s d"
  by (induction w) auto

lemma Split_Join:
  "ws \<noteq> [] \<Longrightarrow> \<forall>w\<in>set ws. d \<notin> set w \<Longrightarrow> Split (Join ws d) d = ws"
  by (induction ws d rule: Join.induct) (auto simp: Split_word Split_append_sep)

lemma Cut_word: "d \<notin> set w \<Longrightarrow> Cut (w @ d # s) d = (w, s, True)"
  by (simp add: Cut_def takeWhile_append dropWhile_append)

lemma Cut_absent: "d \<notin> set s \<Longrightarrow> Cut s d = (s, [], False)"
proof -
  assume "d \<notin> set s"
  then have "\<forall>c\<in>set s. c \<noteq> d" by blast
  then have "takeWhile (\<lambda>c. c \<noteq> d) s = s" "dropWhile (\<lambda>c. c \<noteq> d) s = []"
    by (simp_all only: takeWhile_eq_all_conv dropWhile_eq_Nil_conv)
  then show ?thesis using \<open>d \<notin> set s\<close> unfolding Cut_def by (metis list.sel(2))
qed

lemma ReplaceAll_absent: "\<not> Contains s p \<Longrightarrow> ReplaceAll s p q = s"
proof (induction s)
  case (Cons c s)
  then have "\<not> HasPrefix (c # s) p" "\<not> Contains s p" by auto
  then show ?case using Cons.IH by simp
qed simp

text \<open>
  \<^verbatim>\<open>TrimSpace\<close> strips Unicode white space, given here by its UTF-8 encodings, from both ends.
\<close>

definition white_space :: "string list" where
  "white_space =
     [[CHR 0x09], [CHR 0x0A], [CHR 0x0B], [CHR 0x0C], [CHR 0x0D], [CHR 0x20],
      [CHR 0xC2, CHR 0x85], [CHR 0xC2, CHR 0xA0], [CHR 0xE1, CHR 0x9A, CHR 0x80]]
     @ map (\<lambda>c. [CHR 0xE2, CHR 0x80, c])
         [CHR 0x80, CHR 0x81, CHR 0x82, CHR 0x83, CHR 0x84, CHR 0x85, CHR 0x86, CHR 0x87,
          CHR 0x88, CHR 0x89, CHR 0x8A, CHR 0xA8, CHR 0xA9, CHR 0xAF]
     @ [[CHR 0xE2, CHR 0x81, CHR 0x9F], [CHR 0xE3, CHR 0x80, CHR 0x80]]"

function strip_left :: "string list \<Rightarrow> string \<Rightarrow> string" where
  "strip_left ws s =
     (case find (\<lambda>w. w \<noteq> [] \<and> HasPrefix s w) ws of
        None \<Rightarrow> s
      | Some w \<Rightarrow> strip_left ws (drop (length w) s))"
  by pat_completeness auto
termination
proof (relation "measure (\<lambda>(ws, s). length s)")
  fix ws s w
  assume "find (\<lambda>w. w \<noteq> [] \<and> HasPrefix s w) ws = Some w"
  then have "w \<noteq> []" "HasPrefix s w" by (auto simp: find_Some_iff)
  then have "s \<noteq> []" by (cases s) auto
  with \<open>w \<noteq> []\<close> show "((ws, drop (length w) s), ws, s) \<in> measure (\<lambda>(ws, s). length s)" by simp
qed simp

declare strip_left.simps [simp del]

definition TrimSpace :: "string \<Rightarrow> string" where
  "TrimSpace s = rev (strip_left (map rev white_space) (rev (strip_left white_space s)))"

section \<open>strconv\<close>

definition digit_char :: "nat \<Rightarrow> char" where
  "digit_char d = char_of (48 + d)"

definition char_digit :: "char \<Rightarrow> nat" where
  "char_digit c = of_char c - 48"

definition is_digit :: "char \<Rightarrow> bool" where
  "is_digit c = (CHR ''0'' \<le> c \<and> c \<le> CHR ''9'')"

fun nat_digits :: "nat \<Rightarrow> string" where
  "nat_digits n = (if n < 10 then [digit_char n] else nat_digits (n div 10) @ [digit_char (n mod 10)])"

declare nat_digits.simps [simp del]

definition digits_nat :: "string \<Rightarrow> nat" where
  "digits_nat s = foldl (\<lambda>a c. 10 * a + char_digit c) 0 s"

definition Itoa :: "int \<Rightarrow> string" where
  "Itoa i = (if i < 0 then CHR ''-'' # nat_digits (nat (- i)) else nat_digits (nat i))"

definition all_digits :: "string \<Rightarrow> bool" where
  "all_digits s = (s \<noteq> [] \<and> list_all is_digit s)"

text \<open>\<^verbatim>\<open>Atoi\<close> and \<^verbatim>\<open>ParseInt(s, 10, 64)\<close>: an optional sign, then digits, within 64 bits.\<close>

definition Atoi :: "string \<Rightarrow> int option" where
  "Atoi s =
     (let neg = HasPrefix s ''-'';
          body = (if neg \<or> HasPrefix s ''+'' then tl s else s);
          v = (if neg then - int (digits_nat body) else int (digits_nat body))
      in if all_digits body \<and> - (2 ^ 63) \<le> v \<and> v < 2 ^ 63 then Some v else None)"

text \<open>\<^verbatim>\<open>ParseUint(s, 10, 32)\<close>.\<close>

definition ParseUint32 :: "string \<Rightarrow> nat option" where
  "ParseUint32 s = (if all_digits s \<and> digits_nat s < 2 ^ 32 then Some (digits_nat s) else None)"

lemma is_digit_iff: "is_digit c \<longleftrightarrow> (48::nat) \<le> of_char c \<and> (of_char c :: nat) \<le> 57"
  by (simp add: is_digit_def less_eq_char_def)

lemma char_digit_digit_char [simp]: "d < 10 \<Longrightarrow> char_digit (digit_char d) = d"
  by (simp add: char_digit_def digit_char_def)

lemma is_digit_digit_char [simp]: "d < 10 \<Longrightarrow> is_digit (digit_char d)"
  by (simp add: is_digit_iff digit_char_def)

lemma digits_nat_append [simp]: "digits_nat (s @ [c]) = 10 * digits_nat s + char_digit c"
  by (simp add: digits_nat_def)

lemma digits_nat_Nil [simp]: "digits_nat [] = 0"
  by (simp add: digits_nat_def)

lemma digits_nat_digits [simp]: "digits_nat (nat_digits n) = n"
proof (induction n rule: nat_digits.induct)
  case (1 n)
  show ?case
  proof (cases "n < 10")
    case True
    then show ?thesis
      using digits_nat_append[of "[]" "digit_char n"] by (simp add: nat_digits.simps)
  next
    case False
    then show ?thesis using 1 by (simp add: nat_digits.simps[of n])
  qed
qed

lemma all_digits_nat_digits [simp]: "all_digits (nat_digits n)"
proof (induction n rule: nat_digits.induct)
  case (1 n)
  then show ?case
    by (cases "n < 10") (simp_all add: nat_digits.simps[of n] all_digits_def)
qed

lemma nat_digits_inject [simp]: "nat_digits m = nat_digits n \<longleftrightarrow> m = n"
  by (metis digits_nat_digits)

lemma nat_digits_not_Nil [simp]: "nat_digits n \<noteq> []"
  using all_digits_nat_digits[of n] by (simp add: all_digits_def)

lemma Itoa_nonneg: "0 \<le> i \<Longrightarrow> Itoa i = nat_digits (nat i)"
  by (simp add: Itoa_def)

lemma all_digits_no_sign:
  assumes "all_digits s"
  shows "\<not> HasPrefix s ''-''" "\<not> HasPrefix s ''+''"
  using assms by (cases s; auto simp: all_digits_def is_digit_iff)+

lemma Atoi_all_digits:
  assumes "all_digits s"
  shows "Atoi s = (if digits_nat s < 2 ^ 63 then Some (int (digits_nat s)) else None)"
proof -
  have "int (digits_nat s) < 2 ^ 63 \<longleftrightarrow> digits_nat s < 2 ^ 63"
    by (metis of_nat_less_iff of_nat_numeral of_nat_power)
  then show ?thesis
    using assms all_digits_no_sign[OF assms] by (simp add: Atoi_def Let_def)
qed

lemma Atoi_Itoa: "0 \<le> i \<Longrightarrow> i < 2 ^ 63 \<Longrightarrow> Atoi (Itoa i) = Some i"
  by (simp add: Itoa_nonneg Atoi_all_digits nat_less_iff)

lemma ParseUint32_digits: "n < 2 ^ 32 \<Longrightarrow> ParseUint32 (nat_digits n) = Some n"
  by (simp add: ParseUint32_def)

section \<open>path\<close>

text \<open>
  \<^verbatim>\<open>path.Clean\<close> (and \<^verbatim>\<open>filepath.Clean\<close> on Linux): empty and \<^verbatim>\<open>.\<close> components vanish, \<^verbatim>\<open>..\<close> removes
  the component before it, at the root it vanishes too, and an empty result is \<^verbatim>\<open>.\<close>.
\<close>

fun clean_parts :: "bool \<Rightarrow> string list \<Rightarrow> string list \<Rightarrow> string list" where
  "clean_parts rooted acc [] = rev acc"
| "clean_parts rooted acc (w # ws) =
     (if w = [] \<or> w = ''.'' then clean_parts rooted acc ws
      else if w = ''..'' then
        (case acc of
           [] \<Rightarrow> clean_parts rooted (if rooted then [] else [w]) ws
         | a # as \<Rightarrow> clean_parts rooted (if a = ''..'' then w # acc else as) ws)
      else clean_parts rooted (w # acc) ws)"

definition slash :: char where
  "slash = CHR ''/''"

definition Clean :: "string \<Rightarrow> string" where
  "Clean p =
     (let rooted = HasPrefix p ''/'';
          body = Join (clean_parts rooted [] (Split p slash)) slash
      in if rooted then slash # body else if body = [] then ''.'' else body)"

definition proper_part :: "string \<Rightarrow> bool" where
  "proper_part w = (w \<noteq> [] \<and> w \<noteq> ''.'' \<and> w \<noteq> ''..'' \<and> slash \<notin> set w)"

lemma clean_parts_rooted_proper:
  assumes "\<forall>w\<in>set ws. slash \<notin> set w" "\<forall>w\<in>set acc. proper_part w"
  shows "\<forall>w\<in>set (clean_parts True acc ws). proper_part w"
  using assms
proof (induction ws arbitrary: acc)
  case (Cons w ws)
  have ws: "\<forall>w\<in>set ws. slash \<notin> set w" using Cons.prems(1) by simp
  consider "w = [] \<or> w = ''.''" | "w = ''..''" "acc = []" | a as where "w = ''..''" "acc = a # as"
    | "w \<noteq> []" "w \<noteq> ''.''" "w \<noteq> ''..''"
    by (cases acc) blast+
  then show ?case
  proof cases
    case 1
    then have "clean_parts True acc (w # ws) = clean_parts True acc ws" by auto
    then show ?thesis using Cons.IH[OF ws Cons.prems(2)] by simp
  next
    case 2
    then have "clean_parts True acc (w # ws) = clean_parts True [] ws" by simp
    then show ?thesis using Cons.IH[OF ws, of "[]"] by simp
  next
    case 3
    then have "a \<noteq> ''..''" using Cons.prems(2) by (simp add: proper_part_def)
    then have "clean_parts True acc (w # ws) = clean_parts True as ws" using 3 by simp
    then show ?thesis using Cons.IH[OF ws, of as] Cons.prems(2) 3 by simp
  next
    case 4
    then have eq: "clean_parts True acc (w # ws) = clean_parts True (w # acc) ws" by simp
    have "\<forall>v\<in>set (w # acc). proper_part v"
      using 4 Cons.prems by (simp add: proper_part_def)
    then show ?thesis unfolding eq by (rule Cons.IH[OF ws])
  qed
qed simp

lemma clean_parts_proper:
  "\<forall>w\<in>set ws. proper_part w \<Longrightarrow> clean_parts r acc ws = rev acc @ ws"
  by (induction ws arbitrary: acc) (auto simp: proper_part_def)

lemma Clean_absolute_fixed:
  assumes "HasPrefix p ''/''" "Clean p = p" "p \<noteq> ''/''"
  obtains ws where "p = slash # Join ws slash" "ws \<noteq> []" "\<forall>w\<in>set ws. proper_part w"
proof
  let ?ws = "clean_parts True [] (Split p slash)"
  show p: "p = slash # Join ?ws slash"
    using assms(1,2) by (simp add: Clean_def Let_def)
  show "?ws \<noteq> []"
  proof
    assume "?ws = []"
    with p have "p = [slash]" by simp
    with assms(3) show False by (simp add: slash_def)
  qed
  show "\<forall>w\<in>set ?ws. proper_part w"
    by (rule clean_parts_rooted_proper) (auto dest: Split_no_sep)
qed

lemma Clean_of_proper:
  assumes "ws \<noteq> []" "\<forall>w\<in>set ws. proper_part w"
  shows "Clean (slash # Join ws slash) = slash # Join ws slash"
proof -
  have "Split (Join ws slash) slash = ws"
    using assms by (intro Split_Join) (auto simp: proper_part_def)
  then have "clean_parts True [] (Split (slash # Join ws slash) slash) = ws"
    using clean_parts_proper[OF assms(2), of True "[]"] by simp
  then show ?thesis
    by (simp add: Clean_def Let_def) (simp add: slash_def)
qed

end
