(* ===== verification/Go_Regexp.thy ===== *)
theory Go_Regexp
  imports Prelude
begin

text \<open>
  The part of Go's \<^verbatim>\<open>regexp\<close> package that the repository uses: patterns anchored at both ends
  (\<^verbatim>\<open>^...$\<close>) tested with \<^verbatim>\<open>MatchString\<close>. A pattern is a term of \<open>rx\<close> that transcribes the pattern
  text; \<open>MatchString\<close> runs it by derivatives and \<open>lang\<close> says which strings it denotes, and the two
  agree (\<open>MatchString_iff\<close>). All patterns here are over ASCII, so matching by byte is matching by
  rune.
\<close>

type_synonym char_class = "(char \<times> char) list"

definition in_class :: "char_class \<Rightarrow> char \<Rightarrow> bool" where
  "in_class cls c = list_ex (\<lambda>(lo, hi). lo \<le> c \<and> c \<le> hi) cls"

datatype rx =
    RZero
  | REps
  | Cls char_class
  | Seq rx rx
  | Alt rx rx
  | Star rx

inductive_set star_of :: "string set \<Rightarrow> string set" for L where
  star_Nil: "[] \<in> star_of L"
| star_app: "u \<in> L \<Longrightarrow> v \<in> star_of L \<Longrightarrow> u @ v \<in> star_of L"

primrec lang :: "rx \<Rightarrow> string set" where
  "lang RZero = {}"
| "lang REps = {[]}"
| "lang (Cls cls) = {s. \<exists>c. s = [c] \<and> in_class cls c}"
| "lang (Seq r q) = {s. \<exists>u v. s = u @ v \<and> u \<in> lang r \<and> v \<in> lang q}"
| "lang (Alt r q) = lang r \<union> lang q"
| "lang (Star r) = star_of (lang r)"

section \<open>Matching by derivatives\<close>

primrec nullable :: "rx \<Rightarrow> bool" where
  "nullable RZero = False"
| "nullable REps = True"
| "nullable (Cls cls) = False"
| "nullable (Seq r q) = (nullable r \<and> nullable q)"
| "nullable (Alt r q) = (nullable r \<or> nullable q)"
| "nullable (Star r) = True"

definition mk_seq :: "rx \<Rightarrow> rx \<Rightarrow> rx" where
  "mk_seq r q = (if r = RZero \<or> q = RZero then RZero else if r = REps then q else Seq r q)"

definition mk_alt :: "rx \<Rightarrow> rx \<Rightarrow> rx" where
  "mk_alt r q = (if r = RZero \<or> r = q then q else if q = RZero then r else Alt r q)"

primrec deriv :: "char \<Rightarrow> rx \<Rightarrow> rx" where
  "deriv c RZero = RZero"
| "deriv c REps = RZero"
| "deriv c (Cls cls) = (if in_class cls c then REps else RZero)"
| "deriv c (Seq r q) =
     (if nullable r then mk_alt (mk_seq (deriv c r) q) (deriv c q) else mk_seq (deriv c r) q)"
| "deriv c (Alt r q) = mk_alt (deriv c r) (deriv c q)"
| "deriv c (Star r) = mk_seq (deriv c r) (Star r)"

definition MatchString :: "rx \<Rightarrow> string \<Rightarrow> bool" where
  "MatchString r s = nullable (fold deriv s r)"

lemma lang_mk_seq [simp]: "lang (mk_seq r q) = lang (Seq r q)"
  by (auto simp: mk_seq_def)

lemma lang_mk_alt [simp]: "lang (mk_alt r q) = lang (Alt r q)"
  by (auto simp: mk_alt_def)

lemma nullable_iff: "nullable r \<longleftrightarrow> [] \<in> lang r"
  by (induction r) (auto intro: star_of.intros)

lemma star_of_Cons:
  "c # s \<in> star_of L \<longleftrightarrow> (\<exists>u v. s = u @ v \<and> c # u \<in> L \<and> v \<in> star_of L)" (is "?l \<longleftrightarrow> ?r")
proof
  have "\<And>w. w \<in> star_of L \<Longrightarrow> w = c # s \<Longrightarrow> ?r"
  proof -
    fix w assume "w \<in> star_of L" "w = c # s"
    then show ?r
    proof (induction)
      case star_Nil
      then show ?case by simp
    next
      case (star_app u v)
      then show ?case by (cases u) auto
    qed
  qed
  then show "?l \<Longrightarrow> ?r" by blast
next
  assume ?r
  then obtain u v where "s = u @ v" "c # u \<in> L" "v \<in> star_of L" by blast
  then show ?l using star_app[of "c # u" L v] by simp
qed

lemma deriv_iff: "s \<in> lang (deriv c r) \<longleftrightarrow> c # s \<in> lang r"
proof (induction r arbitrary: s)
  case (Seq r q)
  have "c # s \<in> lang (Seq r q) \<longleftrightarrow>
    (\<exists>u v. s = u @ v \<and> c # u \<in> lang r \<and> v \<in> lang q) \<or> ([] \<in> lang r \<and> c # s \<in> lang q)"
    by (auto simp: Cons_eq_append_conv)
  then show ?case using Seq by (auto simp: nullable_iff)
next
  case (Star r)
  then show ?case by (simp add: star_of_Cons)
qed auto

theorem MatchString_iff: "MatchString r s \<longleftrightarrow> s \<in> lang r"
proof -
  have "nullable (fold deriv s r) \<longleftrightarrow> s \<in> lang r"
    by (induction s arbitrary: r) (simp_all add: nullable_iff deriv_iff)
  then show ?thesis by (simp add: MatchString_def)
qed

section \<open>Derived patterns\<close>

definition rx_char :: "char \<Rightarrow> rx" where
  "rx_char c = Cls [(c, c)]"

definition rx_str :: "string \<Rightarrow> rx" where
  "rx_str s = foldr (\<lambda>c r. Seq (rx_char c) r) s REps"

definition rx_plus :: "rx \<Rightarrow> rx" where
  "rx_plus r = Seq r (Star r)"

definition rx_opt :: "rx \<Rightarrow> rx" where
  "rx_opt r = Alt r REps"

definition rx_seqs :: "rx list \<Rightarrow> rx" where
  "rx_seqs rs = foldr Seq rs REps"

primrec rx_upto :: "nat \<Rightarrow> rx \<Rightarrow> rx" where
  "rx_upto 0 r = REps"
| "rx_upto (Suc n) r = rx_opt (Seq r (rx_upto n r))"

definition rx_times :: "nat \<Rightarrow> rx \<Rightarrow> rx" where
  "rx_times n r = rx_seqs (replicate n r)"

definition rx_between :: "nat \<Rightarrow> nat \<Rightarrow> rx \<Rightarrow> rx" where
  "rx_between m n r = Seq (rx_times m r) (rx_upto (n - m) r)"

lemma in_class_simps [simp]:
  "in_class [] c = False"
  "in_class (p # cls) c = ((fst p \<le> c \<and> c \<le> snd p) \<or> in_class cls c)"
  by (auto simp: in_class_def)

lemma lang_rx_char [simp]: "lang (rx_char c) = {[c]}"
  by (auto simp: rx_char_def)

lemma lang_rx_str [simp]: "lang (rx_str s) = {s}"
  by (induction s) (auto simp: rx_str_def)

lemma lang_star_class [simp]:
  "s \<in> lang (Star (Cls cls)) \<longleftrightarrow> (\<forall>c\<in>set s. in_class cls c)"
proof (induction s)
  case Nil
  then show ?case by (auto intro: star_of.intros)
next
  case (Cons c s)
  then show ?case by (auto simp: star_of_Cons)
qed

lemma lang_Seq_Cls:
  "s \<in> lang (Seq (Cls a) q) \<longleftrightarrow> (\<exists>c v. s = c # v \<and> in_class a c \<and> v \<in> lang q)"
  by (simp, metis append_Cons append_Nil)

lemma lang_plus_class:
  "s \<in> lang (rx_plus (Cls cls)) \<longleftrightarrow> s \<noteq> [] \<and> (\<forall>c\<in>set s. in_class cls c)"
  unfolding rx_plus_def lang_Seq_Cls lang_star_class by (cases s) auto

lemma lang_head_class:
  "s \<in> lang (Seq (Cls a) (Star (Cls b))) \<longleftrightarrow>
     (\<exists>c v. s = c # v \<and> in_class a c \<and> (\<forall>x\<in>set v. in_class b x))"
  unfolding lang_Seq_Cls lang_star_class ..

lemma lang_upto_class:
  "s \<in> lang (rx_upto n (Cls cls)) \<longleftrightarrow> length s \<le> n \<and> (\<forall>c\<in>set s. in_class cls c)"
proof (induction n arbitrary: s)
  case 0
  then show ?case by auto
next
  case (Suc n)
  have "s \<in> lang (rx_upto (Suc n) (Cls cls)) \<longleftrightarrow>
      s \<in> lang (Seq (Cls cls) (rx_upto n (Cls cls))) \<or> s = []"
    by (auto simp: rx_opt_def)
  then show ?case unfolding lang_Seq_Cls by (cases s) (auto simp: Suc.IH)
qed

lemma lang_times_class:
  "s \<in> lang (rx_times n (Cls cls)) \<longleftrightarrow> length s = n \<and> (\<forall>c\<in>set s. in_class cls c)"
proof (induction n arbitrary: s)
  case 0
  then show ?case by (auto simp: rx_times_def rx_seqs_def)
next
  case (Suc n)
  have "s \<in> lang (rx_times (Suc n) (Cls cls)) \<longleftrightarrow>
      s \<in> lang (Seq (Cls cls) (rx_times n (Cls cls)))"
    by (simp add: rx_times_def rx_seqs_def)
  then show ?case unfolding lang_Seq_Cls by (cases s) (auto simp: Suc.IH)
qed

lemma lang_between_class:
  assumes "m \<le> n"
  shows "s \<in> lang (rx_between m n (Cls cls)) \<longleftrightarrow>
    m \<le> length s \<and> length s \<le> n \<and> (\<forall>c\<in>set s. in_class cls c)"
proof
  assume "s \<in> lang (rx_between m n (Cls cls))"
  with assms show "m \<le> length s \<and> length s \<le> n \<and> (\<forall>c\<in>set s. in_class cls c)"
    by (auto simp: rx_between_def lang_times_class lang_upto_class)
next
  assume r: "m \<le> length s \<and> length s \<le> n \<and> (\<forall>c\<in>set s. in_class cls c)"
  then have "take m s \<in> lang (rx_times m (Cls cls))"
    by (auto simp: lang_times_class dest: in_set_takeD)
  moreover from r have "drop m s \<in> lang (rx_upto (n - m) (Cls cls))"
    by (auto simp: lang_upto_class dest: in_set_dropD)
  ultimately show "s \<in> lang (rx_between m n (Cls cls))"
    by (simp add: rx_between_def) (metis append_take_drop_id)
qed

section \<open>Character classes\<close>

abbreviation range_az :: "char \<times> char" where
  "range_az \<equiv> (CHR ''a'', CHR ''z'')"

abbreviation range_AZ :: "char \<times> char" where
  "range_AZ \<equiv> (CHR ''A'', CHR ''Z'')"

abbreviation range_09 :: "char \<times> char" where
  "range_09 \<equiv> (CHR ''0'', CHR ''9'')"

abbreviation only :: "char \<Rightarrow> char \<times> char" where
  "only c \<equiv> (c, c)"

lemma in_class_only [simp]: "in_class [only a] c \<longleftrightarrow> c = a"
  by auto

text \<open>The bytes a pattern can match at all.\<close>

primrec rx_class :: "rx \<Rightarrow> char_class" where
  "rx_class RZero = []"
| "rx_class REps = []"
| "rx_class (Cls cls) = cls"
| "rx_class (Seq r q) = rx_class r @ rx_class q"
| "rx_class (Alt r q) = rx_class r @ rx_class q"
| "rx_class (Star r) = rx_class r"

lemma in_class_append [simp]: "in_class (a @ b) c \<longleftrightarrow> in_class a c \<or> in_class b c"
  by (simp add: in_class_def)

lemma star_of_chars: "s \<in> star_of L \<Longrightarrow> (\<And>t. t \<in> L \<Longrightarrow> \<forall>c\<in>set t. P c) \<Longrightarrow> \<forall>c\<in>set s. P c"
  by (induction rule: star_of.induct) auto

lemma lang_chars: "s \<in> lang r \<Longrightarrow> \<forall>c\<in>set s. in_class (rx_class r) c"
proof (induction r arbitrary: s)
  case (Star r)
  then show ?case
    using star_of_chars[of s "lang r" "in_class (rx_class r)"] by simp
qed fastforce+

lemma MatchString_chars:
  assumes "MatchString r s" and "\<forall>(lo, hi)\<in>set (rx_class r). \<forall>c. lo \<le> c \<and> c \<le> hi \<longrightarrow> P c"
  shows "list_all P s"
  using assms(1)[unfolded MatchString_iff, THEN lang_chars] assms(2)
  by (fastforce simp: list_all_iff in_class_def list_ex_iff)

end
