(* ===== verification/Policy_Contract.thy ===== *)
theory Policy_Contract
  imports Go_Strings Go_Regexp "HOL-Library.Word"
begin

text \<open>
  The data of a policy document and the parts of its validation that stand alone
  (\<^verbatim>\<open>internal/policy/part.go\<close> and \<^verbatim>\<open>internal/policy/policy.go\<close>): located errors, the container
  contract, lifetimes and identity names.

  An error of the package is an \<open>error\<close>: a \<^verbatim>\<open>*PartError\<close> is \<open>PartError\<close> with its part, a plain
  \<^verbatim>\<open>errors.New\<close> is \<open>PlainError\<close>. The text of a message is not kept; each place that makes one has a
  constructor of \<open>message\<close> with the arguments it formats.

  Shown here: a contract is accepted exactly when it meets a declarative description of a safe
  mount target and environment; lifetimes are read exactly and never overflow; accepted identity
  lists are bounded and free of repetitions.
\<close>

section \<open>Located errors (part.go)\<close>

datatype Part =
    NoPart | PartName | PartOpenBao | PartSSH | PartContract | PartKey | PartSelection | PartSettings

datatype message =
    NameNotSlug
  | RevisionNegative
  | HCLTooLong
  | MountTargetNotCanonical
  | EnvTooLarge
  | EnvNameInvalid string
  | EnvValueInvalid string
  | AccessGroupOutOfRange
  | EnforcementUnknown
  | TTLMalformed string
  | TTLOutOfRange string
  | TooManyNames string
  | IdentityInvalid string string
  | IdentityRepeated string string
  | PlaceholderStray
  | PlaceholdersTooMany
  | PlaceholderNameTooLong
  | ValuesTooMany
  | ValueNameInvalid
  | ValueInvalid string
  | MaximumBelowTTL
  | NoSources
  | SettingsDisagree
  | SourceRepeated
  | SourceGenerationInvalid
  | NothingSelected
  | SelectedTwice string
  | MountTargetConflict string string
  | EnvConflict string string string
  | ValueMissing string string
  | EffectiveIdentitiesTooMany

datatype error = PlainError message | PartError Part message

fun PartOf :: "error \<Rightarrow> Part" where
  "PartOf (PartError p m) = p"
| "PartOf (PlainError m) = NoPart"

fun error_message :: "error \<Rightarrow> message" where
  "error_message (PartError p m) = m"
| "error_message (PlainError m) = m"

section \<open>The document (policy.go)\<close>

definition maximumNameBytes :: nat where
  [simp]: "maximumNameBytes = 64"

definition maximumHCLBytes :: nat where
  [simp]: "maximumHCLBytes = 65536"

definition maximumIdentityNames :: nat where
  [simp]: "maximumIdentityNames = 64"

definition maximumIdentityBytes :: nat where
  [simp]: "maximumIdentityBytes = 128"

definition maximumEnvEntries :: nat where
  [simp]: "maximumEnvEntries = 64"

definition maximumEnvValueBytes :: nat where
  [simp]: "maximumEnvValueBytes = 4096"

definition maximumAccessGroup :: "32 word" where
  [simp]: "maximumAccessGroup = 4294967294"

definition defaultTokenTTL :: string where
  "defaultTokenTTL = ''1h''"

definition defaultTokenMaxTTL :: string where
  "defaultTokenMaxTTL = ''8h''"

definition defaultMountTarget :: string where
  "defaultMountTarget = ''/run/wyrwood''"

definition mountTargetToken :: string where
  "mountTargetToken = ''{mount-target}''"

definition openBaoPolicyPrefix :: string where
  "openBaoPolicyPrefix = ''wyrwood-''"

definition maximumTokenTTLAmount :: int where
  [simp]: "maximumTokenTTLAmount = 1048576"

definition namePattern :: rx where
  "namePattern =
     Seq (Cls [range_az])
       (Seq (Star (Cls [range_az, range_09]))
         (Star (Seq (rx_char (CHR ''-'')) (rx_plus (Cls [range_az, range_09])))))"

definition ttlPattern :: rx where
  "ttlPattern = Seq (rx_plus (Cls [range_09])) (Alt (rx_char (CHR ''m'')) (rx_char (CHR ''h'')))"

definition identityPattern :: rx where
  "identityPattern =
     rx_plus (Cls [range_AZ, range_az, range_09, only (CHR ''_''), only (CHR ''.''), only (CHR ''-'')])"

definition envNamePattern :: rx where
  "envNamePattern =
     Seq (Cls [range_AZ, only (CHR ''_'')]) (Star (Cls [range_AZ, range_09, only (CHR ''_'')]))"

type_synonym Enforcement = string

definition EnforcementReport :: Enforcement where
  "EnforcementReport = ''report''"

definition EnforcementRecreate :: Enforcement where
  "EnforcementRecreate = ''recreate''"

record OpenBao =
  openbao_Policy :: string
  openbao_AgentTokenRenewal :: "bool option"

record Requirements =
  req_MountTarget :: string
  req_Env :: "(string, string) gomap"

record SSHIdentityNames =
  names_TransitKeys :: "string list"
  names_CARoles :: "string list"

record SSH =
  ssh_TransitKeys :: "string list"
  ssh_CARoles :: "string list"
  ssh_NotForwardable :: "SSHIdentityNames option"

record Policy =
  policy_Name :: string
  policy_Revision :: int
  policy_OpenBao :: OpenBao
  policy_SSH :: "SSH option"
  policy_Contract :: Requirements
  policy_Generation :: int

record Contract =
  contract_MountTarget :: string
  contract_Env :: "(string, string) gomap"
  contract_AccessGroup :: "32 word option"
  contract_Enforcement :: Enforcement

record EnvEntry =
  entry_Name :: string
  entry_Value :: string

definition DefaultContract :: Contract where
  "DefaultContract =
     \<lparr>contract_MountTarget = defaultMountTarget,
      contract_Env =
        [(''SSH_AUTH_SOCK'', mountTargetToken @ ''/ssh-agent.sock''),
         (''VAULT_ADDR'', ''unix://'' @ mountTargetToken @ ''/vault.sock'')],
      contract_AccessGroup = None,
      contract_Enforcement = EnforcementReport\<rparr>"

definition New :: "string \<Rightarrow> string \<Rightarrow> Policy" where
  "New name hcl =
     (let contract = DefaultContract
      in \<lparr>policy_Name = name, policy_Revision = 0,
          policy_OpenBao = \<lparr>openbao_Policy = hcl, openbao_AgentTokenRenewal = Some True\<rparr>,
          policy_SSH = None,
          policy_Contract = \<lparr>req_MountTarget = contract_MountTarget contract, req_Env = contract_Env contract\<rparr>,
          policy_Generation = 0\<rparr>)"

definition ValidName :: "string \<Rightarrow> bool" where
  "ValidName name = (length name \<le> maximumNameBytes \<and> MatchString namePattern name)"

definition env_entry_error :: "string \<times> string \<Rightarrow> error option" where
  "env_entry_error = (\<lambda>(name, value).
     first_err
       [fail_if (\<not> MatchString envNamePattern name) (PlainError (EnvNameInvalid name)),
        fail_if (length value > maximumEnvValueBytes \<or> CHR 0x00 \<in> set value)
          (PlainError (EnvValueInvalid name))])"

definition Contract_Validate :: "Contract \<Rightarrow> error option" where
  "Contract_Validate contract =
     (let target = contract_MountTarget contract
      in first_err
           [fail_if (\<not> HasPrefix target ''/'' \<or> Clean target \<noteq> target \<or> target = ''/''
                \<or> ContainsAny target [CHR 0x00, CHR '':'', CHR '',''])
              (PlainError MountTargetNotCanonical),
            fail_if (length (contract_Env contract) > maximumEnvEntries) (PlainError EnvTooLarge),
            first_err (map env_entry_error (contract_Env contract)),
            fail_if (case contract_AccessGroup contract of None \<Rightarrow> False | Some g \<Rightarrow> g > maximumAccessGroup)
              (PlainError AccessGroupOutOfRange),
            fail_if (contract_Enforcement contract \<noteq> EnforcementReport
                \<and> contract_Enforcement contract \<noteq> EnforcementRecreate)
              (PlainError EnforcementUnknown)])"

definition ExpandedEnv :: "Contract \<Rightarrow> EnvEntry list" where
  "ExpandedEnv contract =
     map (\<lambda>name. \<lparr>entry_Name = name,
            entry_Value = ReplaceAll (the (map_of (contract_Env contract) name)) mountTargetToken
              (contract_MountTarget contract)\<rparr>)
       (sort (map_keys (contract_Env contract)))"

definition openBaoPolicyName :: "string \<Rightarrow> int \<Rightarrow> string" where
  "openBaoPolicyName name generation =
     (if generation \<le> 1 then openBaoPolicyPrefix @ name
      else openBaoPolicyPrefix @ name @ ''--'' @ Itoa generation)"

definition OpenBaoPolicyName :: "Policy \<Rightarrow> string" where
  "OpenBaoPolicyName policy = openBaoPolicyName (policy_Name policy) (policy_Generation policy)"

definition sourceGeneration :: "Policy \<Rightarrow> int" where
  "sourceGeneration policy = (if policy_Generation policy \<le> 1 then 0 else policy_Generation policy)"

text \<open>\<^verbatim>\<open>time.Duration\<close> counts nanoseconds in 64 bits.\<close>

definition Hour :: int where
  "Hour = 3600000000000"

definition Minute :: int where
  "Minute = 60000000000"

definition parseTTL :: "string \<Rightarrow> string \<Rightarrow> message + int" where
  "parseTTL field value =
     (if \<not> MatchString ttlPattern value then Inl (TTLMalformed field)
      else (case Atoi (butlast value) of
              None \<Rightarrow> Inl (TTLOutOfRange field)
            | Some amount \<Rightarrow>
                if amount \<le> 0 \<or> amount > maximumTokenTTLAmount then Inl (TTLOutOfRange field)
                else if HasSuffix value ''h'' then Inr (int64 (amount * Hour))
                else Inr (int64 (amount * Minute))))"

definition durationOr :: "string \<Rightarrow> string \<Rightarrow> int" where
  "durationOr value fallback =
     (let v = (if value = [] then fallback else value)
      in case parseTTL [] v of
           Inr d \<Rightarrow> d
         | Inl _ \<Rightarrow> (case parseTTL [] fallback of Inr d \<Rightarrow> d | Inl _ \<Rightarrow> 0))"

definition TransitKeys :: "Policy \<Rightarrow> string list" where
  "TransitKeys policy = (case policy_SSH policy of None \<Rightarrow> [] | Some ssh \<Rightarrow> ssh_TransitKeys ssh)"

definition CARoles :: "Policy \<Rightarrow> string list" where
  "CARoles policy = (case policy_SSH policy of None \<Rightarrow> [] | Some ssh \<Rightarrow> ssh_CARoles ssh)"

fun identities_from :: "string \<Rightarrow> string list \<Rightarrow> string list \<Rightarrow> error option" where
  "identities_from kind seen [] = None"
| "identities_from kind seen (name # names) =
     (if length name > maximumIdentityBytes \<or> \<not> MatchString identityPattern name
      then Some (PartError PartSSH (IdentityInvalid kind name))
      else if name \<in> set seen then Some (PartError PartSSH (IdentityRepeated kind name))
      else identities_from kind (name # seen) names)"

definition validateIdentities :: "string \<Rightarrow> string list \<Rightarrow> error option" where
  "validateIdentities kind names =
     (if length names > maximumIdentityNames then Some (PartError PartSSH (TooManyNames kind))
      else identities_from kind [] names)"

definition Policy_Clone :: "Policy \<Rightarrow> Policy" where
  "Policy_Clone policy =
     (let renewal = map_option (\<lambda>value. value) (openbao_AgentTokenRenewal (policy_OpenBao policy));
          ssh = (case policy_SSH policy of
                   None \<Rightarrow> None
                 | Some original \<Rightarrow>
                     Some \<lparr>ssh_TransitKeys = TransitKeys policy, ssh_CARoles = CARoles policy,
                           ssh_NotForwardable =
                             map_option (\<lambda>selected. \<lparr>names_TransitKeys = names_TransitKeys selected,
                                                       names_CARoles = names_CARoles selected\<rparr>)
                               (ssh_NotForwardable original)\<rparr>)
      in policy\<lparr>policy_OpenBao := (policy_OpenBao policy)\<lparr>openbao_AgentTokenRenewal := renewal\<rparr>,
                policy_SSH := ssh\<rparr>)"

lemma Policy_Clone_id [simp]: "Policy_Clone p = p"
proof -
  have "map_option (\<lambda>s. \<lparr>names_TransitKeys = names_TransitKeys s, names_CARoles = names_CARoles s\<rparr>) x = x" for x
    by (cases x) simp_all
  then show ?thesis
    by (simp add: Policy_Clone_def Let_def TransitKeys_def CARoles_def option.map_ident split: option.splits)
qed

section \<open>Names\<close>

definition name_char :: "char \<Rightarrow> bool" where
  "name_char c = in_class [range_az, range_09] c"

text \<open>Two hyphens in a row.\<close>

definition no_double_hyphen :: "string \<Rightarrow> bool" where
  "no_double_hyphen s = successively (\<lambda>a b. \<not> (a = CHR ''-'' \<and> b = CHR ''-'')) s"

lemma name_char_not_hyphen [simp]: "\<not> name_char (CHR ''-'')"
  by (simp add: name_char_def less_eq_char_def)

lemma no_double_hyphen_Contains: "no_double_hyphen s \<Longrightarrow> \<not> Contains s ''--''"
  by (auto simp: no_double_hyphen_def Contains_iff successively_append_iff successively_Cons)

lemma no_double_hyphen_name_chars: "\<forall>c\<in>set s. name_char c \<Longrightarrow> no_double_hyphen s"
  unfolding no_double_hyphen_def
  by (induction s) (auto simp: successively_Cons)

lemma no_double_hyphen_append:
  "no_double_hyphen u \<Longrightarrow> no_double_hyphen v \<Longrightarrow> u = [] \<or> last u \<noteq> CHR ''-'' \<Longrightarrow> no_double_hyphen (u @ v)"
  by (auto simp: no_double_hyphen_def successively_append_iff)

lemma hyphen_word:
  assumes "u \<in> lang (Seq (rx_char (CHR ''-'')) (rx_plus (Cls [range_az, range_09])))"
  shows "no_double_hyphen u" "u \<noteq> []" "last u \<noteq> CHR ''-''"
proof -
  obtain w where w: "u = CHR ''-'' # w" "w \<noteq> []" "\<forall>c\<in>set w. name_char c"
    using assms unfolding rx_char_def lang_Seq_Cls lang_plus_class name_char_def by auto
  then have "hd w \<noteq> CHR ''-''" using name_char_not_hyphen by (metis list.set_sel(1))
  then show "no_double_hyphen u" "u \<noteq> []"
    using w no_double_hyphen_name_chars[OF w(3)] by (auto simp: no_double_hyphen_def successively_Cons)
  show "last u \<noteq> CHR ''-''" using w name_char_not_hyphen by (metis last_ConsR last_in_set)
qed

lemma hyphen_words:
  "v \<in> star_of (lang (Seq (rx_char (CHR ''-'')) (rx_plus (Cls [range_az, range_09])))) \<Longrightarrow> no_double_hyphen v"
proof (induction rule: star_of.induct)
  case star_Nil
  then show ?case by (simp add: no_double_hyphen_def)
next
  case (star_app u v)
  then show ?case using hyphen_word[OF star_app(1)] by (intro no_double_hyphen_append) auto
qed

lemma namePattern_no_double_hyphen:
  assumes "MatchString namePattern s"
  shows "no_double_hyphen s" "s \<noteq> []"
proof -
  obtain c w where cw: "s = c # w" and c: "in_class [range_az] c"
      and w: "w \<in> lang (Seq (Star (Cls [range_az, range_09]))
        (Star (Seq (rx_char (CHR ''-'')) (rx_plus (Cls [range_az, range_09])))))"
    using assms unfolding namePattern_def MatchString_iff lang_Seq_Cls by blast
  then obtain u v where uv: "w = u @ v" and "u \<in> lang (Star (Cls [range_az, range_09]))"
      and "v \<in> lang (Star (Seq (rx_char (CHR ''-'')) (rx_plus (Cls [range_az, range_09]))))"
    unfolding lang.simps(4)[of "Star _"] by blast
  then have u: "\<forall>x\<in>set u. name_char x"
      and v: "v \<in> star_of (lang (Seq (rx_char (CHR ''-'')) (rx_plus (Cls [range_az, range_09]))))"
    unfolding lang_star_class name_char_def lang.simps(6)[symmetric] by simp_all
  have s: "s = c # u @ v" using cw uv by simp
  have cu: "\<forall>x\<in>set (c # u). name_char x" using c u by (simp add: name_char_def)
  have "last (c # u) \<noteq> CHR ''-''" using cu name_char_not_hyphen by (metis last_in_set list.distinct(1))
  then show "no_double_hyphen s"
    using no_double_hyphen_append[OF no_double_hyphen_name_chars[OF cu] hyphen_words[OF v]] s by simp
  show "s \<noteq> []" using s by simp
qed

lemma ValidName_no_double_hyphen: "ValidName s \<Longrightarrow> no_double_hyphen s"
  by (simp add: ValidName_def namePattern_no_double_hyphen)

lemma nat_digits_no_hyphen: "CHR ''-'' \<notin> set (nat_digits n)"
  using all_digits_nat_digits[of n] by (auto simp: all_digits_def list_all_iff is_digit_iff)

lemma hyphen_suffix_inject:
  assumes "a @ d # u = b @ d # v" "d \<notin> set u" "d \<notin> set v"
  shows "a = b \<and> u = v"
proof -
  have "takeWhile (\<lambda>c. c \<noteq> d) (rev w @ d # z) = rev w" if "d \<notin> set w" for w z
    using that by (simp add: takeWhile_append)
  moreover have "rev u @ d # rev a = rev v @ d # rev b"
    using arg_cong[OF assms(1), of rev] by simp
  ultimately have "rev u = rev v" using assms(2,3) by metis
  then show ?thesis using assms(1) by simp
qed

lemma generation_suffix_unique:
  assumes "a @ ''--'' @ nat_digits m = b @ ''--'' @ nat_digits n"
  shows "a = b \<and> m = n"
proof -
  have "(a @ ''-'') @ CHR ''-'' # nat_digits m = (b @ ''-'') @ CHR ''-'' # nat_digits n"
    using assms by simp
  then show ?thesis
    using hyphen_suffix_inject nat_digits_no_hyphen by (metis append_same_eq nat_digits_inject)
qed

lemma no_generation_suffix: "no_double_hyphen a \<Longrightarrow> a \<noteq> b @ ''--'' @ w"
  using no_double_hyphen_Contains by (metis Contains_iff)

lemma openBaoPolicyName_eq:
  assumes "no_double_hyphen a" "no_double_hyphen b"
  shows "openBaoPolicyName a m = openBaoPolicyName b n \<longleftrightarrow> a = b \<and> max m 1 = max n 1"
  using no_generation_suffix[OF assms(1), of b] no_generation_suffix[OF assms(2), of a]
    generation_suffix_unique[of a "nat m" b "nat n"]
  by (auto simp: openBaoPolicyName_def Itoa_nonneg max_def)

section \<open>Lifetimes\<close>

lemma ttlPattern_iff:
  "MatchString ttlPattern v \<longleftrightarrow>
     (\<exists>w u. v = w @ [u] \<and> all_digits w \<and> (u = CHR ''m'' \<or> u = CHR ''h''))"
proof -
  have "w \<in> lang (rx_plus (Cls [range_09])) \<longleftrightarrow> all_digits w" for w
    by (auto simp: lang_plus_class all_digits_def list_all_iff is_digit_def)
  then show ?thesis
    by (auto simp: MatchString_iff ttlPattern_def)
qed

lemma ttl_product_exact:
  assumes "0 < n" "n \<le> maximumTokenTTLAmount" "u = Hour \<or> u = Minute"
  shows "int64 (n * u) = n * u" "0 < n * u" "n * u < 2 ^ 63"
proof -
  have "n * u \<le> 1048576 * 3600000000000"
    using assms by (intro mult_mono) (auto simp: Hour_def Minute_def)
  then show "n * u < 2 ^ 63" by simp
  show "0 < n * u" using assms by (auto simp: Hour_def Minute_def)
  then show "int64 (n * u) = n * u"
    using \<open>n * u < 2 ^ 63\<close> by (intro int64_in) (simp add: in_int64_def)
qed

definition ttl_unit :: "char \<Rightarrow> int" where
  "ttl_unit u = (if u = CHR ''h'' then Hour else Minute)"

lemma parseTTL_digits:
  assumes "all_digits w" "u = CHR ''m'' \<or> u = CHR ''h''"
  shows "parseTTL f (w @ [u]) =
    (if 0 < digits_nat w \<and> digits_nat w \<le> 1048576 then Inr (int (digits_nat w) * ttl_unit u)
     else Inl (TTLOutOfRange f))"
proof -
  have m: "MatchString ttlPattern (w @ [u])" using assms by (auto simp: ttlPattern_iff)
  have h: "HasSuffix (w @ [u]) ''h'' \<longleftrightarrow> u = CHR ''h''" by (auto simp: HasSuffix_iff)
  show ?thesis
  proof (cases "0 < digits_nat w \<and> digits_nat w \<le> 1048576")
    case True
    then have "digits_nat w < 2 ^ 63" by simp
    then have "Atoi w = Some (int (digits_nat w))" using assms(1) by (simp add: Atoi_all_digits)
    then show ?thesis
      using m h True ttl_product_exact(1)[of "int (digits_nat w)" "ttl_unit u"]
      by (auto simp: parseTTL_def ttl_unit_def)
  next
    case False
    then show ?thesis
      using m assms(1) by (auto simp: parseTTL_def Atoi_all_digits)
  qed
qed

lemma parseTTL_malformed: "\<not> MatchString ttlPattern v \<Longrightarrow> parseTTL f v = Inl (TTLMalformed f)"
  by (simp add: parseTTL_def)

lemma parseTTL_range:
  assumes "parseTTL f v = Inr d"
  shows "0 < d \<and> d < 2 ^ 63"
proof -
  obtain w u where v: "v = w @ [u]" "all_digits w" "u = CHR ''m'' \<or> u = CHR ''h''"
    using assms by (metis parseTTL_malformed ttlPattern_iff Inl_Inr_False)
  then have "0 < digits_nat w" "digits_nat w \<le> 1048576" "d = int (digits_nat w) * ttl_unit u"
    using assms unfolding v(1) parseTTL_digits[OF v(2,3)] by (auto split: if_splits)
  then show ?thesis
    using ttl_product_exact(2,3)[of "int (digits_nat w)" "ttl_unit u"] by (auto simp: ttl_unit_def)
qed

section \<open>Identity names\<close>

definition identity_ok :: "string \<Rightarrow> bool" where
  "identity_ok name = (length name \<le> 128 \<and> MatchString identityPattern name)"

lemma identities_from_None:
  "identities_from kind seen names = None \<longleftrightarrow>
     (\<forall>n\<in>set names. identity_ok n) \<and> distinct names \<and> set names \<inter> set seen = {}"
  by (induction kind seen names rule: identities_from.induct) (auto simp: identity_ok_def)

lemma validateIdentities_None:
  "validateIdentities kind names = None \<longleftrightarrow>
     length names \<le> 64 \<and> distinct names \<and> (\<forall>n\<in>set names. identity_ok n)"
  by (auto simp: validateIdentities_def identities_from_None)

lemma validateIdentities_part: "validateIdentities kind names = Some e \<Longrightarrow> PartOf e = PartSSH"
proof -
  have "identities_from kind seen names = Some e \<Longrightarrow> PartOf e = PartSSH" for seen
    by (induction kind seen names rule: identities_from.induct) (auto split: if_splits)
  then show "validateIdentities kind names = Some e \<Longrightarrow> PartOf e = PartSSH"
    by (auto simp: validateIdentities_def split: if_splits)
qed

section \<open>Contracts\<close>

definition mount_path :: "string \<Rightarrow> bool" where
  "mount_path t = (t \<noteq> ''/'' \<and> HasPrefix t ''/'' \<and> list_all proper_part (Split (tl t) slash)
     \<and> \<not> ContainsAny t [CHR 0x00, CHR '':'', CHR '',''])"

lemma mount_path_iff:
  "mount_path t \<longleftrightarrow> HasPrefix t ''/'' \<and> Clean t = t \<and> t \<noteq> ''/'' \<and> \<not> ContainsAny t [CHR 0x00, CHR '':'', CHR '','']"
    (is "_ \<longleftrightarrow> ?r")
proof
  assume m: "mount_path t"
  then have "t = slash # Join (Split (tl t) slash) slash"
    by (cases t) (auto simp: mount_path_def slash_def)
  moreover have "Clean (slash # Join (Split (tl t) slash) slash) = slash # Join (Split (tl t) slash) slash"
    using m by (intro Clean_of_proper) (auto simp: mount_path_def list_all_iff)
  ultimately show ?r using m by (simp add: mount_path_def)
next
  assume r: ?r
  obtain ws where ws: "t = slash # Join ws slash" "ws \<noteq> []" "\<forall>w\<in>set ws. proper_part w"
    using r by (elim conjE) (rule Clean_absolute_fixed)
  have "Split (tl t) slash = ws"
    using ws by (simp add: Split_Join proper_part_def)
  then show "mount_path t"
    using r ws by (simp add: mount_path_def list_all_iff)
qed

definition env_entry_ok :: "string \<times> string \<Rightarrow> bool" where
  "env_entry_ok e = (MatchString envNamePattern (fst e) \<and> length (snd e) \<le> 4096 \<and> CHR 0x00 \<notin> set (snd e))"

lemma env_entry_error_None [simp]: "env_entry_error e = None \<longleftrightarrow> env_entry_ok e"
  by (cases e) (auto simp: env_entry_error_def env_entry_ok_def simp del: first_err.simps(2))

lemma word32_top: "\<not> (g :: 32 word) > 4294967294 \<longleftrightarrow> g \<noteq> - 1"
proof -
  have "unat (- 1 :: 32 word) = 4294967295" by (simp add: unsigned_minus_1_eq_mask mask_eq_exp_minus_1)
  then show ?thesis
    using unsigned_less[where w = g, where ?'a = nat] by (auto simp: word_less_nat_alt word_unat_eq_iff)
qed

definition contract_ok :: "Contract \<Rightarrow> bool" where
  "contract_ok c =
     (mount_path (contract_MountTarget c)
      \<and> length (contract_Env c) \<le> 64 \<and> list_all env_entry_ok (contract_Env c)
      \<and> contract_AccessGroup c \<noteq> Some (- 1)
      \<and> contract_Enforcement c \<in> {''report'', ''recreate''})"

lemma Contract_Validate_None: "Contract_Validate c = None \<longleftrightarrow> contract_ok c"
proof -
  have "(case contract_AccessGroup c of None \<Rightarrow> False | Some g \<Rightarrow> g > maximumAccessGroup)
      \<longleftrightarrow> contract_AccessGroup c = Some (- 1)"
    using word32_top by (auto split: option.splits)
  then show ?thesis
    unfolding Contract_Validate_def contract_ok_def Let_def first_err_Cons_None mount_path_iff
    by (auto simp: list_all_iff EnforcementReport_def EnforcementRecreate_def
        simp del: first_err.simps(2))
qed

section \<open>Properties\<close>

text \<open>
  C21. The OpenBao policy name of a document identifies the document's name and its generation: two
  valid names, each at some generation, share an OpenBao policy name only when they are the same
  name at the same use of it. Generations up to one all stand for the first use. So a policy created
  under a name used before never answers to a token of the earlier policy, and no generation suffix
  can spell another policy's name.
\<close>

theorem openBaoPolicyName_unique:
  assumes "ValidName a" "ValidName b"
  shows "openBaoPolicyName a m = openBaoPolicyName b n \<longleftrightarrow> a = b \<and> max m 1 = max n 1"
  using assms by (simp add: openBaoPolicyName_eq ValidName_no_double_hyphen)

theorem openBaoPolicyName_unique_witness:
  "openBaoPolicyName ''web'' 2 \<noteq> openBaoPolicyName ''web'' 1"
proof -
  have "ValidName ''web''" by code_simp
  from openBaoPolicyName_unique[OF this this, of 2 1] show ?thesis by simp
qed

text \<open>
  C22. A contract is accepted exactly when its mount target is an absolute path below the root whose
  components are all proper names (none empty, \<^verbatim>\<open>.\<close> or \<^verbatim>\<open>..\<close>) without a NUL, colon or comma, its
  environment has at most 64 well-formed entries, its access group is not the reserved all-ones
  group, and its enforcement is one of the two known ones. Canonicality is what the code tests with
  \<^verbatim>\<open>path.Clean\<close>; the right-hand side states it on the components.
\<close>

theorem Contract_Validate_accepts:
  "Contract_Validate c = None \<longleftrightarrow>
     contract_MountTarget c \<noteq> ''/'' \<and> HasPrefix (contract_MountTarget c) ''/''
     \<and> list_all proper_part (Split (tl (contract_MountTarget c)) slash)
     \<and> \<not> ContainsAny (contract_MountTarget c) [CHR 0x00, CHR '':'', CHR '','']
     \<and> length (contract_Env c) \<le> 64 \<and> list_all env_entry_ok (contract_Env c)
     \<and> contract_AccessGroup c \<noteq> Some (- 1)
     \<and> contract_Enforcement c \<in> {''report'', ''recreate''}"
  by (auto simp: Contract_Validate_None contract_ok_def mount_path_def)

text \<open>
  C23. Reading a lifetime is exact: a decimal amount between 1 and 1048576 followed by \<^verbatim>\<open>m\<close> or \<^verbatim>\<open>h\<close>
  gives that many minutes or hours in nanoseconds, a positive value that did not wrap around at 64
  bits; any other text is refused as malformed or out of range.
\<close>

theorem parseTTL_exact:
  "parseTTL f v = Inr d \<longleftrightarrow>
     (\<exists>w u. v = w @ [u] \<and> all_digits w \<and> u \<in> {CHR ''m'', CHR ''h''}
        \<and> 0 < digits_nat w \<and> digits_nat w \<le> 1048576
        \<and> d = int (digits_nat w) * (if u = CHR ''h'' then 3600000000000 else 60000000000)
        \<and> 0 < d \<and> d < 2 ^ 63)"
  (is "?l \<longleftrightarrow> ?r")
proof
  assume l: ?l
  obtain w u where v: "v = w @ [u]" "all_digits w" "u = CHR ''m'' \<or> u = CHR ''h''"
    using l by (metis parseTTL_malformed ttlPattern_iff Inl_Inr_False)
  show ?r
    using l parseTTL_range[OF l] v unfolding v(1) parseTTL_digits[OF v(2,3)]
    by (intro exI[of _ w] exI[of _ u]) (auto simp: ttl_unit_def Hour_def Minute_def split: if_splits)
next
  assume ?r
  then show ?l by (auto simp: parseTTL_digits ttl_unit_def Hour_def Minute_def)
qed

end
