(* ===== verification/Binding_Values.thy ===== *)
theory Binding_Values
  imports Policy_Contract
begin

text \<open>
  Binding values (\<^verbatim>\<open>internal/policy/binding_values.go\<close>): the placeholders \<^verbatim>\<open>{{binding.name}}\<close> of a
  policy's path stanzas, their validation, the preview for one binding and the compilation to
  OpenBao identity templates.

  The HCL library (\<^verbatim>\<open>github.com/hashicorp/hcl\<close>) is not part of the repository. It enters as a value of
  the record \<open>hcl_lib\<close>, which every definition that reads HCL takes as its first argument, and no
  statement of the development assumes anything of it. The syntax tree is kept as far as the code
  looks at it: the items of an object list with their keys and value, the source offset of an item
  and of an object's closing brace, and the tokens of the object keys and literals that
  \<^verbatim>\<open>ast.Walk\<close> visits below a value.

  The patterns \<^verbatim>\<open>bindingPlaceholder\<close> and \<^verbatim>\<open>bindingMention\<close> are searched for anywhere in a text. The
  first is modelled by the list of leftmost matches and the characters between them (\<open>pieces\<close>);
  a match is greedy but has only one possible length, because the name's characters exclude the
  closing brace.
\<close>

section \<open>The HCL library\<close>

record hcl_token =
  tok_STRING :: bool
  tok_Text :: string

datatype hcl_value = ObjectType nat "hcl_token list" | OtherValue "hcl_token list"

record ObjectItem =
  item_Keys :: "hcl_token list"
  item_Pos :: nat
  item_Val :: hcl_value

datatype hcl_node = ObjectList "ObjectItem list" | OtherNode

record path_rule =
  rule_Name :: string
  rule_Capabilities :: "string list"
  rule_Policy :: string

record hcl_lib =
  hcl_Parse :: "string \<Rightarrow> hcl_node option"
  hcl_Value :: "hcl_token \<Rightarrow> string option"
  hcl_Unquote :: "string \<Rightarrow> string option"
  hcl_Fprint :: "ObjectItem list \<Rightarrow> string option"
  hcl_Decode :: "string \<Rightarrow> path_rule list option"

fun walk_tokens :: "hcl_value \<Rightarrow> hcl_token list" where
  "walk_tokens (ObjectType rbrace ts) = ts"
| "walk_tokens (OtherValue ts) = ts"

section \<open>Placeholders\<close>

definition maximumBindingValues :: nat where
  [simp]: "maximumBindingValues = 16"

definition maximumBindingValueBytes :: nat where
  [simp]: "maximumBindingValueBytes = 128"

definition maximumBindingValueNameBytes :: nat where
  [simp]: "maximumBindingValueNameBytes = 64"

definition bindingValueMetadataPrefix :: string where
  "bindingValueMetadataPrefix = ''binding_''"

definition value_name_class :: char_class where
  "value_name_class = [range_az, range_09, only (CHR ''_'')]"

definition bindingValueNamePattern :: rx where
  "bindingValueNamePattern = Seq (Cls [range_az]) (Star (Cls value_name_class))"

definition value_class :: char_class where
  "value_class = [range_AZ, range_az, range_09, only (CHR ''_''), only (CHR ''-'')]"

definition bindingValuePattern :: rx where
  "bindingValuePattern = rx_plus (Cls value_class)"

definition placeholder_text :: "string \<Rightarrow> string" where
  "placeholder_text name = ''{{binding.'' @ name @ ''}}''"

definition placeholder_at :: "string \<Rightarrow> (string \<times> string) option" where
  "placeholder_at s =
     (case CutPrefix s ''{{binding.'' of
        None \<Rightarrow> None
      | Some t \<Rightarrow>
          (let name = takeWhile (in_class value_name_class) t
           in if name \<noteq> [] \<and> in_class [range_az] (hd name)
              then map_option (Pair name) (CutPrefix (dropWhile (in_class value_name_class) t) ''}}'')
              else None))"

lemma value_name_iff:
  "MatchString bindingValueNamePattern s \<longleftrightarrow>
     s \<noteq> [] \<and> in_class [range_az] (hd s) \<and> (\<forall>c\<in>set s. in_class value_name_class c)"
  unfolding bindingValueNamePattern_def MatchString_iff lang_head_class
  by (cases s) (auto simp: value_name_class_def)

lemma brace_not_name [simp]: "\<not> in_class value_name_class (CHR ''}'')"
  by (simp add: value_name_class_def less_eq_char_def)

lemma takeWhile_name:
  assumes "\<forall>c\<in>set name. in_class value_name_class c"
  shows "takeWhile (in_class value_name_class) (name @ CHR ''}'' # z) = name"
    "dropWhile (in_class value_name_class) (name @ CHR ''}'' # z) = CHR ''}'' # z"
  using assms by (induction name) simp_all

lemma placeholder_at_Some:
  "placeholder_at s = Some (name, rest) \<longleftrightarrow>
     s = placeholder_text name @ rest \<and> MatchString bindingValueNamePattern name"
  (is "?l \<longleftrightarrow> ?r")
proof
  assume ?l
  then obtain t where t: "CutPrefix s ''{{binding.'' = Some t"
    and name: "takeWhile (in_class value_name_class) t = name" "name \<noteq> []" "in_class [range_az] (hd name)"
    and rest: "CutPrefix (dropWhile (in_class value_name_class) t) ''}}'' = Some rest"
    unfolding placeholder_at_def Let_def
    by (auto simp del: in_class_simps split: option.splits if_splits)
  have "t = name @ ''}}'' @ rest"
    using name(1) rest unfolding CutPrefix_Some by (metis takeWhile_dropWhile_id)
  moreover have "MatchString bindingValueNamePattern name"
    using name unfolding value_name_iff by (metis set_takeWhileD)
  ultimately show ?r using t unfolding CutPrefix_Some placeholder_text_def by simp
next
  assume r: ?r
  then have "CutPrefix s ''{{binding.'' = Some (name @ CHR ''}'' # CHR ''}'' # rest)"
    unfolding CutPrefix_Some placeholder_text_def by simp
  moreover have "CutPrefix (CHR ''}'' # CHR ''}'' # rest) ''}}'' = Some rest"
    unfolding CutPrefix_Some by simp
  ultimately show ?l
    using r takeWhile_name[of name "CHR ''}'' # rest"]
    by (simp add: placeholder_at_def Let_def value_name_iff del: in_class_simps)
qed

lemma placeholder_at_shorter:
  "placeholder_at s = Some (name, rest) \<Longrightarrow> length rest < length s"
  unfolding placeholder_at_Some placeholder_text_def by auto

datatype piece = Lit char | Hole string

function pieces :: "string \<Rightarrow> piece list" where
  "pieces [] = []"
| "pieces (c # s) =
     (case placeholder_at (c # s) of
        Some p \<Rightarrow> Hole (fst p) # pieces (snd p)
      | None \<Rightarrow> Lit c # pieces s)"
  by pat_completeness auto
termination
  by (relation "measure length") (auto dest!: placeholder_at_shorter)

fun piece_text :: "piece \<Rightarrow> string" where
  "piece_text (Lit c) = [c]"
| "piece_text (Hole name) = placeholder_text name"

fun piece_with :: "(string \<Rightarrow> string) \<Rightarrow> piece \<Rightarrow> string" where
  "piece_with f (Lit c) = [c]"
| "piece_with f (Hole name) = f name"

text \<open>
  \<open>FindAllStringSubmatch\<close> gives the names in the order of the matches, and \<open>ReplaceAllStringFunc\<close>
  replaces every match by a text computed from its name.
\<close>

definition FindAll :: "string \<Rightarrow> string list" where
  "FindAll s = concat (map (\<lambda>p. case p of Lit c \<Rightarrow> [] | Hole name \<Rightarrow> [name]) (pieces s))"

definition ReplaceAllFunc :: "string \<Rightarrow> (string \<Rightarrow> string) \<Rightarrow> string" where
  "ReplaceAllFunc s f = concat (map (piece_with f) (pieces s))"

lemma pieces_text: "concat (map piece_text (pieces s)) = s"
proof (induction s rule: pieces.induct)
  case (2 c s)
  then show ?case
    by (cases "placeholder_at (c # s)") (auto simp: placeholder_at_Some)
qed simp

lemma pieces_names: "Hole name \<in> set (pieces s) \<Longrightarrow> MatchString bindingValueNamePattern name"
proof (induction s rule: pieces.induct)
  case (2 c s)
  then show ?case
    by (cases "placeholder_at (c # s)") (auto simp: placeholder_at_Some)
qed simp

lemma set_FindAll: "set (FindAll s) = {name. Hole name \<in> set (pieces s)}"
  by (auto simp: FindAll_def split: piece.splits)

lemma FindAll_names: "name \<in> set (FindAll s) \<Longrightarrow> MatchString bindingValueNamePattern name"
  by (simp add: set_FindAll pieces_names)

lemma ReplaceAllFunc_cong:
  "(\<And>name. name \<in> set (FindAll s) \<Longrightarrow> f name = g name) \<Longrightarrow> ReplaceAllFunc s f = ReplaceAllFunc s g"
  unfolding ReplaceAllFunc_def set_FindAll
  by (intro arg_cong[where f = concat] map_cong refl) (metis mem_Collect_eq piece.exhaust piece_with.simps)

lemma ReplaceAllFunc_id: "ReplaceAllFunc s placeholder_text = s"
proof -
  have "piece_with placeholder_text = piece_text"
    by (rule ext) (metis piece.exhaust piece_text.simps piece_with.simps)
  then show ?thesis by (simp add: ReplaceAllFunc_def pieces_text)
qed

definition is_space :: "char \<Rightarrow> bool" where
  "is_space c = (c \<in> {CHR 0x09, CHR 0x0A, CHR 0x0C, CHR 0x0D, CHR 0x20})"

definition is_word :: "char \<Rightarrow> bool" where
  "is_word c = in_class [range_09, range_AZ, range_az, only (CHR ''_'')] c"

definition mention_at :: "string \<Rightarrow> bool" where
  "mention_at s =
     (HasPrefix s ''{{'' \<and>
      (case CutPrefix (dropWhile is_space (drop 2 s)) ''binding'' of
         None \<Rightarrow> False
       | Some t \<Rightarrow> t = [] \<or> \<not> is_word (hd t)))"

fun bindingMention :: "string \<Rightarrow> bool" where
  "bindingMention [] = False"
| "bindingMention (c # s) = (mention_at (c # s) \<or> bindingMention s)"

definition decodedToken :: "hcl_lib \<Rightarrow> hcl_token \<Rightarrow> string" where
  "decodedToken hcl item =
     (if tok_STRING item
      then (case hcl_Unquote hcl (tok_Text item) of Some decoded \<Rightarrow> decoded | None \<Rightarrow> tok_Text item)
      else tok_Text item)"

definition mentionsBinding :: "hcl_lib \<Rightarrow> hcl_token \<Rightarrow> bool" where
  "mentionsBinding hcl item =
     (bindingMention (tok_Text item) \<or> bindingMention (decodedToken hcl item))"

definition namesOf :: "string list \<Rightarrow> string list" where
  "namesOf names = sort (remdups names)"

text \<open>
  One item of the document: the names found and whether something is stray. Item keys beyond the
  name of a path stanza, and every key and literal of the value, may not mention a binding.
\<close>

definition item_is_path :: "hcl_lib \<Rightarrow> ObjectItem \<Rightarrow> bool" where
  "item_is_path hcl item =
     (length (item_Keys item) \<ge> 2 \<and> hcl_Value hcl (item_Keys item ! 0) = Some ''path'')"

definition key_use :: "hcl_lib \<Rightarrow> bool \<Rightarrow> nat \<times> hcl_token \<Rightarrow> string list \<times> bool" where
  "key_use hcl isPath = (\<lambda>(index, key).
     if \<not> isPath \<or> index \<noteq> 1 then ([], mentionsBinding hcl key)
     else
       (let decoded = decodedToken hcl key;
            written = FindAll (tok_Text key)
        in (written,
            length written \<noteq> length (FindAll decoded)
            \<or> bindingMention (ReplaceAllFunc decoded (\<lambda>_. [])))))"

definition item_use :: "hcl_lib \<Rightarrow> ObjectItem \<Rightarrow> string list \<times> bool" where
  "item_use hcl item =
     (let keys = map (key_use hcl (item_is_path hcl item))
                   (List.enumerate 0 (item_Keys item))
      in (concat (map fst keys),
          list_ex snd keys \<or> list_ex (mentionsBinding hcl) (walk_tokens (item_Val item))))"

definition bindingValueUse :: "hcl_lib \<Rightarrow> string \<Rightarrow> string list \<times> bool" where
  "bindingValueUse hcl source =
     (case hcl_Parse hcl source of
        Some (ObjectList items) \<Rightarrow>
          (let uses = map (item_use hcl) items
           in (namesOf (concat (map fst uses)), list_ex snd uses))
      | _ \<Rightarrow> ([], False))"

definition validateBindingPlaceholders :: "hcl_lib \<Rightarrow> string \<Rightarrow> error option" where
  "validateBindingPlaceholders hcl source =
     (let (names, stray) = bindingValueUse hcl source
      in first_err
           [fail_if stray (PartError PartOpenBao PlaceholderStray),
            fail_if (length names > maximumBindingValues) (PartError PartOpenBao PlaceholdersTooMany),
            first_err (map (\<lambda>name. fail_if (length name > maximumBindingValueNameBytes)
                (PartError PartOpenBao PlaceholderNameTooLong)) names)])"

definition ValueNames :: "hcl_lib \<Rightarrow> Policy \<Rightarrow> string list" where
  "ValueNames hcl p = fst (bindingValueUse hcl (openbao_Policy (policy_OpenBao p)))"

definition expandBindingValues :: "string \<Rightarrow> (string, string) gomap \<Rightarrow> string" where
  "expandBindingValues source values =
     ReplaceAllFunc source (\<lambda>name.
       case map_of values name of Some value \<Rightarrow> value | None \<Rightarrow> placeholder_text name)"

definition HasBindingValues :: "string \<Rightarrow> bool" where
  "HasBindingValues source = (FindAll source \<noteq> [])"

text \<open>
  The replacement text of \<^verbatim>\<open>ReplaceAllString\<close> is itself a template: \<^verbatim>\<open>$1\<close> and \<^verbatim>\<open>${1}\<close> stand for the
  first group, \<^verbatim>\<open>$0\<close> for the whole match, \<^verbatim>\<open>$$\<close> for a dollar sign. A group that does not exist is
  empty, and a dollar sign that starts no group stands for itself. Names of groups are read in ASCII.
\<close>

definition template_group :: "string \<Rightarrow> string \<Rightarrow> string \<Rightarrow> string" where
  "template_group whole name g = (if g = ''0'' then whole else if g = ''1'' then name else [])"

definition template_extract :: "string \<Rightarrow> (string \<times> string) option" where
  "template_extract s =
     (let brace = HasPrefix s ''{'';
          body = (if brace then tl s else s);
          g = takeWhile is_word body;
          rest = dropWhile is_word body
      in if g = [] then None
         else if brace then map_option (Pair g) (CutPrefix rest ''}'')
         else Some (g, rest))"

lemma template_extract_shorter:
  "template_extract s = Some (g, rest) \<Longrightarrow> length rest < Suc (length s)"
proof -
  assume a: "template_extract s = Some (g, rest)"
  let ?body = "if HasPrefix s ''{'' then tl s else s"
  have "length rest \<le> length (dropWhile is_word ?body)"
    using a unfolding template_extract_def Let_def CutPrefix_def
    by (auto split: if_splits)
  also have "\<dots> \<le> length ?body" by (rule length_dropWhile_le)
  also have "\<dots> \<le> length s" by simp
  finally show ?thesis by simp
qed

function expand_template :: "string \<Rightarrow> string \<Rightarrow> string \<Rightarrow> string" where
  "expand_template whole name [] = []"
| "expand_template whole name (c # s) =
     (if c \<noteq> CHR ''$'' then c # expand_template whole name s
      else if HasPrefix s ''$'' then CHR ''$'' # expand_template whole name (tl s)
      else (case template_extract s of
              None \<Rightarrow> CHR ''$'' # expand_template whole name s
            | Some p \<Rightarrow> template_group whole name (fst p) @ expand_template whole name (snd p)))"
  by pat_completeness auto
termination
  by (relation "measure (\<lambda>(whole, name, s). length s)") (auto dest: template_extract_shorter)

definition IdentityTemplates :: "string \<Rightarrow> string \<Rightarrow> string" where
  "IdentityTemplates source appRoleAccessor =
     ReplaceAllFunc source (\<lambda>name.
       expand_template (placeholder_text name) name
         (''{{identity.entity.aliases.'' @ appRoleAccessor @ ''.metadata.''
           @ bindingValueMetadataPrefix @ ''$1}}''))"

section \<open>Values of a binding\<close>

record Settings =
  settings_TokenTTL :: string
  settings_TokenMaxTTL :: string
  settings_AccessGroup :: "32 word option"
  settings_Enforcement :: Enforcement
  settings_Values :: "(string, string) gomap"

definition IdentityMetadata :: "Settings \<Rightarrow> (string, string) gomap" where
  "IdentityMetadata s =
     map (\<lambda>(name, value). (bindingValueMetadataPrefix @ name, value)) (settings_Values s)"

definition value_error :: "(string, string) gomap \<Rightarrow> string \<Rightarrow> error option" where
  "value_error values name =
     (let value = the (map_of values name)
      in first_err
           [fail_if (length name > maximumBindingValueNameBytes
                \<or> \<not> MatchString bindingValueNamePattern name)
              (PartError PartSelection ValueNameInvalid),
            fail_if (length value > maximumBindingValueBytes \<or> \<not> MatchString bindingValuePattern value)
              (PartError PartSelection (ValueInvalid name))])"

definition validateBindingValues :: "(string, string) gomap \<Rightarrow> error option" where
  "validateBindingValues values =
     first_err
       [fail_if (length values > maximumBindingValues) (PartError PartSelection ValuesTooMany),
        first_err (map (value_error values) (sort (map_keys values)))]"

section \<open>Facts\<close>

lemma sorted_names_namesOf [simp]: "sorted_names (namesOf xs)"
  by (simp add: namesOf_def)

lemma set_namesOf [simp]: "set (namesOf xs) = set xs"
  by (simp add: namesOf_def)

lemma distinct_namesOf [simp]: "distinct (namesOf xs)"
  by (simp add: namesOf_def)

lemma namesOf_cong: "set xs = set ys \<Longrightarrow> namesOf xs = namesOf ys"
  by (rule sorted_names_eqI) simp_all

lemma item_use_names:
  "name \<in> set (fst (item_use hcl item)) \<Longrightarrow> MatchString bindingValueNamePattern name"
  by (auto simp: item_use_def key_use_def Let_def FindAll_names split: if_splits)

lemma bindingValueUse_names:
  "name \<in> set (fst (bindingValueUse hcl source)) \<Longrightarrow> MatchString bindingValueNamePattern name"
  by (auto simp: bindingValueUse_def Let_def split: option.splits hcl_node.splits dest: item_use_names)

lemma bindingValueUse_sorted: "sorted_names (fst (bindingValueUse hcl source))"
  by (auto simp: bindingValueUse_def Let_def sorted_names_def split: option.splits hcl_node.splits)
     (simp add: namesOf_def)

lemma validateBindingPlaceholders_None:
  "validateBindingPlaceholders hcl source = None \<longleftrightarrow>
     \<not> snd (bindingValueUse hcl source)
     \<and> length (fst (bindingValueUse hcl source)) \<le> 16
     \<and> (\<forall>name\<in>set (fst (bindingValueUse hcl source)). length name \<le> 64)"
  by (cases "bindingValueUse hcl source")
     (auto simp: validateBindingPlaceholders_def simp del: first_err.simps(2))

lemma validateBindingPlaceholders_part:
  "validateBindingPlaceholders hcl source = Some e \<Longrightarrow> PartOf e = PartOpenBao"
  by (cases "bindingValueUse hcl source")
     (auto simp: validateBindingPlaceholders_def split: option.splits dest!: first_err_Some_mem)

definition value_ok :: "string \<times> string \<Rightarrow> bool" where
  "value_ok e =
     (length (fst e) \<le> 64 \<and> MatchString bindingValueNamePattern (fst e)
      \<and> length (snd e) \<le> 128 \<and> MatchString bindingValuePattern (snd e))"

lemma value_error_None:
  "map_of values name = Some v \<Longrightarrow> value_error values name = None \<longleftrightarrow> value_ok (name, v)"
  by (auto simp: value_error_def value_ok_def simp del: first_err.simps(2))

lemma validateBindingValues_None:
  assumes "go_map values"
  shows "validateBindingValues values = None \<longleftrightarrow> length values \<le> 16 \<and> list_all value_ok values"
proof -
  have "(\<forall>n\<in>dom (map_of values). value_error values n = None) \<longleftrightarrow> (\<forall>e\<in>set values. value_ok e)"
    (is "?l \<longleftrightarrow> ?r")
  proof
    assume l: ?l
    show ?r
    proof
      fix e assume "e \<in> set values"
      then have "map_of values (fst e) = Some (snd e)"
        using go_map_entry[OF assms, of "fst e" "snd e"] by simp
      then show "value_ok e" using l value_error_None[of "values" "fst e" "snd e"]
        by (metis domI prod.collapse)
    qed
  next
    assume r: ?r
    show ?l using r value_error_None by (fastforce dest: map_of_SomeD)
  qed
  then show ?thesis
    by (auto simp: validateBindingValues_def list_all_iff simp del: first_err.simps(2))
qed

lemma validateBindingValues_part:
  "validateBindingValues values = Some e \<Longrightarrow> PartOf e = PartSelection"
  by (auto simp: validateBindingValues_def value_error_def Let_def split: option.splits
      dest!: first_err_Some_mem)

definition inert :: "char \<Rightarrow> bool" where
  "inert c = in_class value_class c"

lemma value_ok_inert: "value_ok (n, v) \<Longrightarrow> filter (\<lambda>c. \<not> inert c) v = []"
  by (auto simp: value_ok_def bindingValuePattern_def MatchString_iff lang_plus_class inert_def
      filter_empty_conv simp del: in_class_simps)

lemma filter_ReplaceAllFunc:
  assumes "\<And>name. name \<in> set (FindAll s) \<Longrightarrow> filter P (f name) = filter P (g name)"
  shows "filter P (ReplaceAllFunc s f) = filter P (ReplaceAllFunc s g)"
proof -
  have "filter P (piece_with f p) = filter P (piece_with g p)" if "p \<in> set (pieces s)" for p
  proof (cases p)
    case (Hole name)
    then show ?thesis using that assms by (simp add: set_FindAll)
  qed simp
  then show ?thesis
    unfolding ReplaceAllFunc_def by (simp add: filter_concat cong: map_cong)
qed

lemma expand_template_literal:
  "CHR ''$'' \<notin> set u \<Longrightarrow> expand_template whole name (u @ s) = u @ expand_template whole name s"
  by (induction u) auto

lemma expand_template_group1: "expand_template whole name ''$1}}'' = name @ ''}}''"
  by (simp add: template_extract_def is_word_def less_eq_char_def CutPrefix_def template_group_def)

definition template_text :: "string \<Rightarrow> string \<Rightarrow> string" where
  "template_text accessor name =
     ''{{identity.entity.aliases.'' @ accessor @ ''.metadata.binding_'' @ name @ ''}}''"

lemma identity_template:
  assumes "CHR ''$'' \<notin> set accessor"
  shows "expand_template whole name
      (''{{identity.entity.aliases.'' @ accessor @ ''.metadata.'' @ bindingValueMetadataPrefix @ ''$1}}'')
    = template_text accessor name"
proof -
  let ?u = "''{{identity.entity.aliases.'' @ accessor @ ''.metadata.'' @ ''binding_''"
  have "CHR ''$'' \<notin> set ?u" using assms by simp
  from expand_template_literal[OF this, of whole name "''$1}}''"] show ?thesis
    unfolding bindingValueMetadataPrefix_def template_text_def expand_template_group1 by simp
qed

lemma map_of_IdentityMetadata:
  "map_of (IdentityMetadata s) (''binding_'' @ name) = map_of (settings_Values s) name"
proof -
  have "map_of (map (\<lambda>(n, v). (''binding_'' @ n, v)) m) (''binding_'' @ name) = map_of m name"
    for m :: "(string, string) gomap"
    by (induction m) auto
  then show ?thesis by (simp add: IdentityMetadata_def bindingValueMetadataPrefix_def)
qed

lemma IdentityMetadata_not_role_name: "map_of (IdentityMetadata s) ''role_name'' = None"
  by (auto simp: IdentityMetadata_def bindingValueMetadataPrefix_def map_of_eq_None_iff)

section \<open>Properties\<close>



text \<open>
  C25. Compiling a document for OpenBao replaces each placeholder by the identity template of its
  name, and the metadata sent with the binding's SecretID holds exactly the binding's value under the
  key that template reads, without touching the key AppRole itself writes. The accessor, which
  OpenBao generates, holds no dollar sign.
\<close>

theorem IdentityTemplates_read_values:
  assumes "CHR ''$'' \<notin> set accessor"
  shows "IdentityTemplates source accessor =
      ReplaceAllFunc source (\<lambda>name.
        ''{{identity.entity.aliases.'' @ accessor @ ''.metadata.'' @ (''binding_'' @ name) @ ''}}'')
    \<and> map_of (IdentityMetadata s) (''binding_'' @ name) = map_of (settings_Values s) name
    \<and> map_of (IdentityMetadata s) ''role_name'' = None"
  unfolding IdentityTemplates_def identity_template[OF assms] template_text_def
    map_of_IdentityMetadata IdentityMetadata_not_role_name
  by simp

theorem IdentityTemplates_read_values_witness:
  "IdentityTemplates ''a/{{binding.x}}'' ''acc'' =
    ''a/{{identity.entity.aliases.acc.metadata.binding_x}}''"
proof -
  have "CHR ''$'' \<notin> set ''acc''" by simp
  from IdentityTemplates_read_values[OF this, of "''a/{{binding.x}}''"]
  have "IdentityTemplates ''a/{{binding.x}}'' ''acc'' =
      ReplaceAllFunc ''a/{{binding.x}}'' (\<lambda>name.
        ''{{identity.entity.aliases.'' @ ''acc'' @ ''.metadata.'' @ (''binding_'' @ name) @ ''}}'')"
    by simp
  also have "\<dots> = ''a/{{identity.entity.aliases.acc.metadata.binding_x}}''" by code_simp
  finally show ?thesis .
qed

text \<open>
  A placeholder whose removal joins its neighbours can hide a malformed mention: removing
  \<^verbatim>\<open>{{binding.x}}\<close> from \<^verbatim>\<open>{{binding{{binding.x}}s\<close> leaves \<^verbatim>\<open>{{bindings\<close>, which is no mention,
  although the text as published starts with one.
\<close>

lemma hidden_mention:
  "\<not> bindingMention (ReplaceAllFunc ''{{binding{{binding.x}}s'' (\<lambda>_. []))
   \<and> bindingMention (IdentityTemplates ''{{binding{{binding.x}}s'' ''acc'')"
  by code_simp

end
