(* ===== verification/Lifecycle.thy ===== *)
theory Lifecycle
  imports Binding_Values "HOL-Library.Product_Lexorder"
begin

text \<open>
  The token lifecycle grants that every published policy carries (\<^verbatim>\<open>internal/policy/lifecycle.go\<close>),
  the renewal choice inferred for documents written before the setting existed
  (\<^verbatim>\<open>internal/policy/legacy_lifecycle.go\<close>) and the advisory mount check
  (\<^verbatim>\<open>internal/policy/mount_warnings.go\<close>).

  Shown here: the inferred choice is the one OpenBao's rule priorities give, namely the union of the
  grants of all matching rules with the pattern of highest priority, minus a denial among them, and
  the priority is a total order on patterns, so the answer does not depend on the order of the rules.
\<close>

section \<open>Managed lifecycle grants\<close>

definition newline :: string where
  "newline = [CHR 0x0A]"

definition quoted :: "string \<Rightarrow> string" where
  "quoted s = [CHR 0x22] @ s @ [CHR 0x22]"

definition LifecycleHCL :: "bool \<Rightarrow> string" where
  "LifecycleHCL renew =
     ''path '' @ quoted ''auth/token/lookup-self'' @ '' { capabilities = ['' @ quoted ''read'' @ ''] }'' @ newline
     @ (if renew
        then ''path '' @ quoted ''auth/token/renew-self'' @ '' { capabilities = ['' @ quoted ''update'' @ ''] }'' @ newline
        else ''path '' @ quoted ''auth/token/renew-self'' @ '' { capabilities = [] }'' @ newline)
     @ ''path '' @ quoted ''auth/token/revoke-self'' @ '' { capabilities = ['' @ quoted ''update'' @ ''] }'' @ newline"

definition lifecyclePath :: "string \<Rightarrow> bool" where
  "lifecyclePath path =
     (TrimPrefix path ''/'' \<in>
       {''auth/token/lookup-self'', ''auth/token/renew-self'', ''auth/token/revoke-self''})"

text \<open>A lifecycle stanza: exactly two keys, \<^verbatim>\<open>path\<close> and a lifecycle path. A value that is no string
  reads as the empty name.\<close>

definition lifecycle_item :: "hcl_lib \<Rightarrow> ObjectItem \<Rightarrow> bool" where
  "lifecycle_item hcl item =
     (length (item_Keys item) = 2 \<and> hcl_Value hcl (item_Keys item ! 0) = Some ''path''
      \<and> lifecyclePath (case hcl_Value hcl (item_Keys item ! 1) of Some name \<Rightarrow> name | None \<Rightarrow> []))"

definition item_span :: "ObjectItem \<Rightarrow> (nat \<times> nat) list" where
  "item_span item =
     (case item_Val item of ObjectType rbrace _ \<Rightarrow> [(item_Pos item, rbrace + 1)] | OtherValue _ \<Rightarrow> [])"

fun cut_spans :: "(nat \<times> nat) list \<Rightarrow> string \<Rightarrow> string" where
  "cut_spans [] source = source"
| "cut_spans (span # spans) source =
     (let source = cut_spans spans source
      in take (fst span) source @ drop (snd span) source)"

definition WorkloadHCL :: "hcl_lib \<Rightarrow> string \<Rightarrow> string" where
  "WorkloadHCL hcl source =
     (case hcl_Parse hcl source of
        Some (ObjectList items) \<Rightarrow>
          (let jsonSource = HasPrefix (TrimSpace source) ''{'';
               kept = filter (\<lambda>item. \<not> lifecycle_item hcl item) items;
               removed = concat (map item_span (filter (lifecycle_item hcl) items))
           in if jsonSource
              then (case hcl_Fprint hcl kept of Some output \<Rightarrow> output | None \<Rightarrow> source)
              else cut_spans removed source)
      | _ \<Rightarrow> source)"

section \<open>Renewal of documents without the setting\<close>

definition renewSelf :: string where
  "renewSelf = ''auth/token/renew-self''"

text \<open>
  The expression built for a rule's pattern: \<^verbatim>\<open>+\<close> is one segment of any non-empty text, a \<^verbatim>\<open>*\<close> that
  ends the last segment is any text, anything else is literal. \<^verbatim>\<open>.\<close> matches every byte but a newline.
\<close>

definition not_slash :: char_class where
  "not_slash = [(CHR 0x00, CHR ''.''), (CHR ''0'', CHR 0xFF)]"

definition not_newline :: char_class where
  "not_newline = [(CHR 0x00, CHR 0x09), (CHR 0x0B, CHR 0xFF)]"

definition segment_rx :: "bool \<Rightarrow> string \<Rightarrow> rx" where
  "segment_rx isLast segment =
     (if segment = ''+'' then rx_plus (Cls not_slash)
      else if isLast \<and> HasSuffix segment ''*''
      then Seq (rx_str (TrimSuffix segment ''*'')) (Star (Cls not_newline))
      else rx_str segment)"

fun segments_rx :: "string list \<Rightarrow> rx" where
  "segments_rx [] = REps"
| "segments_rx [segment] = segment_rx True segment"
| "segments_rx (segment # segments) =
     Seq (segment_rx False segment) (Seq (rx_char slash) (segments_rx segments))"

definition pattern_rx :: "string \<Rightarrow> rx" where
  "pattern_rx pattern = segments_rx (Split pattern slash)"

fun plus_scan :: "string list \<Rightarrow> nat \<Rightarrow> nat \<Rightarrow> nat \<Rightarrow> nat \<times> nat" where
  "plus_scan [] offset first n = (first, n)"
| "plus_scan (segment # segments) offset first n =
     (if segment = ''+''
      then plus_scan segments (offset + length segment + 1) (min first offset) (n + 1)
      else plus_scan segments (offset + length segment + 1) first n)"

definition wildcards :: "string \<Rightarrow> nat \<times> nat \<times> nat" where
  "wildcards s =
     (let (first, n) = plus_scan (Split s slash) 0 (length s) 0
      in if HasSuffix s ''*'' then (min first (length s - 1), n, 1) else (first, n, 0))"

definition Compare :: "'a::linorder \<Rightarrow> 'a \<Rightarrow> int" where
  "Compare a b = (if a < b then - 1 else if a = b then 0 else 1)"

fun first_nonzero :: "int list \<Rightarrow> int" where
  "first_nonzero [] = 0"
| "first_nonzero (r # rs) = (if r \<noteq> 0 then r else first_nonzero rs)"

definition pathPriority :: "string \<Rightarrow> string \<Rightarrow> int" where
  "pathPriority a b =
     (let (firstA, countA, globA) = wildcards a;
          (firstB, countB, globB) = wildcards b
      in first_nonzero
           [Compare firstA firstB, Compare globB globA, Compare countB countA,
            Compare (length a) (length b), Compare a b])"

definition rule_grants :: "path_rule \<Rightarrow> bool" where
  "rule_grants rule =
     (''update'' \<in> set (rule_Capabilities rule) \<or> rule_Policy rule = ''write'' \<or> rule_Policy rule = ''sudo'')"

definition rule_denies :: "path_rule \<Rightarrow> bool" where
  "rule_denies rule = (''deny'' \<in> set (rule_Capabilities rule) \<or> rule_Policy rule = ''deny'')"

definition rule_pattern :: "path_rule \<Rightarrow> string" where
  "rule_pattern rule = TrimPrefix (rule_Name rule) ''/''"

text \<open>One pass of the loop over the state (best, grant, deny).\<close>

definition renewal_step :: "string \<times> bool \<times> bool \<Rightarrow> path_rule \<Rightarrow> string \<times> bool \<times> bool" where
  "renewal_step = (\<lambda>(best, grant, deny) rule.
     let pattern = rule_pattern rule
     in if \<not> MatchString (pattern_rx pattern) renewSelf then (best, grant, deny)
        else if best \<noteq> [] \<and> pathPriority pattern best < 0 then (best, grant, deny)
        else
          (let (grant, deny) = (if pattern \<noteq> best then (False, False) else (grant, deny))
           in (pattern, grant \<or> rule_grants rule, deny \<or> rule_denies rule)))"

definition legacyRenewal :: "hcl_lib \<Rightarrow> string \<Rightarrow> bool" where
  "legacyRenewal hcl source =
     (case hcl_Decode hcl source of
        None \<Rightarrow> False
      | Some rules \<Rightarrow>
          (let (best, grant, deny) = foldl renewal_step ([], False, False) rules
           in grant \<and> \<not> deny))"

definition Policy_AgentRenewal :: "hcl_lib \<Rightarrow> Policy \<Rightarrow> bool" where
  "Policy_AgentRenewal hcl p =
     (case openbao_AgentTokenRenewal (policy_OpenBao p) of
        Some renew \<Rightarrow> renew
      | None \<Rightarrow> legacyRenewal hcl (openbao_Policy (policy_OpenBao p)))"

definition PublishedHCL :: "hcl_lib \<Rightarrow> Policy \<Rightarrow> string" where
  "PublishedHCL hcl p =
     WorkloadHCL hcl (openbao_Policy (policy_OpenBao p)) @ newline
     @ LifecycleHCL (Policy_AgentRenewal hcl p)"

section \<open>The mount check\<close>

datatype mount_warning = MountAnalysisUnavailable | OutsideMounts string

definition expectedPath :: "string \<Rightarrow> string list \<Rightarrow> bool" where
  "expectedPath pattern mounts =
     (let pattern = TrimPrefix pattern ''/''
      in pattern \<in> set [''auth/token/lookup-self'', ''auth/token/renew-self'', ''auth/token/revoke-self'']
         \<or> list_ex (\<lambda>mount. mount \<noteq> [] \<and> (pattern = mount \<or> HasPrefix pattern (mount @ ''/''))) mounts)"

fun outside_mounts :: "string list \<Rightarrow> string list \<Rightarrow> path_rule list \<Rightarrow> mount_warning list" where
  "outside_mounts mounts seen [] = []"
| "outside_mounts mounts seen (rule # rules) =
     (if rule_Name rule \<in> set seen \<or> expectedPath (rule_Name rule) mounts
      then outside_mounts mounts seen rules
      else OutsideMounts (rule_Name rule) # outside_mounts mounts (rule_Name rule # seen) rules)"

definition MountWarnings :: "hcl_lib \<Rightarrow> string \<Rightarrow> string list \<Rightarrow> mount_warning list" where
  "MountWarnings hcl document mounts =
     (case hcl_Decode hcl document of
        None \<Rightarrow> [MountAnalysisUnavailable]
      | Some rules \<Rightarrow> outside_mounts mounts [] rules)"

section \<open>Cutting stanzas\<close>

text \<open>Spans in source order, apart from each other and inside the source.\<close>

fun spans_from :: "nat \<Rightarrow> (nat \<times> nat) list \<Rightarrow> nat \<Rightarrow> bool" where
  "spans_from lo [] n = True"
| "spans_from lo (span # spans) n =
     (lo \<le> fst span \<and> fst span \<le> snd span \<and> snd span \<le> n \<and> spans_from (snd span) spans n)"

definition outside_spans :: "(nat \<times> nat) list \<Rightarrow> nat set" where
  "outside_spans spans = {i. \<forall>(a, b)\<in>set spans. i < a \<or> b \<le> i}"

lemma spans_from_bound: "spans_from lo spans n \<Longrightarrow> (a, b) \<in> set spans \<Longrightarrow> lo \<le> a \<and> a \<le> b \<and> b \<le> n"
  by (induction lo spans n rule: spans_from.induct) force+

lemma nths_all_below: "(\<And>i. i < length s \<Longrightarrow> i \<in> A) \<Longrightarrow> nths s A = s"
  by (rule nths_all) simp

lemma nths_none: "(\<And>i. i < length s \<Longrightarrow> i \<notin> A) \<Longrightarrow> nths s A = []"
  unfolding nths_def by (auto simp: filter_empty_conv set_zip)

lemma nths_cut:
  assumes "a \<le> b" "b \<le> length s" "{..<b} \<subseteq> B"
  shows "nths s (B \<inter> {i. i < a \<or> b \<le> i}) = take a (nths s B) @ drop b (nths s B)"
proof -
  define X where "X = nths (drop b s) {j. j + b \<in> B}"
  have len: "length (take b s) = b" using assms by simp
  have split: "nths s A = nths (take a s) A @ nths (drop a (take b s)) {j. j + a \<in> A} @ nths (drop b s) {j. j + b \<in> A}" for A
  proof -
    have "s = take b s @ drop b s" "take b s = take a s @ drop a (take b s)" using assms by (simp_all add: min_def)
       (metis append_take_drop_id assms(1) min.absorb1 take_take)
    then have "nths s A = nths (take b s) A @ nths (drop b s) {j. j + b \<in> A}"
      by (metis len nths_append)
    moreover have "length (take a s) = a" using assms by simp
    then have "nths (take b s) A = nths (take a s) A @ nths (drop a (take b s)) {j. j + a \<in> A}"
      using \<open>take b s = take a s @ drop a (take b s)\<close> by (metis nths_append)
    ultimately show ?thesis by simp
  qed
  have "nths (take b s) B = take b s" using assms(3) len by (intro nths_all_below) auto
  then have B: "nths s B = take b s @ X"
    using len by (metis X_def append_take_drop_id nths_append)
  have "nths (take a s) (B \<inter> {i. i < a \<or> b \<le> i}) = take a s"
    using assms by (intro nths_all_below) auto
  moreover have "nths (drop a (take b s)) {j. j + a \<in> B \<inter> {i. i < a \<or> b \<le> i}} = []"
    using assms by (intro nths_none) auto
  moreover have "{j. j + b \<in> B \<inter> {i. i < a \<or> b \<le> i}} = {j. j + b \<in> B}" by auto
  ultimately have "nths s (B \<inter> {i. i < a \<or> b \<le> i}) = take a s @ X"
    unfolding split[of "B \<inter> {i. i < a \<or> b \<le> i}"] X_def by simp
  then show ?thesis using B len assms by simp
qed

lemma cut_spans_nths:
  "spans_from lo spans (length s) \<Longrightarrow> cut_spans spans s = nths s (outside_spans spans)"
proof (induction spans arbitrary: lo)
  case Nil
  then show ?case by (simp add: outside_spans_def nths_all_below)
next
  case (Cons span spans)
  obtain a b where ab: "span = (a, b)" by (cases span)
  have h: "a \<le> b" "b \<le> length s" "spans_from b spans (length s)" using Cons.prems ab by simp_all
  have "{..<b} \<subseteq> outside_spans spans"
    using spans_from_bound[OF h(3)] by (fastforce simp: outside_spans_def)
  from nths_cut[OF h(1,2) this] Cons.IH[OF h(3)]
  have "cut_spans (span # spans) s = nths s (outside_spans spans \<inter> {i. i < a \<or> b \<le> i})"
    by (simp add: ab Let_def)
  also have "outside_spans spans \<inter> {i. i < a \<or> b \<le> i} = outside_spans (span # spans)"
    by (auto simp: outside_spans_def ab)
  finally show ?case .
qed

section \<open>Rule priority\<close>

definition priority_key :: "string \<Rightarrow> int \<times> int \<times> int \<times> int \<times> string" where
  "priority_key s =
     (case wildcards s of (first, n, glob) \<Rightarrow> (int first, - int glob, - int n, int (length s), s))"

lemma Compare_eq_0 [simp]: "Compare a b = 0 \<longleftrightarrow> a = b"
  by (simp add: Compare_def)

lemma Compare_neg [simp]: "Compare a b < 0 \<longleftrightarrow> a < b"
  by (simp add: Compare_def)

lemma Compare_of_nat: "Compare (int a) (int b) = Compare a b"
  by (simp add: Compare_def)

lemma Compare_uminus_of_nat: "Compare (- int a) (- int b) = Compare b a"
  by (simp add: Compare_def)

lemma Compare_Pair:
  "Compare (a, b) (c, d) = (if Compare a c \<noteq> 0 then Compare a c else Compare b d)"
  by (auto simp: Compare_def)

lemma pathPriority_key: "pathPriority a b = Compare (priority_key a) (priority_key b)"
  by (cases "wildcards a"; cases "wildcards b")
     (simp add: pathPriority_def priority_key_def Compare_Pair Compare_of_nat Compare_uminus_of_nat)

lemma priority_key_inject: "priority_key a = priority_key b \<longleftrightarrow> a = b"
  by (auto simp: priority_key_def split: prod.splits)

lemma pathPriority_ge: "0 \<le> pathPriority a b \<longleftrightarrow> priority_key b \<le> priority_key a"
  by (auto simp: pathPriority_key Compare_def)

lemma pathPriority_antisym: "0 \<le> pathPriority a b \<Longrightarrow> 0 \<le> pathPriority b a \<Longrightarrow> a = b"
  by (auto simp: pathPriority_ge simp flip: priority_key_inject)

lemma pathPriority_trans: "0 \<le> pathPriority a b \<Longrightarrow> 0 \<le> pathPriority b c \<Longrightarrow> 0 \<le> pathPriority a c"
  by (auto simp: pathPriority_ge)

lemma pathPriority_total: "pathPriority a b < 0 \<Longrightarrow> 0 \<le> pathPriority b a"
  unfolding pathPriority_ge unfolding pathPriority_key Compare_neg by simp

lemma pathPriority_self [simp]: "pathPriority a a = 0"
  by (simp add: pathPriority_key)

definition renew_rules :: "path_rule list \<Rightarrow> path_rule list" where
  "renew_rules rules = filter (\<lambda>r. MatchString (pattern_rx (rule_pattern r)) renewSelf) rules"

definition top_rule :: "path_rule list \<Rightarrow> path_rule \<Rightarrow> bool" where
  "top_rule rules r =
     (r \<in> set (renew_rules rules)
      \<and> (\<forall>q\<in>set (renew_rules rules). 0 \<le> pathPriority (rule_pattern r) (rule_pattern q)))"

lemma empty_pattern_no_match: "MatchString (pattern_rx p) renewSelf \<Longrightarrow> p \<noteq> []"
  by (rule notI, hypsubst) (simp add: pattern_rx_def segment_rx_def MatchString_iff renewSelf_def HasSuffix_def)

text \<open>What the loop has found after some rules.\<close>

definition renewal_state :: "path_rule list \<Rightarrow> string \<times> bool \<times> bool \<Rightarrow> bool" where
  "renewal_state rules = (\<lambda>(best, grant, deny).
     (renew_rules rules = [] \<longrightarrow> best = [])
     \<and> (renew_rules rules \<noteq> [] \<longrightarrow> best \<in> rule_pattern ` set (renew_rules rules))
     \<and> (\<forall>q\<in>set (renew_rules rules). 0 \<le> pathPriority best (rule_pattern q))
     \<and> grant = (\<exists>r\<in>set (renew_rules rules). rule_pattern r = best \<and> rule_grants r)
     \<and> deny = (\<exists>r\<in>set (renew_rules rules). rule_pattern r = best \<and> rule_denies r))"

lemma renew_rules_snoc:
  "renew_rules (rules @ [rule]) =
     (if MatchString (pattern_rx (rule_pattern rule)) renewSelf then renew_rules rules @ [rule]
      else renew_rules rules)"
  by (simp add: renew_rules_def)

lemma renew_rules_pattern: "r \<in> set (renew_rules rules) \<Longrightarrow> rule_pattern r \<noteq> []"
  by (auto simp: renew_rules_def dest: empty_pattern_no_match)

lemma renewal_step_state:
  assumes "renewal_state rules st"
  shows "renewal_state (rules @ [rule]) (renewal_step st rule)"
proof -
  obtain best grant deny where st: "st = (best, grant, deny)" by (cases st)
  let ?M = "renew_rules rules" and ?p = "rule_pattern rule"
  have best: "?M = [] \<Longrightarrow> best = []" "?M \<noteq> [] \<Longrightarrow> best \<in> rule_pattern ` set ?M"
    "\<And>q. q \<in> set ?M \<Longrightarrow> 0 \<le> pathPriority best (rule_pattern q)"
    and flags: "grant = (\<exists>r\<in>set ?M. rule_pattern r = best \<and> rule_grants r)"
      "deny = (\<exists>r\<in>set ?M. rule_pattern r = best \<and> rule_denies r)"
    using assms by (auto simp: renewal_state_def st)
  have best_Nil: "best = [] \<longleftrightarrow> ?M = []" using best(1,2) renew_rules_pattern by (metis imageE)
  consider "\<not> MatchString (pattern_rx ?p) renewSelf"
    | "MatchString (pattern_rx ?p) renewSelf" "best \<noteq> []" "pathPriority ?p best < 0"
    | "MatchString (pattern_rx ?p) renewSelf" "best = [] \<or> 0 \<le> pathPriority ?p best"
    by linarith
  then show ?thesis
  proof cases
    case 1
    then have "renewal_step st rule = st" "renew_rules (rules @ [rule]) = ?M"
      by (simp_all add: renewal_step_def renew_rules_snoc st Let_def)
    then show ?thesis using assms by (simp add: renewal_state_def)
  next
    case 2
    then have step: "renewal_step st rule = st" by (simp add: renewal_step_def st Let_def)
    have "?p \<noteq> best" using 2(3) by auto
    moreover have "0 \<le> pathPriority best ?p" using 2(3) by (rule pathPriority_total)
    ultimately show ?thesis
      unfolding step using 2 best flags best_Nil
      by (auto simp: renewal_state_def renew_rules_snoc st)
  next
    case 3
    have above: "0 \<le> pathPriority ?p (rule_pattern q)" if "q \<in> set ?M" for q
      using 3(2) that best(3)[OF that] best_Nil pathPriority_trans by fastforce
    have same: "rule_pattern r \<noteq> ?p" if "?p \<noteq> best" "r \<in> set ?M" for r
      using that best(3)[OF that(2)] 3(2) best_Nil pathPriority_antisym by fastforce
    have "renewal_step st rule =
        (?p, (?p = best \<and> grant) \<or> rule_grants rule, (?p = best \<and> deny) \<or> rule_denies rule)"
      using 3 by (auto simp: renewal_step_def st Let_def)
    moreover have "?p = best \<and> grant \<longleftrightarrow> (\<exists>r\<in>set ?M. rule_pattern r = ?p \<and> rule_grants r)"
      "?p = best \<and> deny \<longleftrightarrow> (\<exists>r\<in>set ?M. rule_pattern r = ?p \<and> rule_denies r)"
      using flags same by (cases "?p = best"; simp; blast)+
    ultimately show ?thesis
      using 3(1) above by (simp add: renewal_state_def renew_rules_snoc) blast
  qed
qed

lemma renewal_loop_state: "renewal_state rules (foldl renewal_step ([], False, False) rules)"
proof (induction rules rule: rev_induct)
  case Nil
  then show ?case by (simp add: renewal_state_def renew_rules_def)
next
  case (snoc rule rules)
  then show ?case using renewal_step_state by simp
qed

lemma renewal_state_result:
  assumes "renewal_state rules (best, grant, deny)"
  shows "grant \<and> \<not> deny \<longleftrightarrow>
    (\<exists>r. top_rule rules r \<and> rule_grants r) \<and> \<not> (\<exists>r. top_rule rules r \<and> rule_denies r)"
proof -
  have "top_rule rules r \<longleftrightarrow> r \<in> set (renew_rules rules) \<and> rule_pattern r = best" for r
  proof
    assume top: "top_rule rules r"
    then have r: "r \<in> set (renew_rules rules)" by (simp add: top_rule_def)
    then obtain b where b: "b \<in> set (renew_rules rules)" "rule_pattern b = best"
      using assms by (auto simp: renewal_state_def)
    then have "0 \<le> pathPriority (rule_pattern r) best" using top by (auto simp: top_rule_def)
    moreover have "0 \<le> pathPriority best (rule_pattern r)"
      using assms r by (simp add: renewal_state_def)
    ultimately show "r \<in> set (renew_rules rules) \<and> rule_pattern r = best"
      using r pathPriority_antisym by blast
  next
    assume "r \<in> set (renew_rules rules) \<and> rule_pattern r = best"
    then show "top_rule rules r" using assms by (auto simp: renewal_state_def top_rule_def)
  qed
  then show ?thesis using assms by (auto simp: renewal_state_def)
qed

lemma outside_mounts_set:
  "set (outside_mounts mounts seen rules) =
     OutsideMounts ` {rule_Name r | r. r \<in> set rules \<and> rule_Name r \<notin> set seen \<and> \<not> expectedPath (rule_Name r) mounts}"
  by (induction mounts seen rules rule: outside_mounts.induct) auto

lemma outside_mounts_distinct: "distinct (outside_mounts mounts seen rules)"
  by (induction mounts seen rules rule: outside_mounts.induct) (auto simp: outside_mounts_set)

section \<open>Properties\<close>

text \<open>
  C26. The renewal choice inferred for a document without the setting is the one OpenBao's rule
  priorities give: renewal is granted exactly when, among the rules that match the renewal path
  with a pattern that no other matching rule outranks, some rule grants an update and none denies.
  The priority orders patterns totally, so the answer depends on the set of rules and not on their
  order or repetition.
\<close>

theorem legacyRenewal_by_priority:
  "legacyRenewal hcl source \<longleftrightarrow>
     (\<exists>rules. hcl_Decode hcl source = Some rules
        \<and> (\<exists>r. top_rule rules r \<and> rule_grants r) \<and> \<not> (\<exists>r. top_rule rules r \<and> rule_denies r))"
proof (cases "hcl_Decode hcl source")
  case None
  then show ?thesis by (simp add: legacyRenewal_def)
next
  case (Some rules)
  obtain best grant deny where
    e: "foldl renewal_step ([], False, False) rules = (best, grant, deny)" by (metis prod_cases3)
  from renewal_loop_state[of rules] show ?thesis
    unfolding e legacyRenewal_def Some by (simp add: e renewal_state_result)
qed

text \<open>
  Cutting the lifecycle stanzas out of an HCL source keeps every other byte and removes nothing
  else: when the stanzas' spans are in source order, apart from each other and inside the source,
  the published text is the source restricted to the positions outside all of them. Cutting runs
  from the last span to the first, so earlier offsets stay valid.
\<close>

theorem WorkloadHCL_cuts_exactly:
  assumes "hcl_Parse hcl source = Some (ObjectList items)" "\<not> HasPrefix (TrimSpace source) ''{''"
    and "spans_from 0 (concat (map item_span (filter (lifecycle_item hcl) items))) (length source)"
  shows "WorkloadHCL hcl source =
    nths source {i. \<forall>item\<in>set items. lifecycle_item hcl item \<longrightarrow>
      (\<forall>(a, b)\<in>set (item_span item). i < a \<or> b \<le> i)}"
proof -
  have "outside_spans (concat (map item_span (filter (lifecycle_item hcl) items))) =
      {i. \<forall>item\<in>set items. lifecycle_item hcl item \<longrightarrow> (\<forall>(a, b)\<in>set (item_span item). i < a \<or> b \<le> i)}"
    by (auto simp: outside_spans_def)
  then show ?thesis
    using assms(1,2) cut_spans_nths[OF assms(3)] by (simp add: WorkloadHCL_def Let_def)
qed

definition renew_stanza :: ObjectItem where
  "renew_stanza =
     \<lparr>item_Keys = [\<lparr>tok_STRING = False, tok_Text = ''path''\<rparr>,
                  \<lparr>tok_STRING = True, tok_Text = quoted renewSelf\<rparr>],
      item_Pos = 4, item_Val = ObjectType 34 []\<rparr>"

definition renew_stanza_hcl :: hcl_lib where
  "renew_stanza_hcl =
     \<lparr>hcl_Parse = (\<lambda>s. Some (ObjectList [renew_stanza])),
      hcl_Value = (\<lambda>t. Some (if tok_STRING t then butlast (tl (tok_Text t)) else tok_Text t)),
      hcl_Unquote = (\<lambda>s. Some (butlast (tl s))),
      hcl_Fprint = (\<lambda>items. None),
      hcl_Decode = (\<lambda>s. None)\<rparr>"

theorem WorkloadHCL_cuts_exactly_witness:
  "WorkloadHCL renew_stanza_hcl (''x=1 path '' @ quoted renewSelf @ '' {}'') = ''x=1 ''"
proof -
  let ?s = "''x=1 path '' @ quoted renewSelf @ '' {}''"
  have lifecycle: "lifecycle_item renew_stanza_hcl renew_stanza" by code_simp
  have "hcl_Parse renew_stanza_hcl ?s = Some (ObjectList [renew_stanza])"
    by (simp add: renew_stanza_hcl_def)
  moreover have "\<not> HasPrefix (TrimSpace ?s) ''{''" by code_simp
  moreover have "spans_from 0 (concat (map item_span (filter (lifecycle_item renew_stanza_hcl) [renew_stanza]))) (length ?s)"
    by code_simp
  ultimately have "WorkloadHCL renew_stanza_hcl ?s = nths ?s {i. i < 4 \<or> 35 \<le> i}"
    using WorkloadHCL_cuts_exactly[of renew_stanza_hcl ?s "[renew_stanza]"] lifecycle
    by (simp add: item_span_def renew_stanza_def)
  then show ?thesis by (simp add: quoted_def renewSelf_def nths_Cons)
qed

text \<open>
  The mount check reports every path stanza outside the configured mounts and the lifecycle
  paths, each once, and nothing else; a document it cannot read gives the single warning that says so.
\<close>

theorem MountWarnings_complete:
  "(case hcl_Decode hcl document of
      None \<Rightarrow> MountWarnings hcl document mounts = [MountAnalysisUnavailable]
    | Some rules \<Rightarrow>
        distinct (MountWarnings hcl document mounts)
        \<and> set (MountWarnings hcl document mounts) =
            OutsideMounts ` {name \<in> rule_Name ` set rules. \<not> expectedPath name mounts})"
  by (auto simp: MountWarnings_def outside_mounts_distinct outside_mounts_set split: option.splits)

end
