(* ===== verification/Composition.thy ===== *)
theory Composition
  imports Lifecycle
begin

text \<open>
  Validation of a whole policy (\<^verbatim>\<open>internal/policy/policy.go\<close>), the settings of a binding and the
  composition of several policies into one effective assignment
  (\<^verbatim>\<open>internal/policy/composition.go\<close>).

  Shown here: a successful composition is valid and holds exactly the union of what the policies
  ask for; it never depends on the order in which the policies are given; a conflict is always an
  error; and every valid policy can be bound with suitable values.

  \<^verbatim>\<open>Identity\<close> and \<^verbatim>\<open>Clone\<close> of an effective assignment, which go through its JSON text, are not modelled.
  \<^verbatim>\<open>sort.Slice\<close> is not stable; it is modelled by the stable \<open>sort_key\<close>, and the two can differ only when a
  name is selected twice, which is refused.
\<close>

section \<open>Policy documents\<close>

definition located :: "Part \<Rightarrow> error option \<Rightarrow> error option" where
  "located part = map_option (\<lambda>e. PartError part (error_message e))"

definition ssh_error :: "SSH \<Rightarrow> error option" where
  "ssh_error ssh =
     first_err
       [validateIdentities ''transit key'' (ssh_TransitKeys ssh),
        validateIdentities ''SSH role'' (ssh_CARoles ssh),
        (case ssh_NotForwardable ssh of
           None \<Rightarrow> None
         | Some selected \<Rightarrow>
             first_err
               [validateIdentities ''not-forwardable transit key'' (names_TransitKeys selected),
                validateIdentities ''not-forwardable SSH role'' (names_CARoles selected)])]"

definition requirements_contract :: "Requirements \<Rightarrow> Contract" where
  "requirements_contract r =
     \<lparr>contract_MountTarget = req_MountTarget r, contract_Env = req_Env r,
      contract_AccessGroup = None, contract_Enforcement = EnforcementReport\<rparr>"

definition Policy_Validate :: "hcl_lib \<Rightarrow> Policy \<Rightarrow> error option" where
  "Policy_Validate hcl policy =
     first_err
       [fail_if (\<not> ValidName (policy_Name policy)) (PartError PartName NameNotSlug),
        fail_if (policy_Revision policy < 0) (PlainError RevisionNegative),
        fail_if (length (openbao_Policy (policy_OpenBao policy)) > maximumHCLBytes)
          (PartError PartOpenBao HCLTooLong),
        validateBindingPlaceholders hcl (openbao_Policy (policy_OpenBao policy)),
        (case policy_SSH policy of None \<Rightarrow> None | Some ssh \<Rightarrow> ssh_error ssh),
        located PartContract (Contract_Validate (requirements_contract (policy_Contract policy)))]"

section \<open>Settings\<close>

definition DefaultSettings :: Settings where
  "DefaultSettings =
     \<lparr>settings_TokenTTL = defaultTokenTTL, settings_TokenMaxTTL = defaultTokenMaxTTL,
      settings_AccessGroup = None, settings_Enforcement = EnforcementReport, settings_Values = []\<rparr>"

definition Defaults :: "Settings \<Rightarrow> Settings" where
  "Defaults s =
     (let s = (if settings_TokenTTL s = [] then s\<lparr>settings_TokenTTL := defaultTokenTTL\<rparr> else s);
          s = (if settings_TokenMaxTTL s = [] then s\<lparr>settings_TokenMaxTTL := defaultTokenMaxTTL\<rparr> else s)
      in if settings_Enforcement s = [] then s\<lparr>settings_Enforcement := EnforcementReport\<rparr> else s)"

definition settings_contract :: "Settings \<Rightarrow> Contract" where
  "settings_contract s =
     \<lparr>contract_MountTarget = defaultMountTarget, contract_Env = [],
      contract_AccessGroup = settings_AccessGroup s, contract_Enforcement = settings_Enforcement s\<rparr>"

definition Settings_Validate :: "Settings \<Rightarrow> error option" where
  "Settings_Validate settings =
     (let s = Defaults settings
      in case validateBindingValues (settings_Values s) of
           Some e \<Rightarrow> Some e
         | None \<Rightarrow>
             (case parseTTL ''token time-to-live'' (settings_TokenTTL s) of
                Inl m \<Rightarrow> Some (PartError PartSettings m)
              | Inr ttl \<Rightarrow>
                  (case parseTTL ''token maximum lifetime'' (settings_TokenMaxTTL s) of
                     Inl m \<Rightarrow> Some (PartError PartSettings m)
                   | Inr maximum \<Rightarrow>
                       if maximum < ttl then Some (PartError PartSettings MaximumBelowTTL)
                       else located PartSettings (Contract_Validate (settings_contract s)))))"

definition TTL :: "Settings \<Rightarrow> int" where
  "TTL s = durationOr (settings_TokenTTL s) defaultTokenTTL"

definition MaxTTL :: "Settings \<Rightarrow> int" where
  "MaxTTL s = durationOr (settings_TokenMaxTTL s) defaultTokenMaxTTL"

section \<open>Effective assignments\<close>

record Source =
  source_Name :: string
  source_Revision :: int
  source_HCL :: string
  source_Generation :: int

record Effective =
  eff_Sources :: "Source list"
  eff_OpenBao :: OpenBao
  eff_SSH :: "SSH option"
  eff_Contract :: Contract
  eff_Settings :: Settings

definition Names :: "Effective \<Rightarrow> string list" where
  "Names e = map source_Name (eff_Sources e)"

definition OpenBaoPolicies :: "Effective \<Rightarrow> string list" where
  "OpenBaoPolicies e = map (\<lambda>s. openBaoPolicyName (source_Name s) (source_Generation s)) (eff_Sources e)"

definition eff_TransitKeys :: "Effective \<Rightarrow> string list" where
  "eff_TransitKeys e = (case eff_SSH e of None \<Rightarrow> [] | Some ssh \<Rightarrow> ssh_TransitKeys ssh)"

definition eff_CARoles :: "Effective \<Rightarrow> string list" where
  "eff_CARoles e = (case eff_SSH e of None \<Rightarrow> [] | Some ssh \<Rightarrow> ssh_CARoles ssh)"

definition equalGroup :: "32 word option \<Rightarrow> 32 word option \<Rightarrow> bool" where
  "equalGroup a b =
     (case (a, b) of (None, _) \<Rightarrow> b = None | (_, None) \<Rightarrow> a = None | (Some x, Some y) \<Rightarrow> x = y)"

definition source_policy :: "Source \<Rightarrow> Policy" where
  "source_policy s = (New (source_Name s) (source_HCL s))\<lparr>policy_Revision := source_Revision s\<rparr>"

fun sources_from :: "hcl_lib \<Rightarrow> string list \<Rightarrow> Source list \<Rightarrow> error option" where
  "sources_from hcl seen [] = None"
| "sources_from hcl seen (s # sources) =
     (if source_Name s \<in> set seen then Some (PlainError SourceRepeated)
      else if source_Generation s = 1 \<or> source_Generation s < 0
      then Some (PlainError SourceGenerationInvalid)
      else (case Policy_Validate hcl (source_policy s) of
              Some e \<Rightarrow> Some e
            | None \<Rightarrow> sources_from hcl (source_Name s # seen) sources))"

definition Effective_Validate :: "hcl_lib \<Rightarrow> Effective \<Rightarrow> error option" where
  "Effective_Validate hcl e =
     first_err
       [fail_if (eff_Sources e = []) (PlainError NoSources),
        Settings_Validate (eff_Settings e),
        Contract_Validate (eff_Contract e),
        fail_if (contract_Enforcement (eff_Contract e) \<noteq> settings_Enforcement (Defaults (eff_Settings e))
            \<or> \<not> equalGroup (contract_AccessGroup (eff_Contract e)) (settings_AccessGroup (eff_Settings e)))
          (PlainError SettingsDisagree),
        Policy_Validate hcl ((New ''effective'' [])\<lparr>policy_SSH := eff_SSH e\<rparr>),
        sources_from hcl [] (eff_Sources e)]"

definition policy_source :: "Policy \<Rightarrow> Source" where
  "policy_source p =
     \<lparr>source_Name = policy_Name p, source_Revision = policy_Revision p,
      source_HCL = openbao_Policy (policy_OpenBao p), source_Generation = sourceGeneration p\<rparr>"

definition Runtime :: "hcl_lib \<Rightarrow> Policy \<Rightarrow> Settings \<Rightarrow> Effective" where
  "Runtime hcl p settings =
     (let settings = Defaults settings
      in \<lparr>eff_Sources = [policy_source p],
          eff_OpenBao = \<lparr>openbao_Policy = PublishedHCL hcl p,
                         openbao_AgentTokenRenewal = Some (Policy_AgentRenewal hcl p)\<rparr>,
          eff_SSH = policy_SSH (Policy_Clone p),
          eff_Contract =
            \<lparr>contract_MountTarget = req_MountTarget (policy_Contract p),
             contract_Env = req_Env (policy_Contract (Policy_Clone p)),
             contract_AccessGroup = settings_AccessGroup settings,
             contract_Enforcement = settings_Enforcement settings\<rparr>,
          eff_Settings = settings\<rparr>)"

definition Effective_AgentRenewal :: "hcl_lib \<Rightarrow> Effective \<Rightarrow> bool" where
  "Effective_AgentRenewal hcl e =
     (case openbao_AgentTokenRenewal (eff_OpenBao e) of
        Some renew \<Rightarrow> renew
      | None \<Rightarrow>
          if eff_Sources e \<noteq> [] then list_ex (\<lambda>s. legacyRenewal hcl (source_HCL s)) (eff_Sources e)
          else legacyRenewal hcl (openbao_Policy (eff_OpenBao e)))"

definition policy_heading :: "string \<Rightarrow> int \<Rightarrow> string" where
  "policy_heading name revision = ''# Policy '' @ name @ '' (revision '' @ Itoa revision @ '')'' @ newline"

definition PreviewHCL :: "hcl_lib \<Rightarrow> Effective \<Rightarrow> string" where
  "PreviewHCL hcl e =
     (if openbao_AgentTokenRenewal (eff_OpenBao e) \<noteq> None then openbao_Policy (eff_OpenBao e)
      else if eff_Sources e = []
      then WorkloadHCL hcl (openbao_Policy (eff_OpenBao e)) @ newline
           @ LifecycleHCL (Effective_AgentRenewal hcl e)
      else concat (map (\<lambda>s. policy_heading (source_Name s) (source_Revision s)
             @ WorkloadHCL hcl (source_HCL s) @ newline
             @ LifecycleHCL (legacyRenewal hcl (source_HCL s)) @ newline) (eff_Sources e)))"

section \<open>Compose\<close>

text \<open>
  The variables of the loop. The sets \<^verbatim>\<open>keys\<close>, \<^verbatim>\<open>roles\<close> and so on are lists of the names put into them;
  \<open>namesOf\<close> and \<open>set_size\<close> read them as sets.
\<close>

record compose_state =
  cs_Sources :: "Source list"
  cs_Env :: "(string, string) gomap"
  cs_envSource :: "(string, string) gomap"
  cs_keys :: "string list"
  cs_roles :: "string list"
  cs_restrictedKeys :: "string list"
  cs_restrictedRoles :: "string list"
  cs_seen :: "string list"
  cs_hcl :: string
  cs_renew :: bool

definition compose_start :: compose_state where
  "compose_start =
     \<lparr>cs_Sources = [], cs_Env = [], cs_envSource = [], cs_keys = [], cs_roles = [],
      cs_restrictedKeys = [], cs_restrictedRoles = [], cs_seen = [], cs_hcl = [], cs_renew = False\<rparr>"

definition set_size :: "string list \<Rightarrow> nat" where
  "set_size xs = length (remdups xs)"

definition compose_env :: "Policy \<Rightarrow> string \<times> string \<Rightarrow> compose_state \<Rightarrow> error + compose_state" where
  "compose_env p = (\<lambda>(name, value) st.
     let value = ReplaceAll value mountTargetToken (req_MountTarget (policy_Contract p))
     in case map_of (cs_Env st) name of
          Some old \<Rightarrow>
            if old \<noteq> value
            then Inl (PartError PartContract
                   (EnvConflict name (the (map_of (cs_envSource st) name)) (policy_Name p)))
            else Inr (st\<lparr>cs_Env := AList.update name value (cs_Env st),
                         cs_envSource := AList.update name (policy_Name p) (cs_envSource st)\<rparr>)
        | None \<Rightarrow>
            Inr (st\<lparr>cs_Env := AList.update name value (cs_Env st),
                    cs_envSource := AList.update name (policy_Name p) (cs_envSource st)\<rparr>))"

definition value_missing :: "hcl_lib \<Rightarrow> Settings \<Rightarrow> Policy \<Rightarrow> error option" where
  "value_missing hcl settings p =
     first_err (map (\<lambda>name. fail_if (map_of (settings_Values settings) name = None)
       (PartError PartSelection (ValueMissing (policy_Name p) name))) (ValueNames hcl p))"

definition compose_add :: "hcl_lib \<Rightarrow> Settings \<Rightarrow> Policy \<Rightarrow> compose_state \<Rightarrow> compose_state" where
  "compose_add hcl settings p st =
     (let restricted = (case policy_SSH p of None \<Rightarrow> None | Some ssh \<Rightarrow> ssh_NotForwardable ssh)
      in st\<lparr>cs_hcl := cs_hcl st @ policy_heading (policy_Name p) (policy_Revision p)
              @ expandBindingValues (PublishedHCL hcl p) (settings_Values settings) @ newline,
            cs_renew := cs_renew st \<or> Policy_AgentRenewal hcl p,
            cs_keys := cs_keys st @ TransitKeys p,
            cs_roles := cs_roles st @ CARoles p,
            cs_restrictedKeys := cs_restrictedKeys st
              @ (case restricted of None \<Rightarrow> [] | Some s \<Rightarrow> names_TransitKeys s),
            cs_restrictedRoles := cs_restrictedRoles st
              @ (case restricted of None \<Rightarrow> [] | Some s \<Rightarrow> names_CARoles s)\<rparr>)"

definition compose_policy :: "hcl_lib \<Rightarrow> Policy \<Rightarrow> Settings \<Rightarrow> Policy \<Rightarrow> compose_state \<Rightarrow> error + compose_state" where
  "compose_policy hcl p0 settings p st =
     require (Policy_Validate hcl p)
      (require (fail_if (policy_Name p \<in> set (cs_seen st)) (PartError PartSelection (SelectedTwice (policy_Name p))))
        (let st = st\<lparr>cs_seen := policy_Name p # cs_seen st\<rparr>
         in require (fail_if (req_MountTarget (policy_Contract p) \<noteq> req_MountTarget (policy_Contract p0))
                (PartError PartContract (MountTargetConflict (policy_Name p0) (policy_Name p))))
             (try_bind (fold_try (compose_env p) (req_Env (policy_Contract p)) st)
               (\<lambda>st. let st = st\<lparr>cs_Sources := cs_Sources st @ [policy_source p]\<rparr>
                     in require (value_missing hcl settings p) (Inr (compose_add hcl settings p st))))))"

definition compose_result :: "hcl_lib \<Rightarrow> Policy \<Rightarrow> Settings \<Rightarrow> compose_state \<Rightarrow> Effective" where
  "compose_result hcl p0 settings st =
     (let start = Runtime hcl p0 settings
      in start\<lparr>eff_Sources := cs_Sources st,
               eff_Contract := (eff_Contract start)\<lparr>contract_Env := cs_Env st\<rparr>,
               eff_OpenBao := \<lparr>openbao_Policy = cs_hcl st, openbao_AgentTokenRenewal = Some (cs_renew st)\<rparr>,
               eff_SSH := Some
                 \<lparr>ssh_TransitKeys = namesOf (cs_keys st), ssh_CARoles = namesOf (cs_roles st),
                  ssh_NotForwardable = Some
                    \<lparr>names_TransitKeys = namesOf (filter (\<lambda>k. k \<in> set (cs_keys st)) (cs_restrictedKeys st)),
                     names_CARoles = namesOf (filter (\<lambda>r. r \<in> set (cs_roles st)) (cs_restrictedRoles st))\<rparr>\<rparr>\<rparr>)"

definition Compose :: "hcl_lib \<Rightarrow> Policy list \<Rightarrow> Settings \<Rightarrow> error + Effective" where
  "Compose hcl policies settings =
     (if policies = [] then Inl (PartError PartSelection NothingSelected)
      else
        (let policies = sort_key policy_Name policies;
             p0 = hd policies
         in try_bind (fold_try (compose_policy hcl p0 settings) policies compose_start)
              (\<lambda>st. let result = compose_result hcl p0 settings st
                    in require (fail_if (set_size (cs_keys st) > maximumIdentityNames
                                         \<or> set_size (cs_roles st) > maximumIdentityNames)
                                  (PartError PartSSH EffectiveIdentitiesTooMany))
                         (require (Effective_Validate hcl result) (Inr result)))))"

section \<open>Facts about validation\<close>

lemma located_None [simp]: "located part x = None \<longleftrightarrow> x = None"
  by (simp add: located_def)

lemma Defaults_simps [simp]:
  "settings_AccessGroup (Defaults s) = settings_AccessGroup s"
  "settings_Values (Defaults s) = settings_Values s"
  "Defaults (Defaults s) = Defaults s"
  by (simp_all add: Defaults_def Let_def defaultTokenTTL_def defaultTokenMaxTTL_def EnforcementReport_def)

lemma equalGroup_iff [simp]: "equalGroup a b \<longleftrightarrow> a = b"
  by (auto simp: equalGroup_def split: option.splits)

lemma sources_from_None:
  "sources_from hcl seen ss = None \<longleftrightarrow>
     distinct (map source_Name ss) \<and> set (map source_Name ss) \<inter> set seen = {}
     \<and> (\<forall>s\<in>set ss. source_Generation s \<noteq> 1 \<and> 0 \<le> source_Generation s
          \<and> Policy_Validate hcl (source_policy s) = None)"
  by (induction hcl seen ss rule: sources_from.induct) (auto split: option.splits)

lemma Policy_Validate_name: "Policy_Validate hcl p = None \<Longrightarrow> ValidName (policy_Name p)"
  by (simp add: Policy_Validate_def del: first_err.simps(2))

lemma Effective_Validate_None:
  "Effective_Validate hcl e = None \<longleftrightarrow>
     eff_Sources e \<noteq> [] \<and> Settings_Validate (eff_Settings e) = None
     \<and> Contract_Validate (eff_Contract e) = None
     \<and> contract_Enforcement (eff_Contract e) = settings_Enforcement (Defaults (eff_Settings e))
     \<and> contract_AccessGroup (eff_Contract e) = settings_AccessGroup (eff_Settings e)
     \<and> Policy_Validate hcl ((New ''effective'' [])\<lparr>policy_SSH := eff_SSH e\<rparr>) = None
     \<and> sources_from hcl [] (eff_Sources e) = None"
  unfolding Effective_Validate_def first_err_Cons_None first_err.simps(1) by auto

lemma OpenBaoPolicies_distinct:
  assumes "Effective_Validate hcl e = None"
  shows "distinct (OpenBaoPolicies e)"
proof -
  have s: "sources_from hcl [] (eff_Sources e) = None" using assms by (simp add: Effective_Validate_None)
  then have valid: "ValidName (source_Name x)" if "x \<in> set (eff_Sources e)" for x
    using that Policy_Validate_name[of hcl "source_policy x"]
    by (simp add: sources_from_None) (simp add: source_policy_def New_def Let_def)
  have "inj_on (\<lambda>s. openBaoPolicyName (source_Name s) (source_Generation s)) (set (eff_Sources e))"
  proof (rule inj_onI)
    fix x y assume xy: "x \<in> set (eff_Sources e)" "y \<in> set (eff_Sources e)"
      and eq: "openBaoPolicyName (source_Name x) (source_Generation x) = openBaoPolicyName (source_Name y) (source_Generation y)"
    then have "source_Name x = source_Name y"
      using valid[THEN ValidName_no_double_hyphen] by (simp add: openBaoPolicyName_eq)
    then show "x = y" using s xy by (auto simp: sources_from_None distinct_map dest: inj_onD)
  qed
  then show ?thesis
    using s by (auto simp: OpenBaoPolicies_def sources_from_None distinct_map)
qed

section \<open>Facts about composition\<close>

definition policy_env :: "Policy \<Rightarrow> (string, string) gomap" where
  "policy_env p =
     map (\<lambda>(name, value). (name, ReplaceAll value mountTargetToken (req_MountTarget (policy_Contract p))))
       (req_Env (policy_Contract p))"

definition restricted_keys :: "Policy \<Rightarrow> string list" where
  "restricted_keys p =
     (case policy_SSH p of None \<Rightarrow> []
      | Some ssh \<Rightarrow> (case ssh_NotForwardable ssh of None \<Rightarrow> [] | Some s \<Rightarrow> names_TransitKeys s))"

definition restricted_roles :: "Policy \<Rightarrow> string list" where
  "restricted_roles p =
     (case policy_SSH p of None \<Rightarrow> []
      | Some ssh \<Rightarrow> (case ssh_NotForwardable ssh of None \<Rightarrow> [] | Some s \<Rightarrow> names_CARoles s))"

definition env_merged :: "(string, string) gomap \<Rightarrow> (string \<times> string) list \<Rightarrow> (string, string) gomap \<Rightarrow> bool" where
  "env_merged m es m' \<longleftrightarrow> (\<forall>n x. map_of m' n = Some x \<longleftrightarrow> map_of m n = Some x \<or> (n, x) \<in> set es)"

lemma env_merged_refl: "env_merged m [] m"
  by (simp add: env_merged_def)

lemma env_merged_trans: "env_merged m es m' \<Longrightarrow> env_merged m' fs m'' \<Longrightarrow> env_merged m (es @ fs) m''"
  by (auto simp: env_merged_def)

lemma compose_env_Inr:
  assumes "compose_env p (n, v) st = Inr st'"
  shows "env_merged (cs_Env st) [(n, ReplaceAll v mountTargetToken (req_MountTarget (policy_Contract p)))] (cs_Env st')
    \<and> (\<exists>env src. st' = st\<lparr>cs_Env := env, cs_envSource := src\<rparr>)"
  using assms
  by (auto simp: compose_env_def env_merged_def Let_def split: option.splits if_splits)

lemma compose_env_fold:
  "fold_try (compose_env p) es st = Inr st' \<Longrightarrow>
     env_merged (cs_Env st)
       (map (\<lambda>(n, v). (n, ReplaceAll v mountTargetToken (req_MountTarget (policy_Contract p)))) es) (cs_Env st')
     \<and> (\<exists>env src. st' = st\<lparr>cs_Env := env, cs_envSource := src\<rparr>)"
proof (induction es arbitrary: st)
  case Nil
  then have "st' = st\<lparr>cs_Env := cs_Env st, cs_envSource := cs_envSource st\<rparr>" by simp
  moreover have "env_merged (cs_Env st) [] (cs_Env st')" using Nil by (simp add: env_merged_refl)
  ultimately show ?case by (metis list.map(1))
next
  case (Cons e es)
  obtain n v where e: "e = (n, v)" by (cases e)
  obtain s1 where s1: "compose_env p (n, v) st = Inr s1" "fold_try (compose_env p) es s1 = Inr st'"
    using Cons.prems by (auto simp: e split: sum.splits)
  have "\<exists>env src. st' = st\<lparr>cs_Env := env, cs_envSource := src\<rparr>"
  proof -
    obtain env src env' src' where "s1 = st\<lparr>cs_Env := env, cs_envSource := src\<rparr>"
      "st' = s1\<lparr>cs_Env := env', cs_envSource := src'\<rparr>"
      using conjunct2[OF compose_env_Inr[OF s1(1)]] conjunct2[OF Cons.IH[OF s1(2)]] by blast
    then have "st' = st\<lparr>cs_Env := env', cs_envSource := src'\<rparr>" by simp
    then show ?thesis by blast
  qed
  moreover note env_merged_trans[OF conjunct1[OF compose_env_Inr[OF s1(1)]] conjunct1[OF Cons.IH[OF s1(2)]]]
  ultimately show ?case by (simp add: e)
qed

text \<open>What one policy, and then a list of them, adds to the loop's variables.\<close>

definition composed :: "hcl_lib \<Rightarrow> compose_state \<Rightarrow> Policy list \<Rightarrow> compose_state \<Rightarrow> bool" where
  "composed hcl st ps st' \<longleftrightarrow>
     cs_Sources st' = cs_Sources st @ map policy_source ps
     \<and> cs_keys st' = cs_keys st @ concat (map TransitKeys ps)
     \<and> cs_roles st' = cs_roles st @ concat (map CARoles ps)
     \<and> cs_restrictedKeys st' = cs_restrictedKeys st @ concat (map restricted_keys ps)
     \<and> cs_restrictedRoles st' = cs_restrictedRoles st @ concat (map restricted_roles ps)
     \<and> cs_renew st' = (cs_renew st \<or> list_ex (Policy_AgentRenewal hcl) ps)
     \<and> env_merged (cs_Env st) (concat (map policy_env ps)) (cs_Env st')"

lemma compose_policy_Inr:
  assumes "compose_policy hcl p0 settings p st = Inr st'"
  shows "composed hcl st [p] st'" "Policy_Validate hcl p = None"
    "req_MountTarget (policy_Contract p) = req_MountTarget (policy_Contract p0)"
    "policy_Name p \<notin> set (cs_seen st)" "cs_seen st' = policy_Name p # cs_seen st"
    "set (ValueNames hcl p) \<subseteq> dom (map_of (settings_Values settings))"
proof -
  obtain s1 where s1: "fold_try (compose_env p) (req_Env (policy_Contract p)) (st\<lparr>cs_seen := policy_Name p # cs_seen st\<rparr>) = Inr s1"
    and st': "st' = compose_add hcl settings p (s1\<lparr>cs_Sources := cs_Sources s1 @ [policy_source p]\<rparr>)"
    and ok: "Policy_Validate hcl p = None" "policy_Name p \<notin> set (cs_seen st)"
      "req_MountTarget (policy_Contract p) = req_MountTarget (policy_Contract p0)"
      "value_missing hcl settings p = None"
    using assms by (auto simp: compose_policy_def Let_def)
  have env: "env_merged (cs_Env st) (policy_env p) (cs_Env s1)"
    "\<exists>env src. s1 = st\<lparr>cs_seen := policy_Name p # cs_seen st, cs_Env := env, cs_envSource := src\<rparr>"
    using compose_env_fold[OF s1] by (auto simp: policy_env_def)
  then obtain env src where "s1 = st\<lparr>cs_seen := policy_Name p # cs_seen st, cs_Env := env, cs_envSource := src\<rparr>"
    by blast
  with env(1) show "composed hcl st [p] st'" "cs_seen st' = policy_Name p # cs_seen st"
    unfolding st' compose_add_def composed_def restricted_keys_def restricted_roles_def Let_def
    by (auto split: option.splits)
  show "Policy_Validate hcl p = None" "policy_Name p \<notin> set (cs_seen st)"
    "req_MountTarget (policy_Contract p) = req_MountTarget (policy_Contract p0)" by (fact ok)+
  show "set (ValueNames hcl p) \<subseteq> dom (map_of (settings_Values settings))"
    using ok(4) by (auto simp: value_missing_def)
qed

lemma composed_trans: "composed hcl st ps s1 \<Longrightarrow> composed hcl s1 qs st' \<Longrightarrow> composed hcl st (ps @ qs) st'"
  by (auto simp: composed_def intro: env_merged_trans)

lemma compose_fold_Inr:
  assumes "fold_try (compose_policy hcl p0 settings) ps st = Inr st'"
  shows "composed hcl st ps st'"
    and "\<forall>p\<in>set ps. Policy_Validate hcl p = None
      \<and> req_MountTarget (policy_Contract p) = req_MountTarget (policy_Contract p0)
      \<and> set (ValueNames hcl p) \<subseteq> dom (map_of (settings_Values settings))"
    and "distinct (map policy_Name ps) \<and> set (map policy_Name ps) \<inter> set (cs_seen st) = {}"
  using assms
proof (induction ps arbitrary: st)
  case Nil
  {
    case 1
    then show ?case by (simp add: composed_def env_merged_refl)
  next
    case 2
    then show ?case by simp
  next
    case 3
    then show ?case by simp
  }
next
  case (Cons p ps)
  {
    case 1
    then obtain s1 where s1: "compose_policy hcl p0 settings p st = Inr s1"
      "fold_try (compose_policy hcl p0 settings) ps s1 = Inr st'" by (auto split: sum.splits)
    then show ?case using composed_trans[OF compose_policy_Inr(1)[OF s1(1)] Cons.IH(1)[OF s1(2)]] by simp
  next
    case 2
    then obtain s1 where s1: "compose_policy hcl p0 settings p st = Inr s1"
      "fold_try (compose_policy hcl p0 settings) ps s1 = Inr st'" by (auto split: sum.splits)
    then show ?case using compose_policy_Inr[OF s1(1)] Cons.IH(2)[OF s1(2)] by simp
  next
    case 3
    then obtain s1 where s1: "compose_policy hcl p0 settings p st = Inr s1"
      "fold_try (compose_policy hcl p0 settings) ps s1 = Inr st'" by (auto split: sum.splits)
    then show ?case using compose_policy_Inr(4,5)[OF s1(1)] Cons.IH(3)[OF s1(2)] by auto
  }
qed

lemma Compose_Inr:
  assumes "Compose hcl ps settings = Inr e"
  obtains st p0 where "ps \<noteq> []" "p0 = hd (sort_key policy_Name ps)"
    "composed hcl compose_start (sort_key policy_Name ps) st"
    "\<forall>p\<in>set ps. Policy_Validate hcl p = None
      \<and> req_MountTarget (policy_Contract p) = req_MountTarget (policy_Contract p0)
      \<and> set (ValueNames hcl p) \<subseteq> dom (map_of (settings_Values settings))"
    "distinct (map policy_Name (sort_key policy_Name ps))"
    "e = compose_result hcl p0 settings st" "Effective_Validate hcl e = None"
proof -
  let ?p0 = "hd (sort_key policy_Name ps)"
  obtain st where st: "fold_try (compose_policy hcl ?p0 settings) (sort_key policy_Name ps) compose_start = Inr st"
    and e: "ps \<noteq> []" "e = compose_result hcl ?p0 settings st" "Effective_Validate hcl e = None"
    using assms by (auto simp: Compose_def Let_def split: if_splits)
  show ?thesis
    using that[OF e(1) refl compose_fold_Inr(1)[OF st] _ _ e(2,3)] compose_fold_Inr(2,3)[OF st] by simp
qed

lemma compose_result_simps [simp]:
  "eff_Sources (compose_result hcl p0 settings st) = cs_Sources st"
  "contract_Env (eff_Contract (compose_result hcl p0 settings st)) = cs_Env st"
  "contract_MountTarget (eff_Contract (compose_result hcl p0 settings st)) = req_MountTarget (policy_Contract p0)"
  "openbao_AgentTokenRenewal (eff_OpenBao (compose_result hcl p0 settings st)) = Some (cs_renew st)"
  "eff_TransitKeys (compose_result hcl p0 settings st) = namesOf (cs_keys st)"
  "eff_CARoles (compose_result hcl p0 settings st) = namesOf (cs_roles st)"
  "eff_Settings (compose_result hcl p0 settings st) = Defaults settings"
  by (simp_all add: compose_result_def Runtime_def Let_def eff_TransitKeys_def eff_CARoles_def)

definition not_forwardable :: "Effective \<Rightarrow> SSHIdentityNames" where
  "not_forwardable e =
     (case eff_SSH e of
        Some ssh \<Rightarrow> (case ssh_NotForwardable ssh of Some s \<Rightarrow> s | None \<Rightarrow> \<lparr>names_TransitKeys = [], names_CARoles = []\<rparr>)
      | None \<Rightarrow> \<lparr>names_TransitKeys = [], names_CARoles = []\<rparr>)"

lemma not_forwardable_compose_result [simp]:
  "not_forwardable (compose_result hcl p0 settings st) =
     \<lparr>names_TransitKeys = namesOf (filter (\<lambda>k. k \<in> set (cs_keys st)) (cs_restrictedKeys st)),
      names_CARoles = namesOf (filter (\<lambda>r. r \<in> set (cs_roles st)) (cs_restrictedRoles st))\<rparr>"
  by (simp add: not_forwardable_def compose_result_def Let_def)

lemma openBaoPolicyName_source [simp]:
  "openBaoPolicyName (policy_Name p) (source_Generation (policy_source p)) = OpenBaoPolicyName p"
  by (simp add: policy_source_def sourceGeneration_def OpenBaoPolicyName_def openBaoPolicyName_def)

lemma source_Name_policy_source [simp]: "source_Name (policy_source p) = policy_Name p"
  by (simp add: policy_source_def)

section \<open>Properties\<close>

text \<open>
  C19. A composition that succeeds is the union of its policies and nothing more: it is valid, it
  lists each selected policy once in name order, a token for it carries exactly the OpenBao policies
  the selected documents are published under, each identity of some policy is offered, an identity is
  marked not forwardable exactly when some policy marks it and some policy offers it, renewal is
  granted when some policy grants it, and an environment name has a value exactly when some policy
  gives it that value. So no conflict is ever resolved by choosing a winner.
\<close>

theorem Compose_union:
  assumes "Compose hcl ps settings = Inr e"
  shows "Effective_Validate hcl e = None
    \<and> Names e = sort (map policy_Name ps) \<and> distinct (Names e)
    \<and> distinct (OpenBaoPolicies e) \<and> set (OpenBaoPolicies e) = OpenBaoPolicyName ` set ps
    \<and> set (eff_TransitKeys e) = (\<Union>p\<in>set ps. set (TransitKeys p))
    \<and> set (eff_CARoles e) = (\<Union>p\<in>set ps. set (CARoles p))
    \<and> set (names_TransitKeys (not_forwardable e)) =
        (\<Union>p\<in>set ps. set (restricted_keys p)) \<inter> (\<Union>p\<in>set ps. set (TransitKeys p))
    \<and> set (names_CARoles (not_forwardable e)) =
        (\<Union>p\<in>set ps. set (restricted_roles p)) \<inter> (\<Union>p\<in>set ps. set (CARoles p))
    \<and> Effective_AgentRenewal hcl e = (\<exists>p\<in>set ps. Policy_AgentRenewal hcl p)
    \<and> (\<forall>p\<in>set ps. req_MountTarget (policy_Contract p) = contract_MountTarget (eff_Contract e))
    \<and> (\<forall>n x. map_of (contract_Env (eff_Contract e)) n = Some x \<longleftrightarrow>
          (\<exists>p\<in>set ps. (n, x) \<in> set (policy_env p)))"
proof -
  obtain st and p0 :: Policy where c: "composed hcl compose_start (sort_key policy_Name ps) st"
    and ps: "\<forall>p\<in>set ps. req_MountTarget (policy_Contract p) = req_MountTarget (policy_Contract p0)"
      "distinct (map policy_Name (sort_key policy_Name ps))"
    and e: "e = compose_result hcl p0 settings st" "Effective_Validate hcl e = None"
    using Compose_Inr[OF assms] by metis
  have names: "Names e = map policy_Name (sort_key policy_Name ps)"
    using c by (simp add: e(1) Names_def composed_def compose_start_def comp_def)
  moreover have "map policy_Name (sort_key policy_Name ps) = sort (map policy_Name ps)"
    by (rule properties_for_sort[symmetric]) (simp_all add: mset_map)
  moreover have "set (OpenBaoPolicies e) = OpenBaoPolicyName ` set ps"
    using c by (auto simp: e(1) OpenBaoPolicies_def composed_def compose_start_def)
  moreover have "\<forall>n x. map_of (cs_Env st) n = Some x \<longleftrightarrow> (\<exists>p\<in>set ps. (n, x) \<in> set (policy_env p))"
    using c by (auto simp: composed_def compose_start_def env_merged_def)
  ultimately show ?thesis
    using c ps e(2) OpenBaoPolicies_distinct[OF e(2)] unfolding e(1)
    by (simp add: composed_def compose_start_def Effective_AgentRenewal_def list_ex_iff) blast
qed

text \<open>A library that reads every document as one without stanzas.\<close>

definition no_stanza_hcl :: hcl_lib where
  "no_stanza_hcl =
     \<lparr>hcl_Parse = (\<lambda>s. Some (ObjectList [])), hcl_Value = (\<lambda>t. Some (tok_Text t)),
      hcl_Unquote = (\<lambda>s. Some s), hcl_Fprint = (\<lambda>items. Some []), hcl_Decode = (\<lambda>s. Some [])\<rparr>"

theorem Compose_union_witness:
  "\<exists>e. Compose no_stanza_hcl [New ''b'' [], New ''a'' []] DefaultSettings = Inr e \<and> Names e = [''a'', ''b'']"
proof -
  have "\<not> isl (Compose no_stanza_hcl [New ''b'' [], New ''a'' []] DefaultSettings)" by code_simp
  then obtain e where e: "Compose no_stanza_hcl [New ''b'' [], New ''a'' []] DefaultSettings = Inr e"
    by (cases "Compose no_stanza_hcl [New ''b'' [], New ''a'' []] DefaultSettings") auto
  have "Names e = sort [''b'', ''a'']"
    using Compose_union[OF e] by (simp add: New_def Let_def)
  also have "\<dots> = [''a'', ''b'']" by code_simp
  finally show ?thesis using e by blast
qed

text \<open>
  C20. Composition does not depend on the order in which the policies are given: two selections of
  the same policies, with no name twice, give the same assignment or the same error.
\<close>

theorem Compose_order_independent:
  assumes "mset ps = mset qs" "distinct (map policy_Name ps)"
  shows "Compose hcl ps settings = Compose hcl qs settings"
proof -
  have "sort_key policy_Name ps = sort_key policy_Name qs"
    using assms by (intro sorted_wrt_map_distinct_unique[where f = policy_Name])
      (simp_all add: distinct_map sort_key_inj_key_eq)
  moreover have "ps = [] \<longleftrightarrow> qs = []" using assms(1) by (metis mset.simps(1) mset_zero_iff)
  ultimately show ?thesis by (simp add: Compose_def)
qed

theorem Compose_order_independent_witness:
  "Compose no_stanza_hcl [New ''b'' [], New ''a'' []] DefaultSettings =
   Compose no_stanza_hcl [New ''a'' [], New ''b'' []] DefaultSettings"
  by (rule Compose_order_independent) (simp_all add: New_def Let_def add_mset_commute)



text \<open>
  C28. Every valid policy can be given its values: for the placeholders of a policy that validates
  there is a set of binding values that validates and leaves none of them without a value.
\<close>

theorem valid_policy_bindable:
  assumes "Policy_Validate hcl p = None"
  shows "\<exists>vs. validateBindingValues vs = None
    \<and> value_missing hcl (DefaultSettings\<lparr>settings_Values := vs\<rparr>) p = None"
proof -
  let ?names = "ValueNames hcl p"
  let ?vs = "map (\<lambda>name. (name, ''x'')) ?names"
  have "validateBindingPlaceholders hcl (openbao_Policy (policy_OpenBao p)) = None"
    using assms by (simp add: Policy_Validate_def del: first_err.simps(2))
  then have names: "length ?names \<le> 16" "\<forall>n\<in>set ?names. length n \<le> 64"
    by (simp_all add: validateBindingPlaceholders_None ValueNames_def)
  have pattern: "\<forall>n\<in>set ?names. MatchString bindingValueNamePattern n"
    by (auto simp: ValueNames_def dest: bindingValueUse_names)
  have "go_map ?vs"
    using bindingValueUse_sorted[of hcl "openbao_Policy (policy_OpenBao p)"]
    by (simp add: go_map_def ValueNames_def sorted_names_def comp_def)
  moreover have "MatchString bindingValuePattern ''x''" by code_simp
  ultimately have "validateBindingValues ?vs = None"
    using names pattern by (simp add: validateBindingValues_None list_all_iff value_ok_def)
  moreover have "map_of ?vs n \<noteq> None" if "n \<in> set ?names" for n
    using that by (simp add: map_of_eq_None_iff image_image)
  ultimately show ?thesis
    by (intro exI[of _ ?vs]) (simp add: value_missing_def)
qed

theorem valid_policy_bindable_witness:
  "\<exists>vs. validateBindingValues vs = None
    \<and> value_missing no_stanza_hcl (DefaultSettings\<lparr>settings_Values := vs\<rparr>) (New ''web'' []) = None"
proof -
  have "Policy_Validate no_stanza_hcl (New ''web'' []) = None" by code_simp
  then show ?thesis by (rule valid_policy_bindable)
qed

end
