(* ===== verification/Operator_Grant.thy ===== *)
theory Operator_Grant
  imports Go_Strings Go_Regexp "HOL-Library.Word"
begin

text \<open>
  The public operator package's data (\<^verbatim>\<open>operator/types.go\<close>): labels and SSH usernames of operator
  keys, grants and what they cover, and container keys written as text.

  Shown here: a username is an operator connection for exactly one label; a grant that validates
  covers exactly the bindings its lists spell out; and reading a key inverts writing it.
\<close>

section \<open>Labels and usernames\<close>

definition op_MaximumLineBytes :: nat where
  [simp]: "op_MaximumLineBytes = 1048576"

definition op_MaximumResponseBytes :: nat where
  [simp]: "op_MaximumResponseBytes = 16777216"

definition userPrefix :: string where
  "userPrefix = ''operator:''"

definition maximumLabelBytes :: nat where
  [simp]: "maximumLabelBytes = 64"

definition labelPattern :: rx where
  "labelPattern =
     Seq (Cls [range_AZ, range_az, range_09])
       (Star (Cls [range_AZ, range_az, range_09, only (CHR ''.''), only (CHR ''_''), only (CHR ''-'')]))"

definition ValidLabel :: "string \<Rightarrow> bool" where
  "ValidLabel label = (length label \<le> maximumLabelBytes \<and> MatchString labelPattern label)"

definition User :: "string \<Rightarrow> string" where
  "User label = userPrefix @ label"

definition ParseUser :: "string \<Rightarrow> string option" where
  "ParseUser user =
     (case CutPrefix user userPrefix of
        None \<Rightarrow> None
      | Some label \<Rightarrow> if ValidLabel label then Some label else None)"

section \<open>Grants\<close>

type_synonym Action = string

definition ActionRead :: Action where
  "ActionRead = ''read''"

definition ActionBind :: Action where
  "ActionBind = ''bind''"

definition ActionPolicyWrite :: Action where
  "ActionPolicyWrite = ''policy-write''"

definition Actions :: "Action list" where
  "Actions = [ActionRead, ActionBind, ActionPolicyWrite]"

definition AllNames :: string where
  "AllNames = ''*''"

definition maximumGrantEntries :: nat where
  [simp]: "maximumGrantEntries = 256"

record Grant =
  grant_Agents :: "string list"
  grant_Policies :: "string list"
  grant_Actions :: "Action list"

datatype grant_error =
    NoAction
  | ActionNotSupported string
  | TooManyEntries string
  | MixedAllNames string
  | GrantNameInvalid string string

definition grant_list_error :: "string \<Rightarrow> string list \<Rightarrow> (string \<Rightarrow> bool) \<Rightarrow> grant_error option" where
  "grant_list_error what names valid =
     first_err
       [fail_if (length names > maximumGrantEntries) (TooManyEntries what),
        fail_if (AllNames \<in> set names \<and> length names \<noteq> 1) (MixedAllNames what),
        first_err (map (\<lambda>name. fail_if (name \<noteq> AllNames \<and> \<not> valid name) (GrantNameInvalid what name)) names)]"

definition Grant_Validate :: "Grant \<Rightarrow> (string \<Rightarrow> bool) \<Rightarrow> (string \<Rightarrow> bool) \<Rightarrow> grant_error option" where
  "Grant_Validate grant validAgent validPolicy =
     first_err
       [fail_if (grant_Actions grant = []) NoAction,
        first_err (map (\<lambda>action. fail_if (action \<notin> set Actions) (ActionNotSupported action)) (grant_Actions grant)),
        grant_list_error ''agent'' (grant_Agents grant) validAgent,
        grant_list_error ''policy'' (grant_Policies grant) validPolicy]"

definition listAllows :: "string list \<Rightarrow> string \<Rightarrow> bool" where
  "listAllows xs name = (xs = [AllNames] \<or> name \<in> set xs)"

definition Can :: "Grant \<Rightarrow> Action \<Rightarrow> bool" where
  "Can grant action = (action \<in> set (grant_Actions grant))"

definition AllowsAgent :: "Grant \<Rightarrow> string \<Rightarrow> bool" where
  "AllowsAgent grant name = listAllows (grant_Agents grant) name"

definition AllowsPolicy :: "Grant \<Rightarrow> string \<Rightarrow> bool" where
  "AllowsPolicy grant name = listAllows (grant_Policies grant) name"

definition Covers :: "Grant \<Rightarrow> string \<Rightarrow> string list \<Rightarrow> bool" where
  "Covers grant agent policies = (AllowsAgent grant agent \<and> list_all (AllowsPolicy grant) policies)"

section \<open>Container keys\<close>

type_synonym KeyKind = string

definition KeyDevcontainer :: KeyKind where
  "KeyDevcontainer = ''devcontainer''"

definition KeyCompose :: KeyKind where
  "KeyCompose = ''compose''"

definition KeyName :: KeyKind where
  "KeyName = ''name''"

record op_Key =
  opkey_Kind :: KeyKind
  opkey_Value :: string

definition ParseKey :: "string \<Rightarrow> op_Key option" where
  "ParseKey text =
     (let (kind, value, found) = Cut text (CHR '':'')
      in if \<not> found \<or> value = [] \<or> kind \<notin> set [KeyDevcontainer, KeyCompose, KeyName] then None
         else Some \<lparr>opkey_Kind = kind, opkey_Value = value\<rparr>)"

definition key_text :: "op_Key \<Rightarrow> string" where
  "key_text k = opkey_Kind k @ '':'' @ opkey_Value k"

section \<open>Facts\<close>

lemma ParseUser_Some: "ParseUser user = Some label \<longleftrightarrow> user = User label \<and> ValidLabel label"
  by (auto simp: ParseUser_def User_def CutPrefix_Some split: option.splits)
     (auto simp: CutPrefix_def)

lemma grant_list_error_None:
  "grant_list_error what names valid = None \<longleftrightarrow>
     names = [AllNames]
     \<or> length names \<le> 256 \<and> AllNames \<notin> set names \<and> (\<forall>n\<in>set names. valid n)"
  by (cases names) (auto simp: grant_list_error_def simp del: first_err.simps(2))

lemma kind_no_colon: "k \<in> set [KeyDevcontainer, KeyCompose, KeyName] \<Longrightarrow> CHR '':'' \<notin> set k"
  by (auto simp: KeyDevcontainer_def KeyCompose_def KeyName_def)

lemma Cut_found: "Cut s d = (a, b, True) \<Longrightarrow> s = a @ d # b"
proof -
  assume "Cut s d = (a, b, True)"
  then have "d \<in> set s" "a = takeWhile (\<lambda>c. c \<noteq> d) s" "b = tl (dropWhile (\<lambda>c. c \<noteq> d) s)"
    by (auto simp: Cut_def)
  moreover have "dropWhile (\<lambda>c. c \<noteq> d) s = d # tl (dropWhile (\<lambda>c. c \<noteq> d) s)" if "d \<in> set s"
    using that by (induction s) auto
  ultimately show ?thesis by (metis takeWhile_dropWhile_id)
qed

section \<open>Properties\<close>

text \<open>
  An SSH username stands for an operator connection exactly when it is the username of a valid
  label, and then for that label alone; a username with a colon elsewhere, or none, never does.
\<close>

theorem ParseUser_exact:
  "ParseUser user = Some label \<longleftrightarrow> ValidLabel label \<and> User label = user"
  by (auto simp: ParseUser_Some)

text \<open>
  A grant that validates covers exactly what it spells out: with a list of names, a binding is
  covered only when its agent and every one of its policies are on the lists, and the all-names
  entry never stands beside a name. A binding with one policy outside the list is outside the grant,
  and an empty list permits nothing.
\<close>

theorem Covers_exact:
  assumes "Grant_Validate grant validAgent validPolicy = None"
  shows "Covers grant agent policies \<longleftrightarrow>
    (grant_Agents grant = [AllNames] \<or> agent \<in> set (grant_Agents grant) \<and> validAgent agent)
    \<and> (policies = [] \<or> grant_Policies grant = [AllNames]
       \<or> set policies \<subseteq> set (grant_Policies grant) \<and> (\<forall>p\<in>set policies. validPolicy p))"
proof -
  have "grant_list_error ''agent'' (grant_Agents grant) validAgent = None"
    "grant_list_error ''policy'' (grant_Policies grant) validPolicy = None"
    using assms by (simp_all add: Grant_Validate_def del: first_err.simps(2))
  then show ?thesis
    by (auto simp: grant_list_error_None Covers_def AllowsAgent_def AllowsPolicy_def listAllows_def list_all_iff)
qed

theorem Covers_exact_witness:
  "\<not> Covers \<lparr>grant_Agents = [''host''], grant_Policies = [''web''], grant_Actions = [''bind'']\<rparr> ''host'' [''web'', ''db'']"
proof -
  let ?g = "\<lparr>grant_Agents = [''host''], grant_Policies = [''web''], grant_Actions = [''bind'']\<rparr>"
  have "Grant_Validate ?g (\<lambda>n. n \<noteq> []) (\<lambda>n. n \<noteq> []) = None" by code_simp
  from Covers_exact[OF this, of "''host''" "[''web'', ''db'']"] show ?thesis
    by (simp add: AllNames_def)
qed

text \<open>
  C29. Reading a container key inverts writing it: the text of a key with a known kind and a value
  that is not empty reads back as that key, and every text that is read is the text of its key.
\<close>

theorem ParseKey_roundtrip:
  "ParseKey text = Some k \<longleftrightarrow>
     text = key_text k \<and> opkey_Value k \<noteq> [] \<and> opkey_Kind k \<in> {''devcontainer'', ''compose'', ''name''}"
  (is "?l \<longleftrightarrow> ?r")
proof
  assume ?l
  then show ?r
    by (auto simp: ParseKey_def key_text_def KeyDevcontainer_def KeyCompose_def KeyName_def
        split: prod.splits if_splits dest: Cut_found)
next
  assume r: ?r
  then have "CHR '':'' \<notin> set (opkey_Kind k)"
    by (intro kind_no_colon) (auto simp: KeyDevcontainer_def KeyCompose_def KeyName_def)
  from Cut_word[OF this, of "opkey_Value k"] r show ?l
    by (auto simp: ParseKey_def key_text_def KeyDevcontainer_def KeyCompose_def KeyName_def)
qed

end
