(* ===== verification/Protocol.thy ===== *)
theory Protocol
  imports Composition Operator_Grant
begin

text \<open>
  The messages agents and the controller exchange (\<^verbatim>\<open>internal/protocol/protocol.go\<close>) with their
  validation, and the line reader of a connection (\<^verbatim>\<open>internal/protocol/codec.go\<close>).

  A closed vocabulary is a Go string type with constants, so a value of it may be any string; the
  validation functions compare it with the list of constants. The empty string stands for an absent
  optional field, as in the code. A slice that the code compares with \<^verbatim>\<open>nil\<close> is an option.

  Shown here: identifiers have a bounded, inert form; acknowledgements of valid messages are valid,
  so they can always be sent; and reading a line takes exactly the bytes up to the next newline when
  they fit the bound, and fails otherwise without holding more than the bound in memory.

  The JSON text of messages (\<^verbatim>\<open>Encode\<close>, \<^verbatim>\<open>Decode\<close>) is not modelled, nor the URL check of a policy set;
  the checks of a policy set's bindings are.
\<close>

section \<open>Constants\<close>

definition Version :: int where
  "Version = 2"

definition MaximumLineBytes :: nat where
  [simp]: "MaximumLineBytes = 1048576"

definition maximumKeyValueBytes :: nat where
  [simp]: "maximumKeyValueBytes = 512"

definition maximumContainerNameBytes :: nat where
  [simp]: "maximumContainerNameBytes = 256"

definition maximumImageBytes :: nat where
  [simp]: "maximumImageBytes = 512"

definition maximumContainers :: nat where
  [simp]: "maximumContainers = 1024"

definition maximumKeys :: nat where
  [simp]: "maximumKeys = 3"

definition maximumPathBytes :: nat where
  [simp]: "maximumPathBytes = 4096"

definition idPattern :: rx where
  "idPattern = rx_between 1 64 (Cls [range_az, range_09, only (CHR ''-'')])"

definition accessorPattern :: rx where
  "accessorPattern = rx_between 1 128 (Cls [range_AZ, range_az, range_09, only (CHR ''.'')])"

definition containerIDPattern :: rx where
  "containerIDPattern = rx_times 64 (Cls [range_09, (CHR ''a'', CHR ''f'')])"

definition ValidID :: "string \<Rightarrow> bool" where
  "ValidID value = MatchString idPattern value"

definition ValidAccessor :: "string \<Rightarrow> bool" where
  "ValidAccessor value = MatchString accessorPattern value"

definition ValidContainerID :: "string \<Rightarrow> bool" where
  "ValidContainerID value = MatchString containerIDPattern value"

text \<open>The closed vocabularies.\<close>

definition Types :: "string list" where
  "Types =
     [''hello'', ''inventory'', ''contract-result'', ''credential-request'', ''policy-set'', ''credential'',
      ''recreate-request'', ''unbind'', ''result-recorded'', ''token-accessor'', ''accessor-recorded'',
      ''binding-status'']"

definition KeyKinds :: "KeyKind list" where
  "KeyKinds = [KeyDevcontainer, KeyCompose, KeyName]"

type_synonym State = string

definition States :: "State list" where
  "States = [''created'', ''running'', ''paused'', ''restarting'', ''exited'', ''dead'']"

type_synonym Outcome = string

definition OutcomeConforming :: Outcome where
  "OutcomeConforming = ''conforming''"

definition OutcomeNonConforming :: Outcome where
  "OutcomeNonConforming = ''non-conforming''"

definition OutcomeRecreating :: Outcome where
  "OutcomeRecreating = ''recreating''"

definition OutcomeRecreated :: Outcome where
  "OutcomeRecreated = ''recreated''"

definition OutcomeRecreateFailed :: Outcome where
  "OutcomeRecreateFailed = ''recreate-failed''"

definition Outcomes :: "Outcome list" where
  "Outcomes = [OutcomeConforming, OutcomeNonConforming, OutcomeRecreating, OutcomeRecreated, OutcomeRecreateFailed]"

type_synonym FailedItem = string

definition FailedAccessGroup :: FailedItem where
  "FailedAccessGroup = ''access-group''"

definition FailedItems :: "FailedItem list" where
  "FailedItems =
     [''mount'', ''env'', FailedAccessGroup, ''consumer-directory'', ''socket-access'', ''recreate-not-allowed'']"

type_synonym Reason = string

definition Reasons :: "Reason list" where
  "Reasons = [''engine-error'', ''create-failed'', ''start-failed'']"

type_synonym Socket = string

definition Sockets :: "Socket list" where
  "Sockets = [''vault.sock'', ''ssh-agent.sock'']"

type_synonym TokenState = string

definition TokenValid :: TokenState where
  "TokenValid = ''valid''"

definition TokenStates :: "TokenState list" where
  "TokenStates = [TokenValid, ''expired'', ''none'']"

type_synonym CredentialError = string

definition CredentialErrors :: "CredentialError list" where
  "CredentialErrors = [''openbao-denied'', ''openbao-timeout'', ''openbao-unavailable'']"

section \<open>Messages\<close>

record Key =
  key_Kind :: KeyKind
  key_Value :: string

record Mount =
  mount_Source :: string
  mount_Target :: string

record Container =
  container_ID :: string
  container_Name :: string
  container_State :: State
  container_Image :: string
  container_ConsumerDirectory :: string
  container_Keys :: "Key list"
  container_Mounts :: "Mount list"
  container_EnvNames :: "string list"

record Group =
  group_GID :: "32 word"
  group_Name :: string

record AssignableGroups =
  groups_Groups :: "Group list option"
  groups_Any :: bool

record Hello =
  hello_AssignableGroups :: "AssignableGroups option"
  hello_AgentVersion :: string
  hello_AllowRecreate :: bool

record ContractResult =
  result_Binding :: string
  result_Outcome :: Outcome
  result_FailedItems :: "FailedItem list"
  result_ContainerID :: string
  result_Reason :: Reason

record ResultRecorded =
  recorded_Binding :: string
  recorded_Outcome :: Outcome
  recorded_Reason :: Reason

record TokenAccessor =
  accessor_Assignment :: string
  accessor_Binding :: string
  accessor_Accessor :: string

type_synonym AccessorRecorded = TokenAccessor

record Credential =
  credential_Assignment :: string
  credential_Binding :: string
  credential_AppRoleMount :: string
  credential_RoleID :: string
  credential_WrappedSecretID :: string

record msg_Binding =
  mb_Binding :: string
  mb_Key :: Key
  mb_Policy :: Effective
  mb_Assignment :: string

record ConsumerStatus =
  consumer_Directory :: string
  consumer_ContainerID :: string
  consumer_AccessGroup :: "32 word option"
  consumer_Sockets :: "Socket list"
  consumer_Failed :: FailedItem

record msg_BindingStatus =
  ms_Binding :: string
  ms_Assignment :: string
  ms_Token :: TokenState
  ms_Consumers :: "ConsumerStatus list"
  ms_Outcome :: Outcome
  ms_FailedItems :: "FailedItem list"
  ms_Reason :: Reason
  ms_LastError :: CredentialError

definition Allows :: "AssignableGroups \<Rightarrow> 32 word \<Rightarrow> bool" where
  "Allows g gid =
     (groups_Any g \<or> list_ex (\<lambda>group. group_GID group = gid) (case groups_Groups g of None \<Rightarrow> [] | Some gs \<Rightarrow> gs))"

definition Credential_String :: "Credential \<Rightarrow> string" where
  "Credential_String credential = ''credential('' @ credential_Binding credential @ '')''"

definition TokenAccessor_Acknowledge :: "TokenAccessor \<Rightarrow> AccessorRecorded" where
  "TokenAccessor_Acknowledge report = report"

definition ContractResult_Acknowledge :: "ContractResult \<Rightarrow> ResultRecorded" where
  "ContractResult_Acknowledge result =
     \<lparr>recorded_Binding = result_Binding result, recorded_Outcome = result_Outcome result,
      recorded_Reason = result_Reason result\<rparr>"

section \<open>Validation\<close>

datatype proto_error =
    KeyKindUnsupported string
  | KeyValueLength
  | ContainerIDInvalid
  | ContainerNameLength
  | StateUnsupported string
  | ImageLength
  | KeyCount
  | GroupsMissing
  | GroupNotAssignable
  | InventoryTooLarge
  | BindingIDInvalid
  | OutcomeUnsupported string
  | FailedItemUnsupported string
  | ReasonUnsupported string
  | AssignmentInvalid
  | PolicyInvalid error
  | CredentialIncomplete
  | AccessorInvalid
  | TokenStateUnsupported string
  | ConsumersTooMany
  | CredentialErrorUnsupported string
  | DirectoryLength
  | SocketUnsupported string

definition validateID :: "string \<Rightarrow> proto_error option" where
  "validateID value = fail_if (\<not> ValidID value) BindingIDInvalid"

definition Key_Validate :: "Key \<Rightarrow> proto_error option" where
  "Key_Validate key =
     first_err
       [fail_if (key_Kind key \<notin> set [KeyDevcontainer, KeyCompose, KeyName]) (KeyKindUnsupported (key_Kind key)),
        fail_if (key_Value key = [] \<or> length (key_Value key) > maximumKeyValueBytes) KeyValueLength]"

definition Container_Validate :: "Container \<Rightarrow> proto_error option" where
  "Container_Validate container =
     first_err
       [fail_if (\<not> ValidContainerID (container_ID container)) ContainerIDInvalid,
        fail_if (length (container_Name container) > maximumContainerNameBytes) ContainerNameLength,
        fail_if (container_State container \<notin> set States) (StateUnsupported (container_State container)),
        fail_if (length (container_Image container) > maximumImageBytes) ImageLength,
        fail_if (length (container_Keys container) < 1 \<or> length (container_Keys container) > maximumKeys) KeyCount,
        first_err (map Key_Validate (container_Keys container))]"

definition Hello_Validate :: "Hello \<Rightarrow> proto_error option" where
  "Hello_Validate message =
     (case hello_AssignableGroups message of
        None \<Rightarrow> None
      | Some g \<Rightarrow>
          (case groups_Groups g of
             None \<Rightarrow> Some GroupsMissing
           | Some gs \<Rightarrow> first_err (map (\<lambda>group. fail_if (group_GID group = 4294967295) GroupNotAssignable) gs)))"

definition Inventory_Validate :: "Container list \<Rightarrow> proto_error option" where
  "Inventory_Validate containers =
     first_err
       [fail_if (length containers > maximumContainers) InventoryTooLarge,
        first_err (map Container_Validate containers)]"

definition ContractResult_Validate :: "ContractResult \<Rightarrow> proto_error option" where
  "ContractResult_Validate message =
     first_err
       [validateID (result_Binding message),
        fail_if (result_Outcome message \<notin> set Outcomes) (OutcomeUnsupported (result_Outcome message)),
        first_err (map (\<lambda>item. fail_if (item \<notin> set FailedItems) (FailedItemUnsupported item)) (result_FailedItems message)),
        fail_if (result_ContainerID message \<noteq> [] \<and> \<not> ValidContainerID (result_ContainerID message)) ContainerIDInvalid,
        fail_if (result_Reason message \<noteq> [] \<and> result_Reason message \<notin> set Reasons)
          (ReasonUnsupported (result_Reason message))]"

definition CredentialRequest_Validate :: "string \<Rightarrow> proto_error option" where
  "CredentialRequest_Validate binding = validateID binding"

definition msg_Binding_error :: "hcl_lib \<Rightarrow> msg_Binding \<Rightarrow> proto_error option" where
  "msg_Binding_error hcl b =
     first_err
       [validateID (mb_Binding b), Key_Validate (mb_Key b),
        fail_if (\<not> ValidID (mb_Assignment b)) AssignmentInvalid,
        map_option PolicyInvalid (Effective_Validate hcl (mb_Policy b))]"

definition PolicySet_bindings_error :: "hcl_lib \<Rightarrow> msg_Binding list \<Rightarrow> proto_error option" where
  "PolicySet_bindings_error hcl bindings = first_err (map (msg_Binding_error hcl) bindings)"

definition Credential_Validate :: "Credential \<Rightarrow> proto_error option" where
  "Credential_Validate message =
     first_err
       [validateID (credential_Binding message),
        fail_if (\<not> ValidID (credential_Assignment message)) AssignmentInvalid,
        fail_if (credential_AppRoleMount message = [] \<or> credential_RoleID message = []
            \<or> credential_WrappedSecretID message = []) CredentialIncomplete]"

definition RecreateRequest_Validate :: "string \<Rightarrow> proto_error option" where
  "RecreateRequest_Validate binding = validateID binding"

definition Unbind_Validate :: "string \<Rightarrow> proto_error option" where
  "Unbind_Validate binding = validateID binding"

definition TokenAccessor_Validate :: "TokenAccessor \<Rightarrow> proto_error option" where
  "TokenAccessor_Validate message =
     first_err
       [validateID (accessor_Binding message),
        fail_if (\<not> ValidID (accessor_Assignment message)) AssignmentInvalid,
        fail_if (\<not> ValidAccessor (accessor_Accessor message)) AccessorInvalid]"

definition AccessorRecorded_Validate :: "AccessorRecorded \<Rightarrow> proto_error option" where
  "AccessorRecorded_Validate message = TokenAccessor_Validate message"

definition ConsumerStatus_validate :: "ConsumerStatus \<Rightarrow> proto_error option" where
  "ConsumerStatus_validate consumer =
     first_err
       [fail_if (length (consumer_Directory consumer) > maximumPathBytes) DirectoryLength,
        fail_if (consumer_ContainerID consumer \<noteq> [] \<and> \<not> ValidContainerID (consumer_ContainerID consumer)) ContainerIDInvalid,
        fail_if (consumer_AccessGroup consumer = Some 4294967295) GroupNotAssignable,
        first_err (map (\<lambda>socket. fail_if (socket \<notin> set Sockets) (SocketUnsupported socket)) (consumer_Sockets consumer)),
        fail_if (consumer_Failed consumer \<noteq> [] \<and> consumer_Failed consumer \<notin> set FailedItems)
          (FailedItemUnsupported (consumer_Failed consumer))]"

definition BindingStatus_Validate :: "msg_BindingStatus \<Rightarrow> proto_error option" where
  "BindingStatus_Validate message =
     first_err
       [validateID (ms_Binding message),
        fail_if (\<not> ValidID (ms_Assignment message)) AssignmentInvalid,
        fail_if (ms_Token message \<notin> set TokenStates) (TokenStateUnsupported (ms_Token message)),
        fail_if (length (ms_Consumers message) > maximumContainers) ConsumersTooMany,
        first_err (map ConsumerStatus_validate (ms_Consumers message)),
        fail_if (ms_Outcome message \<noteq> [] \<and> ms_Outcome message \<notin> set Outcomes) (OutcomeUnsupported (ms_Outcome message)),
        first_err (map (\<lambda>item. fail_if (item \<notin> set FailedItems) (FailedItemUnsupported item)) (ms_FailedItems message)),
        fail_if (ms_Reason message \<noteq> [] \<and> ms_Reason message \<notin> set Reasons) (ReasonUnsupported (ms_Reason message)),
        fail_if (ms_LastError message \<noteq> [] \<and> ms_LastError message \<notin> set CredentialErrors)
          (CredentialErrorUnsupported (ms_LastError message))]"

definition ResultRecorded_Validate :: "ResultRecorded \<Rightarrow> proto_error option" where
  "ResultRecorded_Validate message =
     ContractResult_Validate
       \<lparr>result_Binding = recorded_Binding message, result_Outcome = recorded_Outcome message,
        result_FailedItems = [], result_ContainerID = [], result_Reason = recorded_Reason message\<rparr>"

section \<open>Required fields of a message\<close>

definition requiredFields :: "(string, string list) gomap" where
  "requiredFields =
     [(''hello'', [''allow-recreate'']),
      (''inventory'', [''containers'']),
      (''contract-result'', [''binding'', ''outcome'']),
      (''credential-request'', [''binding'']),
      (''policy-set'', [''openbao'', ''bindings'']),
      (''credential'', [''binding'', ''assignment'', ''approle-mount'', ''role-id'', ''wrapped-secret-id'']),
      (''recreate-request'', [''binding'']),
      (''unbind'', [''binding'']),
      (''result-recorded'', [''binding'', ''outcome'']),
      (''token-accessor'', [''binding'', ''assignment'', ''accessor'']),
      (''accessor-recorded'', [''binding'', ''assignment'', ''accessor'']),
      (''binding-status'', [''binding'', ''assignment'', ''token'', ''consumers''])]"

definition requireFields :: "string \<Rightarrow> string list \<Rightarrow> string option" where
  "requireFields messageType present =
     find (\<lambda>name. name \<notin> set present)
       (case map_of requiredFields messageType of None \<Rightarrow> [] | Some names \<Rightarrow> names)"

section \<open>Reading a line\<close>

text \<open>
  The stream still to be read is a byte list that ends where the peer closed it. \<^verbatim>\<open>ReadSlice\<close> gives
  the bytes through the next newline when it is among the next \<open>bufsize\<close> bytes, a full buffer and
  \<^verbatim>\<open>ErrBufferFull\<close> when it is not, and what is left with \<^verbatim>\<open>io.EOF\<close> at the end.
\<close>

definition line_feed :: char where
  "line_feed = CHR 0x0A"

datatype read_status = SliceLine | SliceFull | SliceEOF

definition ReadSlice :: "nat \<Rightarrow> string \<Rightarrow> string \<times> read_status \<times> string" where
  "ReadSlice bufsize input =
     (let line = takeWhile (\<lambda>c. c \<noteq> line_feed) input
      in if line_feed \<in> set input \<and> length line < bufsize
         then (line @ [line_feed], SliceLine, drop (length line + 1) input)
         else if bufsize \<le> length input
         then (take bufsize input, SliceFull, drop bufsize input)
         else (input, SliceEOF, []))"

datatype receive_result = Line string string | LineTooLong | UnexpectedEOF | EndOfStream

function receive_line :: "nat \<Rightarrow> nat \<Rightarrow> string \<Rightarrow> string \<Rightarrow> receive_result" where
  "receive_line bufsize maximum line input =
     (if bufsize = 0 then EndOfStream
      else
        (let (fragment, status, rest) = ReadSlice bufsize input
         in if length line + length fragment > maximum then LineTooLong
            else
              (let line = line @ fragment
               in case status of
                    SliceLine \<Rightarrow> Line (butlast line) rest
                  | SliceFull \<Rightarrow> receive_line bufsize maximum line rest
                  | SliceEOF \<Rightarrow> if line \<noteq> [] then UnexpectedEOF else EndOfStream)))"
  by pat_completeness auto
termination
  by (relation "measure (\<lambda>(b, m, l, i). length i)")
     (auto simp: ReadSlice_def Let_def split: if_splits)

declare receive_line.simps [simp del]

definition readerSize :: nat where
  [simp]: "readerSize = 65536"

definition Conn_Receive_line :: "string \<Rightarrow> receive_result" where
  "Conn_Receive_line input = receive_line readerSize MaximumLineBytes [] input"

section \<open>Facts\<close>

lemma ValidID_iff:
  "ValidID s \<longleftrightarrow> 1 \<le> length s \<and> length s \<le> 64
     \<and> (\<forall>c\<in>set s. in_class [range_az, range_09, only (CHR ''-'')] c)"
  by (simp add: ValidID_def idPattern_def MatchString_iff lang_between_class del: in_class_simps)

lemma ValidAccessor_iff:
  "ValidAccessor s \<longleftrightarrow> 1 \<le> length s \<and> length s \<le> 128
     \<and> (\<forall>c\<in>set s. in_class [range_AZ, range_az, range_09, only (CHR ''.'')] c)"
  by (simp add: ValidAccessor_def accessorPattern_def MatchString_iff lang_between_class del: in_class_simps)

lemma ValidContainerID_iff:
  "ValidContainerID s \<longleftrightarrow> length s = 64 \<and> (\<forall>c\<in>set s. in_class [range_09, (CHR ''a'', CHR ''f'')] c)"
  by (simp add: ValidContainerID_def containerIDPattern_def MatchString_iff lang_times_class del: in_class_simps)

lemma validateID_None [simp]: "validateID s = None \<longleftrightarrow> ValidID s"
  by (simp add: validateID_def)

lemma no_line_feed_takeWhile: "line_feed \<notin> set s \<Longrightarrow> takeWhile (\<lambda>c. c \<noteq> line_feed) s = s"
  by (induction s) auto

lemma takeWhile_line_feed_drop:
  assumes "length (takeWhile (\<lambda>c. c \<noteq> line_feed) s) \<ge> n"
  shows "takeWhile (\<lambda>c. c \<noteq> line_feed) s = take n s @ takeWhile (\<lambda>c. c \<noteq> line_feed) (drop n s)"
    "line_feed \<in> set s \<longleftrightarrow> line_feed \<in> set (drop n s)"
proof -
  let ?t = "takeWhile (\<lambda>c. c \<noteq> line_feed)"
  have "take n s = take n (?t s @ dropWhile (\<lambda>c. c \<noteq> line_feed) s)"
    by (simp only: takeWhile_dropWhile_id)
  also have "\<dots> = take n (?t s)" using assms by (simp only: take_append) simp
  finally have none: "line_feed \<notin> set (take n s)"
    by (metis in_set_takeD set_takeWhileD)
  have "?t (take n s @ drop n s) = take n s @ ?t (drop n s)"
    using none by (intro takeWhile_append2) blast
  then show "?t s = take n s @ ?t (drop n s)" by (simp only: append_take_drop_id)
  have "set s = set (take n s) \<union> set (drop n s)"
    by (simp only: set_append[symmetric] append_take_drop_id)
  then show "line_feed \<in> set s \<longleftrightarrow> line_feed \<in> set (drop n s)"
    using none by blast
qed

definition line_spec :: "nat \<Rightarrow> string \<Rightarrow> string \<Rightarrow> receive_result" where
  "line_spec maximum line input =
     (let n = takeWhile (\<lambda>c. c \<noteq> line_feed) input
      in if line_feed \<in> set input
         then if length line + length n + 1 \<le> maximum then Line (line @ n) (drop (length n + 1) input) else LineTooLong
         else if length line + length input > maximum then LineTooLong
         else if line @ input = [] then EndOfStream else UnexpectedEOF)"

lemma receive_line_spec:
  "0 < bufsize \<Longrightarrow> receive_line bufsize maximum line input = line_spec maximum line input"
proof (induction bufsize maximum line input rule: receive_line.induct)
  case (1 b m line input)
  let ?n = "takeWhile (\<lambda>c. c \<noteq> line_feed) input"
  have len: "length ?n \<le> length input" by (rule length_takeWhile_le)
  consider "line_feed \<in> set input" "length ?n < b" | "b \<le> length ?n" "b \<le> length input"
    | "line_feed \<notin> set input" "length input < b"
    using len no_line_feed_takeWhile[of input] by (metis leI le_trans)
  then show ?case
  proof cases
    case 1
    then show ?thesis
      using \<open>0 < b\<close> by (simp add: receive_line.simps[of b] ReadSlice_def line_spec_def Let_def butlast_append)
  next
    case 2
    note split = takeWhile_line_feed_drop[OF 2(1)]
    have rs: "ReadSlice b input = (take b input, SliceFull, drop b input)"
      using 2 by (simp add: ReadSlice_def Let_def)
    show ?thesis
    proof (cases "length line + b > m")
      case True
      then show ?thesis
        using 2 \<open>0 < b\<close> by (auto simp: receive_line.simps[of b] rs line_spec_def Let_def)
    next
      case False
      have "receive_line b m line input = line_spec m (line @ take b input) (drop b input)"
        using "1.IH"[OF _ rs[symmetric] refl refl] False 2 \<open>0 < b\<close>
        by (simp add: receive_line.simps[of b m line] rs)
      also have "\<dots> = line_spec m line input"
        using 2 split by (auto simp: line_spec_def Let_def add.commute)
      finally show ?thesis .
    qed
  next
    case 3
    then show ?thesis
      using \<open>0 < b\<close> no_line_feed_takeWhile[OF 3(1)]
      by (simp add: receive_line.simps[of b] ReadSlice_def line_spec_def Let_def)
  qed
qed

section \<open>Properties\<close>

text \<open>
  C30. Receiving reads exactly one line: when the next newline is within the first 1048576 bytes of
  the stream, the line before it is returned and the rest of the stream, after the newline, is left;
  a longer line fails as too long; a stream that ends inside a line fails as truncated, and an empty
  stream is the end. The buffer size never shows, so lines longer than the buffer read the same.
\<close>

theorem Conn_Receive_line_exact:
  "Conn_Receive_line input =
     (let n = takeWhile (\<lambda>c. c \<noteq> line_feed) input
      in if line_feed \<in> set input
         then if length n < 1048576 then Line n (drop (length n + 1) input) else LineTooLong
         else if length input > 1048576 then LineTooLong
         else if input = [] then EndOfStream else UnexpectedEOF)"
  by (simp add: Conn_Receive_line_def receive_line_spec line_spec_def Let_def Suc_le_eq)

text \<open>
  Identifiers, accessors and container identifiers that validate are bounded and inert: at
  most 64, 128 and exactly 64 bytes of letters, digits, hyphens and dots, so they can be placed in
  paths and queries as they are.
\<close>

theorem identifiers_inert:
  "(ValidID s \<longrightarrow> s \<noteq> [] \<and> length s \<le> 64) \<and> (ValidAccessor s \<longrightarrow> s \<noteq> [] \<and> length s \<le> 128)
   \<and> (ValidContainerID s \<longrightarrow> length s = 64)
   \<and> (ValidID s \<or> ValidAccessor s \<or> ValidContainerID s \<longrightarrow>
       \<not> ContainsAny s [slash, line_feed, CHR 0x22, CHR 0x20, CHR ''%'', CHR 0x00, CHR '':''])"
proof -
  have "in_class [range_AZ, range_az, range_09, only (CHR ''-''), only (CHR ''.'')] c"
    if "ValidID s \<or> ValidAccessor s \<or> ValidContainerID s" "c \<in> set s" for c
  proof -
    have "c \<le> CHR ''f'' \<Longrightarrow> c \<le> CHR ''z''" by (auto simp: less_eq_char_def)
    then have
      "in_class [range_az, range_09, only (CHR ''-'')] c
        \<or> in_class [range_AZ, range_az, range_09, only (CHR ''.'')] c
        \<or> in_class [range_09, (CHR ''a'', CHR ''f'')] c \<Longrightarrow> ?thesis"
      by auto
    then show ?thesis
      using that unfolding ValidID_iff ValidAccessor_iff ValidContainerID_iff by blast
  qed
  moreover have "\<forall>c\<in>set [slash, line_feed, CHR 0x22, CHR 0x20, CHR ''%'', CHR 0x00, CHR '':''].
      \<not> in_class [range_AZ, range_az, range_09, only (CHR ''-''), only (CHR ''.'')] c"
    by code_simp
  ultimately have "\<not> ContainsAny s [slash, line_feed, CHR 0x22, CHR 0x20, CHR ''%'', CHR 0x00, CHR '':'']"
    if "ValidID s \<or> ValidAccessor s \<or> ValidContainerID s"
    using that unfolding ContainsAny_iff by blast
  moreover have "ValidID s \<Longrightarrow> s \<noteq> []" "ValidAccessor s \<Longrightarrow> s \<noteq> []"
    by (auto simp: ValidID_iff ValidAccessor_iff simp del: in_class_simps)
  ultimately show ?thesis
    unfolding ValidID_iff ValidAccessor_iff ValidContainerID_iff by blast
qed

theorem identifiers_inert_witness:
  "ValidID ''b-01'' \<and> \<not> ContainsAny ''b-01'' [slash, line_feed, CHR 0x22, CHR 0x20, CHR ''%'', CHR 0x00, CHR '':'']"
proof -
  have "ValidID ''b-01''" unfolding ValidID_iff by (simp add: less_eq_char_def)
  then show ?thesis using identifiers_inert[of "''b-01''"] by blast
qed

text \<open>
  The acknowledgement of a valid report is valid and echoes it, so the controller can always
  send it: a token accessor's, and a contract result's whatever items it lists.
\<close>

theorem acknowledgements_valid:
  "(TokenAccessor_Validate report = None \<longrightarrow> AccessorRecorded_Validate (TokenAccessor_Acknowledge report) = None)
   \<and> (ContractResult_Validate result = None \<longrightarrow> ResultRecorded_Validate (ContractResult_Acknowledge result) = None)"
  by (auto simp: AccessorRecorded_Validate_def TokenAccessor_Acknowledge_def ResultRecorded_Validate_def
      ContractResult_Acknowledge_def ContractResult_Validate_def simp del: first_err.simps(2))

end
