(* ===== verification/Go_Utf8.thy ===== *)
theory Go_Utf8
  imports Go_Strings "HOL-Library.Word"
begin

text \<open>
  The parts of Go's library that the event store reads bytes with: UTF-8 validity of a
  string (package \<^verbatim>\<open>unicode/utf8\<close>), big-endian 32-bit integers (\<^verbatim>\<open>encoding/binary\<close>) and the
  Castagnoli checksum (\<^verbatim>\<open>hash/crc32\<close>).
\<close>

unbundle bit_operations_syntax

section \<open>UTF-8\<close>

definition byte_in :: "nat \<Rightarrow> nat \<Rightarrow> char \<Rightarrow> bool" where
  "byte_in l h c \<longleftrightarrow> l \<le> of_char c \<and> of_char c \<le> h"

text \<open>The tables of the language standard: the first byte of a character fixes its length
  and the range of its second byte; every further byte is a continuation byte.\<close>

definition second_range :: "char \<Rightarrow> (nat \<times> nat \<times> nat) option" where
  "second_range c =
    (if byte_in 0xC2 0xDF c then Some (0x80, 0xBF, 0)
     else if byte_in 0xE0 0xE0 c then Some (0xA0, 0xBF, 1)
     else if byte_in 0xE1 0xEC c \<or> byte_in 0xEE 0xEF c then Some (0x80, 0xBF, 1)
     else if byte_in 0xED 0xED c then Some (0x80, 0x9F, 1)
     else if byte_in 0xF0 0xF0 c then Some (0x90, 0xBF, 2)
     else if byte_in 0xF1 0xF3 c then Some (0x80, 0xBF, 2)
     else if byte_in 0xF4 0xF4 c then Some (0x80, 0x8F, 2)
     else None)"

fun ValidString :: "string \<Rightarrow> bool" where
  "ValidString [] = True"
| "ValidString (c # s) =
    (if byte_in 0 0x7F c then ValidString s
     else case second_range c of
       None \<Rightarrow> False
     | Some (l, h, k) \<Rightarrow>
        (case s of
          [] \<Rightarrow> False
        | d # t \<Rightarrow> byte_in l h d \<and> k \<le> length t \<and> list_all (byte_in 0x80 0xBF) (take k t)
            \<and> ValidString (drop k t)))"

lemma ValidString_ascii: "list_all (byte_in 0 0x7F) s \<Longrightarrow> ValidString s"
  by (induction s) auto

lemma ValidString_ascii_append:
  "list_all (byte_in 0 0x7F) s \<Longrightarrow> ValidString (s @ t) = ValidString t"
  by (induction s) auto

section \<open>Big-endian integers\<close>

definition PutUint32 :: "32 word \<Rightarrow> string" where
  "PutUint32 w = map (\<lambda>k. char_of (unat w div 2 ^ k mod 256)) [24, 16, 8, 0]"

definition Uint32 :: "string \<Rightarrow> 32 word" where
  "Uint32 s = word_of_nat (foldl (\<lambda>n c. 256 * n + of_char c) 0 s)"

lemma length_PutUint32 [simp]: "length (PutUint32 w) = 4"
  by (simp add: PutUint32_def)

lemma bytes_of_nat:
  fixes n :: nat
  shows "16777216 * (n div 16777216) + 65536 * (n div 65536 mod 256) + 256 * (n div 256 mod 256) + n mod 256 = n"
proof -
  have "256 * (n div 16777216) + n div 65536 mod 256 = n div 65536"
    using mult_div_mod_eq[of 256 "n div 65536"] by (simp flip: div_mult2_eq)
  moreover have "256 * (n div 65536) + n div 256 mod 256 = n div 256"
    using mult_div_mod_eq[of 256 "n div 256"] by (simp flip: div_mult2_eq)
  moreover have "256 * (n div 256) + n mod 256 = n"
    by simp
  ultimately show ?thesis
    by linarith
qed

lemma Uint32_PutUint32 [simp]: "Uint32 (PutUint32 w) = w"
proof -
  have "unat w < 2 ^ 32"
    using unsigned_less[of w, where ?'a = nat] by simp
  then have "unat w div 16777216 mod 256 = unat w div 16777216"
    by (simp add: less_mult_imp_div_less)
  then have "foldl (\<lambda>n c. 256 * n + of_char c) 0 (PutUint32 w) = unat w"
    using bytes_of_nat[of "unat w"] by (simp add: PutUint32_def)
  then show ?thesis
    by (simp add: Uint32_def)
qed

section \<open>CRC-32C\<close>

definition crc_shift :: "32 word \<Rightarrow> 32 word" where
  "crc_shift c = (if bit c 0 then drop_bit 1 c XOR 0x82F63B78 else drop_bit 1 c)"

definition crc_byte :: "32 word \<Rightarrow> char \<Rightarrow> 32 word" where
  "crc_byte c b = (crc_shift ^^ 8) (c XOR of_char b)"

definition crc32c :: "string \<Rightarrow> 32 word" where
  "crc32c s = NOT (foldl crc_byte (NOT 0) s)"

lemma crc32c_check_value: "crc32c ''a'' = 0xC1D04330"
  by code_simp

end
