(* ===== verification/Events.thy ===== *)
theory Events
  imports Go_Utf8 Go_Regexp
begin

text \<open>
  Operational events (\<^verbatim>\<open>internal/events\<close>): the closed vocabulary and its validation
  (\<^verbatim>\<open>event.go\<close>), the framed file format (\<^verbatim>\<open>format.go\<close>), the durable bounded store
  (\<^verbatim>\<open>store.go\<close>) and the projections read from it (\<^verbatim>\<open>projection.go\<close>).

  A time is its instant in nanoseconds. The text of a time and the JSON text of a record are
  the work of \<^verbatim>\<open>time\<close> and \<^verbatim>\<open>encoding/json\<close> and are the parameter \<open>text_lib\<close> of the
  definitions; SHA-256 is the parameter of \<open>ContainerKey\<close>. A file is its bytes; where a
  system call can fail, the operation takes what the call does as an argument.
\<close>

section \<open>Vocabulary\<close>

definition maximumAgentBytes :: nat where
  "maximumAgentBytes = 253"

definition maximumContainerKeyBytes :: nat where
  "maximumContainerKeyBytes = 512"

definition maximumPolicyBytes :: nat where
  "maximumPolicyBytes = 64"

definition maximumOperatorBytes :: nat where
  "maximumOperatorBytes = 255"

definition bindingPattern :: rx where
  "bindingPattern = rx_between 1 64 (Cls [range_az, range_09, only CHR ''-''])"

definition fingerprintPattern :: rx where
  "fingerprintPattern =
     rx_seqs [rx_str ''SHA256:'',
       rx_times 42 (Cls [range_AZ, range_az, range_09, only CHR ''+'', only CHR ''/'']),
       Cls (map only ''AEIMQUYcgkosw048'')]"

definition ev_Operations :: "string list" where
  "ev_Operations =
    [''container-observed'', ''container-gone'', ''binding-received'', ''binding-retired'',
     ''contract-checked'', ''recreate-begun'', ''recreate-finished'', ''container-started'',
     ''login'', ''renew'', ''revoke'', ''vault-request'',
     ''ssh-list'', ''ssh-sign'', ''ssh-certificate'', ''ssh-session-bind'',
     ''agent-approved'', ''agent-rejected'', ''session-opened'', ''session-closed'',
     ''policy-saved'', ''policy-deleted'', ''policy-renamed'', ''binding-created'', ''binding-changed'', ''binding-deleted'',
     ''credential-issued'', ''recreate-requested'',
     ''operator-signed-in'', ''operator-signed-out'',
     ''operator-key-approved'', ''operator-key-rejected'', ''operator-key-revoked'']"

definition OutcomeOK :: string where
  "OutcomeOK = ''ok''"

definition OutcomeDenied :: string where
  "OutcomeDenied = ''denied''"

definition OutcomeFailed :: string where
  "OutcomeFailed = ''failed''"

definition OutcomeTimeout :: string where
  "OutcomeTimeout = ''timeout''"

definition ev_Outcomes :: "string list" where
  "ev_Outcomes = [OutcomeOK, OutcomeDenied, OutcomeFailed, OutcomeTimeout]"

definition ErrorNone :: string where
  "ErrorNone = []"

definition ErrorCodes :: "string list" where
  "ErrorCodes =
    [''engine-unavailable'', ''controller-unavailable'', ''openbao-unavailable'', ''openbao-denied'',
     ''openbao-timeout'', ''no-token'', ''not-bound'', ''policy-denied'', ''recreate-not-allowed'',
     ''identity-provider-unavailable'', ''operator-not-allowed'', ''sign-in-invalid'', ''outside-grant'',
     ''protocol'', ''internal'']"

definition Mounts :: "string list" where
  "Mounts = [''kv'', ''transit'', ''ssh'', ''sys'', ''auth'', ''other'']"

definition Methods :: "string list" where
  "Methods = [''GET'', ''LIST'', ''POST'', ''PUT'', ''DELETE'']"

record Event =
  ev_Time :: int
  ev_Operation :: string
  ev_Outcome :: string
  ev_Latency :: "64 word"
  ev_ErrorCode :: string
  ev_Agent :: string
  ev_Binding :: string
  ev_ContainerKey :: string
  ev_Policy :: string
  ev_NewPolicy :: string
  ev_Operator :: string
  ev_Fingerprint :: string
  ev_Mount :: string
  ev_Method :: string

record Record =
  rec_Time :: string
  rec_Operation :: string
  rec_Outcome :: string
  rec_LatencyNS :: "64 word"
  rec_Error :: string
  rec_Agent :: string
  rec_Binding :: string
  rec_ContainerKey :: string
  rec_Policy :: string
  rec_NewPolicy :: string
  rec_Operator :: string
  rec_Fingerprint :: string
  rec_Mount :: string
  rec_Method :: string

text \<open>What \<^verbatim>\<open>time\<close> and \<^verbatim>\<open>encoding/json\<close> do: \<open>format_time\<close> and \<open>parse_time\<close> are
  \<^verbatim>\<open>Format\<close> and \<^verbatim>\<open>Parse\<close> with the layout \<^verbatim>\<open>RFC3339Nano\<close>; \<open>json_marshal\<close> is \<^verbatim>\<open>json.Marshal\<close> of a
  record; \<open>json_keys\<close> is \<^verbatim>\<open>json.Unmarshal\<close> into a map, of which the keys are read;
  \<open>json_decode\<close> is a decoder's first \<^verbatim>\<open>Decode\<close> into a record with unknown fields refused,
  giving the input left; \<open>json_at_end\<close> tells whether a further \<^verbatim>\<open>Decode\<close> reports the end.\<close>

record text_lib =
  format_time :: "int \<Rightarrow> string"
  parse_time :: "string \<Rightarrow> int option"
  json_marshal :: "Record \<Rightarrow> string"
  json_keys :: "string \<Rightarrow> string list option"
  json_decode :: "string \<Rightarrow> (Record \<times> string) option"
  json_at_end :: "string \<Rightarrow> bool"

datatype event_error =
    TimestampRequired
  | TimestampRange
  | OperationUnsupported string
  | EventOutcomeUnsupported string
  | LatencyNegative
  | ErrorCodeUnsupported string
  | SuccessWithError
  | FailureWithoutError
  | TextTooLong string
  | TextNotUTF8 string
  | TextControl string
  | EventBindingInvalid
  | ContainerKeyPath
  | FingerprintInvalid
  | MountUnsupported string
  | MethodUnsupported string
  | EventTimeInvalid
  | EncodedTooLong
  | NotAnObject
  | PropertyAbsent string
  | RecordInvalid
  | TrailingValue
  | Corrupt_header
  | Corrupt_length nat
  | Corrupt_checksum nat
  | Corrupt_event nat event_error
  | PathNUL
  | PathNotCanonical
  | PathAtRoot
  | RetentionRange
  | StoreClosed
  | WriteFailed
  | SyncFailed
  | TruncateFailed
  | ReplaceFailed

section \<open>Validation\<close>

text \<open>The zero \<^verbatim>\<open>time.Time\<close>, the first instant of the year 1, in nanoseconds since 1970.\<close>

definition zero_time :: int where
  "zero_time = - 62135596800 * 1000000000"

definition normalizeTimestamp :: "text_lib \<Rightarrow> int \<Rightarrow> event_error + int" where
  "normalizeTimestamp lib timestamp =
     (if timestamp = zero_time then Inl TimestampRequired
      else let representation = format_time lib timestamp in
        case parse_time lib representation of
          None \<Rightarrow> Inl TimestampRange
        | Some normalized \<Rightarrow>
            if normalized \<noteq> timestamp \<or> format_time lib normalized \<noteq> representation
            then Inl TimestampRange else Inr normalized)"

definition control_char :: "char \<Rightarrow> bool" where
  "control_char c \<longleftrightarrow> byte_in 0 0x1F c \<or> byte_in 0x7F 0x7F c"

text \<open>In valid UTF-8 a character below \<^verbatim>\<open>0x80\<close> is a byte and no other character has such a
  byte, so the loop over characters is a loop over bytes.\<close>

definition boundedText :: "string \<Rightarrow> string \<Rightarrow> nat \<Rightarrow> event_error option" where
  "boundedText name value maximum =
     first_err
       [fail_if (length value > maximum) (TextTooLong name),
        fail_if (\<not> ValidString value) (TextNotUTF8 name),
        fail_if (list_ex control_char value) (TextControl name)]"

definition error_of :: "'e + 'a \<Rightarrow> 'e option" where
  "error_of r = (case r of Inl e \<Rightarrow> Some e | Inr _ \<Rightarrow> None)"

definition Event_Validate :: "text_lib \<Rightarrow> Event \<Rightarrow> event_error option" where
  "Event_Validate lib event =
     first_err
       [error_of (normalizeTimestamp lib (ev_Time event)),
        fail_if (ev_Operation event \<notin> set ev_Operations) (OperationUnsupported (ev_Operation event)),
        fail_if (ev_Outcome event \<notin> set ev_Outcomes) (EventOutcomeUnsupported (ev_Outcome event)),
        fail_if (sint (ev_Latency event) < 0) LatencyNegative,
        fail_if (ev_ErrorCode event \<noteq> ErrorNone \<and> ev_ErrorCode event \<notin> set ErrorCodes)
          (ErrorCodeUnsupported (ev_ErrorCode event)),
        fail_if (ev_Outcome event = OutcomeOK \<and> ev_ErrorCode event \<noteq> ErrorNone) SuccessWithError,
        fail_if (ev_Outcome event \<noteq> OutcomeOK \<and> ev_ErrorCode event = ErrorNone) FailureWithoutError,
        boundedText ''agent'' (ev_Agent event) maximumAgentBytes,
        fail_if (ev_Binding event \<noteq> [] \<and> \<not> MatchString bindingPattern (ev_Binding event)) EventBindingInvalid,
        boundedText ''container key'' (ev_ContainerKey event) maximumContainerKeyBytes,
        fail_if (Contains (ev_ContainerKey event) ''/'' \<and> \<not> HasPrefix (ev_ContainerKey event) ''compose:'') ContainerKeyPath,
        boundedText ''policy'' (ev_Policy event) maximumPolicyBytes,
        boundedText ''new policy'' (ev_NewPolicy event) maximumPolicyBytes,
        boundedText ''operator'' (ev_Operator event) maximumOperatorBytes,
        fail_if (ev_Fingerprint event \<noteq> [] \<and> \<not> MatchString fingerprintPattern (ev_Fingerprint event)) FingerprintInvalid,
        fail_if (ev_Mount event \<noteq> [] \<and> ev_Mount event \<notin> set Mounts) (MountUnsupported (ev_Mount event)),
        fail_if (ev_Method event \<noteq> [] \<and> ev_Method event \<notin> set Methods) (MethodUnsupported (ev_Method event))]"

definition normalizeEvent :: "text_lib \<Rightarrow> Event \<Rightarrow> event_error + Event" where
  "normalizeEvent lib event =
     require (Event_Validate lib event)
       (try_bind (normalizeTimestamp lib (ev_Time event)) (\<lambda>t. Inr (event\<lparr>ev_Time := t\<rparr>)))"

definition hex_digit :: "nat \<Rightarrow> char" where
  "hex_digit n = ''0123456789abcdef'' ! (n mod 16)"

definition EncodeToString :: "string \<Rightarrow> string" where
  "EncodeToString s = concat (map (\<lambda>c. [hex_digit (of_char c div 16), hex_digit (of_char c)]) s)"

definition ev_ContainerKey_of :: "(string \<Rightarrow> string) \<Rightarrow> string \<Rightarrow> string \<Rightarrow> string" where
  "ev_ContainerKey_of sha256 kind value =
     (if kind = ''devcontainer'' then ''devcontainer:'' @ EncodeToString (take 8 (sha256 value))
      else let projected = kind @ '':'' @ value in
        if length projected > maximumContainerKeyBytes \<or> \<not> ValidString projected
        then kind @ '':'' @ EncodeToString (take 8 (sha256 value))
        else projected)"

section \<open>File format\<close>

definition fileMagic :: string where
  "fileMagic = ''WYREVT02''"

definition frameHeaderBytes :: nat where
  "frameHeaderBytes = 8"

definition maximumEventJSONBytes :: nat where
  "maximumEventJSONBytes = 2048"

definition Event_Record :: "text_lib \<Rightarrow> Event \<Rightarrow> Record" where
  "Event_Record lib event =
     \<lparr>rec_Time = format_time lib (ev_Time event),
      rec_Operation = ev_Operation event,
      rec_Outcome = ev_Outcome event,
      rec_LatencyNS = ev_Latency event,
      rec_Error = ev_ErrorCode event,
      rec_Agent = ev_Agent event,
      rec_Binding = ev_Binding event,
      rec_ContainerKey = ev_ContainerKey event,
      rec_Policy = ev_Policy event,
      rec_NewPolicy = ev_NewPolicy event,
      rec_Operator = ev_Operator event,
      rec_Fingerprint = ev_Fingerprint event,
      rec_Mount = ev_Mount event,
      rec_Method = ev_Method event\<rparr>"

definition Record_Event :: "text_lib \<Rightarrow> Record \<Rightarrow> event_error + Event" where
  "Record_Event lib record =
     (case parse_time lib (rec_Time record) of
        None \<Rightarrow> Inl EventTimeInvalid
      | Some timestamp \<Rightarrow>
          if sint (rec_LatencyNS record) < 0 then Inl LatencyNegative
          else let event =
             \<lparr>ev_Time = timestamp,
              ev_Operation = rec_Operation record,
              ev_Outcome = rec_Outcome record,
              ev_Latency = rec_LatencyNS record,
              ev_ErrorCode = rec_Error record,
              ev_Agent = rec_Agent record,
              ev_Binding = rec_Binding record,
              ev_ContainerKey = rec_ContainerKey record,
              ev_Policy = rec_Policy record,
              ev_NewPolicy = rec_NewPolicy record,
              ev_Operator = rec_Operator record,
              ev_Fingerprint = rec_Fingerprint record,
              ev_Mount = rec_Mount record,
              ev_Method = rec_Method record\<rparr>
            in require (Event_Validate lib event) (Inr event))"

definition encodeFrame :: "text_lib \<Rightarrow> Event \<Rightarrow> event_error + string" where
  "encodeFrame lib event =
     require (Event_Validate lib event)
       (let payload = json_marshal lib (Event_Record lib event) in
        if length payload > maximumEventJSONBytes then Inl EncodedTooLong
        else Inr (PutUint32 (word_of_nat (length payload)) @ PutUint32 (crc32c payload) @ payload))"

definition requiredProperties :: "string list" where
  "requiredProperties = [''time'', ''operation'', ''outcome'', ''latency-ns'']"

definition decodeFrame :: "text_lib \<Rightarrow> string \<Rightarrow> event_error + Event" where
  "decodeFrame lib payload =
     (case json_keys lib payload of
        None \<Rightarrow> Inl NotAnObject
      | Some fs \<Rightarrow>
          require (first_err (map (\<lambda>p. fail_if (p \<notin> set fs) (PropertyAbsent p)) requiredProperties))
            (case json_decode lib payload of
               None \<Rightarrow> Inl RecordInvalid
             | Some (record, rest) \<Rightarrow>
                 if json_at_end lib rest then Record_Event lib record else Inl TrailingValue))"

text \<open>The loop of \<^verbatim>\<open>loadFrames\<close> from byte \<open>offset\<close>, with \<open>rest\<close> the bytes from there on.
  The second result is the offset to cut the file at; \<open>None\<close> is the source's \<open>-1\<close>.\<close>

function load_from :: "text_lib \<Rightarrow> string \<Rightarrow> nat \<Rightarrow> Event list \<Rightarrow> event_error + Event list \<times> nat option" where
  "load_from lib rest offset events =
    (if rest = [] then Inr (events, None)
     else if length rest < frameHeaderBytes then Inr (events, Some offset)
     else
      let len = unat (Uint32 (take 4 rest)); body = drop frameHeaderBytes rest in
      if len = 0 \<or> len > maximumEventJSONBytes then Inl (Corrupt_length offset)
      else if length body < len then Inr (events, Some offset)
      else if crc32c (take len body) \<noteq> Uint32 (take 4 (drop 4 rest)) then
        (if drop len body = [] then Inr (events, Some offset) else Inl (Corrupt_checksum offset))
      else
        case decodeFrame lib (take len body) of
          Inl e \<Rightarrow> Inl (Corrupt_event offset e)
        | Inr event \<Rightarrow> load_from lib (drop len body) (offset + frameHeaderBytes + len) (events @ [event]))"
  by pat_completeness auto
termination
  by (relation "measure (\<lambda>(lib, rest, offset, events). length rest)") (auto simp: frameHeaderBytes_def)

declare load_from.simps [simp del]

definition loadFrames :: "text_lib \<Rightarrow> string \<Rightarrow> event_error + Event list \<times> nat option" where
  "loadFrames lib file =
     (if file = [] then Inr ([], None)
      else if length file < length fileMagic then Inl Corrupt_header
      else if take (length fileMagic) file \<noteq> fileMagic then Inl Corrupt_header
      else load_from lib (drop (length fileMagic) file) (length fileMagic) [])"

section \<open>Store\<close>

definition maximumRetention :: int where
  "maximumRetention = 100000"

text \<open>\<open>es_file\<close> is the content of the file at the store's path.\<close>

record event_store =
  es_retention :: nat
  es_file :: string
  es_events :: "Event list"
  es_closed :: bool

text \<open>\<^verbatim>\<open>filepath.Dir\<close>: all but the last element of a path, cleaned.\<close>

definition Dir :: "string \<Rightarrow> string" where
  "Dir path = Clean (rev (dropWhile (\<lambda>c. c \<noteq> slash) (rev path)))"

definition validateStorageInputs :: "string \<Rightarrow> int \<Rightarrow> event_error option" where
  "validateStorageInputs path retention =
     first_err
       [fail_if (CHR 0x00 \<in> set path) PathNUL,
        fail_if (\<not> HasPrefix path ''/'' \<or> Clean path \<noteq> path) PathNotCanonical,
        fail_if (path = ''/'' \<or> Dir path = ''/'') PathAtRoot,
        fail_if (retention \<le> 0 \<or> retention > maximumRetention) RetentionRange]"

text \<open>The last events the retention keeps.\<close>

definition keep_last :: "nat \<Rightarrow> 'a list \<Rightarrow> 'a list" where
  "keep_last n xs = drop (length xs - n) xs"

text \<open>What the system does with the calls of one operation. \<open>io_write\<close>: the write succeeds,
  or only so many bytes reach the file. \<open>io_sync\<close>: the sync succeeds, or fails with so many of
  the written bytes in the file. \<open>io_truncate\<close>: the truncation and its sync succeed.
  \<open>io_replace\<close>: the replacement succeeds, fails before the new file has the path, or after.\<close>

datatype replace_io = Replace_ok | Replace_unpublished | Replace_published

record store_io =
  io_write :: "nat option"
  io_sync :: "nat option"
  io_truncate :: bool
  io_replace :: replace_io

definition all_ok :: store_io where
  "all_ok = \<lparr>io_write = None, io_sync = None, io_truncate = True, io_replace = Replace_ok\<rparr>"

definition encode_all :: "text_lib \<Rightarrow> Event list \<Rightarrow> event_error + string" where
  "encode_all lib events =
     fold_try (\<lambda>event file. try_bind (encodeFrame lib event) (\<lambda>frame. Inr (file @ frame))) events fileMagic"

definition replace :: "text_lib \<Rightarrow> replace_io \<Rightarrow> event_store \<Rightarrow> event_error option \<times> event_store" where
  "replace lib io store =
     (case encode_all lib (es_events store) of
        Inl e \<Rightarrow> (Some e, store)
      | Inr file \<Rightarrow>
          (case io of
             Replace_ok \<Rightarrow> (None, store\<lparr>es_file := file\<rparr>)
           | Replace_unpublished \<Rightarrow> (Some ReplaceFailed, store)
           | Replace_published \<Rightarrow> (Some ReplaceFailed, store\<lparr>es_file := file\<rparr>)))"

definition closeAfterWriteFailure :: "event_store \<Rightarrow> event_store" where
  "closeAfterWriteFailure store = store\<lparr>es_closed := True\<rparr>"

definition compact :: "text_lib \<Rightarrow> replace_io \<Rightarrow> event_store \<Rightarrow> event_error option \<times> event_store" where
  "compact lib io store =
     (if length (es_events store) \<le> es_retention store then (None, store)
      else let kept = store\<lparr>es_events := keep_last (es_retention store) (es_events store)\<rparr> in
        case replace lib io kept of
          (None, store') \<Rightarrow> (None, store')
        | (Some e, store') \<Rightarrow> (Some e, closeAfterWriteFailure store'))"

definition Append :: "text_lib \<Rightarrow> store_io \<Rightarrow> Event \<Rightarrow> event_store \<Rightarrow> event_error option \<times> event_store" where
  "Append lib io event store =
     (case normalizeEvent lib event of
        Inl e \<Rightarrow> (Some e, store)
      | Inr event \<Rightarrow>
        (case encodeFrame lib event of
           Inl e \<Rightarrow> (Some e, store)
         | Inr frame \<Rightarrow>
           if es_closed store then (Some StoreClosed, store)
           else case io_write io of
             Some n \<Rightarrow> (Some WriteFailed, closeAfterWriteFailure (store\<lparr>es_file := es_file store @ take n frame\<rparr>))
           | None \<Rightarrow>
             (case io_sync io of
                Some n \<Rightarrow> (Some SyncFailed, closeAfterWriteFailure (store\<lparr>es_file := es_file store @ take n frame\<rparr>))
              | None \<Rightarrow>
                  compact lib (io_replace io)
                    (store\<lparr>es_file := es_file store @ frame, es_events := es_events store @ [event]\<rparr>))))"

text \<open>\<^verbatim>\<open>Store.initialize\<close>; on an error \<^verbatim>\<open>Open\<close> gives no store, so the store returned with an error
  is closed and tells only what the file holds.\<close>

definition initialize :: "text_lib \<Rightarrow> nat \<Rightarrow> store_io \<Rightarrow> string \<Rightarrow> event_error option \<times> event_store" where
  "initialize lib retention io file =
    (let store = \<lparr>es_retention = retention, es_file = file, es_events = [], es_closed = False\<rparr> in
     case loadFrames lib file of
       Inl e \<Rightarrow> (Some e, closeAfterWriteFailure store)
     | Inr (events, recover) \<Rightarrow>
        (case (if file = [] then io_write io else None) of
           Some n \<Rightarrow> (Some WriteFailed, closeAfterWriteFailure (store\<lparr>es_file := take n fileMagic\<rparr>))
         | None \<Rightarrow>
          (case (if file = [] then io_sync io else None) of
             Some n \<Rightarrow> (Some SyncFailed, closeAfterWriteFailure (store\<lparr>es_file := take n fileMagic\<rparr>))
           | None \<Rightarrow>
             if recover \<noteq> None \<and> \<not> io_truncate io then (Some TruncateFailed, closeAfterWriteFailure store)
             else compact lib (io_replace io)
               (store\<lparr>es_file := (if file = [] then fileMagic else case recover of None \<Rightarrow> file | Some n \<Rightarrow> take n file),
                  es_events := events\<rparr>))))"

definition es_Close :: "event_store \<Rightarrow> event_store" where
  "es_Close store = store\<lparr>es_closed := True\<rparr>"

section \<open>Projections\<close>

datatype HealthCategory = HealthUnknown | HealthHealthy | HealthDenied | HealthDegraded

definition Recent :: "int \<Rightarrow> event_store \<Rightarrow> Event list" where
  "Recent limit store =
     (if limit \<le> 0 \<or> es_events store = [] then []
      else let start = int (length (es_events store)) - limit in
        drop (nat (if start < 0 then 0 else start)) (es_events store))"

definition Project :: "Event \<Rightarrow> HealthCategory" where
  "Project event =
     (if ev_Outcome event = OutcomeOK then HealthHealthy
      else if ev_Outcome event = OutcomeDenied then HealthDenied
      else HealthDegraded)"

definition BindingHealth :: "event_store \<Rightarrow> (string, HealthCategory) gomap" where
  "BindingHealth store =
     fold (\<lambda>event health. if ev_Binding event \<noteq> [] then AList.update (ev_Binding event) (Project event) health else health)
       (es_events store) []"

section \<open>What the library promises\<close>

text \<open>Text a validated event can hold: valid UTF-8 with no control character.\<close>

definition plain :: "string \<Rightarrow> bool" where
  "plain s \<longleftrightarrow> ValidString s \<and> \<not> list_ex control_char s"

definition plain_record :: "Record \<Rightarrow> bool" where
  "plain_record r \<longleftrightarrow>
     list_all plain
       [rec_Time r, rec_Operation r, rec_Outcome r, rec_Error r, rec_Agent r, rec_Binding r, rec_ContainerKey r,
        rec_Policy r, rec_NewPolicy r, rec_Operator r, rec_Fingerprint r, rec_Mount r, rec_Method r]"

text \<open>\<^verbatim>\<open>encoding/json\<close> reads back a record of plain text that it wrote, with the properties
  that are always written present, and a formatted time is plain text.\<close>

definition text_lib_ok :: "text_lib \<Rightarrow> bool" where
  "text_lib_ok lib \<longleftrightarrow>
     (\<forall>t. plain (format_time lib t)) \<and>
     (\<forall>r. plain_record r \<longrightarrow>
        json_marshal lib r \<noteq> [] \<and>
        (\<exists>fs. json_keys lib (json_marshal lib r) = Some fs \<and> set requiredProperties \<subseteq> set fs) \<and>
        (\<exists>rest. json_decode lib (json_marshal lib r) = Some (r, rest) \<and> json_at_end lib rest))"

lemmas vocabulary_defs =
  ev_Operations_def ev_Outcomes_def OutcomeOK_def OutcomeDenied_def OutcomeFailed_def OutcomeTimeout_def
  ErrorNone_def ErrorCodes_def Mounts_def Methods_def

section \<open>Lemmas\<close>

subsection \<open>Validation\<close>

lemma error_of_None [simp]: "error_of r = None \<longleftrightarrow> \<not> isl r"
  by (cases r) (simp_all add: error_of_def)

lemma boundedText_None: "boundedText name s n = None \<longleftrightarrow> length s \<le> n \<and> plain s"
  by (simp add: boundedText_def plain_def not_less del: first_err.simps(2))

lemma normalizeTimestamp_Inr: "normalizeTimestamp lib t = Inr u \<Longrightarrow> u = t \<and> parse_time lib (format_time lib t) = Some t"
  by (auto simp: normalizeTimestamp_def Let_def split: if_splits option.splits)

lemma not_isl: "\<not> isl r \<longleftrightarrow> (\<exists>x. r = Inr x)"
  by (cases r) auto

lemma Event_Validate_time:
  "Event_Validate lib e = None \<Longrightarrow> parse_time lib (format_time lib (ev_Time e)) = Some (ev_Time e)"
  by (auto simp: Event_Validate_def not_isl simp del: first_err.simps(2) dest: normalizeTimestamp_Inr)

lemma normalizeEvent_Inr: "normalizeEvent lib e = Inr f \<longleftrightarrow> f = e \<and> Event_Validate lib e = None"
proof
  show "normalizeEvent lib e = Inr f \<Longrightarrow> f = e \<and> Event_Validate lib e = None"
    by (auto simp: normalizeEvent_def dest!: normalizeTimestamp_Inr)
  assume valid: "f = e \<and> Event_Validate lib e = None"
  then have "\<not> isl (normalizeTimestamp lib (ev_Time e))"
    by (simp add: Event_Validate_def del: first_err.simps(2))
  then obtain t where "normalizeTimestamp lib (ev_Time e) = Inr t"
    by (auto simp: not_isl)
  with valid show "normalizeEvent lib e = Inr f"
    by (auto simp: normalizeEvent_def dest: normalizeTimestamp_Inr)
qed

lemma ascii_plain: "list_all (byte_in 0x20 0x7E) s \<Longrightarrow> plain s"
  by (induction s) (auto simp: plain_def byte_in_def control_char_def)

lemma vocabulary_plain:
  "list_all plain (ev_Operations @ ev_Outcomes @ ErrorCodes @ Mounts @ Methods @ [[]])"
proof -
  have "list_all (list_all (byte_in 0x20 0x7E)) (ev_Operations @ ev_Outcomes @ ErrorCodes @ Mounts @ Methods @ [[]])"
    by code_simp
  then show ?thesis
    by (rule list.pred_mono_strong) (rule ascii_plain)
qed

lemma MatchString_plain:
  assumes "MatchString r s" and "list_all (\<lambda>(lo, hi). byte_in 0x20 0xFF lo \<and> byte_in 0 0x7E hi) (rx_class r)"
  shows "plain s"
proof (rule ascii_plain, rule MatchString_chars[OF assms(1)])
  show "\<forall>(lo, hi)\<in>set (rx_class r). \<forall>c. lo \<le> c \<and> c \<le> hi \<longrightarrow> byte_in 0x20 0x7E c"
    using assms(2) by (fastforce simp: list_all_iff byte_in_def less_eq_char_def)
qed

lemma bindingPattern_plain: "MatchString bindingPattern s \<Longrightarrow> plain s"
  by (erule MatchString_plain) code_simp

lemma fingerprintPattern_plain: "MatchString fingerprintPattern s \<Longrightarrow> plain s"
  by (erule MatchString_plain) code_simp

lemma vocabulary_plain_mem:
  "s \<in> set ev_Operations \<Longrightarrow> plain s" "s \<in> set ev_Outcomes \<Longrightarrow> plain s" "s \<in> set ErrorCodes \<Longrightarrow> plain s"
  "s \<in> set Mounts \<Longrightarrow> plain s" "s \<in> set Methods \<Longrightarrow> plain s" "plain []"
  using vocabulary_plain by (auto simp: list_all_iff)

lemma Event_Validate_text:
  assumes "Event_Validate lib e = None"
  shows "plain (ev_Operation e)" "plain (ev_Outcome e)" "plain (ev_ErrorCode e)" "plain (ev_Agent e)"
    "plain (ev_Binding e)" "plain (ev_ContainerKey e)" "plain (ev_Policy e)" "plain (ev_NewPolicy e)"
    "plain (ev_Operator e)" "plain (ev_Fingerprint e)" "plain (ev_Mount e)" "plain (ev_Method e)"
proof -
  have v: "ev_Operation e \<in> set ev_Operations" "ev_Outcome e \<in> set ev_Outcomes"
    "ev_ErrorCode e = [] \<or> ev_ErrorCode e \<in> set ErrorCodes" "plain (ev_Agent e)"
    "ev_Binding e = [] \<or> MatchString bindingPattern (ev_Binding e)" "plain (ev_ContainerKey e)"
    "plain (ev_Policy e)" "plain (ev_NewPolicy e)" "plain (ev_Operator e)"
    "ev_Fingerprint e = [] \<or> MatchString fingerprintPattern (ev_Fingerprint e)"
    "ev_Mount e = [] \<or> ev_Mount e \<in> set Mounts" "ev_Method e = [] \<or> ev_Method e \<in> set Methods"
    using assms unfolding Event_Validate_def first_err_Cons_None fail_if_None boundedText_None ErrorNone_def
    by blast+
  note m = vocabulary_plain_mem bindingPattern_plain fingerprintPattern_plain
  show "plain (ev_Operation e)" by (rule m(1)[OF v(1)])
  show "plain (ev_Outcome e)" by (rule m(2)[OF v(2)])
  show "plain (ev_ErrorCode e)" using v(3) m(3,6) by metis
  show "plain (ev_Binding e)" using v(5) m(6,7) by metis
  show "plain (ev_Fingerprint e)" using v(10) m(6,8) by metis
  show "plain (ev_Mount e)" using v(11) m(4,6) by metis
  show "plain (ev_Method e)" using v(12) m(5,6) by metis
  show "plain (ev_Agent e)" "plain (ev_ContainerKey e)" "plain (ev_Policy e)" "plain (ev_NewPolicy e)" "plain (ev_Operator e)"
    by (rule v)+
qed

lemma Event_Record_plain:
  assumes "text_lib_ok lib" and "Event_Validate lib e = None"
  shows "plain_record (Event_Record lib e)"
proof -
  have "plain (format_time lib (ev_Time e))"
    using assms(1) by (simp add: text_lib_ok_def)
  then show ?thesis
    by (simp add: plain_record_def Event_Record_def Event_Validate_text[OF assms(2)])
qed

lemma Record_Event_Record:
  assumes "Event_Validate lib e = None"
  shows "Record_Event lib (Event_Record lib e) = Inr e"
proof -
  have "\<not> sint (ev_Latency e) < 0"
    using assms by (simp add: Event_Validate_def del: first_err.simps(2))
  then show ?thesis
    using assms Event_Validate_time[OF assms] by (cases e) (simp add: Record_Event_def Event_Record_def Let_def)
qed

subsection \<open>Frames\<close>

definition frame :: "text_lib \<Rightarrow> Event \<Rightarrow> string" where
  "frame lib e = (case encodeFrame lib e of Inl _ \<Rightarrow> [] | Inr f \<Rightarrow> f)"

definition encodable :: "text_lib \<Rightarrow> Event \<Rightarrow> bool" where
  "encodable lib e \<longleftrightarrow> \<not> isl (encodeFrame lib e)"

definition events_file :: "text_lib \<Rightarrow> Event list \<Rightarrow> string" where
  "events_file lib es = fileMagic @ concat (map (frame lib) es)"

lemma encodable_frame: "encodable lib e \<Longrightarrow> encodeFrame lib e = Inr (frame lib e)"
  by (cases "encodeFrame lib e") (simp_all add: encodable_def frame_def)

lemma encodeFrame_Inr:
  "encodeFrame lib e = Inr f \<Longrightarrow>
     Event_Validate lib e = None \<and> length (json_marshal lib (Event_Record lib e)) \<le> maximumEventJSONBytes \<and>
     f = PutUint32 (word_of_nat (length (json_marshal lib (Event_Record lib e))))
         @ PutUint32 (crc32c (json_marshal lib (Event_Record lib e))) @ json_marshal lib (Event_Record lib e)"
  by (auto simp: encodeFrame_def Let_def split: if_splits)

lemma decodeFrame_marshal:
  assumes "text_lib_ok lib" and "Event_Validate lib e = None"
  shows "decodeFrame lib (json_marshal lib (Event_Record lib e)) = Inr e"
    and "json_marshal lib (Event_Record lib e) \<noteq> []"
proof -
  have "plain_record (Event_Record lib e)"
    by (rule Event_Record_plain[OF assms])
  with assms(1) obtain fs rest where
    "json_keys lib (json_marshal lib (Event_Record lib e)) = Some fs" "set requiredProperties \<subseteq> set fs"
    "json_decode lib (json_marshal lib (Event_Record lib e)) = Some (Event_Record lib e, rest)"
    "json_at_end lib rest" and ne: "json_marshal lib (Event_Record lib e) \<noteq> []"
    unfolding text_lib_ok_def by blast
  moreover from this(2)
  have "first_err (map (\<lambda>p. fail_if (p \<notin> set fs) (PropertyAbsent p)) requiredProperties) = None"
    by auto
  ultimately show "decodeFrame lib (json_marshal lib (Event_Record lib e)) = Inr e"
    by (simp add: decodeFrame_def Record_Event_Record[OF assms(2)])
  show "json_marshal lib (Event_Record lib e) \<noteq> []"
    by (rule ne)
qed

text \<open>A frame's parts, as the loader reads them.\<close>

lemma frame_parts:
  assumes "text_lib_ok lib" and "encodable lib e"
  obtains p where "frame lib e = PutUint32 (word_of_nat (length p)) @ PutUint32 (crc32c p) @ p"
    and "0 < length p" and "length p \<le> maximumEventJSONBytes"
    and "unat (word_of_nat (length p) :: 32 word) = length p" and "decodeFrame lib p = Inr e"
proof -
  let ?p = "json_marshal lib (Event_Record lib e)"
  note enc = encodeFrame_Inr[OF encodable_frame[OF assms(2)]]
  then have valid: "Event_Validate lib e = None" and len: "length ?p \<le> maximumEventJSONBytes"
    by blast+
  have "unat (word_of_nat (length ?p) :: 32 word) = length ?p"
    using len by (simp add: unat_of_nat maximumEventJSONBytes_def)
  then show thesis
    using enc len decodeFrame_marshal[OF assms(1) valid] by (intro that[of ?p]) simp_all
qed

lemma length_frame: "text_lib_ok lib \<Longrightarrow> encodable lib e \<Longrightarrow> frameHeaderBytes < length (frame lib e)"
  by (elim frame_parts) (auto simp: frameHeaderBytes_def)

lemma load_from_frame:
  assumes "text_lib_ok lib" and "encodable lib e"
  shows "load_from lib (frame lib e @ rest) offset events =
     load_from lib rest (offset + length (frame lib e)) (events @ [e])"
proof -
  obtain p where p: "frame lib e = PutUint32 (word_of_nat (length p)) @ PutUint32 (crc32c p) @ p"
    "0 < length p" "length p \<le> maximumEventJSONBytes"
    "unat (word_of_nat (length p) :: 32 word) = length p" "decodeFrame lib p = Inr e"
    by (rule frame_parts[OF assms])
  then show ?thesis
    by (subst load_from.simps) (simp add: frameHeaderBytes_def Let_def add.assoc)
qed

lemma load_from_frames:
  assumes "text_lib_ok lib" and "list_all (encodable lib) es"
  shows "load_from lib (concat (map (frame lib) es) @ rest) offset events =
     load_from lib rest (offset + length (concat (map (frame lib) es))) (events @ es)"
  using assms(2) by (induction es arbitrary: offset events) (simp_all add: load_from_frame[OF assms(1)] add.assoc)

lemma load_from_torn:
  assumes "text_lib_ok lib" and "encodable lib e" and "0 < n" and "n < length (frame lib e)"
  shows "load_from lib (take n (frame lib e)) offset events = Inr (events, Some offset)"
proof (cases "n < frameHeaderBytes")
  case True
  then show ?thesis
    using assms(3,4) by (subst load_from.simps) auto
next
  case False
  obtain p where p: "frame lib e = PutUint32 (word_of_nat (length p)) @ PutUint32 (crc32c p) @ p"
    "0 < length p" "length p \<le> maximumEventJSONBytes"
    "unat (word_of_nat (length p) :: 32 word) = length p" "decodeFrame lib p = Inr e"
    by (rule frame_parts[OF assms(1,2)])
  have "take 4 (take n (frame lib e)) = PutUint32 (word_of_nat (length p))"
    using False p(1) by (simp add: frameHeaderBytes_def min_def)
  moreover have "length (drop frameHeaderBytes (take n (frame lib e))) < length p"
    using False assms(4) p(1) by (simp add: frameHeaderBytes_def)
  moreover have "take n (frame lib e) \<noteq> []"
    using assms(3,4) by auto
  ultimately show ?thesis
    using p(2-4) False assms(4) by (subst load_from.simps) (simp add: Let_def)
qed

lemma loadFrames_events_file:
  assumes "text_lib_ok lib" and "list_all (encodable lib) es"
  shows "loadFrames lib (events_file lib es) = Inr (es, None)"
  using load_from_frames[OF assms, of "[]"]
  by (simp add: loadFrames_def events_file_def load_from.simps[of lib "[]"]) (simp add: fileMagic_def)

lemma loadFrames_torn:
  assumes "text_lib_ok lib" and "list_all (encodable lib) es" and "encodable lib e"
    and "0 < n" and "n < length (frame lib e)"
  shows "loadFrames lib (events_file lib es @ take n (frame lib e)) = Inr (es, Some (length (events_file lib es)))"
  using load_from_frames[OF assms(1,2), of "take n (frame lib e)"] load_from_torn[OF assms(1,3-5)]
  by (simp add: loadFrames_def events_file_def) (simp add: fileMagic_def)

lemma encode_all_events_file:
  assumes "list_all (encodable lib) es"
  shows "encode_all lib es = Inr (events_file lib es)"
proof -
  have "fold_try (\<lambda>event file. try_bind (encodeFrame lib event) (\<lambda>frame. Inr (file @ frame))) es file
      = Inr (file @ concat (map (frame lib) es))" for "file"
    using assms by (induction es arbitrary: "file") (simp_all add: encodable_frame)
  then show ?thesis
    by (simp add: encode_all_def events_file_def)
qed

lemma events_file_snoc: "events_file lib (es @ [e]) = events_file lib es @ frame lib e"
  by (simp add: events_file_def)

subsection \<open>The kept events\<close>

lemma keep_last_short [simp]: "length xs \<le> n \<Longrightarrow> keep_last n xs = xs"
  by (simp add: keep_last_def)

lemma length_keep_last [simp]: "length (keep_last n xs) = min n (length xs)"
  by (auto simp: keep_last_def)

lemma keep_last_append: "keep_last n (keep_last n xs @ ys) = keep_last n (xs @ ys)"
  by (cases "length xs \<le> n") (simp_all add: keep_last_def add.commute)

lemma keep_last_keep_last [simp]: "keep_last n (keep_last n xs) = keep_last n xs"
  using keep_last_append[of n xs "[]"] by simp

lemma list_all_keep_last: "list_all P xs \<Longrightarrow> list_all P (keep_last n xs)"
  by (auto simp: keep_last_def list_all_iff dest: in_set_dropD)

subsection \<open>The store\<close>

text \<open>An open store: the file holds the store's events and nothing else.\<close>

definition store_ok :: "text_lib \<Rightarrow> event_store \<Rightarrow> bool" where
  "store_ok lib st \<longleftrightarrow>
     \<not> es_closed st \<and> list_all (encodable lib) (es_events st) \<and> length (es_events st) \<le> es_retention st
     \<and> es_file st = events_file lib (es_events st)"

text \<open>The contents an operation can leave in the file, given that it tries to add \<open>new\<close>
  to \<open>es\<close>: the events, more of them than the retention keeps, or a torn last frame.\<close>

definition file_of :: "text_lib \<Rightarrow> nat \<Rightarrow> Event list \<Rightarrow> string \<Rightarrow> bool" where
  "file_of lib r es file \<longleftrightarrow>
     (\<exists>gs. list_all (encodable lib) gs \<and> keep_last r gs = keep_last r es \<and>
        (file = events_file lib gs \<or>
         (\<exists>e n. encodable lib e \<and> 0 < n \<and> n < length (frame lib e) \<and> file = events_file lib gs @ take n (frame lib e))))"

lemma compact_ok:
  assumes "list_all (encodable lib) (es_events st)" and "es_file st = events_file lib (es_events st)"
    and "compact lib Replace_ok st = (err, st')" and "\<not> es_closed st"
  shows "err = None" and "store_ok lib st'" and "es_events st' = keep_last (es_retention st) (es_events st)"
    and "es_retention st' = es_retention st"
  using assms
  by (auto simp: compact_def replace_def store_ok_def Let_def encode_all_events_file list_all_keep_last split: if_splits)

lemma initialize_recovers:
  assumes ok: "text_lib_ok lib" and content: "file_of lib r es file" and "initialize lib r all_ok file = (err, st)"
  shows "err = None \<and> store_ok lib st \<and> es_events st = keep_last r es \<and> es_retention st = r"
proof -
  from content obtain gs where gs: "list_all (encodable lib) gs" "keep_last r gs = keep_last r es"
    and cases: "file = events_file lib gs \<or>
      (\<exists>e n. encodable lib e \<and> 0 < n \<and> n < length (frame lib e) \<and> file = events_file lib gs @ take n (frame lib e))"
    unfolding file_of_def by blast
  have ne: "events_file lib gs \<noteq> []"
    by (simp add: events_file_def fileMagic_def)
  let ?st = "\<lparr>es_retention = r, es_file = events_file lib gs, es_events = gs, es_closed = False\<rparr>"
  from cases have "initialize lib r all_ok file = compact lib Replace_ok ?st"
    using ne loadFrames_events_file[OF ok gs(1)] loadFrames_torn[OF ok gs(1)]
    by (auto simp: initialize_def all_ok_def Let_def)
  then show ?thesis
    using compact_ok[of lib ?st err st] assms(3) gs by simp
qed

lemma initialize_new:
  assumes "text_lib_ok lib" and "initialize lib r all_ok [] = (err, st)"
  shows "err = None \<and> store_ok lib st \<and> es_events st = [] \<and> es_retention st = r"
  using assms
  by (auto simp: initialize_def all_ok_def loadFrames_def compact_def store_ok_def events_file_def)

lemma file_of_take:
  assumes "list_all (encodable lib) es" and "encodable lib e"
  shows "file_of lib r es (events_file lib es @ take n (frame lib e))
    \<or> file_of lib r (es @ [e]) (events_file lib es @ take n (frame lib e))"
proof -
  consider "n = 0" | "0 < n" "n < length (frame lib e)" | "length (frame lib e) \<le> n"
    by linarith
  then show ?thesis
  proof cases
    case 1
    then have "file_of lib r es (events_file lib es @ take n (frame lib e))"
      using assms(1) unfolding file_of_def by (intro exI[of _ es]) simp
    then show ?thesis ..
  next
    case 2
    then have "file_of lib r es (events_file lib es @ take n (frame lib e))"
      using assms unfolding file_of_def by blast
    then show ?thesis ..
  next
    case 3
    then have "file_of lib r (es @ [e]) (events_file lib es @ take n (frame lib e))"
      using assms unfolding file_of_def by (intro exI[of _ "es @ [e]"]) (simp add: events_file_snoc)
    then show ?thesis ..
  qed
qed

lemma compact_file_of:
  assumes "list_all (encodable lib) (es_events st)" and "es_file st = events_file lib (es_events st)"
    and "compact lib io st = (Some err, st')"
  shows "es_closed st' \<and> es_retention st' = es_retention st \<and> file_of lib (es_retention st) (es_events st) (es_file st')"
proof -
  let ?k = "keep_last (es_retention st) (es_events st)"
  have "encode_all lib ?k = Inr (events_file lib ?k)"
    by (simp add: encode_all_events_file list_all_keep_last assms(1))
  then have "es_closed st' \<and> es_retention st' = es_retention st
      \<and> (es_file st' = events_file lib (es_events st) \<or> es_file st' = events_file lib ?k)"
    using assms(2,3) by (auto simp: compact_def replace_def closeAfterWriteFailure_def Let_def
        split: if_splits replace_io.splits)
  moreover have "file_of lib (es_retention st) (es_events st) (events_file lib (es_events st))"
    "file_of lib (es_retention st) (es_events st) (events_file lib ?k)"
    using assms(1) list_all_keep_last[OF assms(1)] keep_last_keep_last unfolding file_of_def by blast+
  ultimately show ?thesis
    by auto
qed

lemma Append_refuses:
  assumes "\<not> encodable lib e"
  shows "\<exists>err. Append lib io e st = (Some err, st)"
proof -
  obtain f where "encodeFrame lib e = Inl f"
    using assms by (cases "encodeFrame lib e") (simp_all add: encodable_def)
  moreover have "normalizeEvent lib e = Inr e \<or> (\<exists>g. normalizeEvent lib e = Inl g)"
    by (cases "normalizeEvent lib e") (auto simp: normalizeEvent_Inr)
  ultimately show ?thesis
    by (auto simp: Append_def)
qed

lemma Append_encodable:
  assumes "encodable lib e" and "\<not> es_closed st"
  shows "Append lib io e st =
    (let torn = \<lambda>n. closeAfterWriteFailure (st\<lparr>es_file := es_file st @ take n (frame lib e)\<rparr>) in
     case (io_write io, io_sync io) of
       (Some n, _) \<Rightarrow> (Some WriteFailed, torn n)
     | (None, Some n) \<Rightarrow> (Some SyncFailed, torn n)
     | (None, None) \<Rightarrow>
         compact lib (io_replace io) (st\<lparr>es_file := es_file st @ frame lib e, es_events := es_events st @ [e]\<rparr>))"
proof -
  note enc = encodable_frame[OF assms(1)]
  have "normalizeEvent lib e = Inr e"
    using encodeFrame_Inr[OF enc] by (simp add: normalizeEvent_Inr)
  then show ?thesis
    using assms(2) enc by (simp add: Append_def Let_def split: option.splits)
qed

lemma compact_None: "compact lib io st = (None, st') \<Longrightarrow> compact lib Replace_ok st = (None, st')"
  by (auto simp: compact_def replace_def Let_def split: if_splits sum.splits replace_io.splits)

text \<open>The outcomes of one append on an open store.\<close>

lemma Append_outcomes:
  assumes "store_ok lib st" and "Append lib io e st = (err, st')"
  obtains (refused) "err \<noteq> None" and "\<not> encodable lib e" and "st' = st"
    | (stored) "err = None" and "encodable lib e" and "store_ok lib st'" and "es_retention st' = es_retention st"
        and "es_events st' = keep_last (es_retention st) (es_events st @ [e])"
    | (failed) "err \<noteq> None" and "es_closed st'" and "es_retention st' = es_retention st"
        and "io \<noteq> all_ok"
        and "file_of lib (es_retention st) (es_events st) (es_file st')
          \<or> file_of lib (es_retention st) (es_events st @ [e]) (es_file st')"
proof (cases "encodable lib e")
  case False
  then show thesis
    using Append_refuses[OF False, of io st] assms(2) refused by auto
next
  case True
  have st: "\<not> es_closed st" "list_all (encodable lib) (es_events st)" "es_file st = events_file lib (es_events st)"
    using assms(1) by (simp_all add: store_ok_def)
  let ?new = "st\<lparr>es_file := es_file st @ frame lib e, es_events := es_events st @ [e]\<rparr>"
  have new: "list_all (encodable lib) (es_events ?new)" "es_file ?new = events_file lib (es_events ?new)" "\<not> es_closed ?new"
    using st True by (simp_all add: events_file_snoc)
  consider n where "err \<noteq> None" "st' = closeAfterWriteFailure (st\<lparr>es_file := es_file st @ take n (frame lib e)\<rparr>)" "io \<noteq> all_ok"
    | "compact lib (io_replace io) ?new = (err, st')"
  proof -
    have "io_write all_ok = None" "io_sync all_ok = None"
      by (simp_all add: all_ok_def)
    then show thesis
      using assms(2) that unfolding Append_encodable[OF True st(1)] by (fastforce simp: Let_def split: option.splits)
  qed
  then show thesis
  proof cases
    case 1
    then show thesis
      using file_of_take[OF st(2) True, of "es_retention st" n] st(3)
      by (intro failed) (simp_all add: closeAfterWriteFailure_def)
  next
    case 2
    show thesis
    proof (cases err)
      case (Some x)
      have "io \<noteq> all_ok"
        using compact_ok(1)[OF new(1,2) _ new(3)] 2 Some by (auto simp: all_ok_def)
      then show thesis
        using compact_file_of[OF new(1,2)] 2 Some by (intro failed) auto
    next
      case None
      from compact_ok(2-4)[OF new(1,2) compact_None new(3)] show thesis
        using 2 None True by (intro stored) simp_all
    qed
  qed
qed

subsection \<open>Runs of the store\<close>

text \<open>A run appends events one after the other under any behaviour of the system calls; when an
  append fails with the store closed, the store is opened again from what the file holds. The
  first result tells which appends returned no error.\<close>

definition run_op :: "text_lib \<Rightarrow> store_io \<times> Event \<Rightarrow> event_store \<Rightarrow> bool \<times> event_store" where
  "run_op lib attempt st =
     (case Append lib (fst attempt) (snd attempt) st of
        (err, st') \<Rightarrow>
          (err = None, if es_closed st' then snd (initialize lib (es_retention st') all_ok (es_file st')) else st'))"

primrec run_ops :: "text_lib \<Rightarrow> (store_io \<times> Event) list \<Rightarrow> event_store \<Rightarrow> bool list \<times> event_store" where
  "run_ops lib [] st = ([], st)"
| "run_ops lib (a # as) st =
     (case run_op lib a st of (ack, st') \<Rightarrow> case run_ops lib as st' of (acks, st'') \<Rightarrow> (ack # acks, st''))"

lemma run_op_keeps:
  assumes ok: "text_lib_ok lib" "store_ok lib st" and "run_op lib (io, e) st = (ack, st')"
  shows "store_ok lib st' \<and> es_retention st' = es_retention st \<and>
    (\<exists>flag. (ack \<longrightarrow> flag) \<and> (io = all_ok \<and> encodable lib e \<longrightarrow> ack) \<and>
       es_events st' = keep_last (es_retention st) (es_events st @ (if flag then [e] else [])))"
proof -
  obtain err st1 where a: "Append lib io e st = (err, st1)"
    by (cases "Append lib io e st")
  have short: "keep_last (es_retention st) (es_events st) = es_events st"
    using ok(2) by (simp add: store_ok_def)
  from ok(2) a show ?thesis
  proof (cases rule: Append_outcomes)
    case refused
    then show ?thesis
      using assms(3) a ok(2) short by (auto simp: run_op_def store_ok_def intro!: exI[of _ False])
  next
    case stored
    then show ?thesis
      using assms(3) a by (auto simp: run_op_def store_ok_def intro!: exI[of _ True])
  next
    case failed
    obtain err2 st2 where i: "initialize lib (es_retention st) all_ok (es_file st1) = (err2, st2)"
      by (cases "initialize lib (es_retention st) all_ok (es_file st1)")
    have st': "st' = st2" "\<not> ack"
      using assms(3) a i failed(1-3) by (auto simp: run_op_def)
    from failed(5) show ?thesis
    proof
      assume "file_of lib (es_retention st) (es_events st) (es_file st1)"
      from initialize_recovers[OF ok(1) this i] show ?thesis
        using st' failed(4) by (intro conjI exI[of _ False]) simp_all
    next
      assume "file_of lib (es_retention st) (es_events st @ [e]) (es_file st1)"
      from initialize_recovers[OF ok(1) this i] show ?thesis
        using st' failed(4) by (intro conjI exI[of _ True]) simp_all
    qed
  qed
qed

lemma run_ops_keeps:
  assumes ok: "text_lib_ok lib" "store_ok lib st" and "run_ops lib as st = (acks, st')"
  shows "store_ok lib st' \<and> es_retention st' = es_retention st \<and>
    (\<exists>flags. length flags = length as \<and> list_all2 (\<longrightarrow>) acks flags \<and>
       list_all2 (\<lambda>a ack. fst a = all_ok \<and> encodable lib (snd a) \<longrightarrow> ack) as acks \<and>
       es_events st' = keep_last (es_retention st) (es_events st @ map (\<lambda>p. snd (snd p)) (filter fst (zip flags as))))"
  using assms(2,3)
proof (induction as arbitrary: st acks)
  case Nil
  then show ?case
    by (auto simp: store_ok_def)
next
  case (Cons a as)
  obtain ack st1 where a: "run_op lib a st = (ack, st1)"
    by (cases "run_op lib a st")
  obtain acks1 where r: "run_ops lib as st1 = (acks1, st')" "acks = ack # acks1"
    using Cons.prems(2) a by (auto split: prod.splits)
  obtain flag where f: "store_ok lib st1" "es_retention st1 = es_retention st" "ack \<longrightarrow> flag"
    "fst a = all_ok \<and> encodable lib (snd a) \<longrightarrow> ack"
    "es_events st1 = keep_last (es_retention st) (es_events st @ (if flag then [snd a] else []))"
    using run_op_keeps[OF ok(1) Cons.prems(1), of "fst a" "snd a" ack st1] a unfolding prod.collapse by blast
  obtain flags where "length flags = length as" "list_all2 (\<longrightarrow>) acks1 flags" "store_ok lib st'"
    "list_all2 (\<lambda>a ack. fst a = all_ok \<and> encodable lib (snd a) \<longrightarrow> ack) as acks1"
    "es_retention st' = es_retention st"
    "es_events st' = keep_last (es_retention st) (es_events st1 @ map (\<lambda>p. snd (snd p)) (filter fst (zip flags as)))"
    using Cons.IH[OF f(1) r(1)] unfolding f(2) by blast
  then show ?case
    using f(3-5) r(2) by (intro conjI exI[of _ "flag # flags"]) (simp_all add: keep_last_append)
qed

subsection \<open>A library for the witnesses\<close>

text \<open>A record as one line per property, with times and latencies as decimal numbers.\<close>

definition newline :: char where
  "newline = CHR 0x0A"

definition record_lines :: "Record \<Rightarrow> string list" where
  "record_lines r =
     [rec_Time r, rec_Operation r, rec_Outcome r, nat_digits (unat (rec_LatencyNS r)), rec_Error r, rec_Agent r,
      rec_Binding r, rec_ContainerKey r, rec_Policy r, rec_NewPolicy r, rec_Operator r, rec_Fingerprint r, rec_Mount r,
      rec_Method r]"

fun lines_record :: "string list \<Rightarrow> Record option" where
  "lines_record [t, p, u, l, e, a, b, c, q, n, x, f, m, d] =
     Some \<lparr>rec_Time = t, rec_Operation = p, rec_Outcome = u, rec_LatencyNS = word_of_nat (digits_nat l), rec_Error = e,
       rec_Agent = a, rec_Binding = b, rec_ContainerKey = c, rec_Policy = q, rec_NewPolicy = n, rec_Operator = x,
       rec_Fingerprint = f, rec_Mount = m, rec_Method = d\<rparr>"
| "lines_record _ = None"

definition line_lib :: text_lib where
  "line_lib =
     \<lparr>format_time = (\<lambda>t. (if t < 0 then ''-'' else []) @ nat_digits (nat \<bar>t\<bar>)),
      parse_time = (\<lambda>s. Some (case s of [] \<Rightarrow> 0 | c # d \<Rightarrow> if c = CHR ''-'' then - int (digits_nat d) else int (digits_nat s))),
      json_marshal = (\<lambda>r. Join (record_lines r) newline),
      json_keys = (\<lambda>_. Some requiredProperties),
      json_decode = (\<lambda>s. map_option (\<lambda>r. (r, [])) (lines_record (Split s newline))),
      json_at_end = (\<lambda>s. s = [])\<rparr>"

lemma plain_no_newline: "plain s \<Longrightarrow> newline \<notin> set s"
  by (auto simp: plain_def list_ex_iff control_char_def byte_in_def newline_def)

lemma digits_plain: "plain (nat_digits n)"
proof (rule ascii_plain)
  have "is_digit c \<Longrightarrow> byte_in 0x20 0x7E c" for c
    by (simp add: is_digit_iff byte_in_def)
  then show "list_all (byte_in 0x20 0x7E) (nat_digits n)"
    using all_digits_nat_digits[of n] by (auto simp: all_digits_def list_all_iff)
qed

lemma plain_Cons: "byte_in 0x20 0x7E c \<Longrightarrow> plain (c # s) \<longleftrightarrow> plain s"
  by (auto simp: plain_def byte_in_def control_char_def)

lemma lines_record_lines: "lines_record (record_lines r) = Some r"
  by (simp add: record_lines_def)

lemma Split_record_lines:
  assumes "plain_record r"
  shows "Split (Join (record_lines r) newline) newline = record_lines r"
proof (rule Split_Join)
  show "record_lines r \<noteq> []"
    by (simp add: record_lines_def)
  have "list_all plain (record_lines r)"
    using assms by (simp add: plain_record_def record_lines_def digits_plain)
  then show "\<forall>w\<in>set (record_lines r). newline \<notin> set w"
    by (auto simp: list_all_iff plain_no_newline)
qed

lemma text_lib_ok_line_lib: "text_lib_ok line_lib"
proof -
  have "plain (format_time line_lib t)" for t
    by (simp add: line_lib_def digits_plain plain_Cons byte_in_def)
  moreover have "Join (record_lines r) newline \<noteq> []" for r
    by (simp add: record_lines_def)
  ultimately show ?thesis
    unfolding text_lib_ok_def by (simp add: line_lib_def Split_record_lines lines_record_lines)
qed

definition login_event :: Event where
  "login_event =
     \<lparr>ev_Time = 1, ev_Operation = ''login'', ev_Outcome = OutcomeOK, ev_Latency = 5, ev_ErrorCode = ErrorNone,
      ev_Agent = ''host'', ev_Binding = ''b-01'', ev_ContainerKey = ''name:web'', ev_Policy = [], ev_NewPolicy = [],
      ev_Operator = [], ev_Fingerprint = [], ev_Mount = [], ev_Method = []\<rparr>"

lemma list_all2_encodeFrame:
  "list_all2 (\<lambda>e f. encodeFrame lib e = Inr f) es fs \<longleftrightarrow> list_all (encodable lib) es \<and> fs = map (frame lib) es"
proof
  show "list_all2 (\<lambda>e f. encodeFrame lib e = Inr f) es fs \<Longrightarrow> list_all (encodable lib) es \<and> fs = map (frame lib) es"
    by (induction rule: list_all2_induct) (auto simp: encodable_def frame_def)
  show "list_all (encodable lib) es \<and> fs = map (frame lib) es \<Longrightarrow> list_all2 (\<lambda>e f. encodeFrame lib e = Inr f) es fs"
    by (auto simp: list_all2_conv_all_nth list_all_length encodable_frame)
qed

lemma BindingHealth_fold:
  "map_of (fold (\<lambda>event health. if ev_Binding event \<noteq> [] then AList.update (ev_Binding event) (Project event) health
       else health) es h) b =
     (case find (\<lambda>e. ev_Binding e \<noteq> [] \<and> ev_Binding e = b) (rev es) of Some e \<Rightarrow> Some (Project e) | None \<Rightarrow> map_of h b)"
  by (induction es arbitrary: h rule: rev_induct) auto

lemma hex_digits: "list_all (\<lambda>c. c \<in> set ''0123456789abcdef'') (EncodeToString s)"
proof -
  have "hex_digit n \<in> set ''0123456789abcdef''" for n
    unfolding hex_digit_def by (rule nth_mem) simp
  then show ?thesis
    by (auto simp: EncodeToString_def list_all_iff)
qed

lemma hex_plain: "plain (EncodeToString s)" and hex_no_slash: "CHR ''/'' \<notin> set (EncodeToString s)"
proof -
  have "\<forall>c\<in>set ''0123456789abcdef''. byte_in 0x20 0x7E c" "CHR ''/'' \<notin> set ''0123456789abcdef''"
    by code_simp+
  then show "plain (EncodeToString s)" "CHR ''/'' \<notin> set (EncodeToString s)"
    using hex_digits[of s] by (auto simp only: list_all_iff intro!: ascii_plain[unfolded list_all_iff])
qed

lemma length_EncodeToString [simp]: "length (EncodeToString s) = 2 * length s"
  by (induction s) (simp_all add: EncodeToString_def)

lemma Contains_slash: "Contains s ''/'' \<longleftrightarrow> CHR ''/'' \<in> set s"
  by (auto simp: Contains_iff in_set_conv_decomp)

lemma plain_append_ascii: "list_all (byte_in 0x20 0x7E) s \<Longrightarrow> plain (s @ t) \<longleftrightarrow> plain t"
  by (induction s) (simp_all add: plain_Cons)

section \<open>Properties\<close>



text \<open>
  C32. Loading a file gives back exactly the events whose frames it holds. A file that ends
  inside its last frame, at any byte of it, loads the events before that frame and reports the
  offset at which the frame begins, so cutting the file there removes the torn frame and nothing else.
\<close>

theorem loadFrames_exact:
  assumes "text_lib_ok lib" and "list_all2 (\<lambda>e f. encodeFrame lib e = Inr f) es fs" and "encodeFrame lib e = Inr f"
  shows "loadFrames lib (fileMagic @ concat fs) = Inr (es, None) \<and>
    (0 < n \<and> n < length f \<longrightarrow>
      loadFrames lib (fileMagic @ concat fs @ take n f) = Inr (es, Some (length (fileMagic @ concat fs))))"
proof -
  have es: "list_all (encodable lib) es" "fs = map (frame lib) es"
    using assms(2) by (simp_all add: list_all2_encodeFrame)
  have "encodable lib e" "f = frame lib e"
    using assms(3) by (simp_all add: encodable_def frame_def)
  then show ?thesis
    using loadFrames_events_file[OF assms(1) es(1)] loadFrames_torn[OF assms(1) es(1)] es(2)
    by (simp add: events_file_def)
qed

lemma login_event_encodes: "\<exists>f. encodeFrame line_lib login_event = Inr f"
proof -
  have "Event_Validate line_lib login_event = None"
    by code_simp
  moreover have "length (json_marshal line_lib (Event_Record line_lib login_event)) \<le> maximumEventJSONBytes"
    by code_simp
  ultimately show ?thesis
    by (simp add: encodeFrame_def Let_def)
qed

theorem loadFrames_exact_witness:
  "\<exists>f. encodeFrame line_lib login_event = Inr f \<and> loadFrames line_lib (fileMagic @ f) = Inr ([login_event], None) \<and>
     loadFrames line_lib (fileMagic @ f @ take 3 f) = Inr ([login_event], Some (length (fileMagic @ f)))"
proof -
  obtain f where f: "encodeFrame line_lib login_event = Inr f"
    using login_event_encodes by blast
  then have "frameHeaderBytes < length f"
    using length_frame[OF text_lib_ok_line_lib, of login_event] by (simp add: encodable_def frame_def)
  then show ?thesis
    using loadFrames_exact[OF text_lib_ok_line_lib, of "[login_event]" "[f]" login_event f 3] f
    by (simp add: frameHeaderBytes_def)
qed

text \<open>
  The health of a binding is the projection of the most recent retained event that names it;
  a binding no retained event names has none, and events without a binding count for nothing.
\<close>

theorem BindingHealth_latest:
  "map_of (BindingHealth st) b =
     (if b = [] then None else map_option Project (find (\<lambda>e. ev_Binding e = b) (rev (es_events st))))"
proof -
  let ?found = "find (\<lambda>e. ev_Binding e \<noteq> [] \<and> ev_Binding e = b) (rev (es_events st))"
  have "?found = (if b = [] then None else find (\<lambda>e. ev_Binding e = b) (rev (es_events st)))"
    by (induction "rev (es_events st)") (auto simp: find_None_iff intro: find_cong)
  then show ?thesis
    by (simp add: BindingHealth_def BindingHealth_fold split: option.splits)
qed

text \<open>
  The event form of a container key is always accepted by the event's validation: for every
  kind of key, a value with no control character, and for a container name no slash, projects to at
  most 512 bytes of plain text that carry a path only for a compose key, whatever the length of the
  value and whether or not it is UTF-8. The key of a devcontainer is the digest's text and no byte of the path.
\<close>

theorem ContainerKey_accepted:
  assumes "kind \<in> {''devcontainer'', ''compose'', ''name''}" and "\<not> list_ex control_char value"
    and "kind = ''name'' \<longrightarrow> CHR ''/'' \<notin> set value"
  shows "boundedText ''container key'' (ev_ContainerKey_of sha256 kind value) maximumContainerKeyBytes = None
    \<and> \<not> (Contains (ev_ContainerKey_of sha256 kind value) ''/'' \<and> \<not> HasPrefix (ev_ContainerKey_of sha256 kind value) ''compose:'')
    \<and> (kind = ''devcontainer'' \<longrightarrow>
        ev_ContainerKey_of sha256 kind value = ''devcontainer:'' @ EncodeToString (take 8 (sha256 value)))"
proof -
  let ?d = "EncodeToString (take 8 (sha256 value))"
  have ascii: "list_all (byte_in 0x20 0x7E) (kind @ '':'')" and short: "length (kind @ '':'') \<le> 13"
    using assms(1) by (auto simp: byte_in_def)
  have digest: "plain (kind @ '':'' @ ?d)" "length (kind @ '':'' @ ?d) \<le> maximumContainerKeyBytes"
    using plain_append_ascii[OF ascii, of ?d] hex_plain short by (simp_all add: maximumContainerKeyBytes_def)
  have direct: "plain (kind @ '':'' @ value)" if "ValidString (kind @ '':'' @ value)"
  proof -
    have "\<not> list_ex control_char (kind @ '':'')"
      using assms(1) by (auto simp: control_char_def byte_in_def)
    then show ?thesis
      using that assms(2) by (simp add: plain_def)
  qed
  have slash: "CHR ''/'' \<notin> set (kind @ '':'')"
    using assms(1) by auto
  show ?thesis
    using digest direct assms(1,3) slash hex_no_slash[of "take 8 (sha256 value)"]
    by (auto simp: ev_ContainerKey_of_def Let_def boundedText_None Contains_slash not_less)
qed

theorem ContainerKey_accepted_witness:
  "boundedText ''container key'' (ev_ContainerKey_of (\<lambda>_. ''01234567'') ''devcontainer'' ''/home/me'') maximumContainerKeyBytes = None
   \<and> \<not> Contains (ev_ContainerKey_of (\<lambda>_. ''01234567'') ''devcontainer'' ''/home/me'') ''/''"
proof -
  have "\<not> list_ex control_char ''/home/me''"
    by code_simp
  moreover have "\<not> HasPrefix (ev_ContainerKey_of (\<lambda>_. ''01234567'') ''devcontainer'' ''/home/me'') ''compose:''"
    by code_simp
  moreover have "''devcontainer'' \<in> {''devcontainer'', ''compose'', ''name''}" "''devcontainer'' \<noteq> ''name''"
    by simp_all
  ultimately show ?thesis
    using ContainerKey_accepted[of "''devcontainer''" "''/home/me''" "\<lambda>_. ''01234567''"] by blast
qed

end
