(* ===== verification/OpenBao_Client.thy ===== *)
theory OpenBao_Client
  imports Protocol Events
begin

text \<open>
  The OpenBao client (\<^verbatim>\<open>internal/openbao/client.go\<close>): tokens with their lease and the closed failure
  categories every error of the API is mapped to. The API of OpenBao is third-party code; what a
  call answers is an argument.
\<close>

section \<open>Tokens\<close>

definition second :: int where
  "second = 1000000000"

definition minute :: int where
  "minute = 60 * second"

record Token =
  tok_value :: string
  tok_Accessor :: string
  tok_Policies :: "string list"
  tok_TTL :: int
  tok_Renewable :: bool
  tok_Obtained :: int

definition Token_Valid :: "Token \<Rightarrow> int \<Rightarrow> bool" where
  "Token_Valid token now \<longleftrightarrow> tok_value token \<noteq> [] \<and> (tok_TTL token = 0 \<or> now < tok_Obtained token + tok_TTL token)"

definition Token_Expires :: "Token \<Rightarrow> int" where
  "Token_Expires token = (if tok_TTL token = 0 then zero_time else tok_Obtained token + tok_TTL token)"

datatype Category = CategoryUnavailable | CategoryDenied | CategoryTimeout | CategoryInvalid | CategoryNotFound

text \<open>The token part of an OpenBao answer: client token, accessor, policies, lease in seconds, renewable.\<close>

type_synonym auth = "string \<times> string \<times> string list \<times> int \<times> bool"

definition tokenFromAuth :: "auth option \<Rightarrow> int \<Rightarrow> Category + Token" where
  "tokenFromAuth secret now =
     (case secret of
        None \<Rightarrow> Inl CategoryInvalid
      | Some (client_token, accessor, policies, lease, renewable) \<Rightarrow>
          if client_token = [] then Inl CategoryInvalid
          else Inr \<lparr>tok_value = client_token, tok_Accessor = accessor, tok_Policies = policies, tok_TTL = lease * second,
            tok_Renewable = renewable, tok_Obtained = now\<rparr>)"

text \<open>How an agent reaches OpenBao, as a policy set carries it.\<close>

record OpenBao =
  bao_Address :: string
  bao_CAPEM :: string
  bao_Namespace :: string
  bao_TransitMount :: string
  bao_SSHMount :: string

section \<open>Failures\<close>

text \<open>What a call of the API reports: an error that already carries a category, a passed deadline, a
  network error that is a timeout, an answer with a status and its messages, or anything else.\<close>

datatype api_error =
    Categorized Category
  | DeadlineExceeded
  | NetTimeout
  | ResponseError int "string list"
  | OtherError

fun categorize :: "api_error \<Rightarrow> Category" where
  "categorize (Categorized category) = category"
| "categorize DeadlineExceeded = CategoryTimeout"
| "categorize NetTimeout = CategoryTimeout"
| "categorize (ResponseError status messages) =
     (if status = 403 \<or> status = 401 then CategoryDenied
      else if status = 404 then CategoryNotFound
      else if status = 400 then CategoryInvalid
      else CategoryUnavailable)"
| "categorize OtherError = CategoryUnavailable"

text \<open>The values a decoded JSON answer holds where the client reads them.\<close>

datatype api_value = VString string | VNumber int | VList "api_value list" | VMap "(string \<times> api_value) list" | VOther

definition requireString :: "(string, api_value) gomap \<Rightarrow> string \<Rightarrow> Category + string" where
  "requireString data key =
     (case map_of data key of
        Some (VString v) \<Rightarrow> if v = [] then Inl CategoryInvalid else Inr v
      | _ \<Rightarrow> Inl CategoryInvalid)"

end
