(* ===== verification/Credentials.thy ===== *)
theory Credentials
  imports OpenBao_Client
begin

text \<open>
  The agent's tokens (\<^verbatim>\<open>internal/agent/credentials.go\<close>): one OpenBao token per binding, obtained by deliveries, renewed, replaced
  and revoked by goroutines that run at the same time.

  The manager's maps are \<open>gomap\<close>s; a \<^verbatim>\<open>heldToken\<close> is a cell of a heap, so that the pointer
  comparisons of the source are comparisons of addresses. What each goroutine will do next is an
  \<open>activity\<close> of the state, and each step of the system runs one activity, or one call from the
  agent, from one release of the manager's lock to the next. What OpenBao answers is an argument of a step.
  The events, requests and reports the manager sends are appended to \<open>cs_out\<close>.
\<close>

section \<open>State\<close>

record heldToken =
  ht_assignment :: string
  ht_renew :: bool
  ht_token :: Token
  ht_period :: int
  ht_cancelled :: bool

type_synonym addr = nat

datatype result_of = Failed Category | Renewed Token

text \<open>What a goroutine does next. \<open>Delivering\<close>, \<open>LoggedIn\<close> and \<open>Installed\<close> are a \<^verbatim>\<open>deliver\<close> before the
  login, before it takes the lock, and after it installed the token; \<open>Reporting\<close> and \<open>Sending\<close> a
  report before and after it reads the tokens; \<open>Dropping\<close> the caller of \<^verbatim>\<open>invalidate\<close>, \<^verbatim>\<open>retire\<close> or
  \<^verbatim>\<open>stopAll\<close> after it released the lock; \<open>Maintaining\<close>, \<open>Waiting\<close>, \<open>Renewing\<close>, \<open>RenewDone\<close> and
  \<open>RenewNoted\<close> the loop of \<^verbatim>\<open>maintain\<close>; \<open>Expiring\<close> an \<^verbatim>\<open>awaitExpiry\<close>. The context of a
  \<^verbatim>\<open>maintain\<close> is that of the token it was started for, whose address is its second argument.\<close>

datatype activity =
    Delivering Credential "64 word" "string list" bool
  | LoggedIn Credential "64 word" bool Token
  | Installed string "addr option" addr
  | Reporting "string option" "(string \<times> addr) option"
  | Sending "(string \<times> string \<times> string) list" "(string \<times> addr) option"
  | Dropping string addr
  | Revoking string Token
  | Retrying string "64 word" int int "addr option"
  | Maintaining string addr
  | Waiting string addr addr int
  | Renewing string addr addr Token int
  | RenewDone string addr addr int result_of
  | RenewNoted string addr addr result_of
  | Expiring string addr addr int

datatype effect =
    Request string
  | Report string string string
  | Recorded Event
  | RevokeSelf string Token

record cred_state =
  cs_now :: int
  cs_done :: bool
  cs_endpoint :: "OpenBao option"
  cs_heap :: "heldToken list"
  cs_held :: "(string, addr) gomap"
  cs_next :: "64 word"
  cs_generation :: "(string, 64 word) gomap"
  cs_recorded :: "(string, string) gomap"
  cs_failures :: "(string, CredentialError) gomap"
  cs_reporting :: bool
  cs_acts :: "activity list"
  cs_out :: "effect list"
  cs_draws :: nat
  cs_issued :: "string list"
  cs_lapsed :: "(Token \<times> int) list"

text \<open>The last three fields record what happened and are read by no operation: how many generations
  were drawn, the value of every token a login returned, and every token removed because
  its lease was over, with the time of the removal.\<close>

definition newCredentials :: "int \<Rightarrow> cred_state" where
  "newCredentials now =
     \<lparr>cs_now = now, cs_done = False, cs_endpoint = None, cs_heap = [], cs_held = [], cs_next = 0, cs_generation = [],
      cs_recorded = [], cs_failures = [], cs_reporting = False, cs_acts = [], cs_out = [], cs_draws = 0, cs_issued = [],
      cs_lapsed = []\<rparr>"

definition retryDelay :: int where
  "retryDelay = second"

definition spawn :: "activity list \<Rightarrow> cred_state \<Rightarrow> cred_state" where
  "spawn acts st = st\<lparr>cs_acts := cs_acts st @ acts\<rparr>"

definition finish :: "activity \<Rightarrow> cred_state \<Rightarrow> cred_state" where
  "finish a st = st\<lparr>cs_acts := remove1 a (cs_acts st)\<rparr>"

definition emit :: "effect list \<Rightarrow> cred_state \<Rightarrow> cred_state" where
  "emit outs st = st\<lparr>cs_out := cs_out st @ outs\<rparr>"

text \<open>A Go map gives the zero value for a key it does not have.\<close>

definition generation_of :: "string \<Rightarrow> cred_state \<Rightarrow> 64 word" where
  "generation_of b st = (case map_of (cs_generation st) b of None \<Rightarrow> 0 | Some g \<Rightarrow> g)"

definition held_of :: "string \<Rightarrow> cred_state \<Rightarrow> addr option" where
  "held_of b st = map_of (cs_held st) b"

definition token_at :: "addr \<Rightarrow> cred_state \<Rightarrow> Token" where
  "token_at p st = ht_token (cs_heap st ! p)"

definition cancel :: "addr \<Rightarrow> cred_state \<Rightarrow> cred_state" where
  "cancel p st = st\<lparr>cs_heap := (cs_heap st)[p := (cs_heap st ! p)\<lparr>ht_cancelled := True\<rparr>]\<rparr>"

section \<open>Outcomes\<close>

definition openBaoCode :: "Category \<Rightarrow> string" where
  "openBaoCode category =
     (case category of
        CategoryDenied \<Rightarrow> ''openbao-denied''
      | CategoryTimeout \<Rightarrow> ''openbao-timeout''
      | CategoryInvalid \<Rightarrow> ''openbao-denied''
      | CategoryNotFound \<Rightarrow> ''openbao-denied''
      | CategoryUnavailable \<Rightarrow> ''openbao-unavailable'')"

definition outcomeOf :: "string \<Rightarrow> string" where
  "outcomeOf code =
     (if code = ErrorNone then OutcomeOK
      else if code \<in> set [''openbao-denied'', ''policy-denied'', ''recreate-not-allowed'', ''not-bound''] then OutcomeDenied
      else if code = ''openbao-timeout'' then OutcomeTimeout
      else OutcomeFailed)"

definition credentialError :: "string \<Rightarrow> CredentialError" where
  "credentialError code =
     (if code = ''openbao-denied'' then ''openbao-denied''
      else if code = ''openbao-timeout'' then ''openbao-timeout''
      else ''openbao-unavailable'')"

definition noteOutcome :: "string \<Rightarrow> string \<Rightarrow> string \<Rightarrow> cred_state \<Rightarrow> cred_state" where
  "noteOutcome operation b code st =
     (if operation \<noteq> ''login'' \<and> operation \<noteq> ''renew'' then st
      else if code = ErrorNone then st\<lparr>cs_failures := AList.delete b (cs_failures st)\<rparr>
      else st\<lparr>cs_failures := AList.update b (credentialError code) (cs_failures st)\<rparr>)"

definition outcome_event :: "(string \<Rightarrow> string) \<Rightarrow> string \<Rightarrow> string \<Rightarrow> string \<Rightarrow> int \<Rightarrow> Event" where
  "outcome_event keyOf operation b code latency =
     \<lparr>ev_Time = zero_time, ev_Operation = operation, ev_Outcome = outcomeOf code, ev_Latency = word_of_int latency,
      ev_ErrorCode = code, ev_Agent = [], ev_Binding = b, ev_ContainerKey = keyOf b, ev_Policy = [], ev_NewPolicy = [],
      ev_Operator = [], ev_Fingerprint = [], ev_Mount = [], ev_Method = []\<rparr>"

definition recordOutcome :: "(string \<Rightarrow> string) \<Rightarrow> string \<Rightarrow> string \<Rightarrow> int \<Rightarrow> Category option \<Rightarrow> cred_state \<Rightarrow> cred_state" where
  "recordOutcome keyOf operation b started err st =
     (let code = (case err of None \<Rightarrow> ErrorNone | Some category \<Rightarrow> openBaoCode category)
      in emit [Recorded (outcome_event keyOf operation b code (cs_now st - started))] (noteOutcome operation b code st))"

definition samePolicies :: "string list \<Rightarrow> string list \<Rightarrow> bool" where
  "samePolicies actual own \<longleftrightarrow> length own > 0 \<and> sort actual = sort own"

section \<open>Calls from the agent\<close>

definition same_client :: "OpenBao \<Rightarrow> cred_state \<Rightarrow> bool" where
  "same_client endpoint st \<longleftrightarrow> cs_endpoint st = Some endpoint"

text \<open>\<open>newClient\<close> tells whether \<^verbatim>\<open>openbao.NewClient\<close> accepts the endpoint.\<close>

definition setEndpoint :: "(OpenBao \<Rightarrow> bool) \<Rightarrow> OpenBao \<Rightarrow> cred_state \<Rightarrow> Category option \<times> cred_state" where
  "setEndpoint newClient endpoint st =
     (if same_client endpoint st then (None, st)
      else if newClient endpoint then (None, st\<lparr>cs_endpoint := Some endpoint\<rparr>)
      else (Some CategoryInvalid, st))"

definition current :: "string \<Rightarrow> cred_state \<Rightarrow> Token option" where
  "current b st =
     (case held_of b st of
        None \<Rightarrow> None
      | Some p \<Rightarrow> if Token_Valid (token_at p st) (cs_now st) then Some (token_at p st) else None)"

definition advanceLocked :: "string \<Rightarrow> cred_state \<Rightarrow> 64 word \<times> cred_state" where
  "advanceLocked b st =
     (let g = cs_next st + 1
      in (g, st\<lparr>cs_next := g, cs_generation := AList.update b g (cs_generation st), cs_draws := cs_draws st + 1\<rparr>))"

definition cred_begin :: "string \<Rightarrow> cred_state \<Rightarrow> 64 word \<times> cred_state" where
  "cred_begin b st = advanceLocked b st"

definition invalidate :: "string \<Rightarrow> cred_state \<Rightarrow> 64 word \<times> cred_state" where
  "invalidate b st =
     (case advanceLocked b st of
        (g, st1) \<Rightarrow>
          let st2 = st1\<lparr>cs_held := AList.delete b (cs_held st1), cs_recorded := AList.delete b (cs_recorded st1)\<rparr>
          in (g, case held_of b st1 of None \<Rightarrow> st2 | Some p \<Rightarrow> spawn [Dropping b p] st2))"

definition cred_retire :: "string \<Rightarrow> cred_state \<Rightarrow> cred_state" where
  "cred_retire b st =
     (let st1 = st\<lparr>cs_held := AList.delete b (cs_held st), cs_generation := AList.delete b (cs_generation st),
         cs_recorded := AList.delete b (cs_recorded st), cs_failures := AList.delete b (cs_failures st)\<rparr>
      in case held_of b st of None \<Rightarrow> st1 | Some p \<Rightarrow> spawn [Dropping b p] st1)"

definition stopAll :: "cred_state \<Rightarrow> cred_state" where
  "stopAll st =
     spawn (map (\<lambda>(b, p). Dropping b p) (cs_held st)) (st\<lparr>cs_held := [], cs_generation := [], cs_recorded := []\<rparr>)"

definition accessorRecorded :: "AccessorRecorded \<Rightarrow> cred_state \<Rightarrow> cred_state" where
  "accessorRecorded recorded st =
     st\<lparr>cs_recorded := AList.update (accessor_Binding recorded) (accessor_Accessor recorded) (cs_recorded st)\<rparr>"

definition holding :: "cred_state \<Rightarrow> (string, bool) gomap" where
  "holding st = map (\<lambda>(b, p). (b, Token_Valid (token_at p st) (cs_now st))) (cs_held st)"

definition lastFailures :: "cred_state \<Rightarrow> (string, CredentialError) gomap" where
  "lastFailures st = cs_failures st"

section \<open>Goroutines\<close>

definition retry :: "string \<Rightarrow> 64 word \<Rightarrow> addr option \<Rightarrow> cred_state \<Rightarrow> activity" where
  "retry b g ctx st = Retrying b g retryDelay (cs_now st + retryDelay) ctx"

text \<open>\<^verbatim>\<open>deliver\<close> up to the lock, given what unwrapping and login answer, and what revoking
  the token answers where its policies are not the binding's own.\<close>

definition deliver_login ::
  "(string \<Rightarrow> string) \<Rightarrow> Credential \<Rightarrow> 64 word \<Rightarrow> string list \<Rightarrow> bool \<Rightarrow> Category + Token \<Rightarrow> Category option \<Rightarrow> cred_state \<Rightarrow> cred_state" where
  "deliver_login keyOf credential g ownPolicies renew answer revoked st =
     (let b = credential_Binding credential; now = cs_now st in
      case cs_endpoint st of
        None \<Rightarrow> spawn [retry b g None st] (recordOutcome keyOf ''login'' b now (Some CategoryUnavailable) st)
      | Some _ \<Rightarrow>
        (case answer of
           Inl category \<Rightarrow> spawn [retry b g None st] (recordOutcome keyOf ''login'' b now (Some category) st)
         | Inr token \<Rightarrow>
             let st1 = st\<lparr>cs_issued := tok_value token # cs_issued st\<rparr> in
             if samePolicies (tok_Policies token) ownPolicies
             then spawn [LoggedIn credential g renew token] (recordOutcome keyOf ''login'' b now None st1)
             else spawn [retry b g None st]
               (recordOutcome keyOf ''login'' b now (Some CategoryDenied)
                 (recordOutcome keyOf ''revoke'' b now revoked (emit [RevokeSelf b token] st1)))))"

definition deliver_install :: "Credential \<Rightarrow> 64 word \<Rightarrow> bool \<Rightarrow> Token \<Rightarrow> cred_state \<Rightarrow> cred_state" where
  "deliver_install credential g renew token st =
     (let b = credential_Binding credential in
      if generation_of b st \<noteq> g then spawn [Revoking b token] st
      else
        let p = length (cs_heap st);
            new = \<lparr>ht_assignment = credential_Assignment credential, ht_renew = renew, ht_token = token,
              ht_period = tok_TTL token, ht_cancelled = False\<rparr>
        in spawn [Installed b (held_of b st) p]
             (st\<lparr>cs_heap := cs_heap st @ [new], cs_held := AList.update b p (cs_held st)\<rparr>))"

definition deliver_finish :: "string \<Rightarrow> addr option \<Rightarrow> addr \<Rightarrow> cred_state \<Rightarrow> cred_state" where
  "deliver_finish b previous p st =
     (case previous of
        None \<Rightarrow> spawn [Reporting (Some b) (Some (b, p))] st
      | Some q \<Rightarrow> spawn [Revoking b (token_at q st), Reporting (Some b) (Some (b, p))] (cancel q st))"

definition revoke :: "(string \<Rightarrow> string) \<Rightarrow> string \<Rightarrow> Token \<Rightarrow> Category option \<Rightarrow> cred_state \<Rightarrow> cred_state" where
  "revoke keyOf b token answer st =
     (case cs_endpoint st of
        None \<Rightarrow> st
      | Some _ \<Rightarrow> recordOutcome keyOf ''revoke'' b (cs_now st) answer (emit [RevokeSelf b token] st))"

definition drop_held :: "string \<Rightarrow> addr \<Rightarrow> cred_state \<Rightarrow> cred_state" where
  "drop_held b p st = spawn [Revoking b (token_at p st)] (cancel p st)"

text \<open>What a report reads under both locks: the accessor of one binding's token, or of every
  token the controller has not acknowledged.\<close>

definition reportAccessor :: "string \<Rightarrow> cred_state \<Rightarrow> (string \<times> string \<times> string) list" where
  "reportAccessor b st =
     (case held_of b st of
        None \<Rightarrow> []
      | Some p \<Rightarrow>
          if tok_Accessor (token_at p st) \<noteq> []
          then [(b, ht_assignment (cs_heap st ! p), tok_Accessor (token_at p st))] else [])"

definition reportUnrecorded :: "cred_state \<Rightarrow> (string \<times> string \<times> string) list" where
  "reportUnrecorded st =
     concat (map (\<lambda>(b, p).
       let accessor = tok_Accessor (token_at p st) in
       if accessor \<noteq> [] \<and> (case map_of (cs_recorded st) b of None \<Rightarrow> [] | Some a \<Rightarrow> a) \<noteq> accessor
       then [(b, ht_assignment (cs_heap st ! p), accessor)] else []) (cs_held st))"

definition report_read :: "string option \<Rightarrow> (string \<times> addr) option \<Rightarrow> cred_state \<Rightarrow> cred_state" where
  "report_read which rest st =
     spawn [Sending (case which of None \<Rightarrow> reportUnrecorded st | Some b \<Rightarrow> reportAccessor b st) rest]
       (st\<lparr>cs_reporting := True\<rparr>)"

definition report_send :: "(string \<times> string \<times> string) list \<Rightarrow> (string \<times> addr) option \<Rightarrow> cred_state \<Rightarrow> cred_state" where
  "report_send pending rest st =
     spawn (case rest of None \<Rightarrow> [] | Some (b, p) \<Rightarrow> [Maintaining b p])
       (emit (map (\<lambda>(b, assignment, accessor). Report b assignment accessor) pending) (st\<lparr>cs_reporting := False\<rparr>))"

definition retry_tick :: "string \<Rightarrow> 64 word \<Rightarrow> int \<Rightarrow> addr option \<Rightarrow> cred_state \<Rightarrow> cred_state" where
  "retry_tick b g delay ctx st =
     (if generation_of b st \<noteq> g then st
      else
        let delay' = (if delay < minute then 2 * delay else delay)
        in spawn [Retrying b g delay' (cs_now st + delay') ctx] (emit [Request b] st))"

text \<open>The rounding of a negative remainder does not matter: it is below a second either way.\<close>

definition maintain_top :: "string \<Rightarrow> addr \<Rightarrow> cred_state \<Rightarrow> cred_state" where
  "maintain_top b ctx st =
     (case held_of b st of
        None \<Rightarrow> st
      | Some p \<Rightarrow>
          let token = token_at p st in
          if tok_TTL token = 0 then st
          else if \<not> ht_renew (cs_heap st ! p) then spawn [Expiring b ctx p (Token_Expires token)] st
          else
            let half = (Token_Expires token - cs_now st) div 2; wait = (if half < second then second else half)
            in spawn [Waiting b ctx p (cs_now st + wait)] st)"

definition maintain_renew :: "string \<Rightarrow> addr \<Rightarrow> addr \<Rightarrow> cred_state \<Rightarrow> cred_state" where
  "maintain_renew b ctx p st =
     spawn [Renewing b ctx p ((token_at p st)\<lparr>tok_TTL := ht_period (cs_heap st ! p)\<rparr>) (cs_now st)] st"

definition error_category :: "result_of \<Rightarrow> Category option" where
  "error_category r = (case r of Failed category \<Rightarrow> Some category | Renewed _ \<Rightarrow> None)"

definition maintain_note :: "(string \<Rightarrow> string) \<Rightarrow> string \<Rightarrow> addr \<Rightarrow> addr \<Rightarrow> int \<Rightarrow> result_of \<Rightarrow> cred_state \<Rightarrow> cred_state" where
  "maintain_note keyOf b ctx p started r st =
     spawn [RenewNoted b ctx p r] (recordOutcome keyOf ''renew'' b started (error_category r) st)"

text \<open>Removing a token whose lease is over, as \<^verbatim>\<open>maintain\<close> and \<^verbatim>\<open>awaitExpiry\<close> do.\<close>

definition lapse :: "string \<Rightarrow> addr \<Rightarrow> cred_state \<Rightarrow> cred_state" where
  "lapse b p st =
     st\<lparr>cs_held := AList.delete b (cs_held st), cs_lapsed := (token_at p st, cs_now st) # cs_lapsed st\<rparr>"

definition maintain_apply :: "string \<Rightarrow> addr \<Rightarrow> addr \<Rightarrow> result_of \<Rightarrow> cred_state \<Rightarrow> cred_state" where
  "maintain_apply b ctx p r st =
     (case r of
        Failed _ \<Rightarrow>
          let st1 = emit [Request b] st in
          if Token_Valid (token_at p st) (cs_now st) then spawn [Maintaining b ctx] st1
          else if held_of b st = Some p then spawn [retry b (generation_of b st) (Some ctx) st] (lapse b p st1)
          else st1
      | Renewed token \<Rightarrow>
          let st1 = (if held_of b st = Some p
                then st\<lparr>cs_heap := (cs_heap st)[p := (cs_heap st ! p)\<lparr>ht_token := token\<rparr>]\<rparr> else st);
              st2 = (if tok_TTL token < ht_period (cs_heap st ! p) \<or> \<not> tok_Renewable token then emit [Request b] st1 else st1)
          in spawn [Maintaining b ctx] st2)"

definition awaitExpiry_lapse :: "string \<Rightarrow> addr \<Rightarrow> addr \<Rightarrow> cred_state \<Rightarrow> cred_state" where
  "awaitExpiry_lapse b ctx p st =
     (if ht_cancelled (cs_heap st ! ctx) \<or> held_of b st \<noteq> Some p then st
      else spawn [retry b (generation_of b st) (Some ctx) st] (emit [Request b] (lapse b p st)))"

section \<open>Steps\<close>

text \<open>What the manager is built with: the container key of a binding, what OpenBao's client
  accepts as an endpoint, and which tokens OpenBao answers when a token is renewed.\<close>

record cred_env =
  env_keyOf :: "string \<Rightarrow> string"
  env_newClient :: "OpenBao \<Rightarrow> bool"
  env_renew :: "Token \<Rightarrow> Token \<Rightarrow> bool"

text \<open>\<open>ended ctx\<close>: the context of a retry is done, the session's own or that of a token.\<close>

definition ended :: "addr option \<Rightarrow> cred_state \<Rightarrow> bool" where
  "ended ctx st = (case ctx of None \<Rightarrow> cs_done st | Some p \<Rightarrow> ht_cancelled (cs_heap st ! p))"

inductive cred_step :: "cred_env \<Rightarrow> cred_state \<Rightarrow> cred_state \<Rightarrow> bool" for env where
  tick: "cs_now st \<le> t \<Longrightarrow> cred_step env st (st\<lparr>cs_now := t\<rparr>)"
| shutdown: "cred_step env st (st\<lparr>cs_done := True\<rparr>)"
| endpoint: "cred_step env st (snd (setEndpoint (env_newClient env) e st))"
| credential: "cred_begin (credential_Binding c) st = (g, st1) \<Longrightarrow> cred_step env st (spawn [Delivering c g own renew] st1)"
| invalidated: "invalidate b st = (g, st1) \<Longrightarrow> cred_step env st st1"
| invalidated_retry: "invalidate b st = (g, st1) \<Longrightarrow> cred_step env st (spawn [retry b g None st1] st1)"
| retired: "cred_step env st (cred_retire b st)"
| stopped: "cred_step env st (stopAll st)"
| acknowledged: "cred_step env st (accessorRecorded r st)"
| report_again: "cred_step env st (spawn [Reporting None None] st)"
| login: "a = Delivering c g own renew \<Longrightarrow> a \<in> set (cs_acts st) \<Longrightarrow>
    (\<forall>token. answer = Inr token \<longrightarrow> tok_value token \<noteq> []) \<Longrightarrow>
    cred_step env st (deliver_login (env_keyOf env) c g own renew answer revoked (finish a st))"
| install: "a = LoggedIn c g renew token \<Longrightarrow> a \<in> set (cs_acts st) \<Longrightarrow>
    cred_step env st (deliver_install c g renew token (finish a st))"
| installed: "a = Installed b previous p \<Longrightarrow> a \<in> set (cs_acts st) \<Longrightarrow>
    cred_step env st (deliver_finish b previous p (finish a st))"
| reading: "a = Reporting which rest \<Longrightarrow> a \<in> set (cs_acts st) \<Longrightarrow> \<not> cs_reporting st \<Longrightarrow>
    cred_step env st (report_read which rest (finish a st))"
| sending: "a = Sending pending rest \<Longrightarrow> a \<in> set (cs_acts st) \<Longrightarrow>
    cred_step env st (report_send pending rest (finish a st))"
| dropping: "a = Dropping b p \<Longrightarrow> a \<in> set (cs_acts st) \<Longrightarrow> cred_step env st (drop_held b p (finish a st))"
| revoking: "a = Revoking b token \<Longrightarrow> a \<in> set (cs_acts st) \<Longrightarrow>
    cred_step env st (revoke (env_keyOf env) b token answered (finish a st))"
| retry_end: "a = Retrying b g delay deadline ctx \<Longrightarrow> a \<in> set (cs_acts st) \<Longrightarrow> ended ctx st \<Longrightarrow>
    cred_step env st (finish a st)"
| retrying: "a = Retrying b g delay deadline ctx \<Longrightarrow> a \<in> set (cs_acts st) \<Longrightarrow> deadline \<le> cs_now st \<Longrightarrow>
    cred_step env st (retry_tick b g delay ctx (finish a st))"
| maintaining: "a = Maintaining b ctx \<Longrightarrow> a \<in> set (cs_acts st) \<Longrightarrow> cred_step env st (maintain_top b ctx (finish a st))"
| wait_end: "a = Waiting b ctx p deadline \<Longrightarrow> a \<in> set (cs_acts st) \<Longrightarrow> ended (Some ctx) st \<Longrightarrow>
    cred_step env st (finish a st)"
| waited: "a = Waiting b ctx p deadline \<Longrightarrow> a \<in> set (cs_acts st) \<Longrightarrow> deadline \<le> cs_now st \<Longrightarrow>
    cred_step env st (maintain_renew b ctx p (finish a st))"
| renew_end: "a = Renewing b ctx p increment started \<Longrightarrow> a \<in> set (cs_acts st) \<Longrightarrow> ended (Some ctx) st \<Longrightarrow>
    cred_step env st (finish a st)"
| renew_failed: "a = Renewing b ctx p increment started \<Longrightarrow> a \<in> set (cs_acts st) \<Longrightarrow> \<not> ended (Some ctx) st \<Longrightarrow>
    cred_step env st (spawn [RenewDone b ctx p started (Failed category)] (finish a st))"
| renewed: "a = Renewing b ctx p increment started \<Longrightarrow> a \<in> set (cs_acts st) \<Longrightarrow> \<not> ended (Some ctx) st \<Longrightarrow>
    env_renew env increment token \<Longrightarrow>
    cred_step env st (spawn [RenewDone b ctx p started (Renewed token)] (finish a st))"
| noting: "a = RenewDone b ctx p started r \<Longrightarrow> a \<in> set (cs_acts st) \<Longrightarrow>
    cred_step env st (maintain_note (env_keyOf env) b ctx p started r (finish a st))"
| applying: "a = RenewNoted b ctx p r \<Longrightarrow> a \<in> set (cs_acts st) \<Longrightarrow> cred_step env st (maintain_apply b ctx p r (finish a st))"
| expiry_end: "a = Expiring b ctx p deadline \<Longrightarrow> a \<in> set (cs_acts st) \<Longrightarrow> ended (Some ctx) st \<Longrightarrow>
    cred_step env st (finish a st)"
| expired: "a = Expiring b ctx p deadline \<Longrightarrow> a \<in> set (cs_acts st) \<Longrightarrow> deadline \<le> cs_now st \<Longrightarrow>
    cred_step env st (awaitExpiry_lapse b ctx p (finish a st))"

abbreviation cred_steps :: "cred_env \<Rightarrow> cred_state \<Rightarrow> cred_state \<Rightarrow> bool" where
  "cred_steps env \<equiv> (cred_step env)\<^sup>*\<^sup>*"

end
