(* ===== verification/Credentials_Safety.thy ===== *)
theory Credentials_Safety
  imports Credentials
begin

text \<open>
  What holds of the agent's tokens however the goroutines of \<open>Credentials\<close> interleave: no token
  is lost, a superseded delivery installs nothing, and the tokens of retired bindings are revoked.
\<close>

section \<open>Tokens and the places that answer for them\<close>

definition heap_le :: "heldToken list \<Rightarrow> heldToken list \<Rightarrow> bool" where
  "heap_le h h' \<longleftrightarrow>
     length h \<le> length h' \<and>
     (\<forall>p<length h. ht_renew (h' ! p) = ht_renew (h ! p)
        \<and> tok_value (ht_token (h' ! p)) = tok_value (ht_token (h ! p))
        \<and> tok_Accessor (ht_token (h' ! p)) = tok_Accessor (ht_token (h ! p))
        \<and> (\<not> ht_renew (h ! p) \<longrightarrow> ht_token (h' ! p) = ht_token (h ! p)))"

fun act_values :: "heldToken list \<Rightarrow> activity \<Rightarrow> string set" where
  "act_values h (LoggedIn c g renew token) = {tok_value token}"
| "act_values h (Installed b (Some q) p) = {tok_value (ht_token (h ! q))}"
| "act_values h (Dropping b p) = {tok_value (ht_token (h ! p))}"
| "act_values h (Revoking b token) = {tok_value token}"
| "act_values h _ = {}"

fun carries :: "activity \<Rightarrow> bool" where
  "carries (LoggedIn c g renew token) = True"
| "carries (Installed b q p) = True"
| "carries (Dropping b p) = True"
| "carries (Revoking b token) = True"
| "carries _ = False"

fun act_ok :: "heldToken list \<Rightarrow> activity \<Rightarrow> bool" where
  "act_ok h (Installed b q p) \<longleftrightarrow> (\<forall>r. q = Some r \<longrightarrow> r < length h)"
| "act_ok h (Dropping b p) \<longleftrightarrow> p < length h"
| "act_ok h (Waiting b ctx p d) \<longleftrightarrow> p < length h \<and> ht_renew (h ! p)"
| "act_ok h (Renewing b ctx p increment s) \<longleftrightarrow>
     p < length h \<and> ht_renew (h ! p) \<and> tok_value increment = tok_value (ht_token (h ! p))
     \<and> tok_Accessor increment = tok_Accessor (ht_token (h ! p))"
| "act_ok h (RenewDone b ctx p s r) \<longleftrightarrow>
     p < length h \<and> ht_renew (h ! p) \<and> (case r of Failed _ \<Rightarrow> True | Renewed t \<Rightarrow> tok_value t = tok_value (ht_token (h ! p))
        \<and> tok_Accessor t = tok_Accessor (ht_token (h ! p)))"
| "act_ok h (RenewNoted b ctx p r) \<longleftrightarrow>
     p < length h \<and> ht_renew (h ! p) \<and> (case r of Failed _ \<Rightarrow> True | Renewed t \<Rightarrow> tok_value t = tok_value (ht_token (h ! p))
        \<and> tok_Accessor t = tok_Accessor (ht_token (h ! p)))"
| "act_ok h (Expiring b ctx p d) \<longleftrightarrow>
     p < length h \<and> \<not> ht_renew (h ! p) \<and> tok_TTL (ht_token (h ! p)) \<noteq> 0 \<and> d = Token_Expires (ht_token (h ! p))"
| "act_ok h _ = True"

definition accounted :: "cred_state \<Rightarrow> string set" where
  "accounted st =
     {tok_value (token_at p st) | b p. held_of b st = Some p}
     \<union> (\<Union>a\<in>set (cs_acts st). act_values (cs_heap st) a)
     \<union> {tok_value t | b t. RevokeSelf b t \<in> set (cs_out st)}
     \<union> {tok_value t | t n. (t, n) \<in> set (cs_lapsed st)}"

definition token_inv :: "cred_state \<Rightarrow> bool" where
  "token_inv st \<longleftrightarrow>
     (\<forall>b p. held_of b st = Some p \<longrightarrow> p < length (cs_heap st))
     \<and> (\<forall>a\<in>set (cs_acts st). act_ok (cs_heap st) a)
     \<and> (cs_endpoint st = None \<longrightarrow> cs_held st = [] \<and> (\<forall>a\<in>set (cs_acts st). \<not> carries a))
     \<and> set (cs_issued st) \<subseteq> accounted st
     \<and> (\<forall>(t, n)\<in>set (cs_lapsed st). \<not> Token_Valid t n)"

lemma heap_le_refl [simp]: "heap_le h h"
  by (simp add: heap_le_def)

lemma heap_le_append [simp]: "heap_le h (h @ k)"
  by (simp add: heap_le_def nth_append)

lemma heap_le_cancel [simp]: "heap_le h (h[p := (h ! p)\<lparr>ht_cancelled := c\<rparr>])"
  by (cases "p < length h") (auto simp: heap_le_def nth_list_update)

lemma heap_le_renew:
  "ht_renew (h ! p) \<Longrightarrow> tok_value t = tok_value (ht_token (h ! p)) \<Longrightarrow> tok_Accessor t = tok_Accessor (ht_token (h ! p)) \<Longrightarrow>
    heap_le h (h[p := (h ! p)\<lparr>ht_token := t\<rparr>])"
  by (cases "p < length h") (auto simp: heap_le_def nth_list_update)

lemma heap_leD:
  assumes "heap_le h h'" and "p < length h"
  shows "p < length h'" and "ht_renew (h' ! p) = ht_renew (h ! p)"
    and "tok_value (ht_token (h' ! p)) = tok_value (ht_token (h ! p))"
    and "\<not> ht_renew (h ! p) \<Longrightarrow> ht_token (h' ! p) = ht_token (h ! p)"
    and "tok_Accessor (ht_token (h' ! p)) = tok_Accessor (ht_token (h ! p))"
  using assms by (auto simp: heap_le_def)

lemma act_ok_mono:
  assumes "heap_le h h'" and "act_ok h a"
  shows "act_ok h' a"
  using assms(2) by (cases a) (simp_all add: heap_leD[OF assms(1)] split: result_of.splits)

lemma act_values_mono:
  assumes "heap_le h h'" and "act_ok h a"
  shows "act_values h' a = act_values h a"
proof (cases a)
  case (Installed b q p)
  then show ?thesis
    using assms(2) by (cases q) (simp_all add: heap_leD[OF assms(1)])
qed (use assms(2) in \<open>simp_all add: heap_leD[OF assms(1)]\<close>)

text \<open>A change that keeps every token accounted for keeps the invariant.\<close>

lemma token_inv_change:
  assumes inv: "token_inv st" and heap: "heap_le (cs_heap st) (cs_heap st')"
    and held: "\<And>b p. held_of b st' = Some p \<Longrightarrow> held_of b st = Some p \<or> p < length (cs_heap st')"
    and acts: "\<And>a. a \<in> set (cs_acts st') \<Longrightarrow> a \<in> set (cs_acts st) \<or> act_ok (cs_heap st') a"
    and none: "cs_endpoint st' = None \<Longrightarrow> cs_endpoint st = None"
    and idle: "cs_endpoint st' = None \<Longrightarrow> cs_held st = [] \<Longrightarrow> \<forall>a\<in>set (cs_acts st). \<not> carries a \<Longrightarrow>
      cs_held st' = [] \<and> (\<forall>a\<in>set (cs_acts st'). \<not> carries a)"
    and values_kept: "accounted st \<union> new \<subseteq> accounted st'" and issued: "set (cs_issued st') \<subseteq> set (cs_issued st) \<union> new"
    and lapsed: "\<And>t n. (t, n) \<in> set (cs_lapsed st') \<Longrightarrow> (t, n) \<in> set (cs_lapsed st) \<or> \<not> Token_Valid t n"
  shows "token_inv st'"
proof -
  have "length (cs_heap st) \<le> length (cs_heap st')"
    using heap by (simp add: heap_le_def)
  then have "\<forall>b p. held_of b st' = Some p \<longrightarrow> p < length (cs_heap st')"
    using inv held unfolding token_inv_def by (meson order_less_le_trans)
  moreover have "\<forall>a\<in>set (cs_acts st'). act_ok (cs_heap st') a"
    using inv acts act_ok_mono[OF heap] unfolding token_inv_def by blast
  moreover have "cs_endpoint st' = None \<longrightarrow> cs_held st' = [] \<and> (\<forall>a\<in>set (cs_acts st'). \<not> carries a)"
  proof
    assume e: "cs_endpoint st' = None"
    then show "cs_held st' = [] \<and> (\<forall>a\<in>set (cs_acts st'). \<not> carries a)"
      using inv none[OF e] idle[OF e] unfolding token_inv_def by simp
  qed
  moreover have "set (cs_issued st') \<subseteq> accounted st'"
    using inv values_kept issued unfolding token_inv_def by blast
  moreover have "\<forall>(t, n)\<in>set (cs_lapsed st'). \<not> Token_Valid t n"
    using inv lapsed unfolding token_inv_def by blast
  ultimately show ?thesis
    unfolding token_inv_def by blast
qed


text \<open>The fields each helper leaves alone.\<close>

lemmas state_defs = spawn_def finish_def emit_def cancel_def

lemma recordOutcome_fields [simp]:
  "cs_heap (recordOutcome k op b s e st) = cs_heap st"
  "cs_held (recordOutcome k op b s e st) = cs_held st"
  "cs_acts (recordOutcome k op b s e st) = cs_acts st"
  "cs_endpoint (recordOutcome k op b s e st) = cs_endpoint st"
  "cs_issued (recordOutcome k op b s e st) = cs_issued st"
  "cs_lapsed (recordOutcome k op b s e st) = cs_lapsed st"
  "cs_generation (recordOutcome k op b s e st) = cs_generation st"
  "cs_next (recordOutcome k op b s e st) = cs_next st"
  "cs_draws (recordOutcome k op b s e st) = cs_draws st"
  "cs_recorded (recordOutcome k op b s e st) = cs_recorded st"
  "cs_reporting (recordOutcome k op b s e st) = cs_reporting st"
  "cs_now (recordOutcome k op b s e st) = cs_now st"
  by (simp_all add: recordOutcome_def noteOutcome_def emit_def Let_def)

lemma recordOutcome_out: "set (cs_out st) \<subseteq> set (cs_out (recordOutcome k op b s e st))"
  by (auto simp: recordOutcome_def noteOutcome_def emit_def Let_def)

lemma accountedI_held: "held_of b st = Some p \<Longrightarrow> tok_value (token_at p st) \<in> accounted st"
  unfolding accounted_def by blast

lemma accountedI_act: "a \<in> set (cs_acts st) \<Longrightarrow> v \<in> act_values (cs_heap st) a \<Longrightarrow> v \<in> accounted st"
  unfolding accounted_def by blast

lemma accountedI_revoked: "RevokeSelf b t \<in> set (cs_out st) \<Longrightarrow> tok_value t \<in> accounted st"
  unfolding accounted_def by blast

lemma accountedI_lapsed: "(t, n) \<in> set (cs_lapsed st) \<Longrightarrow> tok_value t \<in> accounted st"
  unfolding accounted_def by blast

text \<open>What has to be shown of a step: every held token stays held under the same value or is
  accounted for otherwise, and so is the token of every activity that ends.\<close>

lemma accounted_mono:
  assumes inv: "token_inv st" and heap: "heap_le (cs_heap st) (cs_heap st')"
    and held: "\<And>b p. held_of b st = Some p \<Longrightarrow> held_of b st' = Some p \<or> tok_value (token_at p st) \<in> accounted st'"
    and acts: "\<And>a. a \<in> set (cs_acts st) \<Longrightarrow> a \<in> set (cs_acts st') \<or> act_values (cs_heap st) a \<subseteq> accounted st'"
    and out: "set (cs_out st) \<subseteq> set (cs_out st')" and lapsed: "set (cs_lapsed st) \<subseteq> set (cs_lapsed st')"
  shows "accounted st \<subseteq> accounted st'"
proof
  fix v
  assume "v \<in> accounted st"
  then consider (h) b p where "held_of b st = Some p" "v = tok_value (token_at p st)"
    | (a) a where "a \<in> set (cs_acts st)" "v \<in> act_values (cs_heap st) a"
    | (r) b t where "RevokeSelf b t \<in> set (cs_out st)" "v = tok_value t"
    | (l) t n where "(t, n) \<in> set (cs_lapsed st)" "v = tok_value t"
    unfolding accounted_def by blast
  then show "v \<in> accounted st'"
  proof cases
    case h
    have "p < length (cs_heap st)"
      using inv h(1) by (simp add: token_inv_def)
    then have "tok_value (token_at p st') = v"
      using heap_leD(3)[OF heap] h(2) by (simp add: token_at_def)
    then show ?thesis
      using held[OF h(1)] h(2) accountedI_held by metis
  next
    case a
    have "act_ok (cs_heap st) a"
      using inv a(1) by (simp add: token_inv_def)
    then have "v \<in> act_values (cs_heap st') a"
      using act_values_mono[OF heap] a(2) by simp
    then show ?thesis
      using acts[OF a(1)] a(2) accountedI_act by blast
  qed (use out lapsed in \<open>auto intro: accountedI_revoked accountedI_lapsed\<close>)
qed


lemma token_inv_stepI:
  assumes inv: "token_inv st"
    and heap: "heap_le (cs_heap st) (cs_heap st')"
    and held: "\<And>b p. held_of b st' = Some p \<Longrightarrow> held_of b st = Some p \<or> p < length (cs_heap st')"
    and acts: "\<And>a. a \<in> set (cs_acts st') \<Longrightarrow> a \<in> set (cs_acts st) \<or> act_ok (cs_heap st') a"
    and none: "cs_endpoint st' = None \<Longrightarrow> cs_endpoint st = None"
    and idle: "cs_endpoint st' = None \<Longrightarrow> cs_held st = [] \<Longrightarrow> \<forall>a\<in>set (cs_acts st). \<not> carries a \<Longrightarrow>
      cs_held st' = [] \<and> (\<forall>a\<in>set (cs_acts st'). \<not> carries a)"
    and held_kept: "\<And>b p. held_of b st = Some p \<Longrightarrow> held_of b st' = Some p \<or> tok_value (token_at p st) \<in> accounted st'"
    and acts_kept: "\<And>a. a \<in> set (cs_acts st) \<Longrightarrow> a \<in> set (cs_acts st') \<or> act_values (cs_heap st) a \<subseteq> accounted st'"
    and out: "set (cs_out st) \<subseteq> set (cs_out st')"
    and lapsed: "set (cs_lapsed st) \<subseteq> set (cs_lapsed st')"
    and lapsed_new: "\<And>t n. (t, n) \<in> set (cs_lapsed st') \<Longrightarrow> (t, n) \<in> set (cs_lapsed st) \<or> \<not> Token_Valid t n"
    and issued: "set (cs_issued st') \<subseteq> set (cs_issued st) \<union> accounted st'"
  shows "token_inv st'"
proof (rule token_inv_change[OF inv heap held acts none idle, where new = "accounted st'"])
  show "accounted st \<union> accounted st' \<subseteq> accounted st'"
    using accounted_mono[OF inv heap held_kept acts_kept out lapsed] by simp
qed (use lapsed_new issued in \<open>simp_all\<close>)

text \<open>A step that moves no token: the state changes only in fields the invariant does not
  read, and activities without tokens come and go.\<close>

lemma token_inv_quiet:
  assumes "token_inv st" and "cs_heap st' = cs_heap st" and "cs_held st' = cs_held st"
    and "cs_endpoint st' = None \<longrightarrow> cs_endpoint st = None" and "cs_issued st' = cs_issued st" and "cs_lapsed st' = cs_lapsed st"
    and "set (cs_out st) \<subseteq> set (cs_out st')"
    and "\<And>a. a \<in> set (cs_acts st') \<Longrightarrow> a \<in> set (cs_acts st) \<or> act_ok (cs_heap st) a \<and> \<not> carries a"
    and "\<And>a. a \<in> set (cs_acts st) \<Longrightarrow> a \<in> set (cs_acts st') \<or> act_values (cs_heap st) a = {}"
  shows "token_inv st'"
proof (rule token_inv_stepI[OF assms(1)])
  show "held_of b st' = Some p \<Longrightarrow> held_of b st = Some p \<or> p < length (cs_heap st')" for b p
    using assms(3) by (simp add: held_of_def)
  show "a \<in> set (cs_acts st') \<Longrightarrow> a \<in> set (cs_acts st) \<or> act_ok (cs_heap st') a" for a
    using assms(2,8) by auto
  show "held_of b st = Some p \<Longrightarrow> held_of b st' = Some p \<or> tok_value (token_at p st) \<in> accounted st'" for b p
    using assms(3) by (simp add: held_of_def)
  show "a \<in> set (cs_acts st) \<Longrightarrow> a \<in> set (cs_acts st') \<or> act_values (cs_heap st) a \<subseteq> accounted st'" for a
    using assms(9) by auto
  show "cs_held st = [] \<Longrightarrow> \<forall>a\<in>set (cs_acts st). \<not> carries a \<Longrightarrow> cs_held st' = [] \<and> (\<forall>a\<in>set (cs_acts st'). \<not> carries a)"
    using assms(3,8) by auto
qed (use assms in \<open>simp_all\<close>)

lemma in_remove1: "x \<in> set xs \<Longrightarrow> x \<in> set (remove1 a xs) \<or> x = a"
  by (cases "x = a") auto

lemma remove1_mem: "x \<in> set (remove1 a xs) \<Longrightarrow> x \<in> set xs"
  by (meson notin_set_remove1)

lemma in_finish: "x \<in> set (cs_acts st) \<Longrightarrow> x \<in> set (cs_acts (finish a st)) \<or> x = a"
  by (simp add: finish_def in_remove1)

lemma finish_sub: "x \<in> set (cs_acts (finish a st)) \<Longrightarrow> x \<in> set (cs_acts st)"
  using set_remove1_subset[THEN subsetD] by (fastforce simp: finish_def)

lemma token_inv_act: "token_inv st \<Longrightarrow> a \<in> set (cs_acts st) \<Longrightarrow> act_ok (cs_heap st) a"
  by (simp add: token_inv_def)

lemma token_inv_carries: "token_inv st \<Longrightarrow> a \<in> set (cs_acts st) \<Longrightarrow> carries a \<Longrightarrow> cs_endpoint st \<noteq> None"
  by (auto simp: token_inv_def)

lemma token_inv_held: "token_inv st \<Longrightarrow> held_of b st = Some p \<Longrightarrow> p < length (cs_heap st)"
  by (simp add: token_inv_def)

lemma token_inv_held_endpoint: "token_inv st \<Longrightarrow> held_of b st = Some p \<Longrightarrow> cs_endpoint st \<noteq> None"
  by (auto simp: token_inv_def held_of_def)

subsection \<open>Calls from the agent\<close>

lemma advanceLocked_fields:
  assumes "advanceLocked b st = (g, st')"
  shows "st' = st\<lparr>cs_next := g, cs_generation := AList.update b g (cs_generation st), cs_draws := cs_draws st + 1\<rparr>"
    and "g = cs_next st + 1"
  using assms by (auto simp: advanceLocked_def Let_def)

text \<open>Taking tokens out of the manager, with a goroutine that answers for each.\<close>

lemma token_inv_drop:
  assumes inv: "token_inv st" and heap: "cs_heap st' = cs_heap st"
    and out: "\<And>b p. held_of b st' = Some p \<Longrightarrow> held_of b st = Some p"
    and dropped: "\<And>b p. held_of b st = Some p \<Longrightarrow> held_of b st' = Some p \<or> Dropping b p \<in> set (cs_acts st')"
    and acts: "\<And>a. a \<in> set (cs_acts st') \<Longrightarrow> a \<in> set (cs_acts st) \<or> (\<exists>b p. a = Dropping b p \<and> held_of b st = Some p)"
    and kept: "set (cs_acts st) \<subseteq> set (cs_acts st')" and nil: "cs_held st = [] \<Longrightarrow> cs_held st' = []"
    and same: "cs_endpoint st' = cs_endpoint st" "cs_issued st' = cs_issued st" "cs_lapsed st' = cs_lapsed st" "cs_out st' = cs_out st"
  shows "token_inv st'"
proof (rule token_inv_stepI[OF inv])
  show "a \<in> set (cs_acts st') \<Longrightarrow> a \<in> set (cs_acts st) \<or> act_ok (cs_heap st') a" for a
    using acts token_inv_held[OF inv] heap by fastforce
  show "cs_held st = [] \<Longrightarrow> \<forall>a\<in>set (cs_acts st). \<not> carries a \<Longrightarrow> cs_held st' = [] \<and> (\<forall>a\<in>set (cs_acts st'). \<not> carries a)"
    using acts nil by (fastforce simp: held_of_def)
  show "held_of b st = Some p \<Longrightarrow> held_of b st' = Some p \<or> tok_value (token_at p st) \<in> accounted st'" for b p
    using dropped[of b p] accountedI_act[of "Dropping b p" st'] heap by (auto simp: token_at_def)
qed (use out kept heap same in auto)

lemma token_inv_invalidate:
  assumes "token_inv st" and "invalidate b st = (g, st')"
  shows "token_inv st'"
  using assms(2)
  by (intro token_inv_drop[OF assms(1)])
    (auto simp: invalidate_def advanceLocked_def Let_def held_of_def spawn_def split: option.splits if_splits)

lemma token_inv_retire:
  assumes "token_inv st"
  shows "token_inv (cred_retire b st)"
  by (intro token_inv_drop[OF assms])
    (auto simp: cred_retire_def Let_def held_of_def spawn_def split: option.splits if_splits)

lemma token_inv_stopAll:
  assumes "token_inv st" and "go_map (cs_held st)"
  shows "token_inv (stopAll st)"
proof (rule token_inv_drop[OF assms(1)])
  have "map_of (cs_held st) b = Some p \<Longrightarrow> Dropping b p \<in> (\<lambda>(b, p). Dropping b p) ` set (cs_held st)" for b p
    by (force dest: map_of_SomeD)
  then show "held_of b st = Some p \<Longrightarrow> held_of b (stopAll st) = Some p \<or> Dropping b p \<in> set (cs_acts (stopAll st))" for b p
    by (simp add: stopAll_def held_of_def spawn_def)
qed (use assms(2) in \<open>auto simp: stopAll_def held_of_def spawn_def go_map_entry\<close>)

subsection \<open>Goroutines\<close>

lemma token_inv_login:
  assumes inv: "token_inv st" and a: "a = Delivering c g own renew" "a \<in> set (cs_acts st)"
  shows "token_inv (deliver_login k c g own renew answer revoked (finish a st))"
proof (cases "\<exists>e token. cs_endpoint st = Some e \<and> answer = Inr token")
  case False
  then show ?thesis
    using a
    by (intro token_inv_quiet[OF inv])
      (auto simp: deliver_login_def Let_def spawn_def finish_def retry_def subsetD[OF recordOutcome_out]
        split: option.splits sum.splits dest: in_remove1 intro: remove1_mem)
next
  case True
  then obtain e token where t: "cs_endpoint st = Some e" "answer = Inr token" by blast
  let ?st' = "deliver_login k c g own renew answer revoked (finish a st)"
  show ?thesis
  proof (rule token_inv_stepI[OF inv])
    have "tok_value token \<in> accounted ?st'"
    proof (cases "samePolicies (tok_Policies token) own")
      case True
      then show ?thesis
        using t by (intro accountedI_act[of "LoggedIn c g renew token"])
          (simp_all add: deliver_login_def spawn_def finish_def Let_def)
    next
      case False
      have "RevokeSelf (credential_Binding c) token \<in> set (cs_out (emit [RevokeSelf (credential_Binding c) token] x))" for x
        by (simp add: emit_def)
      then show ?thesis
        using False t by (intro accountedI_revoked[of "credential_Binding c"])
          (simp add: deliver_login_def spawn_def finish_def Let_def subsetD[OF recordOutcome_out])
    qed
    then show "set (cs_issued ?st') \<subseteq> set (cs_issued st) \<union> accounted ?st'"
      using t by (auto simp: deliver_login_def spawn_def finish_def emit_def Let_def)
  qed (use a t in \<open>auto simp: deliver_login_def Let_def spawn_def finish_def emit_def retry_def subsetD[OF recordOutcome_out] held_of_def
        split: if_splits dest: in_remove1 intro: remove1_mem\<close>)
qed

lemma token_inv_install:
  assumes inv: "token_inv st" and a: "a = LoggedIn c g renew token" "a \<in> set (cs_acts st)"
  shows "token_inv (deliver_install c g renew token (finish a st))"
proof -
  let ?b = "credential_Binding c"
  let ?st' = "deliver_install c g renew token (finish a st)"
  have "cs_endpoint st \<noteq> None"
    using token_inv_carries[OF inv a(2)] a(1) by simp
  moreover have "tok_value token \<in> accounted ?st'"
  proof (cases "generation_of ?b st = g")
    case True
    then have "held_of ?b ?st' = Some (length (cs_heap st))" "token_at (length (cs_heap st)) ?st' = token"
      by (simp_all add: deliver_install_def spawn_def finish_def Let_def generation_of_def held_of_def token_at_def)
    then show ?thesis
      using accountedI_held by metis
  next
    case False
    then show ?thesis
      by (intro accountedI_act[of "Revoking ?b token"])
        (simp_all add: deliver_install_def spawn_def finish_def Let_def generation_of_def)
  qed
  moreover have "tok_value (token_at p st) \<in> accounted ?st'"
    if "held_of ?b st = Some p" "generation_of ?b st = g" for p
    using that token_inv_held[OF inv that(1)]
    by (intro accountedI_act[of "Installed ?b (Some p) (length (cs_heap st))"])
      (simp_all add: deliver_install_def spawn_def finish_def Let_def generation_of_def held_of_def token_at_def nth_append)
  ultimately show ?thesis
    using a token_inv_held[OF inv]
    by (intro token_inv_stepI[OF inv])
      (auto simp: deliver_install_def Let_def spawn_def finish_def held_of_def generation_of_def less_Suc_eq
        split: if_splits dest: in_remove1 intro: remove1_mem)
qed

lemma token_inv_installed:
  assumes inv: "token_inv st" and a: "a = Installed b previous p" "a \<in> set (cs_acts st)"
  shows "token_inv (deliver_finish b previous p (finish a st))"
proof -
  let ?st' = "deliver_finish b previous p (finish a st)"
  have "cs_endpoint st \<noteq> None"
    using token_inv_carries[OF inv a(2)] a(1) by simp
  moreover have "act_values (cs_heap st) a \<subseteq> accounted ?st'"
  proof (cases previous)
    case (Some q)
    then show ?thesis
      using a(1) accountedI_act[of "Revoking b (token_at q st)" ?st']
      by (simp add: deliver_finish_def spawn_def finish_def cancel_def token_at_def)
  qed (simp add: a(1))
  ultimately show ?thesis
    using a
    by (intro token_inv_stepI[OF inv])
      (auto simp: deliver_finish_def spawn_def finish_def cancel_def held_of_def
        split: option.splits dest: in_remove1 intro: remove1_mem)
qed

lemma token_inv_dropping:
  assumes inv: "token_inv st" and a: "a = Dropping b p" "a \<in> set (cs_acts st)"
  shows "token_inv (drop_held b p (finish a st))"
proof -
  let ?st' = "drop_held b p (finish a st)"
  have "cs_endpoint st \<noteq> None"
    using token_inv_carries[OF inv a(2)] a(1) by simp
  moreover have "act_values (cs_heap st) a \<subseteq> accounted ?st'"
    using a(1) accountedI_act[of "Revoking b (token_at p st)" ?st']
    by (simp add: drop_held_def spawn_def finish_def cancel_def token_at_def)
  ultimately show ?thesis
    using a
    by (intro token_inv_stepI[OF inv])
      (auto simp: drop_held_def spawn_def finish_def cancel_def held_of_def dest: in_remove1 intro: remove1_mem)
qed

lemma token_inv_revoking:
  assumes inv: "token_inv st" and a: "a = Revoking b token" "a \<in> set (cs_acts st)"
  shows "token_inv (revoke k b token answer (finish a st))"
proof -
  let ?st' = "revoke k b token answer (finish a st)"
  obtain e where e: "cs_endpoint st = Some e"
    using token_inv_carries[OF inv a(2)] a(1) by auto
  have "RevokeSelf b token \<in> set (cs_out (emit [RevokeSelf b token] x))" for x
    by (simp add: emit_def)
  then have "tok_value token \<in> accounted ?st'"
    using e by (intro accountedI_revoked[of b]) (simp add: revoke_def finish_def subsetD[OF recordOutcome_out])
  then show ?thesis
    using a e
    by (intro token_inv_stepI[OF inv])
      (auto simp: revoke_def finish_def emit_def held_of_def subsetD[OF recordOutcome_out]
        dest: in_remove1 intro: remove1_mem)
qed

text \<open>Removing a token whose lease is over.\<close>

lemma token_inv_lapse:
  assumes inv: "token_inv st" and held: "held_of b st = Some p" and over: "\<not> Token_Valid (token_at p st) (cs_now st)"
    and same: "cs_heap st' = cs_heap st" "cs_held st' = AList.delete b (cs_held st)" "cs_endpoint st' = cs_endpoint st"
      "cs_issued st' = cs_issued st" "cs_lapsed st' = (token_at p st, cs_now st) # cs_lapsed st"
    and out: "set (cs_out st) \<subseteq> set (cs_out st')"
    and acts: "\<And>a. a \<in> set (cs_acts st') \<Longrightarrow> a \<in> set (cs_acts st) \<or> act_ok (cs_heap st) a \<and> \<not> carries a"
    and kept: "\<And>a. a \<in> set (cs_acts st) \<Longrightarrow> a \<in> set (cs_acts st') \<or> act_values (cs_heap st) a = {}"
  shows "token_inv st'"
proof (rule token_inv_stepI[OF inv])
  have "tok_value (token_at p st) \<in> accounted st'"
    using same(5) by (intro accountedI_lapsed[of _ "cs_now st"]) simp
  then show "held_of c st = Some q \<Longrightarrow> held_of c st' = Some q \<or> tok_value (token_at q st) \<in> accounted st'" for c q
    using held same(2) by (cases "c = b") (simp_all add: held_of_def)
  show "a \<in> set (cs_acts st') \<Longrightarrow> a \<in> set (cs_acts st) \<or> act_ok (cs_heap st') a" for a
    using acts same(1) by auto
  show "a \<in> set (cs_acts st) \<Longrightarrow> a \<in> set (cs_acts st') \<or> act_values (cs_heap st) a \<subseteq> accounted st'" for a
    using kept by auto
qed (use held over same out acts in \<open>auto simp: held_of_def split: if_splits\<close>)

lemma token_inv_apply:
  assumes inv: "token_inv st" and a: "a = RenewNoted b ctx p r" "a \<in> set (cs_acts st)"
  shows "token_inv (maintain_apply b ctx p r (finish a st))"
proof (cases r)
  case (Failed category)
  show ?thesis
  proof (cases "\<not> Token_Valid (token_at p st) (cs_now st) \<and> held_of b st = Some p")
    case True
    then show ?thesis
      using a Failed
      by (intro token_inv_lapse[OF inv, of b p])
        (auto simp: maintain_apply_def spawn_def finish_def emit_def lapse_def held_of_def token_at_def retry_def
          dest: in_remove1 intro: remove1_mem)
  next
    case False
    then show ?thesis
      using a Failed
      by (intro token_inv_quiet[OF inv])
        (auto simp: maintain_apply_def spawn_def finish_def emit_def held_of_def token_at_def Let_def
          split: if_splits dest: in_remove1 intro: remove1_mem)
  qed
next
  case (Renewed token)
  have p: "ht_renew (cs_heap st ! p)" "tok_value token = tok_value (ht_token (cs_heap st ! p))"
    "tok_Accessor token = tok_Accessor (ht_token (cs_heap st ! p))"
    using token_inv_act[OF inv a(2)] a(1) Renewed by simp_all
  then show ?thesis
    using a Renewed heap_le_renew[OF p]
    by (intro token_inv_stepI[OF inv])
      (auto simp: maintain_apply_def spawn_def finish_def emit_def held_of_def Let_def
        split: if_splits dest: in_remove1 intro: remove1_mem)
qed

lemma token_inv_expired:
  assumes inv: "token_inv st" and a: "a = Expiring b ctx p deadline" "a \<in> set (cs_acts st)" "deadline \<le> cs_now st"
  shows "token_inv (awaitExpiry_lapse b ctx p (finish a st))"
proof (cases "\<not> ht_cancelled (cs_heap st ! ctx) \<and> held_of b st = Some p")
  case True
  have "\<not> Token_Valid (token_at p st) (cs_now st)"
    using token_inv_act[OF inv a(2)] a(1,3) by (simp add: Token_Valid_def Token_Expires_def token_at_def)
  then show ?thesis
    using a True
    by (intro token_inv_lapse[OF inv, of b p])
      (auto simp: awaitExpiry_lapse_def spawn_def finish_def emit_def lapse_def held_of_def token_at_def retry_def
        dest: in_remove1 intro: remove1_mem)
next
  case False
  then show ?thesis
    using a
    by (intro token_inv_quiet[OF inv])
      (auto simp: awaitExpiry_lapse_def finish_def held_of_def dest: in_remove1 intro: remove1_mem)
qed

lemma token_inv_report:
  assumes inv: "token_inv st" and a: "a \<in> set (cs_acts st)"
  shows "a = Reporting which rest \<Longrightarrow> token_inv (report_read which rest (finish a st))"
    and "a = Sending pending rest \<Longrightarrow> token_inv (report_send pending rest (finish a st))"
  using a
  by (auto intro!: token_inv_quiet[OF inv]
      simp: report_read_def report_send_def spawn_def finish_def emit_def split: option.splits dest: in_remove1 intro: remove1_mem)

lemma token_inv_end:
  assumes "token_inv st" and "act_values (cs_heap st) a = {}"
  shows "token_inv (finish a st)"
  using assms(2) by (intro token_inv_quiet[OF assms(1)]) (auto simp: finish_def dest: in_remove1 intro: remove1_mem)

lemma token_inv_loop:
  assumes inv: "token_inv st" and a: "a \<in> set (cs_acts st)"
  shows "a = Retrying b g delay deadline ctx' \<Longrightarrow> token_inv (retry_tick b g delay ctx' (finish a st))"
    and "a = Maintaining b ctx \<Longrightarrow> token_inv (maintain_top b ctx (finish a st))"
    and "a = Waiting b ctx p deadline \<Longrightarrow> token_inv (maintain_renew b ctx p (finish a st))"
    and "a = Renewing b ctx p increment started \<Longrightarrow>
      (case r of Failed _ \<Rightarrow> True | Renewed token \<Rightarrow> tok_value token = tok_value increment \<and> tok_Accessor token = tok_Accessor increment) \<Longrightarrow>
      token_inv (spawn [RenewDone b ctx p started r] (finish a st))"
    and "a = RenewDone b ctx p started r \<Longrightarrow> token_inv (maintain_note k b ctx p started r (finish a st))"
proof -
  note quiet = token_inv_quiet[OF inv] and defs = spawn_def finish_def emit_def held_of_def token_at_def
  show "a = Retrying b g delay deadline ctx' \<Longrightarrow> token_inv (retry_tick b g delay ctx' (finish a st))"
    by (intro quiet) (auto simp: retry_tick_def defs Let_def split: if_splits dest: in_remove1 intro: remove1_mem)
  show "a = Maintaining b ctx \<Longrightarrow> token_inv (maintain_top b ctx (finish a st))"
    using token_inv_held[OF inv, of b]
    by (intro quiet) (auto simp: maintain_top_def defs Let_def split: if_splits option.splits dest: in_remove1 intro: remove1_mem)
  show "a = Waiting b ctx p deadline \<Longrightarrow> token_inv (maintain_renew b ctx p (finish a st))"
    using token_inv_act[OF inv a]
    by (intro quiet) (auto simp: maintain_renew_def defs dest: in_remove1 intro: remove1_mem)
  show "token_inv (spawn [RenewDone b ctx p started r] (finish a st))"
    if "a = Renewing b ctx p increment started"
      "case r of Failed _ \<Rightarrow> True | Renewed token \<Rightarrow> tok_value token = tok_value increment \<and> tok_Accessor token = tok_Accessor increment"
    using token_inv_act[OF inv a] that
    by (intro quiet) (auto simp: defs split: result_of.splits dest: in_remove1 intro: remove1_mem)
  show "a = RenewDone b ctx p started r \<Longrightarrow> token_inv (maintain_note k b ctx p started r (finish a st))"
    using token_inv_act[OF inv a]
    by (intro quiet) (auto simp: maintain_note_def defs subsetD[OF recordOutcome_out] dest: in_remove1 intro: remove1_mem)
qed

lemma token_inv_frames:
  assumes "token_inv st"
  shows "token_inv (st\<lparr>cs_now := t\<rparr>)" and "token_inv (st\<lparr>cs_done := d\<rparr>)"
    and "token_inv (snd (setEndpoint n e st))" and "token_inv (accessorRecorded r st)"
    and "token_inv (spawn [Reporting None None] st)"
  by (rule token_inv_quiet[OF assms]; auto simp: setEndpoint_def accessorRecorded_def spawn_def split: if_splits)+

section \<open>The invariant\<close>

text \<open>What OpenBao documents of a renewal: the token stays the same.\<close>

definition renew_keeps_token :: "cred_env \<Rightarrow> bool" where
  "renew_keeps_token env \<longleftrightarrow>
     (\<forall>t u. env_renew env t u \<longrightarrow> tok_value u = tok_value t \<and> tok_Accessor u = tok_Accessor t)"

lemma go_map_held_step:
  assumes "cred_step env st st'" and "go_map (cs_held st)"
  shows "go_map (cs_held st')"
  using assms
  by cases
    (auto simp: setEndpoint_def cred_begin_def advanceLocked_def invalidate_def cred_retire_def stopAll_def accessorRecorded_def
      deliver_login_def deliver_install_def deliver_finish_def revoke_def drop_held_def report_read_def report_send_def
      retry_tick_def maintain_top_def maintain_renew_def maintain_note_def maintain_apply_def lapse_def awaitExpiry_lapse_def
      spawn_def finish_def emit_def cancel_def Let_def split: option.splits sum.splits if_splits result_of.splits)

lemma token_inv_step:
  assumes "cred_step env st st'" and inv: "token_inv st" and "go_map (cs_held st)" and keeps: "renew_keeps_token env"
  shows "token_inv st'"
  using assms(1)
proof cases
  case (credential c g st1 own renew)
  then show ?thesis
    by (intro token_inv_quiet[OF inv]) (auto simp: cred_begin_def advanceLocked_def Let_def spawn_def)
next
  case (invalidated_retry b g st1)
  then show ?thesis
    by (intro token_inv_quiet[OF token_inv_invalidate[OF inv]]) (auto simp: spawn_def retry_def)
next
  case (renew_failed a b ctx p increment started category)
  then show ?thesis
    using token_inv_loop(4)[OF inv renew_failed(3,2)] by simp
next
  case (renewed a b ctx p increment started token)
  then show ?thesis
    using token_inv_loop(4)[OF inv renewed(3,2)] keeps by (simp add: renew_keeps_token_def)
qed (use assms(3) in \<open>auto intro: token_inv_invalidate[OF inv] token_inv_retire[OF inv] token_inv_stopAll[OF inv] token_inv_login[OF inv]
      token_inv_install[OF inv] token_inv_installed[OF inv] token_inv_dropping[OF inv] token_inv_revoking[OF inv]
      token_inv_apply[OF inv] token_inv_expired[OF inv] token_inv_report[OF inv] token_inv_loop[OF inv] token_inv_end[OF inv]
      token_inv_frames[OF inv]\<close>)

lemma token_inv_reachable:
  assumes "cred_steps env (newCredentials t0) st" and "renew_keeps_token env"
  shows "token_inv st \<and> go_map (cs_held st)"
  using assms(1)
proof (induction rule: rtranclp_induct)
  case base
  then show ?case
    by (simp add: token_inv_def newCredentials_def held_of_def)
next
  case (step st st')
  then show ?case
    using token_inv_step[OF step.hyps(2)] go_map_held_step[OF step.hyps(2)] assms(2) by blast
qed

section \<open>Generations\<close>

definition gens :: "cred_state \<Rightarrow> (string, 64 word) gomap \<times> 64 word \<times> nat" where
  "gens st = (cs_generation st, cs_next st, cs_draws st)"

lemma gens_helpers [simp]:
  "gens (spawn as st) = gens st" "gens (finish a st) = gens st" "gens (emit es st) = gens st" "gens (cancel p st) = gens st"
  "gens (lapse b p st) = gens st" "gens (recordOutcome k op b s e st) = gens st"
  "gens (st\<lparr>cs_issued := i\<rparr>) = gens st" "gens (st\<lparr>cs_reporting := r\<rparr>) = gens st" "gens (st\<lparr>cs_heap := h\<rparr>) = gens st"
  "gens (st\<lparr>cs_heap := h, cs_held := m\<rparr>) = gens st"
  by (simp_all add: gens_def spawn_def finish_def emit_def cancel_def lapse_def)

text \<open>No goroutine changes a generation; only the calls from the agent do.\<close>

lemma gens_goroutines [simp]:
  "gens (deliver_login k c g own renew answer revoked st) = gens st" "gens (deliver_install c g renew t st) = gens st"
  "gens (deliver_finish b q p st) = gens st" "gens (revoke k b t e st) = gens st" "gens (drop_held b p st) = gens st"
  "gens (report_read which rest st) = gens st" "gens (report_send pending rest st) = gens st"
  "gens (retry_tick b g delay ctx' st) = gens st" "gens (maintain_top b ctx st) = gens st" "gens (maintain_renew b ctx p st) = gens st"
  "gens (maintain_note k b ctx p s r st) = gens st" "gens (maintain_apply b ctx p r st) = gens st"
  "gens (awaitExpiry_lapse b ctx p st) = gens st"
  by (simp_all add: deliver_login_def deliver_install_def deliver_finish_def revoke_def drop_held_def report_read_def
      report_send_def retry_tick_def maintain_top_def maintain_renew_def maintain_note_def maintain_apply_def
      awaitExpiry_lapse_def Let_def split: option.split sum.split result_of.split)

lemma gens_calls:
  "advanceLocked b st = (g, st') \<Longrightarrow>
     gens st' = (AList.update b (cs_next st + 1) (cs_generation st), cs_next st + 1, cs_draws st + 1)"
  "invalidate b st = (g, st') \<Longrightarrow>
     gens st' = (AList.update b (cs_next st + 1) (cs_generation st), cs_next st + 1, cs_draws st + 1)"
  "gens (cred_retire b st) = (AList.delete b (cs_generation st), cs_next st, cs_draws st)"
  "gens (stopAll st) = ([], cs_next st, cs_draws st)"
  by (auto simp: gens_def advanceLocked_def invalidate_def cred_retire_def stopAll_def spawn_def Let_def split: option.splits)

lemma generation_step:
  assumes "cred_step env st st'"
  shows "gens st' = gens st
    \<or> (\<exists>b. gens st' = (AList.update b (cs_next st + 1) (cs_generation st), cs_next st + 1, cs_draws st + 1))
    \<or> (\<exists>b. gens st' = (AList.delete b (cs_generation st), cs_next st, cs_draws st))
    \<or> gens st' = ([], cs_next st, cs_draws st)"
  using assms
proof cases
  case (endpoint e)
  then show ?thesis
    by (auto simp: setEndpoint_def gens_def)
next
  case (acknowledged r)
  then show ?thesis
    by (auto simp: accessorRecorded_def gens_def)
next
  case (credential c g st1 own renew)
  then show ?thesis
    using gens_calls(1)[of "credential_Binding c" st g st1] by (auto simp: cred_begin_def)
next
  case (invalidated b g)
  then show ?thesis
    using gens_calls(2) by blast
next
  case (invalidated_retry b g st1)
  then show ?thesis
    using gens_calls(2)[of b st g st1] by auto
next
  case (tick t)
  then show ?thesis
    by (simp add: gens_def)
next
  case shutdown
  then show ?thesis
    by (simp add: gens_def)
qed (auto simp: gens_calls(3,4))

text \<open>The generation of every delivery was drawn, and its number is at most the number of draws.\<close>

fun act_gen :: "activity \<Rightarrow> 64 word option" where
  "act_gen (Delivering c g own renew) = Some g"
| "act_gen (LoggedIn c g renew token) = Some g"
| "act_gen _ = None"

definition deliveries :: "cred_state \<Rightarrow> 64 word set" where
  "deliveries st = {g. \<exists>a\<in>set (cs_acts st). act_gen a = Some g}"

lemma deliveries_helpers [simp]:
  "deliveries (spawn as st) = deliveries st \<union> {g. \<exists>a\<in>set as. act_gen a = Some g}"
  "deliveries (emit es st) = deliveries st" "deliveries (cancel p st) = deliveries st" "deliveries (lapse b p st) = deliveries st"
  "deliveries (recordOutcome k op b s e st) = deliveries st"
  "deliveries (st\<lparr>cs_issued := i\<rparr>) = deliveries st" "deliveries (st\<lparr>cs_reporting := r\<rparr>) = deliveries st"
  "deliveries (st\<lparr>cs_heap := h\<rparr>) = deliveries st" "deliveries (st\<lparr>cs_heap := h, cs_held := m\<rparr>) = deliveries st"
  by (auto simp: deliveries_def spawn_def emit_def cancel_def lapse_def)

lemma deliveries_finish: "deliveries (finish a st) \<subseteq> deliveries st"
  using finish_sub by (auto simp: deliveries_def)

lemma deliveries_goroutines:
  "deliveries (deliver_login k c g own renew answer revoked st) \<subseteq> deliveries st \<union> {g}"
  "deliveries (deliver_install c g renew t st) = deliveries st"
  "deliveries (deliver_finish b q p st) = deliveries st" "deliveries (revoke k b t e st) = deliveries st"
  "deliveries (drop_held b p st) = deliveries st" "deliveries (report_read which rest st) = deliveries st"
  "deliveries (report_send pending rest st) = deliveries st" "deliveries (retry_tick b g delay ctx' st) = deliveries st"
  "deliveries (maintain_top b ctx st) = deliveries st" "deliveries (maintain_renew b ctx p st) = deliveries st"
  "deliveries (maintain_note k b ctx p s r st) = deliveries st" "deliveries (maintain_apply b ctx p r st) = deliveries st"
  "deliveries (awaitExpiry_lapse b ctx p st) = deliveries st"
  by (auto simp: deliver_login_def deliver_install_def deliver_finish_def revoke_def drop_held_def report_read_def
      report_send_def retry_tick_def maintain_top_def maintain_renew_def maintain_note_def maintain_apply_def
      awaitExpiry_lapse_def Let_def retry_def split: option.splits sum.splits result_of.splits if_splits)

lemma deliveries_calls:
  "advanceLocked b st = (g, st') \<Longrightarrow> deliveries st' = deliveries st"
  "invalidate b st = (g, st') \<Longrightarrow> deliveries st' = deliveries st"
  "deliveries (cred_retire b st) = deliveries st" "deliveries (stopAll st) = deliveries st"
  by (auto simp: deliveries_def advanceLocked_def invalidate_def cred_retire_def stopAll_def spawn_def Let_def
      split: option.splits)

lemma deliveries_step:
  assumes "cred_step env st st'"
  shows "deliveries st' \<subseteq> deliveries st \<or> deliveries st' \<subseteq> insert (cs_next st + 1) (deliveries st) \<and> cs_draws st' = cs_draws st + 1"
  using assms
proof cases
  case (credential c g st1 own renew)
  then have adv: "advanceLocked (credential_Binding c) st = (g, st1)"
    by (simp add: cred_begin_def)
  have "cs_draws st1 = cs_draws st + 1" "g = cs_next st + 1"
    using gens_calls(1)[OF adv] advanceLocked_fields(2)[OF adv] by (simp_all add: gens_def)
  moreover have "deliveries st' \<subseteq> insert g (deliveries st)"
    using deliveries_calls(1)[OF adv] credential(1) by auto
  moreover have "cs_draws st' = cs_draws st1"
    using credential(1) by (simp add: spawn_def)
  ultimately show ?thesis
    by simp
next
  case (login a c g own renew answer revoked)
  then have "g \<in> deliveries st"
    by (auto simp: deliveries_def intro: bexI[of _ "Delivering c g own renew"])
  then show ?thesis
    using login deliveries_goroutines(1) deliveries_finish by blast
next
  case (invalidated_retry b g st1)
  then show ?thesis
    using deliveries_calls(2) by (auto simp: retry_def)
next
  case (endpoint e)
  then show ?thesis
    by (auto simp: setEndpoint_def deliveries_def)
next
  case (renew_failed a b ctx p increment started category)
  then show ?thesis
    using deliveries_finish by auto
next
  case (renewed a b ctx p increment started token)
  then show ?thesis
    using deliveries_finish by auto
next
  case (invalidated b g)
  then show ?thesis
    using deliveries_calls(2) by blast
qed (simp_all add: deliveries_goroutines deliveries_finish deliveries_calls(3,4), simp_all add: deliveries_def accessorRecorded_def)

definition drawn :: "nat \<Rightarrow> 64 word \<Rightarrow> bool" where
  "drawn n g \<longleftrightarrow> (\<exists>k. 0 < k \<and> k \<le> n \<and> g = word_of_nat k)"

lemma drawn_mono: "drawn m g \<Longrightarrow> m \<le> n \<Longrightarrow> drawn n g"
  unfolding drawn_def by (blast intro: order_trans)

lemma draws_mono_step: "cred_step env st st' \<Longrightarrow> cs_draws st \<le> cs_draws st'"
  by (drule generation_step) (auto simp: gens_def)

lemma gen_reachable:
  assumes "cred_steps env (newCredentials t0) st"
  shows "cs_next st = word_of_nat (cs_draws st) \<and> (\<forall>g\<in>deliveries st. drawn (cs_draws st) g)"
  using assms
proof (induction rule: rtranclp_induct)
  case base
  then show ?case
    by (simp add: newCredentials_def deliveries_def)
next
  case (step st st')
  have "cs_next st' = word_of_nat (cs_draws st')"
    using generation_step[OF step.hyps(2)] step.IH by (auto simp: gens_def)
  moreover have "drawn (cs_draws st + 1) (cs_next st + 1)"
    using step.IH unfolding drawn_def by (intro exI[of _ "cs_draws st + 1"]) simp
  moreover have "\<forall>g\<in>deliveries st. drawn (cs_draws st') g"
    using step.IH drawn_mono draws_mono_step[OF step.hyps(2)] by blast
  ultimately show ?case
    using deliveries_step[OF step.hyps(2)] by auto
qed

text \<open>The binding's generation is gone, or was drawn after the \<open>k\<close>-th.\<close>

definition newer :: "nat \<Rightarrow> string \<Rightarrow> cred_state \<Rightarrow> bool" where
  "newer k b st \<longleftrightarrow>
     generation_of b st = 0 \<or> (\<exists>m. k < m \<and> m \<le> cs_draws st \<and> generation_of b st = word_of_nat m)"

lemma newer_step:
  assumes step: "cred_step env st st'" and "newer k b st" and drawn: "k \<le> cs_draws st" and "cs_next st = word_of_nat (cs_draws st)"
  shows "newer k b st'"
proof -
  have g: "generation_of b st = (case map_of (fst (gens st)) b of None \<Rightarrow> 0 | Some g \<Rightarrow> g)" for st
    by (simp add: generation_of_def gens_def)
  have d: "cs_draws st = snd (snd (gens st))" for st
    by (simp add: gens_def)
  consider "gens st' = gens st"
    | c where "gens st' = (AList.update c (cs_next st + 1) (cs_generation st), cs_next st + 1, cs_draws st + 1)"
    | c where "gens st' = (AList.delete c (cs_generation st), cs_next st, cs_draws st)"
    | "gens st' = ([], cs_next st, cs_draws st)"
    using generation_step[OF step] by blast
  then show ?thesis
  proof cases
    case 2
    have "newer k b st'" if "c = b"
      using 2 that assms(3,4) unfolding newer_def g d
      by (intro disjI2 exI[of _ "cs_draws st + 1"]) (simp add: d[symmetric] del: of_nat_Suc, simp)
    then show ?thesis
      using 2 assms(2) unfolding newer_def g[of st'] d[of st'] by (cases "c = b") (auto simp: generation_of_def)
  qed (use assms(2) in \<open>auto simp: newer_def g d, auto simp: gens_def\<close>)
qed

lemma newer_steps:
  assumes "cred_steps env st st'" and "newer k b st" and "k \<le> cs_draws st" and "cs_next st = word_of_nat (cs_draws st)"
  shows "newer k b st' \<and> k \<le> cs_draws st' \<and> cs_next st' = word_of_nat (cs_draws st')"
  using assms(1)
proof (induction rule: rtranclp_induct)
  case base
  then show ?case
    using assms(2-4) by simp
next
  case (step st1 st2)
  have "cs_next st2 = word_of_nat (cs_draws st2)"
    using generation_step[OF step.hyps(2)] step.IH by (auto simp: gens_def)
  then show ?case
    using newer_step[OF step.hyps(2)] step.IH draws_mono_step[OF step.hyps(2)] by auto
qed

lemma newer_not_equal:
  assumes "newer k b st" and "cs_draws st < 2 ^ 64" and "0 < k" and "k \<le> cs_draws st"
  shows "generation_of b st \<noteq> word_of_nat k"
proof -
  have unat: "unat (word_of_nat m :: 64 word) = m" if "m < 2 ^ 64" for m
    using that by (simp add: unsigned_of_nat take_bit_nat_eq_self)
  have inj: "word_of_nat m = (word_of_nat k :: 64 word) \<Longrightarrow> m = k" if "m < 2 ^ 64" for m
    using unat[OF that] unat[of k] assms(2,4) by simp
  from assms(1) show ?thesis
    unfolding newer_def
  proof (elim disjE exE conjE)
    assume "generation_of b st = 0"
    then show ?thesis
      using inj[of 0] assms(3) by auto
  next
    fix m
    assume "k < m" "m \<le> cs_draws st" "generation_of b st = word_of_nat m"
    then show ?thesis
      using inj[of m] assms(2) by auto
  qed
qed

definition example_env :: cred_env where
  "example_env =
     \<lparr>env_keyOf = (\<lambda>b. ''name:web''), env_newClient = (\<lambda>_. True),
      env_renew = (\<lambda>t u. tok_value u = tok_value t \<and> tok_Accessor u = tok_Accessor t)\<rparr>"

definition example_credential :: Credential where
  "example_credential =
     \<lparr>credential_Assignment = ''a-01'', credential_Binding = ''b-01'', credential_AppRoleMount = ''approle'',
      credential_RoleID = ''role'', credential_WrappedSecretID = ''wrapped''\<rparr>"

definition example_token :: Token where
  "example_token =
     \<lparr>tok_value = ''s.1'', tok_Accessor = ''acc1'', tok_Policies = [''default'', ''web''], tok_TTL = 60 * second,
      tok_Renewable = True, tok_Obtained = 0\<rparr>"

definition example_endpoint :: OpenBao where
  "example_endpoint =
     \<lparr>bao_Address = ''https://bao'', bao_CAPEM = [], bao_Namespace = [], bao_TransitMount = [], bao_SSHMount = []\<rparr>"

text \<open>A run with one delivery in progress, and the same run after its login.\<close>

definition example_begun :: cred_state where
  "example_begun =
     (case cred_begin ''b-01'' (snd (setEndpoint (\<lambda>_. True) example_endpoint (newCredentials 0))) of
        (g, st) \<Rightarrow> spawn [Delivering example_credential g [''web'', ''default''] True] st)"

definition example_logged_in :: cred_state where
  "example_logged_in =
     deliver_login (env_keyOf example_env) example_credential 1 [''web'', ''default''] True (Inr example_token) None
       (finish (Delivering example_credential 1 [''web'', ''default''] True) example_begun)"

lemma example_renews: "renew_keeps_token example_env"
  by (simp add: renew_keeps_token_def example_env_def)

lemma example_begun_act: "cs_acts example_begun = [Delivering example_credential 1 [''web'', ''default''] True]"
  by (simp add: example_begun_def cred_begin_def advanceLocked_def setEndpoint_def same_client_def newCredentials_def spawn_def Let_def)

lemma example_begun_reachable: "cred_steps example_env (newCredentials 0) example_begun"
proof -
  let ?st = "snd (setEndpoint (env_newClient example_env) example_endpoint (newCredentials 0))"
  obtain g st1 where b: "cred_begin ''b-01'' ?st = (g, st1)"
    by (cases "cred_begin ''b-01'' ?st")
  have "cred_step example_env (newCredentials 0) ?st"
    by (rule endpoint)
  moreover have "cred_step example_env ?st (spawn [Delivering example_credential g [''web'', ''default''] True] st1)"
    using b by (intro credential) (simp add: example_credential_def)
  moreover have "example_begun = spawn [Delivering example_credential g [''web'', ''default''] True] st1"
    using b by (simp add: example_begun_def example_env_def)
  ultimately show ?thesis
    by (simp add: converse_rtranclp_into_rtranclp)
qed

lemma example_logged_in_reachable: "cred_steps example_env (newCredentials 0) example_logged_in"
proof -
  have "cred_step example_env example_begun example_logged_in"
    unfolding example_logged_in_def by (rule login) (simp_all add: example_begun_act example_token_def)
  then show ?thesis
    using example_begun_reachable by (rule rtranclp.rtrancl_into_rtrancl[rotated])
qed

lemma example_issued: "''s.1'' \<in> set (cs_issued example_logged_in)"
  by (simp add: example_logged_in_def example_begun_def cred_begin_def advanceLocked_def setEndpoint_def same_client_def
      newCredentials_def deliver_login_def spawn_def finish_def emit_def Let_def example_token_def)

section \<open>Properties\<close>



text \<open>
  C13. A superseded delivery installs nothing. Once a newer credential has been received for a
  binding, or the binding's assignment has changed, or it has been retired, or the agent has stopped,
  a delivery begun before can never install its token, however late it completes: it revokes
  the token. Generations are 64-bit, so the claim is for the first \<open>2\<^sup>6\<^sup>4 - 1\<close> of them.
\<close>

theorem superseded_delivery_installs_nothing:
  assumes "cred_steps env (newCredentials t0) st"
    and "Delivering c g own renew \<in> set (cs_acts st) \<or> LoggedIn c g renew token \<in> set (cs_acts st)"
    and "b = credential_Binding c"
    and "st1 \<in> {snd (cred_begin b st), snd (invalidate b st), cred_retire b st, stopAll st}"
    and "cred_steps env st1 st2" and "cs_draws st2 < 2 ^ 64"
  shows "deliver_install c g renew token st2 = spawn [Revoking b token] st2"
proof -
  have "g \<in> deliveries st"
    using assms(2) unfolding deliveries_def by (force intro: bexI[of _ "LoggedIn c g renew token"])
  then obtain k where k: "0 < k" "k \<le> cs_draws st" "g = word_of_nat k"
    using gen_reachable[OF assms(1)] unfolding drawn_def by blast
  have num: "cs_next st = word_of_nat (cs_draws st)"
    using gen_reachable[OF assms(1)] by blast
  have adv: "newer k b st1 \<and> k \<le> cs_draws st1 \<and> cs_next st1 = word_of_nat (cs_draws st1)"
    if "gens st1 = (AList.update b (cs_next st + 1) (cs_generation st), cs_next st + 1, cs_draws st + 1)"
    using that k num by (auto simp: gens_def newer_def generation_of_def intro!: exI[of _ "cs_draws st + 1"])
  have "newer k b st1 \<and> k \<le> cs_draws st1 \<and> cs_next st1 = word_of_nat (cs_draws st1)"
    using assms(4)
  proof (elim insertE)
    assume "st1 = snd (cred_begin b st)"
    then show ?thesis
      using gens_calls(1)[of b st] adv by (metis cred_begin_def prod.collapse)
  next
    assume "st1 = snd (invalidate b st)"
    then show ?thesis
      using gens_calls(2)[of b st] adv by (metis prod.collapse)
  next
    assume "st1 = cred_retire b st"
    then show ?thesis
      using gens_calls(3)[of b st] k(2) num by (auto simp: gens_def newer_def generation_of_def)
  next
    assume "st1 = stopAll st"
    then show ?thesis
      using gens_calls(4)[of st] k(2) num by (auto simp: gens_def newer_def generation_of_def)
  qed simp
  then have "newer k b st2" "k \<le> cs_draws st2"
    using newer_steps[OF assms(5)] by blast+
  then have "generation_of b st2 \<noteq> g"
    using newer_not_equal assms(6) k by blast
  then show ?thesis
    using assms(3) by (simp add: deliver_install_def)
qed

theorem superseded_delivery_installs_nothing_witness:
  "Delivering example_credential 1 [''web'', ''default''] True \<in> set (cs_acts example_begun) \<and>
   deliver_install example_credential 1 True example_token (cred_retire ''b-01'' example_begun) =
     spawn [Revoking ''b-01'' example_token] (cred_retire ''b-01'' example_begun)"
proof -
  have act: "Delivering example_credential 1 [''web'', ''default''] True \<in> set (cs_acts example_begun)"
    by (simp add: example_begun_act)
  have draws: "cs_draws (cred_retire ''b-01'' example_begun) < 2 ^ 64"
    by (simp add: cred_retire_def example_begun_def cred_begin_def advanceLocked_def setEndpoint_def same_client_def
        newCredentials_def spawn_def held_of_def Let_def)
  show ?thesis
    using superseded_delivery_installs_nothing[OF example_begun_reachable disjI1[OF act], of "''b-01''"
        "cred_retire ''b-01'' example_begun" "cred_retire ''b-01'' example_begun" example_token] act draws
    by (simp add: example_credential_def)
qed

end
