(* ===== verification/Store.thy ===== *)
theory Store
  imports Protocol
begin

text \<open>
  The controller's durable state (\<^verbatim>\<open>internal/controller/store\<close>): every table of the database as the list
  of its rows, and every method of \<^verbatim>\<open>Store\<close> as a function on them.

  A method that changes the database returns either an error, and then its transaction is rolled
  back and the database is as before, or its result with the new database. The constraints that the
  schema declares (primary keys, the partial unique indexes, foreign keys with their cascades) are
  tested where a statement could break one, and breaking it is the error \<open>Constraint\<close>, which the
  methods pass through \<^verbatim>\<open>isConstraint\<close> as the code does. A JSON column holds the value that was
  encoded into it; the policy document leaves out its generation, which has a column of its own.
  Times are integers and a \<^verbatim>\<open>NULL\<close> time is \<open>None\<close>. Failures of the disk or of the database engine are
  outside the model, as is a policy document so large that its JSON text exceeds the reader's limit.
\<close>

section \<open>Errors\<close>

datatype store_error =
    ErrNotFound
  | ErrConflict
  | Constraint
  | InvalidDecision
  | MembershipEmpty
  | DocumentInvalid error
  | SchemaUnsupported
  | SchemaNewer

definition isConstraint :: "store_error \<Rightarrow> bool" where
  "isConstraint err = (err = Constraint)"

text \<open>A constraint error read as another error, every other error as it is.\<close>

definition constraint_as :: "store_error \<Rightarrow> store_error + 'a \<Rightarrow> store_error + 'a" where
  "constraint_as as r = (case r of Inl err \<Rightarrow> Inl (if isConstraint err then as else err) | Inr x \<Rightarrow> Inr x)"

section \<open>Rows\<close>

type_synonym time = int

datatype AgentState = AgentPending | AgentApproved | AgentRejected

record Agent =
  agent_Fingerprint :: string
  agent_Name :: string
  agent_PublicKey :: string
  agent_State :: AgentState
  agent_FirstSeen :: time
  agent_DecidedAt :: "time option"
  agent_DecidedBy :: string
  agent_AgentVersion :: string
  agent_AllowRecreate :: bool
  agent_LastConnected :: "time option"
  agent_LastReport :: "time option"

datatype OperatorKeyState = OperatorKeyPending | OperatorKeyApproved | OperatorKeyRejected | OperatorKeyRevoked

record OperatorKey =
  opk_Fingerprint :: string
  opk_Label :: string
  opk_PublicKey :: string
  opk_State :: OperatorKeyState
  opk_Grant :: Grant
  opk_FirstSeen :: time
  opk_DecidedAt :: "time option"
  opk_DecidedBy :: string
  opk_RevokedAt :: "time option"
  opk_RevokedBy :: string
  opk_LastUsed :: "time option"

record policy_row =
  prow_name :: string
  prow_revision :: int
  prow_document :: Policy
  prow_saved_at :: time
  prow_saved_by :: string
  prow_generation :: int

record StoredPolicy =
  stored_Policy :: Policy
  stored_SavedAt :: time
  stored_SavedBy :: string

record binding_row =
  brow_id :: string
  brow_agent :: string
  brow_key :: Key
  brow_settings :: Settings
  brow_revision :: int
  brow_effective :: Effective
  brow_applied :: bool
  brow_role :: string
  brow_created_at :: time
  brow_created_by :: string

record Binding =
  bind_ID :: string
  bind_Agent :: string
  bind_Key :: Key
  bind_Policies :: "string list"
  bind_Settings :: Settings
  bind_Revision :: int
  bind_Effective :: Effective
  bind_Applied :: bool
  bind_Role :: string
  bind_CreatedAt :: time
  bind_CreatedBy :: string

record stored_result =
  sres_Result :: ContractResult
  sres_UpdatedAt :: time

record Operator =
  operator_Subject :: string
  operator_DisplayName :: string
  operator_Email :: string
  operator_LastSignIn :: time

record WebSession =
  session_IDHash :: string
  session_Subject :: string
  session_AdmittedGroup :: string
  session_CSRF :: string
  session_CreatedAt :: time
  session_ExpiresAt :: time

text \<open>
  Tables with a single value beside the key (\<^verbatim>\<open>policy_generations\<close>, \<^verbatim>\<open>inventories\<close>, and so on) are
  association lists from the primary key.
\<close>

record db =
  db_agents :: "Agent list"
  db_policies :: "policy_row list"
  db_bindings :: "binding_row list"
  db_binding_policies :: "(string \<times> string) list"
  db_inventories :: "(string, Container list \<times> time) gomap"
  db_retired_bindings :: "(string, string \<times> time) gomap"
  db_binding_tokens :: "(string, string \<times> time) gomap"
  db_contract_results :: "(string, stored_result) gomap"
  db_operators :: "Operator list"
  db_web_sessions :: "WebSession list"
  db_policy_generations :: "(string, int) gomap"
  db_policy_retirements :: "(string, time) gomap"
  db_operator_keys :: "OperatorKey list"

definition empty_db :: db where
  "empty_db =
     \<lparr>db_agents = [], db_policies = [], db_bindings = [], db_binding_policies = [], db_inventories = [],
      db_retired_bindings = [], db_binding_tokens = [], db_contract_results = [], db_operators = [],
      db_web_sessions = [], db_policy_generations = [], db_policy_retirements = [], db_operator_keys = []\<rparr>"

section \<open>Statements\<close>

text \<open>The row with a key, and updating the rows that satisfy a condition.\<close>

definition row_by :: "('r \<Rightarrow> 'k) \<Rightarrow> 'k \<Rightarrow> 'r list \<Rightarrow> 'r option" where
  "row_by key k rows = find (\<lambda>r. key r = k) rows"

definition set_where :: "('r \<Rightarrow> bool) \<Rightarrow> ('r \<Rightarrow> 'r) \<Rightarrow> 'r list \<Rightarrow> 'r list" where
  "set_where cond f rows = map (\<lambda>r. if cond r then f r else r) rows"

definition delete_where :: "('r \<Rightarrow> bool) \<Rightarrow> 'r list \<Rightarrow> 'r list" where
  "delete_where cond rows = filter (\<lambda>r. \<not> cond r) rows"

section \<open>Schema versions\<close>

definition schemaVersion :: int where
  "schemaVersion = 4"

text \<open>
  The indexes of the migrations that run for a database at some version, and the version after them.
\<close>

function migrate_from :: "int \<Rightarrow> int list" where
  "migrate_from version =
     (if version < schemaVersion then (version - 1) # migrate_from (version + 1) else [])"
  by pat_completeness auto
termination
  by (relation "measure (\<lambda>v. nat (schemaVersion - v))") auto

declare migrate_from.simps [simp del]

definition migrate :: "int \<Rightarrow> store_error + int list \<times> int" where
  "migrate version =
     (if version = 1 then Inl SchemaUnsupported
      else if version > schemaVersion then Inl SchemaNewer
      else if version = schemaVersion then Inr ([], version)
      else if version = 0 then Inr (0 # migrate_from 2, schemaVersion)
      else Inr (migrate_from version, schemaVersion))"

section \<open>Agents\<close>

definition store_Agent :: "string \<Rightarrow> db \<Rightarrow> store_error + Agent" where
  "store_Agent fingerprint d =
     (case row_by agent_Fingerprint fingerprint (db_agents d) of None \<Rightarrow> Inl ErrNotFound | Some a \<Rightarrow> Inr a)"

definition ApprovedAgent :: "string \<Rightarrow> db \<Rightarrow> store_error + Agent" where
  "ApprovedAgent name d =
     (case find (\<lambda>a. agent_Name a = name \<and> agent_State a = AgentApproved) (db_agents d) of
        None \<Rightarrow> Inl ErrNotFound
      | Some a \<Rightarrow> Inr a)"

definition new_agent :: "string \<Rightarrow> string \<Rightarrow> string \<Rightarrow> time \<Rightarrow> Agent" where
  "new_agent fingerprint name publicKey now =
     \<lparr>agent_Fingerprint = fingerprint, agent_Name = name, agent_PublicKey = publicKey,
      agent_State = AgentPending, agent_FirstSeen = now, agent_DecidedAt = None, agent_DecidedBy = [],
      agent_AgentVersion = [], agent_AllowRecreate = False, agent_LastConnected = None, agent_LastReport = None\<rparr>"

definition record_key_insert :: "string \<Rightarrow> string \<Rightarrow> string \<Rightarrow> time \<Rightarrow> db \<Rightarrow> db" where
  "record_key_insert fingerprint name publicKey now d =
     (if row_by opk_Fingerprint fingerprint (db_operator_keys d) \<noteq> None then d
      else if row_by agent_Fingerprint fingerprint (db_agents d) \<noteq> None
      then d\<lparr>db_agents := set_where (\<lambda>a. agent_Fingerprint a = fingerprint \<and> agent_State a = AgentPending)
               (\<lambda>a. a\<lparr>agent_Name := name\<rparr>) (db_agents d)\<rparr>
      else d\<lparr>db_agents := db_agents d @ [new_agent fingerprint name publicKey now]\<rparr>)"

definition RecordKey :: "string \<Rightarrow> string \<Rightarrow> string \<Rightarrow> time \<Rightarrow> db \<Rightarrow> store_error + Agent \<times> db" where
  "RecordKey fingerprint name publicKey now d =
     (let d' = record_key_insert fingerprint name publicKey now d
      in try_bind (store_Agent fingerprint d') (\<lambda>a. Inr (a, d')))"

definition PendingCount :: "db \<Rightarrow> nat" where
  "PendingCount d = length (filter (\<lambda>a. agent_State a = AgentPending) (db_agents d))"

fun agent_rank :: "AgentState \<Rightarrow> nat" where
  "agent_rank AgentPending = 0"
| "agent_rank AgentApproved = 1"
| "agent_rank AgentRejected = 2"

definition Agents :: "db \<Rightarrow> Agent list" where
  "Agents d = sort_key (\<lambda>a. (agent_rank (agent_State a), agent_Name a, agent_FirstSeen a)) (db_agents d)"

definition DecideAgent :: "string \<Rightarrow> AgentState \<Rightarrow> string \<Rightarrow> time \<Rightarrow> db \<Rightarrow> store_error + Agent \<times> db" where
  "DecideAgent fingerprint state operator now d =
     (if state \<noteq> AgentApproved \<and> state \<noteq> AgentRejected then Inl InvalidDecision
      else
        (let target = (\<lambda>a. agent_Fingerprint a = fingerprint \<and> agent_State a = AgentPending);
             agents = set_where target
               (\<lambda>a. a\<lparr>agent_State := state, agent_DecidedAt := Some now, agent_DecidedBy := operator\<rparr>) (db_agents d)
         in if \<not> distinct (map agent_Name (filter (\<lambda>a. agent_State a = AgentApproved) agents))
            then Inl ErrConflict
            else if \<not> list_ex target (db_agents d) then Inl ErrNotFound
            else (let d' = d\<lparr>db_agents := agents\<rparr>
                  in try_bind (store_Agent fingerprint d') (\<lambda>a. Inr (a, d')))))"

definition RecordConnection :: "string \<Rightarrow> string \<Rightarrow> bool \<Rightarrow> time \<Rightarrow> db \<Rightarrow> db" where
  "RecordConnection fingerprint version allowRecreate now d =
     d\<lparr>db_agents := set_where (\<lambda>a. agent_Fingerprint a = fingerprint)
         (\<lambda>a. a\<lparr>agent_AgentVersion := version, agent_AllowRecreate := allowRecreate,
               agent_LastConnected := Some now\<rparr>) (db_agents d)\<rparr>"

section \<open>Operator keys\<close>

definition store_OperatorKey :: "string \<Rightarrow> db \<Rightarrow> store_error + OperatorKey" where
  "store_OperatorKey fingerprint d =
     (case row_by opk_Fingerprint fingerprint (db_operator_keys d) of None \<Rightarrow> Inl ErrNotFound | Some k \<Rightarrow> Inr k)"

definition new_operator_key :: "string \<Rightarrow> string \<Rightarrow> string \<Rightarrow> time \<Rightarrow> OperatorKey" where
  "new_operator_key fingerprint label publicKey now =
     \<lparr>opk_Fingerprint = fingerprint, opk_Label = label, opk_PublicKey = publicKey,
      opk_State = OperatorKeyPending,
      opk_Grant = \<lparr>grant_Agents = [], grant_Policies = [], grant_Actions = []\<rparr>,
      opk_FirstSeen = now, opk_DecidedAt = None, opk_DecidedBy = [], opk_RevokedAt = None,
      opk_RevokedBy = [], opk_LastUsed = None\<rparr>"

definition record_operator_key_insert :: "string \<Rightarrow> string \<Rightarrow> string \<Rightarrow> time \<Rightarrow> db \<Rightarrow> db" where
  "record_operator_key_insert fingerprint label publicKey now d =
     (if row_by agent_Fingerprint fingerprint (db_agents d) \<noteq> None then d
      else if row_by opk_Fingerprint fingerprint (db_operator_keys d) \<noteq> None
      then d\<lparr>db_operator_keys := set_where (\<lambda>k. opk_Fingerprint k = fingerprint \<and> opk_State k = OperatorKeyPending)
               (\<lambda>k. k\<lparr>opk_Label := label\<rparr>) (db_operator_keys d)\<rparr>
      else d\<lparr>db_operator_keys := db_operator_keys d @ [new_operator_key fingerprint label publicKey now]\<rparr>)"

definition RecordOperatorKey :: "string \<Rightarrow> string \<Rightarrow> string \<Rightarrow> time \<Rightarrow> db \<Rightarrow> store_error + OperatorKey \<times> db" where
  "RecordOperatorKey fingerprint label publicKey now d =
     (let d' = record_operator_key_insert fingerprint label publicKey now d
      in try_bind (store_OperatorKey fingerprint d') (\<lambda>k. Inr (k, d')))"

definition PendingOperatorKeyCount :: "db \<Rightarrow> nat" where
  "PendingOperatorKeyCount d = length (filter (\<lambda>k. opk_State k = OperatorKeyPending) (db_operator_keys d))"

fun operator_key_rank :: "OperatorKeyState \<Rightarrow> nat" where
  "operator_key_rank OperatorKeyPending = 0"
| "operator_key_rank OperatorKeyApproved = 1"
| "operator_key_rank OperatorKeyRevoked = 2"
| "operator_key_rank OperatorKeyRejected = 3"

definition OperatorKeys :: "db \<Rightarrow> OperatorKey list" where
  "OperatorKeys d =
     sort_key (\<lambda>k. (operator_key_rank (opk_State k), opk_Label k, opk_FirstSeen k)) (db_operator_keys d)"

definition holds_label :: "OperatorKey \<Rightarrow> bool" where
  "holds_label k = (opk_State k = OperatorKeyApproved \<or> opk_State k = OperatorKeyRevoked)"

definition ApproveOperatorKey :: "string \<Rightarrow> string \<Rightarrow> Grant \<Rightarrow> string \<Rightarrow> time \<Rightarrow> db \<Rightarrow> store_error + OperatorKey \<times> db" where
  "ApproveOperatorKey fingerprint label grant who now d =
     (let target = (\<lambda>k. opk_Fingerprint k = fingerprint \<and> opk_State k = OperatorKeyPending);
          keys = set_where target
            (\<lambda>k. k\<lparr>opk_State := OperatorKeyApproved, opk_Label := label, opk_Grant := grant,
                  opk_DecidedAt := Some now, opk_DecidedBy := who\<rparr>) (db_operator_keys d)
      in if \<not> distinct (map opk_Label (filter holds_label keys)) then Inl ErrConflict
         else if \<not> list_ex target (db_operator_keys d) then Inl ErrNotFound
         else (let d' = d\<lparr>db_operator_keys := keys\<rparr>
               in try_bind (store_OperatorKey fingerprint d') (\<lambda>k. Inr (k, d'))))"

definition RejectOperatorKey :: "string \<Rightarrow> string \<Rightarrow> time \<Rightarrow> db \<Rightarrow> store_error + OperatorKey \<times> db" where
  "RejectOperatorKey fingerprint who now d =
     (let target = (\<lambda>k. opk_Fingerprint k = fingerprint \<and> opk_State k = OperatorKeyPending);
          keys = set_where target
            (\<lambda>k. k\<lparr>opk_State := OperatorKeyRejected, opk_DecidedAt := Some now, opk_DecidedBy := who\<rparr>) (db_operator_keys d)
      in if \<not> list_ex target (db_operator_keys d) then Inl ErrNotFound
         else (let d' = d\<lparr>db_operator_keys := keys\<rparr>
               in try_bind (store_OperatorKey fingerprint d') (\<lambda>k. Inr (k, d'))))"

definition RevokeOperatorKey :: "string \<Rightarrow> string \<Rightarrow> time \<Rightarrow> db \<Rightarrow> store_error + OperatorKey \<times> db" where
  "RevokeOperatorKey fingerprint who now d =
     (let target = (\<lambda>k. opk_Fingerprint k = fingerprint \<and> opk_State k = OperatorKeyApproved);
          keys = set_where target
            (\<lambda>k. k\<lparr>opk_State := OperatorKeyRevoked, opk_RevokedAt := Some now, opk_RevokedBy := who\<rparr>) (db_operator_keys d)
      in if \<not> list_ex target (db_operator_keys d) then Inl ErrNotFound
         else (let d' = d\<lparr>db_operator_keys := keys\<rparr>
               in try_bind (store_OperatorKey fingerprint d') (\<lambda>k. Inr (k, d'))))"

definition RecordOperatorKeyUse :: "string \<Rightarrow> time \<Rightarrow> db \<Rightarrow> db" where
  "RecordOperatorKeyUse fingerprint now d =
     d\<lparr>db_operator_keys := set_where (\<lambda>k. opk_Fingerprint k = fingerprint)
         (\<lambda>k. k\<lparr>opk_LastUsed := Some now\<rparr>) (db_operator_keys d)\<rparr>"

section \<open>Policies\<close>

definition nextPolicyGeneration :: "string \<Rightarrow> db \<Rightarrow> int" where
  "nextPolicyGeneration name d =
     (case map_of (db_policy_generations d) name of None \<Rightarrow> 0 | Some latest \<Rightarrow> latest) + 1"

definition NextPolicyGeneration :: "string \<Rightarrow> db \<Rightarrow> int" where
  "NextPolicyGeneration name d = nextPolicyGeneration name d"

text \<open>The conditional update of a binding's assignment that the three callers share.\<close>

definition update_assignment :: "Binding \<Rightarrow> db \<Rightarrow> store_error + db" where
  "update_assignment b d =
     (let target = (\<lambda>r. brow_id r = bind_ID b \<and> brow_revision r = bind_Revision b - 1)
      in if length (filter target (db_bindings d)) \<noteq> 1 then Inl ErrConflict
         else Inr (d\<lparr>db_bindings := set_where target
                (\<lambda>r. r\<lparr>brow_settings := Defaults (bind_Settings b), brow_revision := bind_Revision b,
                       brow_effective := bind_Effective b, brow_applied := False\<rparr>) (db_bindings d)\<rparr>))"

text \<open>Insert a policy row or overwrite what the upsert lists; the generation of a stored row stays.\<close>

definition upsert_policy :: "policy_row \<Rightarrow> policy_row list \<Rightarrow> policy_row list" where
  "upsert_policy row rows =
     (if row_by prow_name (prow_name row) rows \<noteq> None
      then set_where (\<lambda>r. prow_name r = prow_name row)
             (\<lambda>r. r\<lparr>prow_revision := prow_revision row, prow_document := prow_document row,
                    prow_saved_at := prow_saved_at row, prow_saved_by := prow_saved_by row\<rparr>) rows
      else rows @ [row])"

definition policy_row_of :: "Policy \<Rightarrow> string \<Rightarrow> time \<Rightarrow> policy_row" where
  "policy_row_of p operator now =
     \<lparr>prow_name = policy_Name p, prow_revision = policy_Revision p,
      prow_document = p\<lparr>policy_Generation := 0\<rparr>, prow_saved_at = now, prow_saved_by = operator,
      prow_generation = policy_Generation p\<rparr>"

definition SavePolicyBindings :: "Policy \<Rightarrow> Binding list \<Rightarrow> string \<Rightarrow> time \<Rightarrow> db \<Rightarrow> store_error + Policy \<times> db" where
  "SavePolicyBindings document bindings operator now d =
     (let stored = row_by prow_name (policy_Name document) (db_policies d);
          revision = (case stored of None \<Rightarrow> 0 | Some r \<Rightarrow> prow_revision r);
          generation = (case stored of None \<Rightarrow> nextPolicyGeneration (policy_Name document) d
                        | Some r \<Rightarrow> prow_generation r)
      in if policy_Generation document \<noteq> 0 \<and> policy_Generation document \<noteq> generation then Inl ErrConflict
         else
           (let saved = (Policy_Clone document)\<lparr>policy_Revision := revision + 1, policy_Generation := generation\<rparr>;
                d1 = d\<lparr>db_policies := upsert_policy (policy_row_of saved operator now) (db_policies d)\<rparr>;
                d2 = (if stored = None
                      then d1\<lparr>db_policy_generations :=
                             AList.update (policy_Name saved) (policy_Generation saved) (db_policy_generations d1)\<rparr>
                      else d1)
            in try_bind (fold_try update_assignment bindings d2) (\<lambda>d'. Inr (saved, d'))))"

definition SavePolicy :: "Policy \<Rightarrow> string \<Rightarrow> time \<Rightarrow> db \<Rightarrow> store_error + Policy \<times> db" where
  "SavePolicy document operator now d = SavePolicyBindings document [] operator now d"

definition DeletePolicy :: "string \<Rightarrow> db \<Rightarrow> store_error + db" where
  "DeletePolicy name d =
     (if row_by prow_name name (db_policies d) = None then Inl ErrNotFound
      else if name \<in> snd ` set (db_binding_policies d) then Inl Constraint
      else Inr (d\<lparr>db_policies := delete_where (\<lambda>r. prow_name r = name) (db_policies d)\<rparr>))"

definition scanPolicy :: "hcl_lib \<Rightarrow> policy_row \<Rightarrow> store_error + StoredPolicy" where
  "scanPolicy hcl r =
     (case Policy_Validate hcl (prow_document r) of
        Some err \<Rightarrow> Inl (DocumentInvalid err)
      | None \<Rightarrow>
          Inr \<lparr>stored_Policy = (prow_document r)\<lparr>policy_Generation := prow_generation r\<rparr>,
               stored_SavedAt = prow_saved_at r, stored_SavedBy = prow_saved_by r\<rparr>)"

definition store_Policy :: "hcl_lib \<Rightarrow> string \<Rightarrow> db \<Rightarrow> store_error + StoredPolicy" where
  "store_Policy hcl name d =
     (case row_by prow_name name (db_policies d) of None \<Rightarrow> Inl ErrNotFound | Some r \<Rightarrow> scanPolicy hcl r)"

fun scan_all :: "('r \<Rightarrow> store_error + 'a) \<Rightarrow> 'r list \<Rightarrow> store_error + 'a list" where
  "scan_all scan [] = Inr []"
| "scan_all scan (r # rs) = try_bind (scan r) (\<lambda>x. try_bind (scan_all scan rs) (\<lambda>xs. Inr (x # xs)))"

definition store_Policies :: "hcl_lib \<Rightarrow> db \<Rightarrow> store_error + StoredPolicy list" where
  "store_Policies hcl d = scan_all (scanPolicy hcl) (sort_key prow_name (db_policies d))"

definition recordPolicyRetirement :: "string \<Rightarrow> time \<Rightarrow> db \<Rightarrow> db" where
  "recordPolicyRetirement identity now d =
     (if map_of (db_policy_retirements d) identity \<noteq> None then d
      else d\<lparr>db_policy_retirements := db_policy_retirements d @ [(identity, now)]\<rparr>)"

definition ForgetPolicyRetirement :: "string \<Rightarrow> db \<Rightarrow> db" where
  "ForgetPolicyRetirement identity d =
     d\<lparr>db_policy_retirements := AList.delete identity (db_policy_retirements d)\<rparr>"

definition PolicyRetirements :: "db \<Rightarrow> string list" where
  "PolicyRetirements d = sort (map_keys (db_policy_retirements d))"

definition rename_membership :: "string \<Rightarrow> string \<Rightarrow> (string \<times> string) list \<Rightarrow> (string \<times> string) list" where
  "rename_membership oldName newName rows =
     set_where (\<lambda>r. snd r = oldName) (\<lambda>r. (fst r, newName)) rows"

definition RenamePolicy :: "hcl_lib \<Rightarrow> string \<Rightarrow> Policy \<Rightarrow> Binding list \<Rightarrow> string \<Rightarrow> time \<Rightarrow> db \<Rightarrow> store_error + Policy \<times> db" where
  "RenamePolicy hcl oldName document bindings operator now d =
     try_bind (store_Policy hcl oldName d) (\<lambda>previous.
       if policy_Revision document \<noteq> policy_Revision (stored_Policy previous) + 1 then Inl ErrConflict
       else if policy_Generation document \<noteq> nextPolicyGeneration (policy_Name document) d then Inl ErrConflict
       else if row_by prow_name (policy_Name document) (db_policies d) \<noteq> None then Inl ErrConflict
       else
         (let d1 = d\<lparr>db_policies := db_policies d @ [policy_row_of document operator now]\<rparr>;
              d2 = d1\<lparr>db_policy_generations :=
                     AList.update (policy_Name document) (policy_Generation document) (db_policy_generations d1)\<rparr>;
              moved = filter (\<lambda>r. snd r = oldName) (db_binding_policies d2);
              membership = rename_membership oldName (policy_Name document) (db_binding_policies d2)
          in if \<not> distinct membership then Inl Constraint
             else if length moved \<noteq> length bindings then Inl ErrConflict
             else
               try_bind (fold_try update_assignment bindings (d2\<lparr>db_binding_policies := membership\<rparr>)) (\<lambda>d3.
                 if oldName \<in> snd ` set (db_binding_policies d3) then Inl Constraint
                 else
                   (let d4 = d3\<lparr>db_policies := delete_where (\<lambda>r. prow_name r = oldName) (db_policies d3)\<rparr>;
                        d5 = ForgetPolicyRetirement (OpenBaoPolicyName document) d4;
                        d6 = recordPolicyRetirement (OpenBaoPolicyName (stored_Policy previous)) now d5
                    in Inr (document, d6)))))"

section \<open>Bindings\<close>

definition HasPolicy :: "Binding \<Rightarrow> string \<Rightarrow> bool" where
  "HasPolicy b name = list_ex (\<lambda>n. n = name) (bind_Policies b)"

definition binding_names :: "string \<Rightarrow> db \<Rightarrow> string list" where
  "binding_names bid d = sort (map snd (filter (\<lambda>r. fst r = bid) (db_binding_policies d)))"

definition scanBinding :: "db \<Rightarrow> binding_row \<Rightarrow> Binding" where
  "scanBinding d r =
     \<lparr>bind_ID = brow_id r, bind_Agent = brow_agent r, bind_Key = brow_key r,
      bind_Policies = binding_names (brow_id r) d, bind_Settings = brow_settings r,
      bind_Revision = brow_revision r, bind_Effective = brow_effective r, bind_Applied = brow_applied r,
      bind_Role = brow_role r, bind_CreatedAt = brow_created_at r, bind_CreatedBy = brow_created_by r\<rparr>"

fun insert_memberships :: "string \<Rightarrow> string list \<Rightarrow> db \<Rightarrow> store_error + db" where
  "insert_memberships bid [] d = Inr d"
| "insert_memberships bid (name # names) d =
     (if row_by brow_id bid (db_bindings d) = None \<or> row_by prow_name name (db_policies d) = None
         \<or> (bid, name) \<in> set (db_binding_policies d)
      then Inl Constraint
      else insert_memberships bid names (d\<lparr>db_binding_policies := db_binding_policies d @ [(bid, name)]\<rparr>))"

definition writeMembership :: "Binding \<Rightarrow> db \<Rightarrow> store_error + db" where
  "writeMembership b d =
     (let d' = d\<lparr>db_binding_policies := delete_where (\<lambda>r. fst r = bind_ID b) (db_binding_policies d)\<rparr>
      in if bind_Policies b = [] then Inl MembershipEmpty
         else insert_memberships (bind_ID b) (bind_Policies b) d')"

definition binding_row_of :: "Binding \<Rightarrow> binding_row" where
  "binding_row_of b =
     \<lparr>brow_id = bind_ID b, brow_agent = bind_Agent b, brow_key = bind_Key b,
      brow_settings = Defaults (bind_Settings b), brow_revision = bind_Revision b,
      brow_effective = bind_Effective b, brow_applied = bind_Applied b, brow_role = bind_Role b,
      brow_created_at = bind_CreatedAt b, brow_created_by = bind_CreatedBy b\<rparr>"

definition CreateBinding :: "Binding \<Rightarrow> db \<Rightarrow> store_error + db" where
  "CreateBinding binding d =
     (let b = (if bind_Revision binding = 0 then binding\<lparr>bind_Revision := 1\<rparr> else binding)
      in constraint_as ErrConflict
           (if row_by brow_id (bind_ID b) (db_bindings d) \<noteq> None
               \<or> list_ex (\<lambda>r. brow_agent r = bind_Agent b \<and> brow_key r = bind_Key b) (db_bindings d)
            then Inl Constraint
            else writeMembership b (d\<lparr>db_bindings := db_bindings d @ [binding_row_of b]\<rparr>)))"

definition ChangeBinding :: "Binding \<Rightarrow> db \<Rightarrow> store_error + db" where
  "ChangeBinding b d = try_bind (update_assignment b d) (writeMembership b)"

definition MarkBindingApplied :: "string \<Rightarrow> db \<Rightarrow> db" where
  "MarkBindingApplied bid d =
     d\<lparr>db_bindings := set_where (\<lambda>r. brow_id r = bid) (\<lambda>r. r\<lparr>brow_applied := True\<rparr>) (db_bindings d)\<rparr>"

text \<open>Deleting a binding cascades to its memberships, its token and its contract result.\<close>

definition delete_binding :: "string \<Rightarrow> db \<Rightarrow> db" where
  "delete_binding bid d =
     d\<lparr>db_bindings := delete_where (\<lambda>r. brow_id r = bid) (db_bindings d),
       db_binding_policies := delete_where (\<lambda>r. fst r = bid) (db_binding_policies d),
       db_binding_tokens := AList.delete bid (db_binding_tokens d),
       db_contract_results := AList.delete bid (db_contract_results d)\<rparr>"

definition RetireBinding :: "string \<Rightarrow> time \<Rightarrow> db \<Rightarrow> store_error + string \<times> db" where
  "RetireBinding bid now d =
     (case row_by brow_id bid (db_bindings d) of
        None \<Rightarrow> Inl ErrNotFound
      | Some r \<Rightarrow>
          (let accessor = (case map_of (db_binding_tokens d) bid of None \<Rightarrow> [] | Some (a, _) \<Rightarrow> a);
               d1 = d\<lparr>db_retired_bindings := AList.update bid (brow_agent r, now) (db_retired_bindings d)\<rparr>
           in Inr (accessor, delete_binding bid d1)))"

definition RetiredBindingAgent :: "string \<Rightarrow> db \<Rightarrow> store_error + string" where
  "RetiredBindingAgent bid d =
     (case map_of (db_retired_bindings d) bid of None \<Rightarrow> Inl ErrNotFound | Some (agent, _) \<Rightarrow> Inr agent)"

definition store_Binding :: "string \<Rightarrow> db \<Rightarrow> store_error + Binding" where
  "store_Binding bid d =
     (case row_by brow_id bid (db_bindings d) of None \<Rightarrow> Inl ErrNotFound | Some r \<Rightarrow> Inr (scanBinding d r))"

definition Bindings :: "string \<Rightarrow> db \<Rightarrow> Binding list" where
  "Bindings agent d =
     map (scanBinding d)
       (sort_key (\<lambda>r. (brow_agent r, brow_created_at r))
         (filter (\<lambda>r. agent = [] \<or> brow_agent r = agent) (db_bindings d)))"

section \<open>Reports\<close>

definition SaveInventory :: "string \<Rightarrow> string \<Rightarrow> Container list \<Rightarrow> time \<Rightarrow> db \<Rightarrow> db" where
  "SaveInventory agent fingerprint containers now d =
     d\<lparr>db_inventories := AList.update agent (containers, now) (db_inventories d),
       db_agents := set_where (\<lambda>a. agent_Fingerprint a = fingerprint)
         (\<lambda>a. a\<lparr>agent_LastReport := Some now\<rparr>) (db_agents d)\<rparr>"

definition Inventory :: "string \<Rightarrow> db \<Rightarrow> Container list \<times> time option" where
  "Inventory agent d =
     (case map_of (db_inventories d) agent of None \<Rightarrow> ([], None) | Some (containers, at) \<Rightarrow> (containers, Some at))"

definition SaveTokenAccessor :: "string \<Rightarrow> string \<Rightarrow> time \<Rightarrow> db \<Rightarrow> store_error + db" where
  "SaveTokenAccessor binding accessor now d =
     constraint_as ErrNotFound
       (if row_by brow_id binding (db_bindings d) = None then Inl Constraint
        else Inr (d\<lparr>db_binding_tokens := AList.update binding (accessor, now) (db_binding_tokens d)\<rparr>))"

definition TokenAccessor_of :: "string \<Rightarrow> db \<Rightarrow> store_error + string" where
  "TokenAccessor_of binding d =
     (case map_of (db_binding_tokens d) binding of None \<Rightarrow> Inl ErrNotFound | Some (accessor, _) \<Rightarrow> Inr accessor)"

definition SaveContractResult :: "ContractResult \<Rightarrow> time \<Rightarrow> db \<Rightarrow> store_error + db" where
  "SaveContractResult result now d =
     constraint_as ErrNotFound
       (if row_by brow_id (result_Binding result) (db_bindings d) = None then Inl Constraint
        else Inr (d\<lparr>db_contract_results :=
               AList.update (result_Binding result) \<lparr>sres_Result = result, sres_UpdatedAt = now\<rparr> (db_contract_results d)\<rparr>))"

definition ContractResults :: "db \<Rightarrow> (string, stored_result) gomap" where
  "ContractResults d = db_contract_results d"

definition SaveAssignmentAccessor :: "Binding \<Rightarrow> string \<Rightarrow> time \<Rightarrow> db \<Rightarrow> store_error + db" where
  "SaveAssignmentAccessor b accessor now d =
     (if length (filter (\<lambda>r. brow_id r = bind_ID b \<and> brow_revision r = bind_Revision b \<and> brow_applied r) (db_bindings d)) \<noteq> 1
      then Inl ErrConflict
      else Inr (d\<lparr>db_binding_tokens := AList.update (bind_ID b) (accessor, now) (db_binding_tokens d)\<rparr>))"

section \<open>Operators and web sessions\<close>

definition RecordOperator :: "Operator \<Rightarrow> db \<Rightarrow> db" where
  "RecordOperator operator d =
     (if row_by operator_Subject (operator_Subject operator) (db_operators d) \<noteq> None
      then d\<lparr>db_operators := set_where (\<lambda>r. operator_Subject r = operator_Subject operator) (\<lambda>_. operator) (db_operators d)\<rparr>
      else d\<lparr>db_operators := db_operators d @ [operator]\<rparr>)"

definition store_Operator :: "string \<Rightarrow> db \<Rightarrow> store_error + Operator" where
  "store_Operator subject d =
     (case row_by operator_Subject subject (db_operators d) of None \<Rightarrow> Inl ErrNotFound | Some r \<Rightarrow> Inr r)"

definition Operators :: "db \<Rightarrow> (string, Operator) gomap" where
  "Operators d = map (\<lambda>r. (operator_Subject r, r)) (db_operators d)"

definition CreateSession :: "WebSession \<Rightarrow> db \<Rightarrow> store_error + db" where
  "CreateSession session d =
     (if row_by session_IDHash (session_IDHash session) (db_web_sessions d) \<noteq> None
         \<or> row_by operator_Subject (session_Subject session) (db_operators d) = None
      then Inl Constraint
      else Inr (d\<lparr>db_web_sessions := db_web_sessions d @ [session]\<rparr>))"

definition Session :: "string \<Rightarrow> time \<Rightarrow> db \<Rightarrow> store_error + WebSession" where
  "Session idHash now d =
     (case find (\<lambda>s. session_IDHash s = idHash \<and> session_ExpiresAt s > now) (db_web_sessions d) of
        None \<Rightarrow> Inl ErrNotFound
      | Some s \<Rightarrow> Inr s)"

definition OperatorSessions :: "string \<Rightarrow> time \<Rightarrow> db \<Rightarrow> WebSession list" where
  "OperatorSessions subject now d =
     sort_key (\<lambda>s. - session_CreatedAt s)
       (filter (\<lambda>s. session_Subject s = subject \<and> session_ExpiresAt s > now) (db_web_sessions d))"

definition DeleteSession :: "string \<Rightarrow> db \<Rightarrow> db" where
  "DeleteSession idHash d =
     d\<lparr>db_web_sessions := delete_where (\<lambda>s. session_IDHash s = idHash) (db_web_sessions d)\<rparr>"

definition DeleteOtherSessions :: "string \<Rightarrow> string \<Rightarrow> db \<Rightarrow> nat \<times> db" where
  "DeleteOtherSessions subject keep d =
     (let gone = (\<lambda>s. session_Subject s = subject \<and> session_IDHash s \<noteq> keep)
      in (length (filter gone (db_web_sessions d)), d\<lparr>db_web_sessions := delete_where gone (db_web_sessions d)\<rparr>))"

definition PruneSessions :: "time \<Rightarrow> db \<Rightarrow> db" where
  "PruneSessions now d =
     d\<lparr>db_web_sessions := delete_where (\<lambda>s. session_ExpiresAt s \<le> now) (db_web_sessions d)\<rparr>"

end
