(* ===== verification/Readiness.thy ===== *)
theory Readiness
  imports Store
begin

text \<open>
  Which binding governs which container (\<^verbatim>\<open>MatchBindings\<close>, \<^verbatim>\<open>CarriedBindings\<close> and
  \<^verbatim>\<open>ContainerBinding\<close> of \<^verbatim>\<open>internal/controller/session.go\<close>) and when a binding is ready
  (\<^verbatim>\<open>internal/controller/readiness.go\<close>). The digest \<^verbatim>\<open>Binding.Assignment\<close> is a parameter.
\<close>

section \<open>Matching\<close>

definition key_index :: "Binding list \<Rightarrow> (Key, Binding) gomap" where
  "key_index bindings = fold (\<lambda>b m. AList.update (bind_Key b) b m) bindings []"

fun first_bound :: "(Key, Binding) gomap \<Rightarrow> Key list \<Rightarrow> Binding option" where
  "first_bound byKey [] = None"
| "first_bound byKey (key # keys) =
     (case map_of byKey key of Some b \<Rightarrow> Some b | None \<Rightarrow> first_bound byKey keys)"

definition ContainerBinding :: "Container \<Rightarrow> Binding list \<Rightarrow> Binding option" where
  "ContainerBinding container bindings = first_bound (key_index bindings) (container_Keys container)"

definition match_container ::
  "(Key, Binding) gomap \<Rightarrow> Container \<Rightarrow> string list \<times> Binding list \<Rightarrow> string list \<times> Binding list" where
  "match_container byKey container st =
     (case st of (seen, matched) \<Rightarrow>
        (case first_bound byKey (container_Keys container) of
           None \<Rightarrow> st
         | Some b \<Rightarrow> if bind_ID b \<in> set seen then st else (bind_ID b # seen, matched @ [b])))"

definition MatchBindings :: "Container list \<Rightarrow> Binding list \<Rightarrow> Binding list" where
  "MatchBindings containers bindings = snd (fold (match_container (key_index bindings)) containers ([], []))"

definition CarriedBindings :: "Container list \<Rightarrow> Binding list \<Rightarrow> Binding list" where
  "CarriedBindings containers bindings =
     (let carried = MatchBindings containers bindings; seen = map bind_ID carried
      in carried @ filter (\<lambda>b. key_Kind (bind_Key b) = KeyName \<and> bind_ID b \<notin> set seen) bindings)"

definition wireBinding :: "(Binding \<Rightarrow> string) \<Rightarrow> Binding \<Rightarrow> msg_Binding" where
  "wireBinding assignment b =
     \<lparr>mb_Binding = bind_ID b, mb_Key = bind_Key b, mb_Policy = bind_Effective b, mb_Assignment = assignment b\<rparr>"

section \<open>Readiness\<close>

datatype Readiness = ReadinessReady | ReadinessWaiting | ReadinessFailed | ReadinessUnknown

datatype NotReadyReason =
    ReasonAgentDisconnected | ReasonAgentReport | ReasonNoContainer | ReasonConsumerDirectory
  | ReasonAccessGroup | ReasonSockets | ReasonToken | ReasonConformance

record BindingContainer =
  bc_ID :: string
  bc_Name :: string
  bc_State :: State

record ctl_BindingStatus =
  st_Binding :: string
  st_Agent :: string
  st_Key :: Key
  st_AgentConnected :: bool
  st_LastReport :: "time option"
  st_Readiness :: Readiness
  st_Reasons :: "NotReadyReason list"
  st_Containers :: "BindingContainer list"
  st_Consumers :: "ConsumerStatus list"
  st_Token :: TokenState
  st_Outcome :: Outcome
  st_FailedItems :: "FailedItem list"
  st_Reason :: Reason
  st_LastError :: CredentialError

definition governedBy :: "Container list \<Rightarrow> Binding list \<Rightarrow> (string, BindingContainer list) gomap" where
  "governedBy containers bindings =
     fold (\<lambda>c m.
       case ContainerBinding c bindings of
         None \<Rightarrow> m
       | Some b \<Rightarrow>
           AList.update (bind_ID b)
             ((case map_of m (bind_ID b) of None \<Rightarrow> [] | Some l \<Rightarrow> l)
               @ [\<lparr>bc_ID = container_ID c, bc_Name = container_Name c, bc_State = container_State c\<rparr>]) m)
       containers []"

definition allSockets :: "Socket list \<Rightarrow> bool" where
  "allSockets sockets = list_all (\<lambda>s. s \<in> set sockets) Sockets"

definition note_reason :: "NotReadyReason \<Rightarrow> NotReadyReason list \<Rightarrow> NotReadyReason list" where
  "note_reason reason reasons = (if reason \<in> set reasons then reasons else reasons @ [reason])"

definition consumer_failure :: "ConsumerStatus \<Rightarrow> NotReadyReason list \<Rightarrow> NotReadyReason list" where
  "consumer_failure consumer failed =
     (if consumer_Failed consumer = [] then failed
      else if consumer_Failed consumer = FailedAccessGroup then note_reason ReasonAccessGroup failed
      else note_reason ReasonConsumerDirectory failed)"

definition container_wait :: "ConsumerStatus list \<Rightarrow> BindingContainer \<Rightarrow> NotReadyReason list \<Rightarrow> NotReadyReason list" where
  "container_wait consumers container waiting =
     (case find (\<lambda>c. consumer_ContainerID c = bc_ID container) consumers of
        None \<Rightarrow> note_reason ReasonAgentReport waiting
      | Some c \<Rightarrow> if consumer_Failed c = [] \<and> \<not> allSockets (consumer_Sockets c) then note_reason ReasonSockets waiting else waiting)"

definition judge :: "BindingContainer list \<Rightarrow> msg_BindingStatus \<Rightarrow> NotReadyReason list \<times> NotReadyReason list" where
  "judge containers report =
     (let failed = fold consumer_failure (ms_Consumers report) [] in
      if containers = [] then (note_reason ReasonNoContainer [], failed)
      else
        let waiting = fold (container_wait (ms_Consumers report)) containers [];
            waiting = (if ms_Token report \<noteq> TokenValid then note_reason ReasonToken waiting else waiting)
        in if ms_Outcome report \<in> set [OutcomeConforming, OutcomeRecreated] then (waiting, failed)
           else if ms_Outcome report \<in> set [OutcomeNonConforming, OutcomeRecreateFailed] then (waiting, note_reason ReasonConformance failed)
           else (note_reason ReasonConformance waiting, failed))"

text \<open>\<open>session\<close> is the live session of the binding's agent, if any, by the statuses it reported.
  The containers are sorted by their identifiers.\<close>

definition bindingStatus ::
  "(Binding \<Rightarrow> string) \<Rightarrow> (string, msg_BindingStatus) gomap option \<Rightarrow> Binding \<Rightarrow> BindingContainer list \<Rightarrow> time option \<Rightarrow>
   stored_result option \<Rightarrow> ctl_BindingStatus" where
  "bindingStatus assignment session binding containers reported stored =
     (let containers = sort_key bc_ID containers;
          result = \<lparr>st_Binding = bind_ID binding, st_Agent = bind_Agent binding, st_Key = bind_Key binding,
            st_AgentConnected = False, st_LastReport = reported, st_Readiness = ReadinessUnknown,
            st_Reasons = [ReasonAgentDisconnected], st_Containers = containers, st_Consumers = [], st_Token = [],
            st_Outcome = [], st_FailedItems = [], st_Reason = [], st_LastError = []\<rparr>
      in case session of
        None \<Rightarrow> result
      | Some statuses \<Rightarrow>
          let report = map_of statuses (bind_ID binding);
              result = result\<lparr>st_AgentConnected := True\<rparr>;
              (waiting, failed, result) =
                (if containers = [] \<and> key_Kind (bind_Key binding) \<noteq> KeyName then ([ReasonNoContainer], [], result)
                 else case report of
                   None \<Rightarrow> ([ReasonAgentReport], [], result)
                 | Some r \<Rightarrow>
                     if ms_Assignment r \<noteq> assignment binding then ([ReasonAgentReport], [], result)
                     else case judge containers r of
                       (w, f) \<Rightarrow> (w, f, result\<lparr>st_Token := ms_Token r, st_LastError := ms_LastError r,
                         st_Outcome := ms_Outcome r, st_FailedItems := ms_FailedItems r, st_Reason := ms_Reason r,
                         st_Consumers := ms_Consumers r\<rparr>));
              (failed, result) =
                (case stored of
                   Some s \<Rightarrow>
                     if containers = [] \<and> result_Outcome (sres_Result s) = OutcomeRecreateFailed
                     then (failed @ [ReasonConformance],
                           result\<lparr>st_Outcome := result_Outcome (sres_Result s), st_Reason := result_Reason (sres_Result s)\<rparr>)
                     else (failed, result)
                 | None \<Rightarrow> (failed, result))
          in result\<lparr>st_Reasons := failed @ waiting,
               st_Readiness := (if failed \<noteq> [] then ReadinessFailed else if waiting \<noteq> [] then ReadinessWaiting else ReadinessReady)\<rparr>)"

definition ctl_BindingStatus_of ::
  "(Binding \<Rightarrow> string) \<Rightarrow> (string \<Rightarrow> (string, msg_BindingStatus) gomap option) \<Rightarrow> string \<Rightarrow> db \<Rightarrow> store_error + ctl_BindingStatus" where
  "ctl_BindingStatus_of assignment sessions bid d =
     try_bind (store_Binding bid d) (\<lambda>binding.
       case Inventory (bind_Agent binding) d of
         (containers, reported) \<Rightarrow>
           let governed = governedBy containers (Bindings (bind_Agent binding) d)
           in Inr (bindingStatus assignment (sessions (bind_Agent binding)) binding
                (case map_of governed (bind_ID binding) of None \<Rightarrow> [] | Some l \<Rightarrow> l) reported
                (map_of (ContractResults d) (bind_ID binding))))"

definition ctl_BindingStatuses ::
  "(Binding \<Rightarrow> string) \<Rightarrow> (string \<Rightarrow> (string, msg_BindingStatus) gomap option) \<Rightarrow> string \<Rightarrow> db \<Rightarrow> ctl_BindingStatus list" where
  "ctl_BindingStatuses assignment sessions agent d =
     (case Inventory agent d of
        (containers, reported) \<Rightarrow>
          let bindings = Bindings agent d; governed = governedBy containers bindings
          in map (\<lambda>b. bindingStatus assignment (sessions (bind_Agent b)) b
                (case map_of governed (bind_ID b) of None \<Rightarrow> [] | Some l \<Rightarrow> l) reported
                (map_of (ContractResults d) (bind_ID b))) bindings)"

text \<open>\<^verbatim>\<open>recordStatus\<close>: a session keeps the statuses of its own agent's bindings; \<open>lookup\<close> is what the store answers.\<close>

definition recordStatus ::
  "store_error + Binding \<Rightarrow> string \<Rightarrow> msg_BindingStatus \<Rightarrow> (string, msg_BindingStatus) gomap \<Rightarrow> (string, msg_BindingStatus) gomap" where
  "recordStatus lookup agent status statuses =
     (case lookup of
        Inl e \<Rightarrow> if e = ErrNotFound then statuses else AList.update (ms_Binding status) status statuses
      | Inr b \<Rightarrow> if bind_Agent b \<noteq> agent then statuses else AList.update (ms_Binding status) status statuses)"

section \<open>Lemmas on matching\<close>

lemma key_index_fold:
  "map_of (fold (\<lambda>b m. AList.update (bind_Key b) b m) bs m) k =
     (case find (\<lambda>b. bind_Key b = k) (rev bs) of Some b \<Rightarrow> Some b | None \<Rightarrow> map_of m k)"
  by (induction bs arbitrary: m rule: rev_induct) auto

lemma map_of_key_index: "map_of (key_index bs) k = find (\<lambda>b. bind_Key b = k) (rev bs)"
  by (simp add: key_index_def key_index_fold split: option.splits)

lemma key_index_mem: "map_of (key_index bs) k = Some b \<Longrightarrow> b \<in> set bs \<and> bind_Key b = k"
  by (auto simp: map_of_key_index find_Some_iff) (metis nth_mem set_rev length_rev)

lemma first_bound_Some:
  "first_bound m keys = Some b \<longleftrightarrow>
     (\<exists>pre k post. keys = pre @ k # post \<and> (\<forall>j\<in>set pre. map_of m j = None) \<and> map_of m k = Some b)"
proof
  show "first_bound m keys = Some b \<Longrightarrow>
      \<exists>pre k post. keys = pre @ k # post \<and> (\<forall>j\<in>set pre. map_of m j = None) \<and> map_of m k = Some b"
  proof (induction keys)
    case (Cons k keys)
    show ?case
    proof (cases "map_of m k")
      case None
      then obtain pre j post where "keys = pre @ j # post" "\<forall>i\<in>set pre. map_of m i = None" "map_of m j = Some b"
        using Cons by auto
      with None show ?thesis
        by (intro exI[of _ "k # pre"] exI[of _ j] exI[of _ post]) simp
    next
      case (Some c)
      then show ?thesis
        using Cons.prems by (intro exI[of _ "[]"]) auto
    qed
  qed simp
  have "\<forall>j\<in>set pre. map_of m j = None \<Longrightarrow> map_of m k = Some b \<Longrightarrow> first_bound m (pre @ k # post) = Some b" for pre k post
    by (induction pre) auto
  then show "\<exists>pre k post. keys = pre @ k # post \<and> (\<forall>j\<in>set pre. map_of m j = None) \<and> map_of m k = Some b \<Longrightarrow>
      first_bound m keys = Some b"
    by blast
qed

lemma ContainerBinding_mem: "ContainerBinding c bs = Some b \<Longrightarrow> b \<in> set bs \<and> bind_Key b \<in> set (container_Keys c)"
  unfolding ContainerBinding_def first_bound_Some using key_index_mem by fastforce

definition matched_ok :: "Binding list \<Rightarrow> Container list \<Rightarrow> string list \<times> Binding list \<Rightarrow> bool" where
  "matched_ok bs cs st \<longleftrightarrow>
     set (fst st) = bind_ID ` set (snd st) \<and> distinct (map bind_ID (snd st))
     \<and> set (snd st) = {b. \<exists>c\<in>set cs. ContainerBinding c bs = Some b}"

lemma match_container_step:
  "match_container (key_index bs) c (seen, ms) =
     (case ContainerBinding c bs of None \<Rightarrow> (seen, ms)
      | Some b \<Rightarrow> if bind_ID b \<in> set seen then (seen, ms) else (bind_ID b # seen, ms @ [b]))"
  by (simp add: match_container_def ContainerBinding_def)

lemma match_fold:
  assumes "distinct (map bind_ID bs)"
  shows "matched_ok bs cs (fold (match_container (key_index bs)) cs ([], []))"
proof (induction cs rule: rev_induct)
  case Nil
  then show ?case by (simp add: matched_ok_def)
next
  case (snoc c cs)
  obtain seen ms where st: "fold (match_container (key_index bs)) cs ([], []) = (seen, ms)"
    by (cases "fold (match_container (key_index bs)) cs ([], [])")
  have ok: "matched_ok bs cs (seen, ms)"
    using snoc.IH st by simp
  have same: "b = b'" if "b \<in> set bs" "b' \<in> set bs" "bind_ID b = bind_ID b'" for b b'
    using assms that by (auto simp: distinct_map dest: inj_onD)
  have "matched_ok bs (cs @ [c]) (match_container (key_index bs) c (seen, ms))"
  proof (cases "ContainerBinding c bs")
    case None
    then show ?thesis
      using ok by (simp add: match_container_step matched_ok_def)
  next
    case (Some b)
    have "b \<in> set ms" if "bind_ID b \<in> set seen"
      using that ok same[of b] ContainerBinding_mem[OF Some] by (auto simp: matched_ok_def dest: ContainerBinding_mem)
    then show ?thesis
      using ok Some by (auto simp: match_container_step matched_ok_def)
  qed
  then show ?case
    by (simp add: st)
qed

lemma MatchBindings_set:
  assumes "distinct (map bind_ID bs)"
  shows "set (MatchBindings cs bs) = {b. \<exists>c\<in>set cs. ContainerBinding c bs = Some b}"
    and "distinct (map bind_ID (MatchBindings cs bs))"
  using match_fold[OF assms, of cs] by (simp_all add: matched_ok_def MatchBindings_def)

lemma governed_list:
  "(case map_of (governedBy cs bs) i of None \<Rightarrow> [] | Some l \<Rightarrow> l) =
     map (\<lambda>c. \<lparr>bc_ID = container_ID c, bc_Name = container_Name c, bc_State = container_State c\<rparr>)
       (filter (\<lambda>c. \<exists>b. ContainerBinding c bs = Some b \<and> bind_ID b = i) cs)"
  unfolding governedBy_def by (induction cs rule: rev_induct) (auto split: option.splits)

section \<open>Lemmas on readiness\<close>

lemma note_reason_not_Nil [simp]: "note_reason r rs \<noteq> []"
  by (auto simp: note_reason_def)

lemma consumer_failures_Nil:
  "fold consumer_failure cs failed = [] \<longleftrightarrow> failed = [] \<and> (\<forall>c\<in>set cs. consumer_Failed c = [])"
  by (induction cs arbitrary: failed) (auto simp: consumer_failure_def)

definition socket_ready :: "ConsumerStatus list \<Rightarrow> BindingContainer \<Rightarrow> bool" where
  "socket_ready consumers k \<longleftrightarrow>
     (\<exists>c. find (\<lambda>c. consumer_ContainerID c = bc_ID k) consumers = Some c \<and>
        (consumer_Failed c = [] \<longrightarrow> set Sockets \<subseteq> set (consumer_Sockets c)))"

lemma allSockets_iff: "allSockets sockets \<longleftrightarrow> set Sockets \<subseteq> set sockets"
  by (auto simp: allSockets_def list_all_iff)

lemma container_waits_Nil:
  "fold (container_wait consumers) ks waiting = [] \<longleftrightarrow> waiting = [] \<and> (\<forall>k\<in>set ks. socket_ready consumers k)"
  by (induction ks arbitrary: waiting)
    (auto simp: container_wait_def socket_ready_def allSockets_iff split: option.splits)

lemma judge_ready:
  "judge ks r = ([], []) \<longleftrightarrow>
     ks \<noteq> [] \<and> (\<forall>c\<in>set (ms_Consumers r). consumer_Failed c = []) \<and> (\<forall>k\<in>set ks. socket_ready (ms_Consumers r) k)
     \<and> ms_Token r = TokenValid \<and> ms_Outcome r \<in> {OutcomeConforming, OutcomeRecreated}"
proof -
  have "OutcomeConforming \<notin> {OutcomeNonConforming, OutcomeRecreateFailed}" "OutcomeRecreated \<notin> {OutcomeNonConforming, OutcomeRecreateFailed}"
    by (simp_all add: OutcomeConforming_def OutcomeNonConforming_def OutcomeRecreated_def OutcomeRecreateFailed_def)
  then show ?thesis
    by (auto simp: judge_def Let_def consumer_failures_Nil container_waits_Nil)
qed

lemma set_sort_key_Nil [simp]: "sort_key f xs = [] \<longleftrightarrow> xs = []"
  by (metis set_empty set_sort)

lemma bindingStatus_ready:
  "st_Readiness (bindingStatus assignment session b ks reported stored) = ReadinessReady \<longleftrightarrow>
     (\<exists>statuses r. session = Some statuses \<and> map_of statuses (bind_ID b) = Some r \<and> ms_Assignment r = assignment b
        \<and> ks \<noteq> [] \<and> judge (sort_key bc_ID ks) r = ([], []))"
proof (cases session)
  case None
  then show ?thesis
    by (simp add: bindingStatus_def Let_def)
next
  case (Some statuses)
  show ?thesis
  proof (cases "map_of statuses (bind_ID b)")
    case None
    with Some show ?thesis
      by (simp add: bindingStatus_def Let_def split: option.split)
  next
    case r: (Some r)
    obtain w f where j: "judge (sort_key bc_ID ks) r = (w, f)" by fastforce
    have "ks = [] \<Longrightarrow> w \<noteq> []"
      using j by (auto simp: judge_def Let_def)
    with Some r j show ?thesis
      by (cases "ms_Assignment r = assignment b"; cases "ks = []"; cases stored)
        (simp_all add: bindingStatus_def Let_def)
  qed
qed

section \<open>Examples\<close>

definition example_binding :: "string \<Rightarrow> Key \<Rightarrow> Binding" where
  "example_binding bid key =
     (let settings = \<lparr>settings_TokenTTL = ''1h'', settings_TokenMaxTTL = [], settings_AccessGroup = None,
            settings_Enforcement = EnforcementReport, settings_Values = []\<rparr>
      in \<lparr>bind_ID = bid, bind_Agent = ''a-01'', bind_Key = key, bind_Policies = [''web''], bind_Settings = settings,
           bind_Revision = 1,
           bind_Effective = \<lparr>eff_Sources = [], eff_OpenBao = \<lparr>openbao_Policy = [], openbao_AgentTokenRenewal = None\<rparr>, eff_SSH = None,
             eff_Contract = \<lparr>contract_MountTarget = ''/run/wyrwood'', contract_Env = [], contract_AccessGroup = None,
               contract_Enforcement = EnforcementReport\<rparr>, eff_Settings = settings\<rparr>,
           bind_Applied = True, bind_Role = ''r-01'', bind_CreatedAt = 0, bind_CreatedBy = ''op''\<rparr>)"

definition example_container :: Container where
  "example_container =
     \<lparr>container_ID = replicate 64 (CHR ''a''), container_Name = ''web'', container_State = ''running'', container_Image = ''img'',
      container_ConsumerDirectory = [], container_Keys = [\<lparr>key_Kind = KeyCompose, key_Value = ''p/s''\<rparr>, \<lparr>key_Kind = KeyDevcontainer, key_Value = ''/w''\<rparr>],
      container_Mounts = [], container_EnvNames = []\<rparr>"

section \<open>Properties\<close>

text \<open>
  C33. The matched bindings are exactly those that govern a container: a container is governed by
  the binding on the earliest of its keys that is bound, each binding is matched once, and the carried
  bindings are the matched ones and then every other binding on a name, each once.
\<close>

theorem MatchBindings_exact:
  assumes "distinct (map bind_ID bs)" and "distinct (map bind_Key bs)"
  shows "set (MatchBindings cs bs) =
      {b \<in> set bs. \<exists>c\<in>set cs. \<exists>pre post. container_Keys c = pre @ bind_Key b # post \<and> set pre \<inter> bind_Key ` set bs = {}}
    \<and> distinct (map bind_ID (CarriedBindings cs bs))
    \<and> set (CarriedBindings cs bs) = set (MatchBindings cs bs) \<union> {b \<in> set bs. key_Kind (bind_Key b) = KeyName}"
proof -
  have idx: "map_of (key_index bs) k = Some b \<longleftrightarrow> b \<in> set bs \<and> bind_Key b = k" for k b
  proof
    assume b: "b \<in> set bs \<and> bind_Key b = k"
    then obtain c where c: "map_of (key_index bs) k = Some c"
      unfolding map_of_key_index by (cases "find (\<lambda>b. bind_Key b = k) (rev bs)") (auto simp: find_None_iff)
    then have "c = b"
      using key_index_mem[OF c] b assms(2) by (auto simp: distinct_map dest: inj_onD)
    with c show "map_of (key_index bs) k = Some b" by simp
  qed (rule key_index_mem)
  have none: "map_of (key_index bs) k = None \<longleftrightarrow> k \<notin> bind_Key ` set bs" for k
  proof (cases "map_of (key_index bs) k")
    case None
    then have "\<not> (b \<in> set bs \<and> bind_Key b = k)" for b
      using idx[of k b] by simp
    with None show ?thesis by blast
  next
    case (Some b)
    then show ?thesis using idx[of k b] by auto
  qed
  have match: "set (MatchBindings cs bs) =
      {b \<in> set bs. \<exists>c\<in>set cs. \<exists>pre post. container_Keys c = pre @ bind_Key b # post \<and> set pre \<inter> bind_Key ` set bs = {}}"
    unfolding MatchBindings_set(1)[OF assms(1)] ContainerBinding_def first_bound_Some idx none by blast
  have sub: "set (MatchBindings cs bs) \<subseteq> set bs"
    unfolding match by blast
  let ?rest = "filter (\<lambda>b. key_Kind (bind_Key b) = KeyName \<and> bind_ID b \<notin> set (map bind_ID (MatchBindings cs bs))) bs"
  have "b \<in> set (MatchBindings cs bs)" if "b \<in> set bs" "bind_ID b \<in> bind_ID ` set (MatchBindings cs bs)" for b
    using that sub assms(1) by (auto simp: distinct_map dest: inj_onD)
  then have "set (CarriedBindings cs bs) = set (MatchBindings cs bs) \<union> {b \<in> set bs. key_Kind (bind_Key b) = KeyName}"
    by (auto simp: CarriedBindings_def Let_def)
  moreover have "distinct (map bind_ID ?rest)"
    using assms(1) by (simp add: distinct_map_filter)
  then have "distinct (map bind_ID (CarriedBindings cs bs))"
    using MatchBindings_set(2)[OF assms(1), of cs] by (auto simp: CarriedBindings_def Let_def) (metis image_eqI)
  ultimately show ?thesis
    using match by blast
qed

theorem MatchBindings_exact_witness:
  "\<exists>b1 b2. CarriedBindings [example_container] [b1, b2] = [b2, b1] \<and> MatchBindings [example_container] [b1, b2] = [b2]
     \<and> distinct (map bind_ID (CarriedBindings [example_container] [b1, b2]))"
proof -
  let ?b1 = "example_binding ''b-01'' \<lparr>key_Kind = KeyName, key_Value = ''db''\<rparr>"
  let ?b2 = "example_binding ''b-02'' \<lparr>key_Kind = KeyDevcontainer, key_Value = ''/w''\<rparr>"
  have "distinct (map bind_ID (CarriedBindings [example_container] [?b1, ?b2]))"
    using MatchBindings_exact[of "[?b1, ?b2]" "[example_container]"] by (simp add: example_binding_def Let_def)
  moreover have "MatchBindings [example_container] [?b1, ?b2] = [?b2]"
    by (simp add: MatchBindings_def match_container_def key_index_def example_binding_def example_container_def Let_def
        KeyDevcontainer_def KeyCompose_def KeyName_def)
  ultimately show ?thesis
    by (intro exI[of _ ?b1] exI[of _ ?b2]) (simp add: CarriedBindings_def example_binding_def Let_def KeyDevcontainer_def KeyName_def)
qed

text \<open>
  C18. A binding reads as ready exactly when its agent has a live session whose latest status is for
  the binding's current assignment, at least one container is governed by it, no consumer reports a failure,
  every governed container has a consumer with both sockets, the token is valid and the last check conformed.
  Without a session the readiness is unknown, and a binding that is not ready names a reason.
\<close>

theorem readiness_exact:
  "st_Readiness (bindingStatus assignment session b ks reported stored) = ReadinessReady \<longleftrightarrow>
     (\<exists>statuses r. session = Some statuses \<and> map_of statuses (bind_ID b) = Some r \<and> ms_Assignment r = assignment b
        \<and> ks \<noteq> [] \<and> (\<forall>c\<in>set (ms_Consumers r). consumer_Failed c = [])
        \<and> (\<forall>k\<in>set ks. \<exists>c\<in>set (ms_Consumers r). consumer_ContainerID c = bc_ID k \<and> set Sockets \<subseteq> set (consumer_Sockets c)
            \<and> find (\<lambda>c. consumer_ContainerID c = bc_ID k) (ms_Consumers r) = Some c)
        \<and> ms_Token r = TokenValid \<and> ms_Outcome r \<in> {OutcomeConforming, OutcomeRecreated})"
proof -
  have found: "find P xs = Some c \<Longrightarrow> c \<in> set xs \<and> P c" for P and xs :: "ConsumerStatus list" and c
    by (auto simp: find_Some_iff)
  have "(\<forall>k\<in>set ks. socket_ready cs k) \<longleftrightarrow>
      (\<forall>k\<in>set ks. \<exists>c\<in>set cs. consumer_ContainerID c = bc_ID k \<and> set Sockets \<subseteq> set (consumer_Sockets c)
            \<and> find (\<lambda>c. consumer_ContainerID c = bc_ID k) cs = Some c)"
    if "\<forall>c\<in>set cs. consumer_Failed c = []" for cs
    using that found unfolding socket_ready_def by fast
  then show ?thesis
    unfolding bindingStatus_ready judge_ready by (simp add: set_sort cong: conj_cong)
qed

theorem readiness_exact_witness:
  "st_Readiness (bindingStatus (\<lambda>_. ''sha'')
     (Some [(''b-01'', \<lparr>ms_Binding = ''b-01'', ms_Assignment = ''sha'', ms_Token = TokenValid,
        ms_Consumers = [\<lparr>consumer_Directory = ''web'', consumer_ContainerID = ''c1'', consumer_AccessGroup = None,
          consumer_Sockets = Sockets, consumer_Failed = []\<rparr>],
        ms_Outcome = OutcomeConforming, ms_FailedItems = [], ms_Reason = [], ms_LastError = []\<rparr>)])
     (example_binding ''b-01'' \<lparr>key_Kind = KeyName, key_Value = ''db''\<rparr>)
     [\<lparr>bc_ID = ''c1'', bc_Name = ''db'', bc_State = ''created''\<rparr>] None None) = ReadinessReady"
  by (subst readiness_exact) (simp add: example_binding_def Let_def)

end
