(* ===== verification/Store_Invariants.thy ===== *)
theory Store_Invariants
  imports Store
begin

text \<open>
  What the database keeps true under every sequence of store operations: the step relation
  \<open>store_step\<close> with one rule per method that changes the database, the invariant \<open>db_ok\<close>, its
  preservation, and what follows for approvals, operator keys, policy identities and bindings.
\<close>

section \<open>Statements and keys\<close>

lemma row_by_None: "row_by key k rows = None \<longleftrightarrow> k \<notin> key ` set rows"
  by (auto simp: row_by_def find_None_iff)

lemma row_by_Some: "row_by key k rows = Some r \<Longrightarrow> r \<in> set rows \<and> key r = k"
  by (auto simp: row_by_def find_Some_iff)

lemma row_by_distinct:
  "distinct (map key rows) \<Longrightarrow> row_by key k rows = Some r \<longleftrightarrow> r \<in> set rows \<and> key r = k"
proof (induction rows)
  case Nil
  then show ?case by (simp add: row_by_def)
next
  case (Cons x xs)
  then show ?case by (auto simp: row_by_def intro: rev_image_eqI)
qed

lemma map_set_where: "(\<And>r. c r \<Longrightarrow> g (f r) = g r) \<Longrightarrow> map g (set_where c f rows) = map g rows"
  by (simp add: set_where_def)

lemma map_filter_set_where:
  "(\<And>r. c r \<Longrightarrow> P (f r) = P r \<and> (P r \<longrightarrow> g (f r) = g r)) \<Longrightarrow>
     map g (filter P (set_where c f rows)) = map g (filter P rows)"
  by (induction rows) (auto simp: set_where_def)

lemma set_set_where: "set (set_where c f rows) = (\<lambda>r. if c r then f r else r) ` set rows"
  by (auto simp: set_where_def)

lemma set_delete_where [simp]: "set (delete_where c rows) = {r \<in> set rows. \<not> c r}"
  by (auto simp: delete_where_def)

lemma distinct_map_delete_where: "distinct (map g rows) \<Longrightarrow> distinct (map g (delete_where c rows))"
  by (simp add: delete_where_def distinct_map_filter)

lemma constraint_as_Inr [simp]: "constraint_as e r = Inr x \<longleftrightarrow> r = Inr x"
  by (cases r) (auto simp: constraint_as_def)

section \<open>The invariant\<close>

definition approved_agents :: "db \<Rightarrow> Agent list" where
  "approved_agents d = filter (\<lambda>a. agent_State a = AgentApproved) (db_agents d)"

definition labelled_keys :: "db \<Rightarrow> OperatorKey list" where
  "labelled_keys d = filter holds_label (db_operator_keys d)"

definition keys_ok :: "db \<Rightarrow> bool" where
  "keys_ok d =
     (distinct (map agent_Fingerprint (db_agents d))
      \<and> distinct (map agent_Name (approved_agents d))
      \<and> distinct (map opk_Fingerprint (db_operator_keys d))
      \<and> distinct (map opk_Label (labelled_keys d))
      \<and> set (map agent_Fingerprint (db_agents d)) \<inter> set (map opk_Fingerprint (db_operator_keys d)) = {})"

definition policy_row_ok :: "db \<Rightarrow> policy_row \<Rightarrow> bool" where
  "policy_row_ok d r =
     (map_of (db_policy_generations d) (prow_name r) = Some (prow_generation r)
      \<and> policy_Name (prow_document r) = prow_name r
      \<and> policy_Revision (prow_document r) = prow_revision r)"

definition policies_ok :: "db \<Rightarrow> bool" where
  "policies_ok d =
     (distinct (map prow_name (db_policies d))
      \<and> (\<forall>r\<in>set (db_policies d). policy_row_ok d r)
      \<and> (\<forall>g\<in>ran (map_of (db_policy_generations d)). 1 \<le> g))"

definition binding_ids :: "db \<Rightarrow> string set" where
  "binding_ids d = brow_id ` set (db_bindings d)"

definition bindings_ok :: "db \<Rightarrow> bool" where
  "bindings_ok d =
     (distinct (map brow_id (db_bindings d))
      \<and> distinct (map (\<lambda>r. (brow_agent r, brow_key r)) (db_bindings d))
      \<and> distinct (db_binding_policies d)
      \<and> set (db_binding_policies d) \<subseteq> binding_ids d \<times> prow_name ` set (db_policies d)
      \<and> binding_ids d \<subseteq> fst ` set (db_binding_policies d)
      \<and> dom (map_of (db_binding_tokens d)) \<subseteq> binding_ids d
      \<and> dom (map_of (db_contract_results d)) \<subseteq> binding_ids d)"

definition sessions_ok :: "db \<Rightarrow> bool" where
  "sessions_ok d =
     (distinct (map operator_Subject (db_operators d))
      \<and> distinct (map session_IDHash (db_web_sessions d))
      \<and> session_Subject ` set (db_web_sessions d) \<subseteq> operator_Subject ` set (db_operators d))"

definition db_ok :: "db \<Rightarrow> bool" where
  "db_ok d = (keys_ok d \<and> policies_ok d \<and> bindings_ok d \<and> sessions_ok d)"

text \<open>
  Each part looks at some tables only, so an operation on other tables keeps it.
\<close>

lemma keys_ok_frame:
  "db_agents d' = db_agents d \<Longrightarrow> db_operator_keys d' = db_operator_keys d \<Longrightarrow> keys_ok d' = keys_ok d"
  by (simp add: keys_ok_def approved_agents_def labelled_keys_def)

lemma policies_ok_frame:
  "db_policies d' = db_policies d \<Longrightarrow> db_policy_generations d' = db_policy_generations d \<Longrightarrow>
     policies_ok d' = policies_ok d"
  by (simp add: policies_ok_def policy_row_ok_def)

lemma bindings_ok_frame:
  "map brow_id (db_bindings d') = map brow_id (db_bindings d) \<Longrightarrow>
   map (\<lambda>r. (brow_agent r, brow_key r)) (db_bindings d') = map (\<lambda>r. (brow_agent r, brow_key r)) (db_bindings d) \<Longrightarrow>
   db_binding_policies d' = db_binding_policies d \<Longrightarrow> prow_name ` set (db_policies d') = prow_name ` set (db_policies d) \<Longrightarrow>
   db_binding_tokens d' = db_binding_tokens d \<Longrightarrow> db_contract_results d' = db_contract_results d \<Longrightarrow>
     bindings_ok d' = bindings_ok d"
proof -
  assume a: "map brow_id (db_bindings d') = map brow_id (db_bindings d)"
    "map (\<lambda>r. (brow_agent r, brow_key r)) (db_bindings d') = map (\<lambda>r. (brow_agent r, brow_key r)) (db_bindings d)"
    "db_binding_policies d' = db_binding_policies d" "prow_name ` set (db_policies d') = prow_name ` set (db_policies d)"
    "db_binding_tokens d' = db_binding_tokens d" "db_contract_results d' = db_contract_results d"
  have "binding_ids d' = binding_ids d"
    using arg_cong[OF a(1), of set] by (simp add: binding_ids_def)
  then show ?thesis by (simp only: bindings_ok_def a)
qed

lemma sessions_ok_frame:
  "db_operators d' = db_operators d \<Longrightarrow> db_web_sessions d' = db_web_sessions d \<Longrightarrow> sessions_ok d' = sessions_ok d"
  by (simp add: sessions_ok_def)

section \<open>Agents and operator keys\<close>

lemma agents_update_keys_ok:
  assumes "keys_ok d" "map agent_Fingerprint as = map agent_Fingerprint (db_agents d)"
    "distinct (map agent_Name (filter (\<lambda>a. agent_State a = AgentApproved) as))"
  shows "keys_ok (d\<lparr>db_agents := as\<rparr>)"
proof -
  have "set (map agent_Fingerprint as) = set (map agent_Fingerprint (db_agents d))" using assms(2) by simp
  then show ?thesis using assms by (simp add: keys_ok_def approved_agents_def labelled_keys_def)
qed

lemma operator_keys_update_keys_ok:
  assumes "keys_ok d" "map opk_Fingerprint ks = map opk_Fingerprint (db_operator_keys d)"
    "distinct (map opk_Label (filter holds_label ks))"
  shows "keys_ok (d\<lparr>db_operator_keys := ks\<rparr>)"
proof -
  have "set (map opk_Fingerprint ks) = set (map opk_Fingerprint (db_operator_keys d))" using assms(2) by simp
  then show ?thesis using assms by (simp add: keys_ok_def approved_agents_def labelled_keys_def)
qed

lemma agents_set_where_keys_ok:
  assumes "keys_ok d" "\<And>a. c a \<Longrightarrow> agent_Fingerprint (f a) = agent_Fingerprint a"
    "\<And>a. c a \<Longrightarrow> (agent_State (f a) = AgentApproved) = (agent_State a = AgentApproved)
       \<and> (agent_State a = AgentApproved \<longrightarrow> agent_Name (f a) = agent_Name a)"
  shows "keys_ok (d\<lparr>db_agents := set_where c f (db_agents d)\<rparr>)"
proof (rule agents_update_keys_ok[OF assms(1)])
  show "map agent_Fingerprint (set_where c f (db_agents d)) = map agent_Fingerprint (db_agents d)"
    using assms(2) by (rule map_set_where)
  have "map agent_Name (filter (\<lambda>a. agent_State a = AgentApproved) (set_where c f (db_agents d)))
      = map agent_Name (filter (\<lambda>a. agent_State a = AgentApproved) (db_agents d))"
    using assms(3) by (rule map_filter_set_where)
  then show "distinct (map agent_Name (filter (\<lambda>a. agent_State a = AgentApproved) (set_where c f (db_agents d))))"
    using assms(1) by (simp add: keys_ok_def approved_agents_def)
qed

lemma operator_keys_set_where_keys_ok:
  assumes "keys_ok d" "\<And>k. c k \<Longrightarrow> opk_Fingerprint (f k) = opk_Fingerprint k"
    "\<And>k. c k \<Longrightarrow> holds_label (f k) = holds_label k \<and> (holds_label k \<longrightarrow> opk_Label (f k) = opk_Label k)"
  shows "keys_ok (d\<lparr>db_operator_keys := set_where c f (db_operator_keys d)\<rparr>)"
proof (rule operator_keys_update_keys_ok[OF assms(1)])
  show "map opk_Fingerprint (set_where c f (db_operator_keys d)) = map opk_Fingerprint (db_operator_keys d)"
    using assms(2) by (rule map_set_where)
  have "map opk_Label (filter holds_label (set_where c f (db_operator_keys d)))
      = map opk_Label (filter holds_label (db_operator_keys d))"
    using assms(3) by (rule map_filter_set_where)
  then show "distinct (map opk_Label (filter holds_label (set_where c f (db_operator_keys d))))"
    using assms(1) by (simp add: keys_ok_def labelled_keys_def)
qed

lemma record_key_insert_agents: "\<exists>as. record_key_insert fp name pk now d = d\<lparr>db_agents := as\<rparr>"
proof -
  have "d = d\<lparr>db_agents := db_agents d\<rparr>" by simp
  then show ?thesis unfolding record_key_insert_def by (metis (full_types))
qed

lemma record_key_insert_ok:
  assumes "keys_ok d"
  shows "keys_ok (record_key_insert fp name pk now d)"
proof -
  let ?c = "\<lambda>a. agent_Fingerprint a = fp \<and> agent_State a = AgentPending"
  have "keys_ok (d\<lparr>db_agents := set_where ?c (\<lambda>a. a\<lparr>agent_Name := name\<rparr>) (db_agents d)\<rparr>)"
    using assms by (intro agents_set_where_keys_ok) auto
  moreover have "keys_ok (d\<lparr>db_agents := db_agents d @ [new_agent fp name pk now]\<rparr>)"
    if "fp \<notin> agent_Fingerprint ` set (db_agents d)" "fp \<notin> opk_Fingerprint ` set (db_operator_keys d)"
    using assms that by (simp add: keys_ok_def approved_agents_def labelled_keys_def new_agent_def)
  ultimately show ?thesis
    using assms by (simp add: record_key_insert_def row_by_None)
qed

lemma RecordKey_Inr:
  assumes "RecordKey fp name pk now d = Inr (a, d')" "keys_ok d"
  shows "keys_ok d'" "\<exists>as. d' = d\<lparr>db_agents := as\<rparr>"
proof -
  have "d' = record_key_insert fp name pk now d" using assms(1) by (auto simp: RecordKey_def Let_def)
  then show "keys_ok d'" "\<exists>as. d' = d\<lparr>db_agents := as\<rparr>"
    using record_key_insert_ok[OF assms(2)] record_key_insert_agents by simp_all
qed

lemma DecideAgent_Inr:
  assumes "DecideAgent fp st op now d = Inr (a, d')" "keys_ok d"
  shows "keys_ok d'" "\<exists>as. d' = d\<lparr>db_agents := as\<rparr>"
proof -
  let ?as = "set_where (\<lambda>a. agent_Fingerprint a = fp \<and> agent_State a = AgentPending)
    (\<lambda>a. a\<lparr>agent_State := st, agent_DecidedAt := Some now, agent_DecidedBy := op\<rparr>) (db_agents d)"
  have d': "d' = d\<lparr>db_agents := ?as\<rparr>" and
    u: "distinct (map agent_Name (filter (\<lambda>a. agent_State a = AgentApproved) ?as))"
    using assms(1) by (auto simp: DecideAgent_def Let_def split: if_splits)
  show "keys_ok d'" unfolding d' using assms(2) u
    by (intro agents_update_keys_ok) (simp_all add: map_set_where)
  show "\<exists>as. d' = d\<lparr>db_agents := as\<rparr>" using d' by blast
qed

lemma RecordConnection_ok: "keys_ok d \<Longrightarrow> keys_ok (RecordConnection fp v r now d)"
  unfolding RecordConnection_def by (intro agents_set_where_keys_ok) auto

lemma SaveInventory_ok: "keys_ok d \<Longrightarrow> keys_ok (SaveInventory agent fp cs now d)"
proof -
  assume k: "keys_ok d"
  let ?as = "set_where (\<lambda>a. agent_Fingerprint a = fp) (\<lambda>a. a\<lparr>agent_LastReport := Some now\<rparr>) (db_agents d)"
  have "keys_ok (d\<lparr>db_agents := ?as\<rparr>)" using k
    by (intro agents_set_where_keys_ok) auto
  then show ?thesis
    by (subst keys_ok_frame[of _ "d\<lparr>db_agents := ?as\<rparr>"]) (simp_all add: SaveInventory_def)
qed

lemma record_operator_key_insert_keys:
  "\<exists>ks. record_operator_key_insert fp label pk now d = d\<lparr>db_operator_keys := ks\<rparr>"
proof -
  have "d = d\<lparr>db_operator_keys := db_operator_keys d\<rparr>" by simp
  then show ?thesis unfolding record_operator_key_insert_def by (metis (full_types))
qed

lemma record_operator_key_insert_ok:
  assumes "keys_ok d"
  shows "keys_ok (record_operator_key_insert fp label pk now d)"
proof -
  let ?c = "\<lambda>k. opk_Fingerprint k = fp \<and> opk_State k = OperatorKeyPending"
  have "keys_ok (d\<lparr>db_operator_keys := set_where ?c (\<lambda>k. k\<lparr>opk_Label := label\<rparr>) (db_operator_keys d)\<rparr>)"
    using assms by (intro operator_keys_set_where_keys_ok) (auto simp: holds_label_def)
  moreover have "keys_ok (d\<lparr>db_operator_keys := db_operator_keys d @ [new_operator_key fp label pk now]\<rparr>)"
    if "fp \<notin> agent_Fingerprint ` set (db_agents d)" "fp \<notin> opk_Fingerprint ` set (db_operator_keys d)"
    using assms that
    by (simp add: keys_ok_def approved_agents_def labelled_keys_def new_operator_key_def holds_label_def)
  ultimately show ?thesis
    using assms by (simp add: record_operator_key_insert_def row_by_None)
qed

lemma RecordOperatorKey_Inr:
  assumes "RecordOperatorKey fp label pk now d = Inr (k, d')" "keys_ok d"
  shows "keys_ok d'" "\<exists>ks. d' = d\<lparr>db_operator_keys := ks\<rparr>"
proof -
  have "d' = record_operator_key_insert fp label pk now d" using assms(1) by (auto simp: RecordOperatorKey_def Let_def)
  then show "keys_ok d'" "\<exists>ks. d' = d\<lparr>db_operator_keys := ks\<rparr>"
    using record_operator_key_insert_ok[OF assms(2)] record_operator_key_insert_keys by simp_all
qed

lemma decide_operator_key_ok:
  assumes "keys_ok d" "\<And>k. c k \<Longrightarrow> opk_Fingerprint (f k) = opk_Fingerprint k"
    "distinct (map opk_Label (filter holds_label (set_where c f (db_operator_keys d))))"
  shows "keys_ok (d\<lparr>db_operator_keys := set_where c f (db_operator_keys d)\<rparr>)"
  using assms by (intro operator_keys_update_keys_ok) (simp_all add: map_set_where)

lemma ApproveOperatorKey_Inr:
  assumes "ApproveOperatorKey fp label g who now d = Inr (k, d')" "keys_ok d"
  shows "keys_ok d'" "\<exists>ks. d' = d\<lparr>db_operator_keys := ks\<rparr>"
  using assms decide_operator_key_ok[OF assms(2)]
  by (auto simp: ApproveOperatorKey_def Let_def split: if_splits)

lemma RejectOperatorKey_Inr:
  assumes "RejectOperatorKey fp who now d = Inr (k, d')" "keys_ok d"
  shows "keys_ok d'" "\<exists>ks. d' = d\<lparr>db_operator_keys := ks\<rparr>"
proof -
  let ?ks = "set_where (\<lambda>k. opk_Fingerprint k = fp \<and> opk_State k = OperatorKeyPending)
    (\<lambda>k. k\<lparr>opk_State := OperatorKeyRejected, opk_DecidedAt := Some now, opk_DecidedBy := who\<rparr>) (db_operator_keys d)"
  have d': "d' = d\<lparr>db_operator_keys := ?ks\<rparr>"
    using assms(1) by (auto simp: RejectOperatorKey_def Let_def split: if_splits)
  show "keys_ok d'" unfolding d' using assms(2)
    by (intro operator_keys_set_where_keys_ok) (auto simp: holds_label_def)
  show "\<exists>ks. d' = d\<lparr>db_operator_keys := ks\<rparr>" using d' by blast
qed

lemma RevokeOperatorKey_Inr:
  assumes "RevokeOperatorKey fp who now d = Inr (k, d')" "keys_ok d"
  shows "keys_ok d'" "\<exists>ks. d' = d\<lparr>db_operator_keys := ks\<rparr>"
proof -
  let ?ks = "set_where (\<lambda>k. opk_Fingerprint k = fp \<and> opk_State k = OperatorKeyApproved)
    (\<lambda>k. k\<lparr>opk_State := OperatorKeyRevoked, opk_RevokedAt := Some now, opk_RevokedBy := who\<rparr>) (db_operator_keys d)"
  have d': "d' = d\<lparr>db_operator_keys := ?ks\<rparr>"
    using assms(1) by (auto simp: RevokeOperatorKey_def Let_def split: if_splits)
  show "keys_ok d'" unfolding d' using assms(2)
    by (intro operator_keys_set_where_keys_ok) (auto simp: holds_label_def)
  show "\<exists>ks. d' = d\<lparr>db_operator_keys := ks\<rparr>" using d' by blast
qed

lemma RecordOperatorKeyUse_ok: "keys_ok d \<Longrightarrow> keys_ok (RecordOperatorKeyUse fp now d)"
  unfolding RecordOperatorKeyUse_def by (intro operator_keys_set_where_keys_ok) (auto simp: holds_label_def)

section \<open>Policies\<close>

text \<open>Rewriting assignments changes no key of a binding and no other table.\<close>

definition same_assignments :: "db \<Rightarrow> db \<Rightarrow> bool" where
  "same_assignments d d' =
     (\<exists>rows. d' = d\<lparr>db_bindings := rows\<rparr> \<and> map brow_id rows = map brow_id (db_bindings d)
        \<and> map (\<lambda>r. (brow_agent r, brow_key r)) rows = map (\<lambda>r. (brow_agent r, brow_key r)) (db_bindings d))"

lemma same_assignments_refl: "same_assignments d d"
  by (auto simp: same_assignments_def intro!: exI[of _ "db_bindings d"])

lemma same_assignments_trans: "same_assignments d d1 \<Longrightarrow> same_assignments d1 d2 \<Longrightarrow> same_assignments d d2"
  by (auto simp: same_assignments_def)

lemma update_assignment_same: "update_assignment b d = Inr d' \<Longrightarrow> same_assignments d d'"
  by (auto simp: update_assignment_def same_assignments_def Let_def map_set_where split: if_splits)

lemma update_assignments_same: "fold_try update_assignment bs d = Inr d' \<Longrightarrow> same_assignments d d'"
  by (erule fold_try_invariant)
     (auto intro: same_assignments_refl same_assignments_trans dest: update_assignment_same)

lemma same_assignments_tables:
  assumes "same_assignments d d'"
  shows "db_agents d' = db_agents d" "db_operator_keys d' = db_operator_keys d"
    "db_policies d' = db_policies d" "db_policy_generations d' = db_policy_generations d"
    "db_binding_policies d' = db_binding_policies d" "db_policy_retirements d' = db_policy_retirements d"
    "db_operators d' = db_operators d" "db_web_sessions d' = db_web_sessions d"
    "db_binding_tokens d' = db_binding_tokens d" "db_contract_results d' = db_contract_results d"
    "map brow_id (db_bindings d') = map brow_id (db_bindings d)"
    "map (\<lambda>r. (brow_agent r, brow_key r)) (db_bindings d') = map (\<lambda>r. (brow_agent r, brow_key r)) (db_bindings d)"
  using assms by (auto simp: same_assignments_def)

lemma same_assignments_ok:
  assumes "same_assignments d d'"
  shows "keys_ok d' = keys_ok d" "policies_ok d' = policies_ok d" "bindings_ok d' = bindings_ok d"
    "sessions_ok d' = sessions_ok d"
  by (rule keys_ok_frame policies_ok_frame bindings_ok_frame sessions_ok_frame;
      simp add: same_assignments_tables[OF assms])+

lemma upsert_policy_names:
  "prow_name ` set (upsert_policy row rows) = insert (prow_name row) (prow_name ` set rows)"
proof (cases "row_by prow_name (prow_name row) rows")
  case None
  then show ?thesis by (simp add: upsert_policy_def)
next
  case (Some r)
  then have "prow_name row \<in> prow_name ` set rows" by (metis row_by_Some image_eqI)
  moreover have "map prow_name (upsert_policy row rows) = map prow_name rows"
    using Some by (simp add: upsert_policy_def map_set_where)
  ultimately show ?thesis by (metis insert_absorb set_map)
qed

lemma nextPolicyGeneration_pos: "policies_ok d \<Longrightarrow> 1 \<le> nextPolicyGeneration name d"
  by (auto simp: policies_ok_def nextPolicyGeneration_def ran_def split: option.splits)

lemma policies_ok_upsert_existing:
  assumes "policies_ok d" "row_by prow_name (prow_name row) (db_policies d) \<noteq> None"
    and "policy_Name (prow_document row) = prow_name row" "policy_Revision (prow_document row) = prow_revision row"
  shows "policies_ok (d\<lparr>db_policies := upsert_policy row (db_policies d)\<rparr>)"
proof -
  let ?rows = "upsert_policy row (db_policies d)"
  have "map prow_name ?rows = map prow_name (db_policies d)"
    using assms(2) by (simp add: upsert_policy_def map_set_where)
  moreover have "policy_row_ok d r" if "r \<in> set ?rows" for r
    using that assms by (auto simp: upsert_policy_def set_set_where policies_ok_def policy_row_ok_def)
  ultimately show ?thesis
    using assms(1) by (auto simp: policies_ok_def policy_row_ok_def)
qed

lemma policies_ok_insert:
  assumes "policies_ok d" "prow_name row \<notin> prow_name ` set (db_policies d)"
    and "policy_Name (prow_document row) = prow_name row" "policy_Revision (prow_document row) = prow_revision row"
    and "1 \<le> prow_generation row"
  shows "policies_ok (d\<lparr>db_policies := db_policies d @ [row],
      db_policy_generations := AList.update (prow_name row) (prow_generation row) (db_policy_generations d)\<rparr>)"
proof -
  have "\<forall>r\<in>set (db_policies d). prow_name r \<noteq> prow_name row"
    using assms(2) by (metis image_eqI)
  then show ?thesis
    using assms by (auto simp: policies_ok_def policy_row_ok_def ran_def)
qed

lemma policies_ok_delete:
  "policies_ok d \<Longrightarrow> policies_ok (d\<lparr>db_policies := delete_where c (db_policies d)\<rparr>)"
  by (auto simp: policies_ok_def policy_row_ok_def distinct_map_delete_where)

text \<open>Saving a policy: the database before the assignments are rewritten.\<close>

definition saved_policy :: "Policy \<Rightarrow> db \<Rightarrow> Policy" where
  "saved_policy document d =
     document\<lparr>policy_Revision := (case row_by prow_name (policy_Name document) (db_policies d) of None \<Rightarrow> 0 | Some r \<Rightarrow> prow_revision r) + 1,
              policy_Generation := (case row_by prow_name (policy_Name document) (db_policies d) of
                 None \<Rightarrow> nextPolicyGeneration (policy_Name document) d | Some r \<Rightarrow> prow_generation r)\<rparr>"

definition save_policy_row :: "Policy \<Rightarrow> string \<Rightarrow> time \<Rightarrow> db \<Rightarrow> db" where
  "save_policy_row document operator now d =
     (let row = policy_row_of (saved_policy document d) operator now
      in if row_by prow_name (policy_Name document) (db_policies d) = None
         then d\<lparr>db_policies := db_policies d @ [row],
                db_policy_generations := AList.update (policy_Name document) (prow_generation row) (db_policy_generations d)\<rparr>
         else d\<lparr>db_policies := upsert_policy row (db_policies d)\<rparr>)"

lemma SavePolicyBindings_Inr:
  assumes "SavePolicyBindings document bs operator now d = Inr (p, d')"
  shows "p = saved_policy document d" "fold_try update_assignment bs (save_policy_row document operator now d) = Inr d'"
  using assms
  by (auto simp: SavePolicyBindings_def save_policy_row_def saved_policy_def Let_def upsert_policy_def
      policy_row_of_def split: if_splits option.splits)

lemma save_policy_row_ok:
  assumes "policies_ok d"
  shows "policies_ok (save_policy_row document operator now d)"
proof (cases "row_by prow_name (policy_Name document) (db_policies d)")
  case None
  then have new: "policy_Name document \<notin> prow_name ` set (db_policies d)" by (simp add: row_by_None)
  have "policies_ok (d\<lparr>db_policies := db_policies d @ [policy_row_of (saved_policy document d) operator now],
      db_policy_generations := AList.update (prow_name (policy_row_of (saved_policy document d) operator now))
        (prow_generation (policy_row_of (saved_policy document d) operator now)) (db_policy_generations d)\<rparr>)"
    using assms nextPolicyGeneration_pos[OF assms]
    by (intro policies_ok_insert) (simp_all add: policy_row_of_def saved_policy_def None new)
  then show ?thesis
    using None by (simp add: save_policy_row_def policy_row_of_def saved_policy_def)
next
  case (Some r)
  then show ?thesis
    using assms
    by (auto simp: save_policy_row_def Let_def policy_row_of_def saved_policy_def intro!: policies_ok_upsert_existing)
qed

lemma save_policy_row_names:
  "prow_name ` set (db_policies (save_policy_row document operator now d)) =
     insert (policy_Name document) (prow_name ` set (db_policies d))"
  by (auto simp: save_policy_row_def Let_def upsert_policy_names)
     (simp_all add: policy_row_of_def saved_policy_def)

lemma save_policy_row_tables:
  "db_agents (save_policy_row document operator now d) = db_agents d"
  "db_operator_keys (save_policy_row document operator now d) = db_operator_keys d"
  "db_bindings (save_policy_row document operator now d) = db_bindings d"
  "db_binding_policies (save_policy_row document operator now d) = db_binding_policies d"
  "db_binding_tokens (save_policy_row document operator now d) = db_binding_tokens d"
  "db_contract_results (save_policy_row document operator now d) = db_contract_results d"
  "db_operators (save_policy_row document operator now d) = db_operators d"
  "db_web_sessions (save_policy_row document operator now d) = db_web_sessions d"
  by (simp_all add: save_policy_row_def Let_def)

lemma bindings_ok_more_policies:
  assumes "bindings_ok d" "prow_name ` set (db_policies d) \<subseteq> prow_name ` set (db_policies d')"
    "db_bindings d' = db_bindings d" "db_binding_policies d' = db_binding_policies d"
    "db_binding_tokens d' = db_binding_tokens d" "db_contract_results d' = db_contract_results d"
  shows "bindings_ok d'"
  using assms by (auto simp: bindings_ok_def binding_ids_def)

lemma SavePolicyBindings_ok:
  assumes "SavePolicyBindings document bs operator now d = Inr (p, d')" "db_ok d"
  shows "db_ok d'"
proof -
  let ?d = "save_policy_row document operator now d"
  have ok: "keys_ok d" "policies_ok d" "bindings_ok d" "sessions_ok d" using assms(2) by (simp_all add: db_ok_def)
  have "keys_ok ?d = keys_ok d" "sessions_ok ?d = sessions_ok d"
    by (rule keys_ok_frame sessions_ok_frame; simp add: save_policy_row_tables)+
  moreover have "bindings_ok ?d"
    using ok(3) by (rule bindings_ok_more_policies) (auto simp: save_policy_row_names save_policy_row_tables)
  ultimately have "db_ok ?d" using ok save_policy_row_ok by (simp add: db_ok_def)
  then show ?thesis
    using same_assignments_ok[OF update_assignments_same[OF SavePolicyBindings_Inr(2)[OF assms(1)]]]
    by (simp add: db_ok_def)
qed

lemma DeletePolicy_ok:
  assumes "DeletePolicy name d = Inr d'" "db_ok d"
  shows "db_ok d'"
proof -
  have d': "d' = d\<lparr>db_policies := delete_where (\<lambda>r. prow_name r = name) (db_policies d)\<rparr>"
    and free: "name \<notin> snd ` set (db_binding_policies d)"
    using assms(1) by (auto simp: DeletePolicy_def split: if_splits)
  have "set (db_binding_policies d) \<subseteq> binding_ids d \<times> prow_name ` {r \<in> set (db_policies d). prow_name r \<noteq> name}"
  proof
    fix x assume x: "x \<in> set (db_binding_policies d)"
    then have "fst x \<in> binding_ids d" "snd x \<in> prow_name ` set (db_policies d)"
      using assms(2) by (auto simp: db_ok_def bindings_ok_def)
    moreover have "snd x \<noteq> name" using free x by blast
    ultimately show "x \<in> binding_ids d \<times> prow_name ` {r \<in> set (db_policies d). prow_name r \<noteq> name}"
      by (cases x) auto
  qed
  then have "bindings_ok d'" using assms(2)
    by (simp add: d' db_ok_def bindings_ok_def binding_ids_def)
  moreover have "keys_ok d' = keys_ok d" "sessions_ok d' = sessions_ok d"
    unfolding d' by (rule keys_ok_frame sessions_ok_frame; simp)+
  ultimately show ?thesis
    using assms(2) policies_ok_delete by (simp add: db_ok_def d')
qed

section \<open>Bindings\<close>

lemma insert_memberships_Inr:
  "insert_memberships bid names d = Inr d' \<Longrightarrow>
     d' = d\<lparr>db_binding_policies := db_binding_policies d @ map (Pair bid) names\<rparr>
     \<and> distinct names \<and> Pair bid ` set names \<inter> set (db_binding_policies d) = {}
     \<and> set names \<subseteq> prow_name ` set (db_policies d) \<and> (names \<noteq> [] \<longrightarrow> bid \<in> binding_ids d)"
proof (induction names arbitrary: d)
  case (Cons name names)
  let ?d = "d\<lparr>db_binding_policies := db_binding_policies d @ [(bid, name)]\<rparr>"
  have ok: "bid \<in> binding_ids d" "name \<in> prow_name ` set (db_policies d)" "(bid, name) \<notin> set (db_binding_policies d)"
    and rest: "insert_memberships bid names ?d = Inr d'"
    using Cons.prems by (auto simp: row_by_None binding_ids_def split: if_splits)
  from Cons.IH[OF rest] ok show ?case by auto
qed simp

lemma writeMembership_Inr:
  assumes "writeMembership b d = Inr d'"
  shows "d' = d\<lparr>db_binding_policies := delete_where (\<lambda>r. fst r = bind_ID b) (db_binding_policies d)
        @ map (Pair (bind_ID b)) (bind_Policies b)\<rparr>"
    "bind_Policies b \<noteq> []" "distinct (bind_Policies b)"
    "set (bind_Policies b) \<subseteq> prow_name ` set (db_policies d)" "bind_ID b \<in> binding_ids d"
  using assms insert_memberships_Inr[of "bind_ID b" "bind_Policies b"
      "d\<lparr>db_binding_policies := delete_where (\<lambda>r. fst r = bind_ID b) (db_binding_policies d)\<rparr>" d']
  by (auto simp: writeMembership_def Let_def binding_ids_def split: if_splits)

text \<open>The parts of the binding invariant that hold while a binding is being written.\<close>

definition bindings_pre :: "string \<Rightarrow> db \<Rightarrow> bool" where
  "bindings_pre bid d =
     (distinct (map brow_id (db_bindings d))
      \<and> distinct (map (\<lambda>r. (brow_agent r, brow_key r)) (db_bindings d))
      \<and> distinct (db_binding_policies d)
      \<and> set (db_binding_policies d) \<subseteq> binding_ids d \<times> prow_name ` set (db_policies d)
      \<and> binding_ids d - {bid} \<subseteq> fst ` set (db_binding_policies d)
      \<and> dom (map_of (db_binding_tokens d)) \<subseteq> binding_ids d
      \<and> dom (map_of (db_contract_results d)) \<subseteq> binding_ids d)"

lemma bindings_ok_pre: "bindings_ok d \<Longrightarrow> bindings_pre bid d"
  by (auto simp: bindings_ok_def bindings_pre_def)

lemma writeMembership_ok:
  assumes "writeMembership b d = Inr d'" "bindings_pre (bind_ID b) d"
  shows "bindings_ok d'"
proof -
  note w = writeMembership_Inr[OF assms(1)]
  let ?bp = "delete_where (\<lambda>r. fst r = bind_ID b) (db_binding_policies d) @ map (Pair (bind_ID b)) (bind_Policies b)"
  have ids: "binding_ids d' = binding_ids d" by (simp add: w(1) binding_ids_def)
  have "distinct ?bp"
    using assms(2) w(3) by (auto simp: bindings_pre_def delete_where_def distinct_map inj_on_def)
  moreover have "set ?bp \<subseteq> binding_ids d \<times> prow_name ` set (db_policies d)"
    using assms(2) w(4,5) by (auto simp: bindings_pre_def)
  moreover have "binding_ids d \<subseteq> fst ` set ?bp"
  proof
    fix i assume i: "i \<in> binding_ids d"
    show "i \<in> fst ` set ?bp"
    proof (cases "i = bind_ID b")
      case True
      then show ?thesis using w(2) by (cases "bind_Policies b") auto
    next
      case False
      then obtain p where "(i, p) \<in> set (db_binding_policies d)"
        using i assms(2) by (auto simp: bindings_pre_def)
      then have "(i, p) \<in> set ?bp" using False by simp
      then show ?thesis by (metis fst_conv image_eqI)
    qed
  qed
  ultimately show ?thesis
    using assms(2) unfolding bindings_ok_def ids by (simp add: bindings_pre_def w(1))
qed

lemma writeMembership_other:
  assumes "writeMembership b d = Inr d'"
  shows "keys_ok d' = keys_ok d" "policies_ok d' = policies_ok d" "sessions_ok d' = sessions_ok d"
  unfolding writeMembership_Inr(1)[OF assms]
  by (rule keys_ok_frame policies_ok_frame sessions_ok_frame; simp)+

lemma ChangeBinding_ok:
  assumes "ChangeBinding b d = Inr d'" "db_ok d"
  shows "db_ok d'"
proof -
  obtain d1 where d1: "update_assignment b d = Inr d1" "writeMembership b d1 = Inr d'"
    using assms(1) by (auto simp: ChangeBinding_def)
  have "db_ok d1" using same_assignments_ok[OF update_assignment_same[OF d1(1)]] assms(2) by (simp add: db_ok_def)
  then show ?thesis
    using writeMembership_ok[OF d1(2) bindings_ok_pre] writeMembership_other[OF d1(2)] by (simp add: db_ok_def)
qed

lemma CreateBinding_Inr:
  assumes "CreateBinding binding d = Inr d'"
  obtains b where "b = (if bind_Revision binding = 0 then binding\<lparr>bind_Revision := 1\<rparr> else binding)"
    "bind_ID b \<notin> binding_ids d"
    "\<forall>r\<in>set (db_bindings d). brow_agent r = bind_Agent b \<longrightarrow> brow_key r \<noteq> bind_Key b"
    "writeMembership b (d\<lparr>db_bindings := db_bindings d @ [binding_row_of b]\<rparr>) = Inr d'"
  using assms
  by (auto simp: CreateBinding_def Let_def row_by_None binding_ids_def list_ex_iff split: if_splits)

lemma CreateBinding_ok:
  assumes "CreateBinding binding d = Inr d'" "db_ok d"
  shows "db_ok d'"
proof -
  obtain b where b: "bind_ID b \<notin> binding_ids d"
    "\<forall>r\<in>set (db_bindings d). brow_agent r = bind_Agent b \<longrightarrow> brow_key r \<noteq> bind_Key b"
    and w: "writeMembership b (d\<lparr>db_bindings := db_bindings d @ [binding_row_of b]\<rparr>) = Inr d'"
    using CreateBinding_Inr[OF assms(1)] by metis
  let ?d = "d\<lparr>db_bindings := db_bindings d @ [binding_row_of b]\<rparr>"
  have "bindings_pre (bind_ID b) ?d"
    using assms(2) b by (auto simp: db_ok_def bindings_ok_def bindings_pre_def binding_ids_def binding_row_of_def)
  moreover have "keys_ok ?d = keys_ok d" "policies_ok ?d = policies_ok d" "sessions_ok ?d = sessions_ok d"
    by (rule keys_ok_frame policies_ok_frame sessions_ok_frame; simp)+
  ultimately show ?thesis
    using writeMembership_ok[OF w] writeMembership_other[OF w] assms(2) by (simp add: db_ok_def)
qed

lemma MarkBindingApplied_ok: "db_ok d \<Longrightarrow> db_ok (MarkBindingApplied bid d)"
proof -
  assume ok: "db_ok d"
  have "same_assignments d (MarkBindingApplied bid d)"
    by (auto simp: same_assignments_def MarkBindingApplied_def map_set_where)
  from same_assignments_ok[OF this] ok show ?thesis by (simp add: db_ok_def)
qed

lemma RetireBinding_Inr:
  assumes "RetireBinding bid now d = Inr (accessor, d')"
  obtains r where "row_by brow_id bid (db_bindings d) = Some r"
    "accessor = (case map_of (db_binding_tokens d) bid of None \<Rightarrow> [] | Some (a, _) \<Rightarrow> a)"
    "d' = delete_binding bid (d\<lparr>db_retired_bindings := AList.update bid (brow_agent r, now) (db_retired_bindings d)\<rparr>)"
  using assms by (auto simp: RetireBinding_def Let_def split: option.splits)

lemma delete_binding_ok:
  assumes "bindings_ok d"
  shows "bindings_ok (delete_binding bid d)"
proof -
  let ?d = "delete_binding bid d"
  have ids: "binding_ids ?d = binding_ids d - {bid}" by (auto simp: binding_ids_def delete_binding_def)
  have "binding_ids d - {bid} \<subseteq> fst ` {r \<in> set (db_binding_policies d). fst r \<noteq> bid}"
  proof
    fix i assume i: "i \<in> binding_ids d - {bid}"
    then have "i \<in> fst ` set (db_binding_policies d)" using assms unfolding bindings_ok_def by blast
    then show "i \<in> fst ` {r \<in> set (db_binding_policies d). fst r \<noteq> bid}" using i by auto
  qed
  moreover have "{r \<in> set (db_binding_policies d). fst r \<noteq> bid} \<subseteq> (binding_ids d - {bid}) \<times> prow_name ` set (db_policies d)"
    using assms unfolding bindings_ok_def by auto
  moreover have "dom ((map_of (db_binding_tokens d))(bid := None)) \<subseteq> binding_ids d - {bid}"
    "dom ((map_of (db_contract_results d))(bid := None)) \<subseteq> binding_ids d - {bid}"
    using assms unfolding bindings_ok_def by auto
  moreover have "distinct (map brow_id (db_bindings ?d))" "distinct (map (\<lambda>r. (brow_agent r, brow_key r)) (db_bindings ?d))"
    "distinct (db_binding_policies ?d)"
    using assms by (simp_all add: bindings_ok_def delete_binding_def delete_where_def distinct_map_filter)
  ultimately show ?thesis
    unfolding bindings_ok_def ids by (simp add: delete_binding_def)
qed

lemma RetireBinding_ok:
  assumes "RetireBinding bid now d = Inr (accessor, d')" "db_ok d"
  shows "db_ok d'"
proof -
  obtain r :: binding_row where d': "d' = delete_binding bid (d\<lparr>db_retired_bindings := AList.update bid (brow_agent r, now) (db_retired_bindings d)\<rparr>)"
    using RetireBinding_Inr[OF assms(1)] by metis
  let ?d = "d\<lparr>db_retired_bindings := AList.update bid (brow_agent r, now) (db_retired_bindings d)\<rparr>"
  have "bindings_ok ?d = bindings_ok d" by (rule bindings_ok_frame) simp_all
  then have "bindings_ok d'" using assms(2) delete_binding_ok[of ?d bid] by (simp add: d' db_ok_def)
  moreover have "keys_ok d' = keys_ok d" "policies_ok d' = policies_ok d" "sessions_ok d' = sessions_ok d"
    unfolding d' delete_binding_def by (rule keys_ok_frame policies_ok_frame sessions_ok_frame; simp)+
  ultimately show ?thesis using assms(2) by (simp add: db_ok_def)
qed

lemma tokens_update_ok:
  assumes "db_ok d" "bid \<in> binding_ids d"
  shows "db_ok (d\<lparr>db_binding_tokens := AList.update bid x (db_binding_tokens d)\<rparr>)"
    "db_ok (d\<lparr>db_contract_results := AList.update bid y (db_contract_results d)\<rparr>)"
proof -
  have "keys_ok (d\<lparr>db_binding_tokens := AList.update bid x (db_binding_tokens d)\<rparr>) = keys_ok d"
    "policies_ok (d\<lparr>db_binding_tokens := AList.update bid x (db_binding_tokens d)\<rparr>) = policies_ok d"
    "sessions_ok (d\<lparr>db_binding_tokens := AList.update bid x (db_binding_tokens d)\<rparr>) = sessions_ok d"
    "keys_ok (d\<lparr>db_contract_results := AList.update bid y (db_contract_results d)\<rparr>) = keys_ok d"
    "policies_ok (d\<lparr>db_contract_results := AList.update bid y (db_contract_results d)\<rparr>) = policies_ok d"
    "sessions_ok (d\<lparr>db_contract_results := AList.update bid y (db_contract_results d)\<rparr>) = sessions_ok d"
    by (rule keys_ok_frame policies_ok_frame sessions_ok_frame; simp)+
  then show "db_ok (d\<lparr>db_binding_tokens := AList.update bid x (db_binding_tokens d)\<rparr>)"
    "db_ok (d\<lparr>db_contract_results := AList.update bid y (db_contract_results d)\<rparr>)"
    using assms by (simp_all add: db_ok_def bindings_ok_def binding_ids_def)
qed

lemma SaveTokenAccessor_ok: "SaveTokenAccessor bid acc now d = Inr d' \<Longrightarrow> db_ok d \<Longrightarrow> db_ok d'"
  by (auto simp: SaveTokenAccessor_def row_by_None binding_ids_def split: if_splits intro!: tokens_update_ok)

lemma SaveContractResult_ok: "SaveContractResult res now d = Inr d' \<Longrightarrow> db_ok d \<Longrightarrow> db_ok d'"
  by (auto simp: SaveContractResult_def row_by_None binding_ids_def split: if_splits intro!: tokens_update_ok)

lemma SaveAssignmentAccessor_Inr:
  assumes "SaveAssignmentAccessor b acc now d = Inr d'"
  shows "d' = d\<lparr>db_binding_tokens := AList.update (bind_ID b) (acc, now) (db_binding_tokens d)\<rparr>"
    "\<exists>r\<in>set (db_bindings d). brow_id r = bind_ID b \<and> brow_revision r = bind_Revision b \<and> brow_applied r"
proof -
  let ?rows = "filter (\<lambda>r. brow_id r = bind_ID b \<and> brow_revision r = bind_Revision b \<and> brow_applied r) (db_bindings d)"
  have "length ?rows = 1" using assms by (auto simp: SaveAssignmentAccessor_def split: if_splits)
  then have "hd ?rows \<in> set ?rows" by (intro hd_in_set) auto
  then show "\<exists>r\<in>set (db_bindings d). brow_id r = bind_ID b \<and> brow_revision r = bind_Revision b \<and> brow_applied r"
    by auto
  show "d' = d\<lparr>db_binding_tokens := AList.update (bind_ID b) (acc, now) (db_binding_tokens d)\<rparr>"
    using assms by (auto simp: SaveAssignmentAccessor_def split: if_splits)
qed

lemma SaveAssignmentAccessor_ok: "SaveAssignmentAccessor b acc now d = Inr d' \<Longrightarrow> db_ok d \<Longrightarrow> db_ok d'"
proof -
  assume a: "SaveAssignmentAccessor b acc now d = Inr d'" "db_ok d"
  have "bind_ID b \<in> binding_ids d"
    using SaveAssignmentAccessor_Inr(2)[OF a(1)] unfolding binding_ids_def by (metis image_eqI)
  then show "db_ok d'" unfolding SaveAssignmentAccessor_Inr(1)[OF a(1)] using a(2) by (intro tokens_update_ok(1))
qed

section \<open>Renaming a policy\<close>

definition rename_insert :: "string \<Rightarrow> Policy \<Rightarrow> string \<Rightarrow> time \<Rightarrow> db \<Rightarrow> db" where
  "rename_insert oldName document operator now d =
     d\<lparr>db_policies := db_policies d @ [policy_row_of document operator now],
       db_policy_generations :=
         AList.update (policy_Name document) (policy_Generation document) (db_policy_generations d),
       db_binding_policies := rename_membership oldName (policy_Name document) (db_binding_policies d)\<rparr>"

lemma RenamePolicy_Inr:
  assumes "RenamePolicy hcl oldName document bs operator now d = Inr (p, d')"
  obtains r d3 where "row_by prow_name oldName (db_policies d) = Some r"
    "Policy_Validate hcl (prow_document r) = None" "p = document"
    "policy_Revision document = policy_Revision (prow_document r) + 1"
    "policy_Generation document = nextPolicyGeneration (policy_Name document) d"
    "policy_Name document \<notin> prow_name ` set (db_policies d)"
    "distinct (rename_membership oldName (policy_Name document) (db_binding_policies d))"
    "fold_try update_assignment bs (rename_insert oldName document operator now d) = Inr d3"
    "oldName \<notin> snd ` set (db_binding_policies d3)"
    "length (filter (\<lambda>m. snd m = oldName) (db_binding_policies d)) = length bs"
    "d' = recordPolicyRetirement (OpenBaoPolicyName ((prow_document r)\<lparr>policy_Generation := prow_generation r\<rparr>)) now
       (ForgetPolicyRetirement (OpenBaoPolicyName document)
         (d3\<lparr>db_policies := delete_where (\<lambda>r. prow_name r = oldName) (db_policies d3)\<rparr>))"
proof -
  obtain previous where s: "store_Policy hcl oldName d = Inr previous"
    using assms unfolding RenamePolicy_def by (cases "store_Policy hcl oldName d") auto
  then obtain r where r: "row_by prow_name oldName (db_policies d) = Some r"
    "Policy_Validate hcl (prow_document r) = None"
    "stored_Policy previous = (prow_document r)\<lparr>policy_Generation := prow_generation r\<rparr>"
    by (auto simp: store_Policy_def scanPolicy_def split: option.splits)
  obtain d3 where d3: "policy_Revision document = policy_Revision (prow_document r) + 1"
    "policy_Generation document = nextPolicyGeneration (policy_Name document) d"
    "row_by prow_name (policy_Name document) (db_policies d) = None"
    "distinct (rename_membership oldName (policy_Name document) (db_binding_policies d))"
    "length (filter (\<lambda>m. snd m = oldName) (db_binding_policies d)) = length bs"
    "fold_try update_assignment bs (rename_insert oldName document operator now d) = Inr d3"
    "oldName \<notin> snd ` set (db_binding_policies d3)" "p = document"
    "d' = recordPolicyRetirement (OpenBaoPolicyName (stored_Policy previous)) now
       (ForgetPolicyRetirement (OpenBaoPolicyName document)
         (d3\<lparr>db_policies := delete_where (\<lambda>r. prow_name r = oldName) (db_policies d3)\<rparr>))"
    using assms unfolding RenamePolicy_def s rename_insert_def
    by (simp add: Let_def r(3) split: if_splits) blast
  from d3(3) have new: "policy_Name document \<notin> prow_name ` set (db_policies d)" by (simp add: row_by_None)
  show ?thesis by (rule that[OF r(1,2) d3(8,1,2) new d3(4,6,7,5)]) (simp add: d3(9) r(3))
qed

lemma retirement_tables [simp]:
  "db_agents (recordPolicyRetirement i now d) = db_agents d" "db_agents (ForgetPolicyRetirement i d) = db_agents d"
  "db_operator_keys (recordPolicyRetirement i now d) = db_operator_keys d" "db_operator_keys (ForgetPolicyRetirement i d) = db_operator_keys d"
  "db_policies (recordPolicyRetirement i now d) = db_policies d" "db_policies (ForgetPolicyRetirement i d) = db_policies d"
  "db_policy_generations (recordPolicyRetirement i now d) = db_policy_generations d"
  "db_policy_generations (ForgetPolicyRetirement i d) = db_policy_generations d"
  "db_bindings (recordPolicyRetirement i now d) = db_bindings d" "db_bindings (ForgetPolicyRetirement i d) = db_bindings d"
  "db_binding_policies (recordPolicyRetirement i now d) = db_binding_policies d"
  "db_binding_policies (ForgetPolicyRetirement i d) = db_binding_policies d"
  "db_binding_tokens (recordPolicyRetirement i now d) = db_binding_tokens d" "db_binding_tokens (ForgetPolicyRetirement i d) = db_binding_tokens d"
  "db_contract_results (recordPolicyRetirement i now d) = db_contract_results d"
  "db_contract_results (ForgetPolicyRetirement i d) = db_contract_results d"
  "db_operators (recordPolicyRetirement i now d) = db_operators d" "db_operators (ForgetPolicyRetirement i d) = db_operators d"
  "db_web_sessions (recordPolicyRetirement i now d) = db_web_sessions d" "db_web_sessions (ForgetPolicyRetirement i d) = db_web_sessions d"
  by (simp_all add: recordPolicyRetirement_def ForgetPolicyRetirement_def)

lemma retirements_ok:
  assumes "db_ok d"
  shows "db_ok (recordPolicyRetirement i now d)" "db_ok (ForgetPolicyRetirement i d)"
proof -
  have "keys_ok (recordPolicyRetirement i now d) = keys_ok d" "policies_ok (recordPolicyRetirement i now d) = policies_ok d"
    "bindings_ok (recordPolicyRetirement i now d) = bindings_ok d" "sessions_ok (recordPolicyRetirement i now d) = sessions_ok d"
    "keys_ok (ForgetPolicyRetirement i d) = keys_ok d" "policies_ok (ForgetPolicyRetirement i d) = policies_ok d"
    "bindings_ok (ForgetPolicyRetirement i d) = bindings_ok d" "sessions_ok (ForgetPolicyRetirement i d) = sessions_ok d"
    by (rule keys_ok_frame policies_ok_frame bindings_ok_frame sessions_ok_frame; simp)+
  then show "db_ok (recordPolicyRetirement i now d)" "db_ok (ForgetPolicyRetirement i d)"
    using assms by (simp_all add: db_ok_def)
qed

lemma rename_insert_ok:
  assumes "db_ok d" "policy_Name document \<notin> prow_name ` set (db_policies d)"
    "policy_Generation document = nextPolicyGeneration (policy_Name document) d"
    "distinct (rename_membership oldName (policy_Name document) (db_binding_policies d))"
  shows "db_ok (rename_insert oldName document operator now d)"
proof -
  let ?d = "rename_insert oldName document operator now d"
  let ?row = "policy_row_of document operator now"
  have ok: "keys_ok d" "policies_ok d" "bindings_ok d" "sessions_ok d" using assms(1) by (simp_all add: db_ok_def)
  have "policies_ok (d\<lparr>db_policies := db_policies d @ [?row],
      db_policy_generations := AList.update (prow_name ?row) (prow_generation ?row) (db_policy_generations d)\<rparr>)"
    using ok(2) assms(2,3) nextPolicyGeneration_pos[OF ok(2)]
    by (intro policies_ok_insert) (simp_all add: policy_row_of_def)
  then have "policies_ok ?d"
    by (simp add: policies_ok_def policy_row_ok_def rename_insert_def policy_row_of_def)
  moreover have "fst ` set (db_binding_policies ?d) = fst ` set (db_binding_policies d)"
  proof -
    have "map fst (db_binding_policies ?d) = map fst (db_binding_policies d)"
      by (simp add: rename_insert_def rename_membership_def map_set_where)
    then show ?thesis by (metis set_map)
  qed
  moreover have "set (db_binding_policies ?d) \<subseteq> binding_ids ?d \<times> prow_name ` set (db_policies ?d)"
    using ok(3) by (auto simp: bindings_ok_def binding_ids_def rename_insert_def rename_membership_def set_set_where policy_row_of_def)
  ultimately have "policies_ok ?d" "bindings_ok ?d"
    using ok(3) assms(4) by (simp_all add: bindings_ok_def binding_ids_def) (simp add: rename_insert_def)+
  moreover have "keys_ok ?d = keys_ok d" "sessions_ok ?d = sessions_ok d"
    unfolding rename_insert_def by (rule keys_ok_frame sessions_ok_frame; simp)+
  ultimately show ?thesis using ok by (simp add: db_ok_def)
qed

lemma delete_unused_policy_ok:
  assumes "db_ok d" "name \<notin> snd ` set (db_binding_policies d)"
  shows "db_ok (d\<lparr>db_policies := delete_where (\<lambda>r. prow_name r = name) (db_policies d)\<rparr>)"
proof (cases "row_by prow_name name (db_policies d)")
  case None
  then have "delete_where (\<lambda>r. prow_name r = name) (db_policies d) = db_policies d"
    by (auto simp: row_by_None delete_where_def intro!: filter_True)
  then show ?thesis using assms(1) by simp
next
  case (Some r)
  then have "DeletePolicy name d = Inr (d\<lparr>db_policies := delete_where (\<lambda>r. prow_name r = name) (db_policies d)\<rparr>)"
    using assms(2) by (simp add: DeletePolicy_def)
  then show ?thesis using assms(1) by (rule DeletePolicy_ok)
qed

lemma RenamePolicy_ok:
  assumes "RenamePolicy hcl oldName document bs operator now d = Inr (p, d')" "db_ok d"
  shows "db_ok d'"
  using assms(1)
proof (rule RenamePolicy_Inr)
  fix r d3
  assume r: "policy_Generation document = nextPolicyGeneration (policy_Name document) d"
    "policy_Name document \<notin> prow_name ` set (db_policies d)"
    "distinct (rename_membership oldName (policy_Name document) (db_binding_policies d))"
    "fold_try update_assignment bs (rename_insert oldName document operator now d) = Inr d3"
    "oldName \<notin> snd ` set (db_binding_policies d3)"
    "d' = recordPolicyRetirement (OpenBaoPolicyName ((prow_document r)\<lparr>policy_Generation := prow_generation r\<rparr>)) now
       (ForgetPolicyRetirement (OpenBaoPolicyName document)
         (d3\<lparr>db_policies := delete_where (\<lambda>r. prow_name r = oldName) (db_policies d3)\<rparr>))"
  have "db_ok d3"
    using same_assignments_ok[OF update_assignments_same[OF r(4)]] rename_insert_ok[OF assms(2) r(2,1,3)]
    by (simp add: db_ok_def)
  then show "db_ok d'" unfolding r(6) by (intro retirements_ok delete_unused_policy_ok r(5))
qed

section \<open>Sessions\<close>

lemma sessions_change_ok:
  assumes "db_ok d" "sessions_ok (d\<lparr>db_operators := os, db_web_sessions := ss\<rparr>)"
  shows "db_ok (d\<lparr>db_operators := os, db_web_sessions := ss\<rparr>)"
proof -
  let ?d = "d\<lparr>db_operators := os, db_web_sessions := ss\<rparr>"
  have "keys_ok ?d = keys_ok d" "policies_ok ?d = policies_ok d" "bindings_ok ?d = bindings_ok d"
    by (rule keys_ok_frame policies_ok_frame bindings_ok_frame; simp)+
  then show ?thesis using assms by (simp add: db_ok_def)
qed

lemma RecordOperator_ok: "db_ok d \<Longrightarrow> db_ok (RecordOperator operator d)"
proof -
  assume ok: "db_ok d"
  let ?os = "if row_by operator_Subject (operator_Subject operator) (db_operators d) \<noteq> None
    then set_where (\<lambda>r. operator_Subject r = operator_Subject operator) (\<lambda>_. operator) (db_operators d)
    else db_operators d @ [operator]"
  have "distinct (map operator_Subject ?os)" "operator_Subject ` set (db_operators d) \<subseteq> operator_Subject ` set ?os"
  proof -
    let ?rows = "set_where (\<lambda>r. operator_Subject r = operator_Subject operator) (\<lambda>_. operator) (db_operators d)"
    have m: "map operator_Subject ?rows = map operator_Subject (db_operators d)"
      by (rule map_set_where) simp
    then have "operator_Subject ` set ?rows = operator_Subject ` set (db_operators d)" by (metis set_map)
    with m show "distinct (map operator_Subject ?os)" "operator_Subject ` set (db_operators d) \<subseteq> operator_Subject ` set ?os"
      using ok by (auto simp: db_ok_def sessions_ok_def row_by_None)
  qed
  moreover have "session_Subject ` set (db_web_sessions d) \<subseteq> operator_Subject ` set (db_operators d)"
    "distinct (map session_IDHash (db_web_sessions d))"
    using ok by (simp_all add: db_ok_def sessions_ok_def)
  ultimately have "sessions_ok (d\<lparr>db_operators := os, db_web_sessions := db_web_sessions d\<rparr>)" if "os = ?os" for os
    unfolding sessions_ok_def that[symmetric] by (simp add: order_trans)
  then have "db_ok (d\<lparr>db_operators := ?os, db_web_sessions := db_web_sessions d\<rparr>)"
    using ok by (intro sessions_change_ok) blast+
  moreover have "RecordOperator operator d = d\<lparr>db_operators := ?os, db_web_sessions := db_web_sessions d\<rparr>"
    by (simp add: RecordOperator_def)
  ultimately show ?thesis by simp
qed

lemma CreateSession_ok: "CreateSession s d = Inr d' \<Longrightarrow> db_ok d \<Longrightarrow> db_ok d'"
proof -
  assume a: "CreateSession s d = Inr d'" "db_ok d"
  have d': "d' = d\<lparr>db_operators := db_operators d, db_web_sessions := db_web_sessions d @ [s]\<rparr>"
    and s: "session_IDHash s \<notin> session_IDHash ` set (db_web_sessions d)"
      "session_Subject s \<in> operator_Subject ` set (db_operators d)"
    using a(1) by (auto simp: CreateSession_def row_by_None split: if_splits)
  show ?thesis unfolding d' using a(2) s
    by (intro sessions_change_ok) (auto simp: db_ok_def sessions_ok_def)
qed

lemma delete_sessions_ok:
  assumes "db_ok d"
  shows "db_ok (d\<lparr>db_web_sessions := delete_where c (db_web_sessions d)\<rparr>)"
proof -
  have "db_ok (d\<lparr>db_operators := db_operators d, db_web_sessions := delete_where c (db_web_sessions d)\<rparr>)"
    using assms by (intro sessions_change_ok) (auto simp: db_ok_def sessions_ok_def distinct_map_delete_where)
  then show ?thesis by simp
qed

end
