(* ===== verification/Store_Steps.thy ===== *)
theory Store_Steps
  imports Store_Invariants
begin

text \<open>
  Histories of the store. \<open>store_step\<close> has one rule for each method that changes the database, with
  any arguments, so its reflexive transitive closure is every sequence of calls in any order;
  transactions are atomic, so concurrent callers give some such sequence.

  The two lists of keys, agents' and operators', follow one contract, stated as the locales
  \<open>key_registry\<close> and \<open>final_registry\<close> and interpreted for both.
\<close>

section \<open>Steps\<close>

inductive store_step :: "hcl_lib \<Rightarrow> db \<Rightarrow> db \<Rightarrow> bool" for hcl where
  RecordKey: "RecordKey fp name pk now d = Inr (a, d') \<Longrightarrow> store_step hcl d d'"
| DecideAgent: "DecideAgent fp st who now d = Inr (a, d') \<Longrightarrow> store_step hcl d d'"
| RecordConnection: "store_step hcl d (RecordConnection fp v r now d)"
| RecordOperatorKey: "RecordOperatorKey fp label pk now d = Inr (k, d') \<Longrightarrow> store_step hcl d d'"
| ApproveOperatorKey: "ApproveOperatorKey fp label g who now d = Inr (k, d') \<Longrightarrow> store_step hcl d d'"
| RejectOperatorKey: "RejectOperatorKey fp who now d = Inr (k, d') \<Longrightarrow> store_step hcl d d'"
| RevokeOperatorKey: "RevokeOperatorKey fp who now d = Inr (k, d') \<Longrightarrow> store_step hcl d d'"
| RecordOperatorKeyUse: "store_step hcl d (RecordOperatorKeyUse fp now d)"
| SavePolicyBindings: "SavePolicyBindings p bs who now d = Inr (p', d') \<Longrightarrow> store_step hcl d d'"
| DeletePolicy: "DeletePolicy name d = Inr d' \<Longrightarrow> store_step hcl d d'"
| RenamePolicy: "RenamePolicy hcl old p bs who now d = Inr (p', d') \<Longrightarrow> store_step hcl d d'"
| RecordPolicyRetirement: "store_step hcl d (recordPolicyRetirement i now d)"
| ForgetPolicyRetirement: "store_step hcl d (ForgetPolicyRetirement i d)"
| CreateBinding: "CreateBinding b d = Inr d' \<Longrightarrow> store_step hcl d d'"
| ChangeBinding: "ChangeBinding b d = Inr d' \<Longrightarrow> store_step hcl d d'"
| MarkBindingApplied: "store_step hcl d (MarkBindingApplied bid d)"
| RetireBinding: "RetireBinding bid now d = Inr (acc, d') \<Longrightarrow> store_step hcl d d'"
| SaveInventory: "store_step hcl d (SaveInventory agent fp cs now d)"
| SaveTokenAccessor: "SaveTokenAccessor bid acc now d = Inr d' \<Longrightarrow> store_step hcl d d'"
| SaveContractResult: "SaveContractResult res now d = Inr d' \<Longrightarrow> store_step hcl d d'"
| SaveAssignmentAccessor: "SaveAssignmentAccessor b acc now d = Inr d' \<Longrightarrow> store_step hcl d d'"
| RecordOperator: "store_step hcl d (RecordOperator operator d)"
| CreateSession: "CreateSession s d = Inr d' \<Longrightarrow> store_step hcl d d'"
| DeleteSession: "store_step hcl d (DeleteSession h d)"
| DeleteOtherSessions: "store_step hcl d (snd (DeleteOtherSessions subject keep d))"
| PruneSessions: "store_step hcl d (PruneSessions now d)"

abbreviation store_steps :: "hcl_lib \<Rightarrow> db \<Rightarrow> db \<Rightarrow> bool" where
  "store_steps hcl \<equiv> (store_step hcl)\<^sup>*\<^sup>*"

lemma agents_change_ok:
  "keys_ok d' \<Longrightarrow> \<exists>as. d' = d\<lparr>db_agents := as\<rparr> \<Longrightarrow> db_ok d \<Longrightarrow> db_ok d'"
proof -
  assume a: "keys_ok d'" "\<exists>as. d' = d\<lparr>db_agents := as\<rparr>" "db_ok d"
  from a(2) obtain as where d': "d' = d\<lparr>db_agents := as\<rparr>" by blast
  have "policies_ok d' = policies_ok d" "bindings_ok d' = bindings_ok d" "sessions_ok d' = sessions_ok d"
    unfolding d' by (rule policies_ok_frame bindings_ok_frame sessions_ok_frame; simp)+
  then show ?thesis using a by (simp add: db_ok_def)
qed

lemma operator_keys_change_ok:
  "keys_ok d' \<Longrightarrow> \<exists>ks. d' = d\<lparr>db_operator_keys := ks\<rparr> \<Longrightarrow> db_ok d \<Longrightarrow> db_ok d'"
proof -
  assume a: "keys_ok d'" "\<exists>ks. d' = d\<lparr>db_operator_keys := ks\<rparr>" "db_ok d"
  from a(2) obtain ks where d': "d' = d\<lparr>db_operator_keys := ks\<rparr>" by blast
  have "policies_ok d' = policies_ok d" "bindings_ok d' = bindings_ok d" "sessions_ok d' = sessions_ok d"
    unfolding d' by (rule policies_ok_frame bindings_ok_frame sessions_ok_frame; simp)+
  then show ?thesis using a by (simp add: db_ok_def)
qed

lemma SaveInventory_db_ok: "db_ok d \<Longrightarrow> db_ok (SaveInventory agent fp cs now d)"
proof -
  assume ok: "db_ok d"
  let ?d = "SaveInventory agent fp cs now d"
  have "policies_ok ?d = policies_ok d" "bindings_ok ?d = bindings_ok d" "sessions_ok ?d = sessions_ok d"
    unfolding SaveInventory_def by (rule policies_ok_frame bindings_ok_frame sessions_ok_frame; simp)+
  then show ?thesis using ok SaveInventory_ok by (simp add: db_ok_def)
qed

lemma store_step_ok:
  assumes "store_step hcl d d'" "db_ok d"
  shows "db_ok d'"
proof -
  have k: "keys_ok d" using assms(2) by (simp add: db_ok_def)
  show ?thesis
    using assms(1)
  proof cases
    case RecordKey
    then show ?thesis using agents_change_ok assms(2) RecordKey_Inr[OF _ k] by metis
  next
    case DecideAgent
    then show ?thesis using agents_change_ok assms(2) DecideAgent_Inr[OF _ k] by metis
  next
    case RecordConnection
    then show ?thesis using agents_change_ok[OF _ _ assms(2)] RecordConnection_ok[OF k]
      unfolding RecordConnection_def by blast
  next
    case RecordOperatorKey
    then show ?thesis using operator_keys_change_ok assms(2) RecordOperatorKey_Inr[OF _ k] by metis
  next
    case ApproveOperatorKey
    then show ?thesis using operator_keys_change_ok assms(2) ApproveOperatorKey_Inr[OF _ k] by metis
  next
    case RejectOperatorKey
    then show ?thesis using operator_keys_change_ok assms(2) RejectOperatorKey_Inr[OF _ k] by metis
  next
    case RevokeOperatorKey
    then show ?thesis using operator_keys_change_ok assms(2) RevokeOperatorKey_Inr[OF _ k] by metis
  next
    case RecordOperatorKeyUse
    then show ?thesis using operator_keys_change_ok[OF _ _ assms(2)] RecordOperatorKeyUse_ok[OF k]
      unfolding RecordOperatorKeyUse_def by blast
  qed (use assms(2) in \<open>auto simp: DeleteSession_def DeleteOtherSessions_def PruneSessions_def Let_def
      intro: SavePolicyBindings_ok DeletePolicy_ok RenamePolicy_ok retirements_ok CreateBinding_ok ChangeBinding_ok
        MarkBindingApplied_ok RetireBinding_ok SaveInventory_db_ok SaveTokenAccessor_ok SaveContractResult_ok
        SaveAssignmentAccessor_ok RecordOperator_ok CreateSession_ok delete_sessions_ok\<close>)
qed

lemma empty_db_ok: "db_ok empty_db"
  by (simp add: db_ok_def keys_ok_def policies_ok_def bindings_ok_def sessions_ok_def empty_db_def
      approved_agents_def labelled_keys_def binding_ids_def)

lemma store_steps_ok: "store_steps hcl d d' \<Longrightarrow> db_ok d \<Longrightarrow> db_ok d'"
  by (induction rule: rtranclp_induct) (auto intro: store_step_ok)

section \<open>The contract of a list of keys\<close>

text \<open>
  A client that admits connections by key relies on this much: a key that is not known can only
  become pending, and a key that was decided is never undecided again.
\<close>

locale key_registry =
  fixes step :: "'db \<Rightarrow> 'db \<Rightarrow> bool"
    and state_of :: "'db \<Rightarrow> string \<Rightarrow> 's option"
    and pending :: 's
  assumes unknown_step: "step d d' \<Longrightarrow> state_of d k = None \<Longrightarrow> state_of d' k \<in> {None, Some pending}"
    and decided_step: "step d d' \<Longrightarrow> state_of d k = Some s \<Longrightarrow> s \<noteq> pending \<Longrightarrow>
      \<exists>s'. state_of d' k = Some s' \<and> s' \<noteq> pending"
begin

lemma decided_forever:
  "step\<^sup>*\<^sup>* d d' \<Longrightarrow> state_of d k = Some s \<Longrightarrow> s \<noteq> pending \<Longrightarrow> \<exists>s'. state_of d' k = Some s' \<and> s' \<noteq> pending"
proof (induction rule: rtranclp_induct)
  case base
  then show ?case by blast
next
  case (step d1 d2)
  then obtain s1 where "state_of d1 k = Some s1" "s1 \<noteq> pending" by blast
  with decided_step[OF step.hyps(2)] show ?case by blast
qed

lemma decided_through_pending:
  assumes "step\<^sup>*\<^sup>* d d'" "state_of d k = None" "state_of d' k = Some s" "s \<noteq> pending"
  shows "\<exists>d1. step\<^sup>*\<^sup>* d d1 \<and> step\<^sup>*\<^sup>* d1 d' \<and> state_of d1 k = Some pending"
  using assms
proof (induction arbitrary: s rule: rtranclp_induct)
  case base
  then show ?case by simp
next
  case (step d1 d2)
  show ?case
  proof (cases "state_of d1 k")
    case None
    then show ?thesis using unknown_step[OF step.hyps(2) None] step.prems by auto
  next
    case (Some s1)
    show ?thesis
    proof (cases "s1 = pending")
      case True
      then show ?thesis using Some step.hyps by (metis r_into_rtranclp)
    next
      case False
      then obtain d0 where d0: "step\<^sup>*\<^sup>* d d0" "step\<^sup>*\<^sup>* d0 d1" "state_of d0 k = Some pending"
        using step.IH[OF step.prems(1) Some] by blast
      then have "step\<^sup>*\<^sup>* d0 d2" using step.hyps(2) by (meson rtranclp.rtrancl_into_rtrancl)
      with d0 show ?thesis by blast
    qed
  qed
qed

end

text \<open>Some decisions are final as well: such a state never changes.\<close>

locale final_registry = key_registry +
  fixes is_final :: "'b \<Rightarrow> bool"
  assumes final_step: "step d d' \<Longrightarrow> state_of d k = Some s \<Longrightarrow> is_final s \<Longrightarrow> state_of d' k = Some s"
begin

lemma final_forever: "step\<^sup>*\<^sup>* d d' \<Longrightarrow> state_of d k = Some s \<Longrightarrow> is_final s \<Longrightarrow> state_of d' k = Some s"
  by (induction rule: rtranclp_induct) (auto intro: final_step)

end

section \<open>The two lists\<close>

definition agent_state :: "db \<Rightarrow> string \<Rightarrow> AgentState option" where
  "agent_state d fp = map_option agent_State (row_by agent_Fingerprint fp (db_agents d))"

definition operator_key_state :: "db \<Rightarrow> string \<Rightarrow> OperatorKeyState option" where
  "operator_key_state d fp = map_option opk_State (row_by opk_Fingerprint fp (db_operator_keys d))"

lemma row_by_set_where:
  "(\<And>r. c r \<Longrightarrow> key (f r) = key r) \<Longrightarrow>
     row_by key k (set_where c f rows) = map_option (\<lambda>r. if c r then f r else r) (row_by key k rows)"
  by (induction rows) (auto simp: row_by_def set_where_def)

lemma row_by_append:
  "row_by key k (rows @ [r]) =
     (case row_by key k rows of Some x \<Rightarrow> Some x | None \<Rightarrow> if key r = k then Some r else None)"
  by (induction rows) (auto simp: row_by_def)

lemma agents_set_where_state:
  assumes "\<And>a. c a \<Longrightarrow> agent_Fingerprint (f a) = agent_Fingerprint a"
    "\<And>a. c a \<Longrightarrow> agent_State (f a) = agent_State a"
  shows "agent_state (d\<lparr>db_agents := set_where c f (db_agents d)\<rparr>) fp = agent_state d fp"
  using assms by (cases "row_by agent_Fingerprint fp (db_agents d)") (auto simp: agent_state_def row_by_set_where)

lemma operator_keys_set_where_state:
  assumes "\<And>k. c k \<Longrightarrow> opk_Fingerprint (f k) = opk_Fingerprint k"
    "\<And>k. c k \<Longrightarrow> opk_State (f k) = opk_State k"
  shows "operator_key_state (d\<lparr>db_operator_keys := set_where c f (db_operator_keys d)\<rparr>) fp = operator_key_state d fp"
  using assms by (cases "row_by opk_Fingerprint fp (db_operator_keys d)") (auto simp: operator_key_state_def row_by_set_where)

lemma record_key_insert_state:
  "agent_state (record_key_insert fp name pk now d) k = agent_state d k
   \<or> agent_state d k = None \<and> agent_state (record_key_insert fp name pk now d) k = Some AgentPending"
proof (cases "row_by opk_Fingerprint fp (db_operator_keys d) \<noteq> None \<or> row_by agent_Fingerprint fp (db_agents d) \<noteq> None")
  case True
  then show ?thesis
    using agents_set_where_state[of "\<lambda>a. agent_Fingerprint a = fp \<and> agent_State a = AgentPending" "\<lambda>a. a\<lparr>agent_Name := name\<rparr>" d k]
    by (auto simp: record_key_insert_def)
next
  case False
  then show ?thesis
    by (cases "row_by agent_Fingerprint k (db_agents d)")
       (auto simp: record_key_insert_def agent_state_def row_by_append new_agent_def)
qed

lemma record_operator_key_insert_state:
  "operator_key_state (record_operator_key_insert fp label pk now d) k = operator_key_state d k
   \<or> operator_key_state d k = None \<and> operator_key_state (record_operator_key_insert fp label pk now d) k = Some OperatorKeyPending"
proof (cases "row_by agent_Fingerprint fp (db_agents d) \<noteq> None \<or> row_by opk_Fingerprint fp (db_operator_keys d) \<noteq> None")
  case True
  then show ?thesis
    using operator_keys_set_where_state[of "\<lambda>k. opk_Fingerprint k = fp \<and> opk_State k = OperatorKeyPending" "\<lambda>k. k\<lparr>opk_Label := label\<rparr>" d k]
    by (auto simp: record_operator_key_insert_def)
next
  case False
  then show ?thesis
    by (cases "row_by opk_Fingerprint k (db_operator_keys d)")
       (auto simp: record_operator_key_insert_def operator_key_state_def row_by_append new_operator_key_def)
qed

text \<open>How one step may change the state of a key.\<close>

definition agent_move :: "AgentState option \<Rightarrow> AgentState option \<Rightarrow> bool" where
  "agent_move s s' =
     (s' = s \<or> s = None \<and> s' = Some AgentPending
      \<or> s = Some AgentPending \<and> s' \<in> {Some AgentApproved, Some AgentRejected})"

definition operator_key_move :: "OperatorKeyState option \<Rightarrow> OperatorKeyState option \<Rightarrow> bool" where
  "operator_key_move s s' =
     (s' = s \<or> s = None \<and> s' = Some OperatorKeyPending
      \<or> s = Some OperatorKeyPending \<and> s' \<in> {Some OperatorKeyApproved, Some OperatorKeyRejected}
      \<or> s = Some OperatorKeyApproved \<and> s' = Some OperatorKeyRevoked)"

lemma DecideAgent_move:
  assumes "DecideAgent fp st who now d = Inr (a, d')"
  shows "agent_move (agent_state d k) (agent_state d' k)"
proof -
  have st: "st = AgentApproved \<or> st = AgentRejected" and
    d': "d' = d\<lparr>db_agents := set_where (\<lambda>a. agent_Fingerprint a = fp \<and> agent_State a = AgentPending)
      (\<lambda>a. a\<lparr>agent_State := st, agent_DecidedAt := Some now, agent_DecidedBy := who\<rparr>) (db_agents d)\<rparr>"
    using assms by (auto simp: DecideAgent_def Let_def split: if_splits)
  show ?thesis unfolding d' using st
    by (cases "row_by agent_Fingerprint k (db_agents d)") (auto simp: agent_state_def row_by_set_where agent_move_def)
qed

lemma operator_key_decision_move:
  assumes "\<And>k. c k \<Longrightarrow> opk_Fingerprint (f k) = opk_Fingerprint k"
    "\<And>k. c k \<Longrightarrow> operator_key_move (Some (opk_State k)) (Some (opk_State (f k)))"
  shows "operator_key_move (operator_key_state d k) (operator_key_state (d\<lparr>db_operator_keys := set_where c f (db_operator_keys d)\<rparr>) k)"
  using assms
  by (cases "row_by opk_Fingerprint k (db_operator_keys d)")
     (auto simp: operator_key_state_def row_by_set_where operator_key_move_def)

lemma ApproveOperatorKey_move:
  "ApproveOperatorKey fp label g who now d = Inr (a, d') \<Longrightarrow> operator_key_move (operator_key_state d k) (operator_key_state d' k)"
  by (auto simp: ApproveOperatorKey_def Let_def split: if_splits intro!: operator_key_decision_move)
     (simp add: operator_key_move_def)

lemma RejectOperatorKey_move:
  "RejectOperatorKey fp who now d = Inr (a, d') \<Longrightarrow> operator_key_move (operator_key_state d k) (operator_key_state d' k)"
  by (auto simp: RejectOperatorKey_def Let_def split: if_splits intro!: operator_key_decision_move)
     (simp add: operator_key_move_def)

lemma RevokeOperatorKey_move:
  "RevokeOperatorKey fp who now d = Inr (a, d') \<Longrightarrow> operator_key_move (operator_key_state d k) (operator_key_state d' k)"
  by (auto simp: RevokeOperatorKey_def Let_def split: if_splits intro!: operator_key_decision_move)
     (simp add: operator_key_move_def)

text \<open>Everything but the operations on keys leaves both lists as they are.\<close>

definition same_keys :: "db \<Rightarrow> db \<Rightarrow> bool" where
  "same_keys d d' = (db_agents d' = db_agents d \<and> db_operator_keys d' = db_operator_keys d)"

lemma same_keys_policies:
  "SavePolicyBindings p bs who now d = Inr (p', d') \<Longrightarrow> same_keys d d'"
  "DeletePolicy name d = Inr d' \<Longrightarrow> same_keys d d'"
  using same_assignments_tables[OF update_assignments_same[OF SavePolicyBindings_Inr(2)]]
  by (auto simp: same_keys_def save_policy_row_tables DeletePolicy_def split: if_splits)

lemma RenamePolicy_tables:
  assumes "RenamePolicy hcl oldName p bs who now d = Inr (p', d')"
  shows "db_agents d' = db_agents d" "db_operator_keys d' = db_operator_keys d"
    "db_policies d' = delete_where (\<lambda>r. prow_name r = oldName) (db_policies d @ [policy_row_of p who now])"
    "db_policy_generations d' = AList.update (policy_Name p) (policy_Generation p) (db_policy_generations d)"
    "db_binding_policies d' = rename_membership oldName (policy_Name p) (db_binding_policies d)"
proof -
  obtain d3 where d3: "fold_try update_assignment bs (rename_insert oldName p who now d) = Inr d3"
    and d': "\<exists>i j. d' = recordPolicyRetirement i now (ForgetPolicyRetirement j
      (d3\<lparr>db_policies := delete_where (\<lambda>r. prow_name r = oldName) (db_policies d3)\<rparr>))"
    by (rule RenamePolicy_Inr[OF assms]) blast
  note same = same_assignments_tables[OF update_assignments_same[OF d3]]
  show "db_agents d' = db_agents d" "db_operator_keys d' = db_operator_keys d"
    "db_policies d' = delete_where (\<lambda>r. prow_name r = oldName) (db_policies d @ [policy_row_of p who now])"
    "db_policy_generations d' = AList.update (policy_Name p) (policy_Generation p) (db_policy_generations d)"
    "db_binding_policies d' = rename_membership oldName (policy_Name p) (db_binding_policies d)"
    using d' same by (auto simp: rename_insert_def)
qed

lemma update_assignment_keys: "update_assignment b d = Inr d' \<Longrightarrow> same_keys d d'"
  using same_assignments_tables[OF update_assignment_same] by (simp add: same_keys_def)

lemma writeMembership_keys: "writeMembership b d = Inr d' \<Longrightarrow> same_keys d d'"
  by (drule writeMembership_Inr(1)) (simp add: same_keys_def)

lemma same_keys_bindings:
  "CreateBinding b d = Inr d' \<Longrightarrow> same_keys d d'"
  "ChangeBinding b d = Inr d' \<Longrightarrow> same_keys d d'"
  "RetireBinding bid now d = Inr (acc, d') \<Longrightarrow> same_keys d d'"
proof -
  show "same_keys d d'" if c: "CreateBinding b d = Inr d'"
    by (rule CreateBinding_Inr[OF c], drule writeMembership_keys) (simp add: same_keys_def)
  show "same_keys d d'" if "ChangeBinding b d = Inr d'"
    using that update_assignment_keys writeMembership_keys by (fastforce simp: ChangeBinding_def same_keys_def)
  show "same_keys d d'" if r: "RetireBinding bid now d = Inr (acc, d')"
    by (rule RetireBinding_Inr[OF r]) (simp add: same_keys_def delete_binding_def)
qed

lemma same_keys_reports:
  "SaveTokenAccessor bid acc now d = Inr d' \<Longrightarrow> same_keys d d'"
  "SaveContractResult res now d = Inr d' \<Longrightarrow> same_keys d d'"
  "SaveAssignmentAccessor b acc now d = Inr d' \<Longrightarrow> same_keys d d'"
  "CreateSession s d = Inr d' \<Longrightarrow> same_keys d d'"
  by (auto simp: same_keys_def SaveTokenAccessor_def SaveContractResult_def SaveAssignmentAccessor_def CreateSession_def
      split: if_splits)

lemma same_keys_state:
  "same_keys d d' \<Longrightarrow> agent_state d' k = agent_state d k \<and> operator_key_state d' k = operator_key_state d k"
  by (simp add: same_keys_def agent_state_def operator_key_state_def)

lemmas same_keys_steps = same_keys_policies same_keys_bindings same_keys_reports

lemma same_keys_plain:
  "same_keys d (recordPolicyRetirement i now d)" "same_keys d (ForgetPolicyRetirement i d)"
  "same_keys d (MarkBindingApplied bid d)" "same_keys d (RecordOperator operator d)"
  "same_keys d (DeleteSession h d)" "same_keys d (snd (DeleteOtherSessions subject keep d))"
  "same_keys d (PruneSessions now d)"
  by (simp_all add: same_keys_def MarkBindingApplied_def RecordOperator_def DeleteSession_def DeleteOtherSessions_def
      PruneSessions_def Let_def)

lemma move_refl [simp]: "agent_move s s" "operator_key_move t t"
  by (simp_all add: agent_move_def operator_key_move_def)

lemma same_keys_move:
  assumes "same_keys d d'"
  shows "agent_move (agent_state d k) (agent_state d' k) \<and> operator_key_move (operator_key_state d k) (operator_key_state d' k)"
  using same_keys_state[OF assms] by simp

lemma agents_only_move:
  "agent_move (agent_state d k) (agent_state d' k) \<Longrightarrow> \<exists>as. d' = d\<lparr>db_agents := as\<rparr> \<Longrightarrow>
     agent_move (agent_state d k) (agent_state d' k) \<and> operator_key_move (operator_key_state d k) (operator_key_state d' k)"
  by (auto simp: operator_key_state_def)

lemma operator_keys_only_move:
  "operator_key_move (operator_key_state d k) (operator_key_state d' k) \<Longrightarrow> \<exists>ks. d' = d\<lparr>db_operator_keys := ks\<rparr> \<Longrightarrow>
     agent_move (agent_state d k) (agent_state d' k) \<and> operator_key_move (operator_key_state d k) (operator_key_state d' k)"
  by (auto simp: agent_state_def)

lemma store_step_moves:
  assumes "store_step hcl d d'"
  shows "agent_move (agent_state d k) (agent_state d' k) \<and> operator_key_move (operator_key_state d k) (operator_key_state d' k)"
  using assms
proof cases
  case (RecordKey fp name pk now a)
  then have d': "d' = record_key_insert fp name pk now d" by (auto simp: RecordKey_def Let_def)
  show ?thesis unfolding d'
    using record_key_insert_state[of fp name pk now d k] record_key_insert_agents
    by (intro agents_only_move) (auto simp: agent_move_def)
next
  case (DecideAgent fp st who now a)
  then show ?thesis
    by (intro agents_only_move DecideAgent_move) (auto simp: DecideAgent_def Let_def split: if_splits)
next
  case (RecordConnection fp v r now)
  then show ?thesis
    unfolding RecordConnection_def
    by (intro agents_only_move) (auto simp: agents_set_where_state)
next
  case (SaveInventory agent fp cs now)
  have "agent_state (SaveInventory agent fp cs now d) k = agent_state d k"
    using agents_set_where_state[of "\<lambda>a. agent_Fingerprint a = fp" "\<lambda>a. a\<lparr>agent_LastReport := Some now\<rparr>" d k]
    by (simp add: SaveInventory_def agent_state_def)
  then show ?thesis unfolding SaveInventory by (simp add: operator_key_state_def SaveInventory_def)
next
  case (RecordOperatorKey fp label pk now a)
  then have d': "d' = record_operator_key_insert fp label pk now d" by (auto simp: RecordOperatorKey_def Let_def)
  show ?thesis unfolding d'
    using record_operator_key_insert_state[of fp label pk now d k] record_operator_key_insert_keys
    by (intro operator_keys_only_move) (auto simp: operator_key_move_def)
next
  case (ApproveOperatorKey fp label g who now a)
  then show ?thesis
    by (intro operator_keys_only_move ApproveOperatorKey_move) (auto simp: ApproveOperatorKey_def Let_def split: if_splits)
next
  case (RejectOperatorKey fp who now a)
  then show ?thesis
    by (intro operator_keys_only_move RejectOperatorKey_move) (auto simp: RejectOperatorKey_def Let_def split: if_splits)
next
  case (RevokeOperatorKey fp who now a)
  then show ?thesis
    by (intro operator_keys_only_move RevokeOperatorKey_move) (auto simp: RevokeOperatorKey_def Let_def split: if_splits)
next
  case (RecordOperatorKeyUse fp now)
  then show ?thesis
    unfolding RecordOperatorKeyUse_def
    by (intro operator_keys_only_move) (auto simp: operator_keys_set_where_state)
next
  case (RenamePolicy old p bs who now p')
  then show ?thesis using RenamePolicy_tables by (intro same_keys_move) (simp add: same_keys_def)
qed (auto intro!: same_keys_move intro: same_keys_steps same_keys_plain)

section \<open>Interpretations\<close>

fun agent_final :: "AgentState \<Rightarrow> bool" where
  "agent_final AgentPending = False"
| "agent_final AgentApproved = True"
| "agent_final AgentRejected = True"

fun operator_key_final :: "OperatorKeyState \<Rightarrow> bool" where
  "operator_key_final OperatorKeyPending = False"
| "operator_key_final OperatorKeyApproved = False"
| "operator_key_final OperatorKeyRejected = True"
| "operator_key_final OperatorKeyRevoked = True"

lemma agent_final_iff: "agent_final s \<longleftrightarrow> s \<noteq> AgentPending"
  by (cases s) simp_all

lemma agent_step:
  assumes "store_step hcl d d'"
  shows "agent_state d k = None \<Longrightarrow> agent_state d' k \<in> {None, Some AgentPending}"
    "agent_state d k = Some s \<Longrightarrow> s \<noteq> AgentPending \<Longrightarrow> agent_state d' k = Some s"
  using conjunct1[OF store_step_moves[OF assms, of k]] by (auto simp: agent_move_def)

lemma operator_key_step:
  assumes "store_step hcl d d'"
  shows "operator_key_state d k = None \<Longrightarrow> operator_key_state d' k \<in> {None, Some OperatorKeyPending}"
    "operator_key_state d k = Some s \<Longrightarrow> operator_key_final s \<Longrightarrow> operator_key_state d' k = Some s"
    "operator_key_state d k = Some OperatorKeyApproved \<Longrightarrow>
       operator_key_state d' k \<in> {Some OperatorKeyApproved, Some OperatorKeyRevoked}"
  using conjunct2[OF store_step_moves[OF assms, of k]] by (auto simp: operator_key_move_def)

lemma operator_key_states: "s \<noteq> OperatorKeyPending \<longleftrightarrow> operator_key_final s \<or> s = OperatorKeyApproved"
  by (cases s) simp_all

interpretation agents: final_registry "store_step hcl" agent_state AgentPending agent_final for hcl
  by unfold_locales (auto simp: agent_final_iff dest: agent_step)

interpretation operator_keys: final_registry "store_step hcl" operator_key_state OperatorKeyPending operator_key_final for hcl
proof unfold_locales
  fix d d' k s
  assume step: "store_step hcl d d'" and s: "operator_key_state d k = Some s"
  show "\<exists>s'. operator_key_state d' k = Some s' \<and> s' \<noteq> OperatorKeyPending" if "s \<noteq> OperatorKeyPending"
    using operator_key_step(2,3)[OF step] s that unfolding operator_key_states by fastforce
  show "operator_key_state d' k = Some s" if "operator_key_final s"
    using operator_key_step(2)[OF step s that] .
qed (use operator_key_step(1) in blast)

section \<open>Policy identities\<close>

text \<open>
  A policy's identity is its name with its generation. \<open>generation_of\<close> is the last generation a name
  has taken, zero when it took none.
\<close>

definition identities :: "db \<Rightarrow> (string \<times> int) set" where
  "identities d = (\<lambda>r. (prow_name r, prow_generation r)) ` set (db_policies d)"

definition generation_of :: "db \<Rightarrow> string \<Rightarrow> int" where
  "generation_of d name = (case map_of (db_policy_generations d) name of None \<Rightarrow> 0 | Some g \<Rightarrow> g)"

lemma generation_of_next: "nextPolicyGeneration name d = generation_of d name + 1"
  by (simp add: nextPolicyGeneration_def generation_of_def)

text \<open>What a step may do to identities: generations never fall, and an identity that appears is
  above the last generation of its name.\<close>

definition identities_move :: "db \<Rightarrow> db \<Rightarrow> bool" where
  "identities_move d d' =
     ((\<forall>name. generation_of d name \<le> generation_of d' name)
      \<and> (\<forall>(name, g)\<in>identities d'. (name, g) \<in> identities d \<or> generation_of d name < g))"

lemma identities_move_same:
  "db_policies d' = db_policies d \<Longrightarrow> db_policy_generations d' = db_policy_generations d \<Longrightarrow> identities_move d d'"
  by (auto simp: identities_move_def identities_def generation_of_def)

lemma identities_move_delete:
  "set (db_policies d') \<subseteq> set (db_policies d) \<Longrightarrow> db_policy_generations d' = db_policy_generations d \<Longrightarrow> identities_move d d'"
  by (auto simp: identities_move_def identities_def generation_of_def)

lemma identities_move_insert:
  assumes "set (db_policies d') \<subseteq> insert row (set (db_policies d))"
    "db_policy_generations d' = AList.update (prow_name row) (prow_generation row) (db_policy_generations d)"
    "prow_generation row = nextPolicyGeneration (prow_name row) d"
  shows "identities_move d d'"
proof -
  have g: "generation_of d' n = (if n = prow_name row then generation_of d n + 1 else generation_of d n)" for n
    using assms(2,3) by (simp add: generation_of_def generation_of_next)
  have "(n, h) \<in> identities d \<or> generation_of d n < h" if "(n, h) \<in> identities d'" for n h
    using that assms(1,3) by (auto simp: identities_def generation_of_next)
  then show ?thesis using g by (auto simp: identities_move_def)
qed

lemma save_policy_row_move: "identities_move d (save_policy_row p who now d)"
proof (cases "row_by prow_name (policy_Name p) (db_policies d)")
  case None
  then show ?thesis
    by (intro identities_move_insert[where row = "policy_row_of (saved_policy p d) who now"])
       (auto simp: save_policy_row_def policy_row_of_def saved_policy_def Let_def)
next
  case (Some r)
  let ?row = "policy_row_of (saved_policy p d) who now"
  have name: "prow_name ?row = policy_Name p" by (simp add: policy_row_of_def saved_policy_def)
  have "map (\<lambda>r. (prow_name r, prow_generation r)) (upsert_policy ?row (db_policies d)) =
      map (\<lambda>r. (prow_name r, prow_generation r)) (db_policies d)"
    using Some by (simp add: upsert_policy_def name map_set_where)
  then have "identities (save_policy_row p who now d) = identities d"
    using Some unfolding identities_def by (simp add: save_policy_row_def Let_def) (metis set_map)
  moreover have "generation_of (save_policy_row p who now d) = generation_of d"
    using Some by (simp add: generation_of_def save_policy_row_def Let_def fun_eq_iff)
  ultimately show ?thesis by (auto simp: identities_move_def)
qed

lemma same_assignments_move: "same_assignments d1 d2 \<Longrightarrow> identities_move d d1 \<Longrightarrow> identities_move d d2"
  using same_assignments_tables[of d1 d2] by (simp add: identities_move_def identities_def generation_of_def)

lemma RenamePolicy_move:
  assumes "RenamePolicy hcl oldName p bs who now d = Inr (p', d')"
  shows "identities_move d d'"
proof -
  have gen: "policy_Generation p = nextPolicyGeneration (policy_Name p) d"
    by (rule RenamePolicy_Inr[OF assms])
  note tables = RenamePolicy_tables[OF assms]
  show ?thesis
    by (rule identities_move_insert[where row = "policy_row_of p who now"])
       (auto simp: tables policy_row_of_def gen)
qed

lemma writeMembership_policies:
  "writeMembership b d = Inr d' \<Longrightarrow> db_policies d' = db_policies d \<and> db_policy_generations d' = db_policy_generations d"
  by (drule writeMembership_Inr(1)) simp

lemma bindings_move:
  "CreateBinding b d = Inr d' \<Longrightarrow> identities_move d d'"
  "ChangeBinding b d = Inr d' \<Longrightarrow> identities_move d d'"
  "RetireBinding bid now d = Inr (acc, d') \<Longrightarrow> identities_move d d'"
proof -
  show "identities_move d d'" if c: "CreateBinding b d = Inr d'"
    by (rule CreateBinding_Inr[OF c], drule writeMembership_policies) (simp add: identities_move_same)
  show "identities_move d d'" if c: "ChangeBinding b d = Inr d'"
  proof -
    obtain d1 where d1: "update_assignment b d = Inr d1" "writeMembership b d1 = Inr d'"
      using c by (auto simp: ChangeBinding_def)
    show ?thesis
      using same_assignments_tables[OF update_assignment_same[OF d1(1)]] writeMembership_policies[OF d1(2)]
      by (intro identities_move_same) simp_all
  qed
  show "identities_move d d'" if r: "RetireBinding bid now d = Inr (acc, d')"
    by (rule RetireBinding_Inr[OF r]) (simp add: identities_move_same delete_binding_def)
qed

lemma keys_move:
  "\<exists>as. d' = d\<lparr>db_agents := as\<rparr> \<Longrightarrow> identities_move d d'"
  "\<exists>ks. d' = d\<lparr>db_operator_keys := ks\<rparr> \<Longrightarrow> identities_move d d'"
  by (auto intro: identities_move_same)

lemma store_step_identities:
  assumes "store_step hcl d d'" "db_ok d"
  shows "identities_move d d'"
proof -
  have k: "keys_ok d" using assms(2) by (simp add: db_ok_def)
  show ?thesis
    using assms(1)
  proof cases
    case RecordKey
    then show ?thesis using RecordKey_Inr(2)[OF _ k] keys_move(1) by blast
  next
    case DecideAgent
    then show ?thesis using DecideAgent_Inr(2)[OF _ k] keys_move(1) by blast
  next
    case RecordOperatorKey
    then show ?thesis using RecordOperatorKey_Inr(2)[OF _ k] keys_move(2) by blast
  next
    case ApproveOperatorKey
    then show ?thesis using ApproveOperatorKey_Inr(2)[OF _ k] keys_move(2) by blast
  next
    case RejectOperatorKey
    then show ?thesis using RejectOperatorKey_Inr(2)[OF _ k] keys_move(2) by blast
  next
    case RevokeOperatorKey
    then show ?thesis using RevokeOperatorKey_Inr(2)[OF _ k] keys_move(2) by blast
  next
    case (SavePolicyBindings p bs who now p')
    then show ?thesis
      using same_assignments_move[OF update_assignments_same[OF SavePolicyBindings_Inr(2)] save_policy_row_move] by blast
  next
    case (DeletePolicy name)
    then show ?thesis by (intro identities_move_delete) (auto simp: DeletePolicy_def split: if_splits)
  next
    case RenamePolicy
    then show ?thesis by (rule RenamePolicy_move)
  next
    case CreateBinding
    then show ?thesis by (rule bindings_move)
  next
    case ChangeBinding
    then show ?thesis by (rule bindings_move)
  next
    case RetireBinding
    then show ?thesis by (rule bindings_move)
  qed (auto intro!: identities_move_same simp: RecordConnection_def RecordOperatorKeyUse_def MarkBindingApplied_def SaveInventory_def
        SaveTokenAccessor_def SaveContractResult_def SaveAssignmentAccessor_def RecordOperator_def CreateSession_def
        DeleteSession_def DeleteOtherSessions_def PruneSessions_def Let_def split: if_splits)
qed

text \<open>An identity that is gone: its name has reached its generation and it is not stored.\<close>

definition spent :: "db \<Rightarrow> string \<times> int \<Rightarrow> bool" where
  "spent d i = (snd i \<le> generation_of d (fst i) \<and> i \<notin> identities d)"

lemma spent_step:
  assumes "store_step hcl d d'" "db_ok d" "spent d i"
  shows "spent d' i"
proof -
  obtain name g where i: "i = (name, g)" by (cases i)
  have m: "generation_of d name \<le> generation_of d' name"
    "(name, g) \<in> identities d' \<Longrightarrow> (name, g) \<in> identities d \<or> generation_of d name < g"
    using store_step_identities[OF assms(1,2)] by (auto simp: identities_move_def)
  then show ?thesis using assms(3) by (auto simp: spent_def i)
qed

lemma spent_steps: "store_steps hcl d d' \<Longrightarrow> db_ok d \<Longrightarrow> spent d i \<Longrightarrow> spent d' i"
  by (induction rule: rtranclp_induct) (auto intro: spent_step store_steps_ok)

lemma stored_generation: "db_ok d \<Longrightarrow> (name, g) \<in> identities d \<Longrightarrow> generation_of d name = g"
  by (auto simp: db_ok_def policies_ok_def policy_row_ok_def identities_def generation_of_def)

lemma generation_of_steps: "store_steps hcl d d' \<Longrightarrow> db_ok d \<Longrightarrow> generation_of d name \<le> generation_of d' name"
proof (induction rule: rtranclp_induct)
  case (step d1 d2)
  then have "identities_move d1 d2" by (intro store_step_identities) (auto intro: store_steps_ok)
  then show ?case using step by (auto simp: identities_move_def intro: order_trans)
qed simp

lemma gone_forever:
  assumes "db_ok d" "i \<in> identities d" "store_steps hcl d d1" "i \<notin> identities d1" "store_steps hcl d1 d2"
  shows "i \<notin> identities d2"
proof -
  obtain name g where i: "i = (name, g)" by (cases i)
  have "spent d1 i"
    using generation_of_steps[OF assms(3,1), of name] stored_generation[OF assms(1)] assms(2,4)
    by (auto simp: spent_def i)
  from spent_steps[OF assms(5) store_steps_ok[OF assms(3,1)] this] show ?thesis by (simp add: spent_def)
qed

section \<open>Assignments\<close>

lemma update_assignment_revision:
  assumes "update_assignment b d = Inr d'" "distinct (map brow_id (db_bindings d))"
  shows "\<exists>r. row_by brow_id (bind_ID b) (db_bindings d) = Some r \<and> brow_revision r = bind_Revision b - 1"
    and "\<forall>r\<in>set (db_bindings d'). brow_id r = bind_ID b \<longrightarrow> brow_revision r = bind_Revision b \<and> \<not> brow_applied r"
proof -
  let ?t = "\<lambda>r. brow_id r = bind_ID b \<and> brow_revision r = bind_Revision b - 1"
  have one: "length (filter ?t (db_bindings d)) = 1"
    and d': "d' = d\<lparr>db_bindings := set_where ?t (\<lambda>r. r\<lparr>brow_settings := Defaults (bind_Settings b),
      brow_revision := bind_Revision b, brow_effective := bind_Effective b, brow_applied := False\<rparr>) (db_bindings d)\<rparr>"
    using assms(1) by (auto simp: update_assignment_def Let_def split: if_splits)
  then obtain r where "filter ?t (db_bindings d) = [r]" by (auto simp: length_Suc_conv)
  then have "r \<in> set (filter ?t (db_bindings d))" by simp
  then have r: "r \<in> set (db_bindings d)" "?t r" by simp_all
  then show "\<exists>r. row_by brow_id (bind_ID b) (db_bindings d) = Some r \<and> brow_revision r = bind_Revision b - 1"
    using row_by_distinct[OF assms(2)] by blast
  have "x = r" if "x \<in> set (db_bindings d)" "brow_id x = bind_ID b" for x
    using that r assms(2) by (metis distinct_map inj_onD)
  then show "\<forall>r\<in>set (db_bindings d'). brow_id r = bind_ID b \<longrightarrow> brow_revision r = bind_Revision b \<and> \<not> brow_applied r"
    using r by (auto simp: d' set_set_where)
qed

lemma ChangeBinding_revision:
  assumes "ChangeBinding b d = Inr d'" "db_ok d"
  shows "\<exists>r. row_by brow_id (bind_ID b) (db_bindings d) = Some r \<and> brow_revision r = bind_Revision b - 1"
    and "\<forall>r\<in>set (db_bindings d'). brow_id r = bind_ID b \<longrightarrow> brow_revision r = bind_Revision b \<and> \<not> brow_applied r"
proof -
  obtain d1 where d1: "update_assignment b d = Inr d1" "writeMembership b d1 = Inr d'"
    using assms(1) by (auto simp: ChangeBinding_def)
  have "distinct (map brow_id (db_bindings d))" using assms(2) by (simp add: db_ok_def bindings_ok_def)
  note u = update_assignment_revision[OF d1(1) this]
  show "\<exists>r. row_by brow_id (bind_ID b) (db_bindings d) = Some r \<and> brow_revision r = bind_Revision b - 1" by (fact u(1))
  show "\<forall>r\<in>set (db_bindings d'). brow_id r = bind_ID b \<longrightarrow> brow_revision r = bind_Revision b \<and> \<not> brow_applied r"
    using u(2) writeMembership_Inr(1)[OF d1(2)] by simp
qed

section \<open>Renaming\<close>

lemma map_of_retirements:
  "map_of (db_policy_retirements (recordPolicyRetirement i now d)) i \<noteq> None"
  "map_of (db_policy_retirements (ForgetPolicyRetirement j d)) j = None"
  "i \<noteq> j \<Longrightarrow> map_of (db_policy_retirements (recordPolicyRetirement i now d)) j = map_of (db_policy_retirements d) j"
  by (auto simp: recordPolicyRetirement_def ForgetPolicyRetirement_def map_add_def split: option.splits)

lemma rename_membership_set:
  "set (rename_membership old new rows) = (\<lambda>(b, n). (b, if n = old then new else n)) ` set rows"
  unfolding rename_membership_def set_set_where by (rule image_cong) auto

section \<open>Concrete histories\<close>

lemma steps_of_results:
  "\<not> isl (SavePolicyBindings p bs who now d) \<Longrightarrow> store_step hcl d (snd (projr (SavePolicyBindings p bs who now d)))"
  "\<not> isl (DeletePolicy name d) \<Longrightarrow> store_step hcl d (projr (DeletePolicy name d))"
  "\<not> isl (CreateBinding b d) \<Longrightarrow> store_step hcl d (projr (CreateBinding b d))"
  "\<not> isl (RecordKey fp name pk now d) \<Longrightarrow> store_step hcl d (snd (projr (RecordKey fp name pk now d)))"
proof -
  show "\<not> isl (SavePolicyBindings p bs who now d) \<Longrightarrow> store_step hcl d (snd (projr (SavePolicyBindings p bs who now d)))"
    by (cases "SavePolicyBindings p bs who now d") (auto intro: store_step.SavePolicyBindings)
  show "\<not> isl (DeletePolicy name d) \<Longrightarrow> store_step hcl d (projr (DeletePolicy name d))"
    by (cases "DeletePolicy name d") (auto intro: store_step.DeletePolicy)
  show "\<not> isl (CreateBinding b d) \<Longrightarrow> store_step hcl d (projr (CreateBinding b d))"
    by (cases "CreateBinding b d") (auto intro: store_step.CreateBinding)
  show "\<not> isl (RecordKey fp name pk now d) \<Longrightarrow> store_step hcl d (snd (projr (RecordKey fp name pk now d)))"
    by (cases "RecordKey fp name pk now d") (auto intro: store_step.RecordKey)
qed

definition web_saved :: db where
  "web_saved = snd (projr (SavePolicyBindings (New ''web'' []) [] ''op'' 1 empty_db))"

definition web_deleted :: db where
  "web_deleted = projr (DeletePolicy ''web'' web_saved)"

definition web_again :: db where
  "web_again = snd (projr (SavePolicyBindings (New ''web'' []) [] ''op'' 2 web_deleted))"

definition web_binding :: Binding where
  "web_binding =
     \<lparr>bind_ID = ''b-1'', bind_Agent = ''host'', bind_Key = \<lparr>key_Kind = ''name'', key_Value = ''app''\<rparr>,
      bind_Policies = [''web''], bind_Settings = DefaultSettings, bind_Revision = 1,
      bind_Effective = Runtime no_stanza_hcl (New ''web'' []) DefaultSettings, bind_Applied = False,
      bind_Role = ''role'', bind_CreatedAt = 1, bind_CreatedBy = ''op''\<rparr>"

definition web_bound :: db where
  "web_bound = projr (CreateBinding web_binding web_saved)"

definition agent_approved :: db where
  "agent_approved =
     snd (projr (DecideAgent ''fp'' AgentApproved ''op'' 2 (record_key_insert ''fp'' ''host'' ''pk'' 1 empty_db)))"

definition site_policy :: Policy where
  "site_policy = (New ''site'' [])\<lparr>policy_Revision := 2, policy_Generation := 1\<rparr>"

lemma web_saved_step: "store_step hcl empty_db web_saved"
  unfolding web_saved_def by (rule steps_of_results) code_simp

lemma web_deleted_step: "store_step hcl web_saved web_deleted"
  unfolding web_deleted_def by (rule steps_of_results) code_simp

lemma web_again_step: "store_step hcl web_deleted web_again"
  unfolding web_again_def by (rule steps_of_results) code_simp

lemma web_bound_step: "store_step hcl web_saved web_bound"
  unfolding web_bound_def by (rule steps_of_results) code_simp

section \<open>Properties\<close>

text \<open>
  C5. Whatever sequence of store operations runs, from an empty database: no fingerprint is on both
  the agent and the operator list, two approved agents never share a name and two approved or
  revoked operator keys never share a label, each container key of an agent has at most one binding,
  every binding selects at least one policy and only stored ones, recorded tokens and results belong
  to stored bindings, and every session belongs to a recorded operator.
\<close>

theorem store_reachable_consistent:
  assumes "store_steps hcl empty_db d"
  shows "agent_Fingerprint ` set (db_agents d) \<inter> opk_Fingerprint ` set (db_operator_keys d) = {}
    \<and> (\<forall>a\<in>set (db_agents d). \<forall>b\<in>set (db_agents d). agent_State a = AgentApproved \<longrightarrow> agent_State b = AgentApproved
         \<longrightarrow> agent_Name a = agent_Name b \<longrightarrow> a = b)
    \<and> (\<forall>a\<in>set (db_operator_keys d). \<forall>b\<in>set (db_operator_keys d). holds_label a \<longrightarrow> holds_label b
         \<longrightarrow> opk_Label a = opk_Label b \<longrightarrow> a = b)
    \<and> distinct (map (\<lambda>r. (brow_agent r, brow_key r)) (db_bindings d))
    \<and> (\<forall>r\<in>set (db_bindings d). bind_Policies (scanBinding d r) \<noteq> []
         \<and> set (bind_Policies (scanBinding d r)) \<subseteq> prow_name ` set (db_policies d))
    \<and> dom (map_of (db_binding_tokens d)) \<union> dom (map_of (db_contract_results d)) \<subseteq> brow_id ` set (db_bindings d)
    \<and> session_Subject ` set (db_web_sessions d) \<subseteq> operator_Subject ` set (db_operators d)"
proof -
  have ok: "keys_ok d" "policies_ok d" "bindings_ok d" "sessions_ok d"
    using store_steps_ok[OF assms empty_db_ok] by (simp_all add: db_ok_def)
  have "inj_on agent_Name (set (approved_agents d))" "inj_on opk_Label (set (labelled_keys d))"
    using ok(1) by (simp_all add: keys_ok_def distinct_map)
  then have "\<forall>a\<in>set (db_agents d). \<forall>b\<in>set (db_agents d). agent_State a = AgentApproved \<longrightarrow> agent_State b = AgentApproved
         \<longrightarrow> agent_Name a = agent_Name b \<longrightarrow> a = b"
    "\<forall>a\<in>set (db_operator_keys d). \<forall>b\<in>set (db_operator_keys d). holds_label a \<longrightarrow> holds_label b
         \<longrightarrow> opk_Label a = opk_Label b \<longrightarrow> a = b"
    by (simp_all add: inj_on_def approved_agents_def labelled_keys_def)
  moreover have "bind_Policies (scanBinding d r) \<noteq> [] \<and> set (bind_Policies (scanBinding d r)) \<subseteq> prow_name ` set (db_policies d)"
    if "r \<in> set (db_bindings d)" for r
  proof -
    have "brow_id r \<in> fst ` set (db_binding_policies d)" using ok(3) that by (auto simp: bindings_ok_def binding_ids_def)
    then obtain p where "(brow_id r, p) \<in> set (db_binding_policies d)" by auto
    then have "p \<in> set (bind_Policies (scanBinding d r))" by (force simp: scanBinding_def binding_names_def)
    moreover have "set (bind_Policies (scanBinding d r)) \<subseteq> snd ` set (db_binding_policies d)"
      by (auto simp: scanBinding_def binding_names_def)
    moreover have "snd ` set (db_binding_policies d) \<subseteq> prow_name ` set (db_policies d)"
      using ok(3) by (auto simp: bindings_ok_def)
    ultimately show ?thesis by auto
  qed
  ultimately show ?thesis
    using ok by (simp add: keys_ok_def bindings_ok_def sessions_ok_def binding_ids_def)
qed

theorem store_reachable_consistent_witness:
  "dom (map_of (db_binding_tokens web_bound)) \<union> dom (map_of (db_contract_results web_bound)) \<subseteq> brow_id ` set (db_bindings web_bound)"
proof -
  have "store_steps no_stanza_hcl empty_db web_bound"
    using web_saved_step web_bound_step by (metis converse_rtranclp_into_rtranclp r_into_rtranclp)
  from store_reachable_consistent[OF this] show ?thesis by blast
qed

text \<open>
  C14. An approval is final and needs a decision: a fingerprint that no store operation has recorded
  becomes approved, as an agent or as an operator key, only through a state in which it is pending;
  an agent's decision never changes; and a rejected or revoked operator key stays so for ever.
\<close>

theorem key_decisions_final:
  assumes "store_steps hcl d d'"
  shows "(agent_state d k = None \<longrightarrow> agent_state d' k = Some AgentApproved \<longrightarrow>
        (\<exists>e. store_steps hcl d e \<and> store_steps hcl e d' \<and> agent_state e k = Some AgentPending))
    \<and> (operator_key_state d k = None \<longrightarrow> operator_key_state d' k = Some OperatorKeyApproved \<longrightarrow>
        (\<exists>e. store_steps hcl d e \<and> store_steps hcl e d' \<and> operator_key_state e k = Some OperatorKeyPending))
    \<and> (agent_state d k \<in> {Some AgentApproved, Some AgentRejected} \<longrightarrow> agent_state d' k = agent_state d k)
    \<and> (operator_key_state d k \<in> {Some OperatorKeyRejected, Some OperatorKeyRevoked} \<longrightarrow>
        operator_key_state d' k = operator_key_state d k)"
  using agents.decided_through_pending[OF assms, of k] operator_keys.decided_through_pending[OF assms, of k]
    agents.final_forever[OF assms, of k] operator_keys.final_forever[OF assms, of k]
  by auto

theorem key_decisions_final_witness:
  "agent_state (snd (projr (RecordKey ''fp'' ''other'' ''pk'' 3 agent_approved))) ''fp'' = Some AgentApproved"
proof -
  have "\<not> isl (RecordKey ''fp'' ''other'' ''pk'' 3 agent_approved)" by code_simp
  then have "store_steps no_stanza_hcl agent_approved (snd (projr (RecordKey ''fp'' ''other'' ''pk'' 3 agent_approved)))"
    by (intro r_into_rtranclp steps_of_results)
  moreover have "agent_state agent_approved ''fp'' = Some AgentApproved" by code_simp
  ultimately show ?thesis using key_decisions_final by force
qed

text \<open>
  C15. An OpenBao identity is never used twice: once a policy's identity (its name at its generation)
  has gone from the database, by deletion or by renaming, no later operation brings it back, even
  when a policy with the same name is created again.
\<close>

theorem policy_identity_never_reused:
  assumes "store_steps hcl empty_db d" "(name, g) \<in> identities d"
    and "store_steps hcl d d1" "(name, g) \<notin> identities d1" "store_steps hcl d1 d2"
  shows "(name, g) \<notin> identities d2"
  using gone_forever[OF store_steps_ok[OF assms(1) empty_db_ok] assms(2-5)] .

theorem policy_identity_never_reused_witness: "(''web'', 1) \<notin> identities web_again"
proof (rule policy_identity_never_reused[of no_stanza_hcl web_saved "''web''" 1 web_deleted])
  show "store_steps no_stanza_hcl empty_db web_saved" using web_saved_step by blast
  show "store_steps no_stanza_hcl web_saved web_deleted" using web_deleted_step by blast
  show "store_steps no_stanza_hcl web_deleted web_again" using web_again_step by blast
  show "(''web'', 1) \<in> identities web_saved" by code_simp
  show "(''web'', 1) \<notin> identities web_deleted" by code_simp
qed



text \<open>
  C31. Renaming a policy moves everything at once: afterwards the old name is not stored and the new
  one is, with the given document; every selection of the old name is a selection of the new name and
  no other selection changed; the old OpenBao identity is on the list of those still to be removed
  and the new one is not, so the clean-up never removes the policy that is in use.
\<close>

theorem RenamePolicy_complete:
  assumes "store_steps hcl empty_db d" "ValidName (policy_Name p)"
    and "RenamePolicy hcl old p bs who now d = Inr (p', d')"
  shows "prow_name ` set (db_policies d') = insert (policy_Name p) (prow_name ` set (db_policies d) - {old})
    \<and> old \<noteq> policy_Name p \<and> policy_row_of p who now \<in> set (db_policies d')
    \<and> set (db_binding_policies d') = (\<lambda>(b, n). (b, if n = old then policy_Name p else n)) ` set (db_binding_policies d)
    \<and> (\<exists>previous. store_Policy hcl old d = Inr previous
         \<and> OpenBaoPolicyName (stored_Policy previous) \<in> set (PolicyRetirements d'))
    \<and> OpenBaoPolicyName p \<notin> set (PolicyRetirements d')"
  using assms(3)
proof (rule RenamePolicy_Inr)
  fix r d3
  assume r: "row_by prow_name old (db_policies d) = Some r" "Policy_Validate hcl (prow_document r) = None"
    "policy_Name p \<notin> prow_name ` set (db_policies d)"
    and d': "d' = recordPolicyRetirement (OpenBaoPolicyName ((prow_document r)\<lparr>policy_Generation := prow_generation r\<rparr>)) now
       (ForgetPolicyRetirement (OpenBaoPolicyName p)
         (d3\<lparr>db_policies := delete_where (\<lambda>r. prow_name r = old) (db_policies d3)\<rparr>))"
  have row: "r \<in> set (db_policies d)" "prow_name r = old" using row_by_Some[OF r(1)] by simp_all
  have "policies_ok d" using store_steps_ok[OF assms(1) empty_db_ok] by (simp add: db_ok_def)
  then have name: "policy_Name (prow_document r) = old" using row by (auto simp: policies_ok_def policy_row_ok_def)
  have neq: "old \<noteq> policy_Name p" using r(3) row by (metis image_eqI)
  have "OpenBaoPolicyName ((prow_document r)\<lparr>policy_Generation := prow_generation r\<rparr>) \<noteq> OpenBaoPolicyName p"
    using Policy_Validate_name[OF r(2)] assms(2) neq
    by (simp add: OpenBaoPolicyName_def name openBaoPolicyName_eq ValidName_no_double_hyphen)
  then have ret: "OpenBaoPolicyName ((prow_document r)\<lparr>policy_Generation := prow_generation r\<rparr>) \<in> set (PolicyRetirements d')"
    "OpenBaoPolicyName p \<notin> set (PolicyRetirements d')"
    using map_of_retirements unfolding d' by (auto simp: PolicyRetirements_def dom_def)
  have "store_Policy hcl old d = Inr \<lparr>stored_Policy = (prow_document r)\<lparr>policy_Generation := prow_generation r\<rparr>,
      stored_SavedAt = prow_saved_at r, stored_SavedBy = prow_saved_by r\<rparr>"
    using r(1,2) by (simp add: store_Policy_def scanPolicy_def)
  then have "\<exists>previous. store_Policy hcl old d = Inr previous \<and> OpenBaoPolicyName (stored_Policy previous) \<in> set (PolicyRetirements d')"
    using ret(1) by (metis StoredPolicy.select_convs(1))
  moreover have "prow_name (policy_row_of p who now) = policy_Name p" by (simp add: policy_row_of_def)
  moreover have "set (db_policies d') = insert (policy_row_of p who now) {r \<in> set (db_policies d). prow_name r \<noteq> old}"
    using neq calculation(2) by (auto simp: RenamePolicy_tables(3)[OF assms(3)])
  then have "prow_name ` set (db_policies d') = insert (policy_Name p) (prow_name ` set (db_policies d) - {old})"
    "policy_row_of p who now \<in> set (db_policies d')"
    using calculation(2) by auto
  ultimately show ?thesis
    using neq ret(2) by (simp add: RenamePolicy_tables(5)[OF assms(3)] rename_membership_set)
qed

theorem RenamePolicy_complete_witness:
  "\<exists>p' d'. RenamePolicy no_stanza_hcl ''web'' site_policy [] ''op'' 3 web_saved = Inr (p', d')
    \<and> prow_name ` set (db_policies d') = {''site''}"
proof -
  have reach: "store_steps no_stanza_hcl empty_db web_saved" using web_saved_step by blast
  have "ValidName (policy_Name site_policy)" by code_simp
  moreover have "\<not> isl (RenamePolicy no_stanza_hcl ''web'' site_policy [] ''op'' 3 web_saved)" by code_simp
  then obtain p' d' where r: "RenamePolicy no_stanza_hcl ''web'' site_policy [] ''op'' 3 web_saved = Inr (p', d')"
    by (cases "RenamePolicy no_stanza_hcl ''web'' site_policy [] ''op'' 3 web_saved") auto
  ultimately have "prow_name ` set (db_policies d') = insert (policy_Name site_policy) (prow_name ` set (db_policies web_saved) - {''web''})"
    using RenamePolicy_complete[OF reach _ r] by blast
  moreover have "prow_name ` set (db_policies web_saved) = {''web''}" by code_simp
  moreover have "policy_Name site_policy = ''site''" by code_simp
  ultimately show ?thesis using r by simp
qed

text \<open>
  Retiring a binding hands back the accessor of its last recorded token and leaves nothing of
  the binding: its row, selections, token and contract result are gone and a later report for it is
  refused, while the agent it belonged to stays on record so that a late accessor can be revoked.
\<close>

theorem RetireBinding_complete:
  assumes "store_steps hcl empty_db d" "SaveAssignmentAccessor b accessor t d = Inr d1"
    and "RetireBinding (bind_ID b) now d1 = Inr (a, d')"
  shows "a = accessor \<and> bind_ID b \<notin> binding_ids d' \<and> bind_ID b \<notin> fst ` set (db_binding_policies d')
    \<and> TokenAccessor_of (bind_ID b) d' = Inl ErrNotFound
    \<and> SaveTokenAccessor (bind_ID b) later t' d' = Inl ErrNotFound
    \<and> (\<exists>r\<in>set (db_bindings d). brow_id r = bind_ID b \<and> RetiredBindingAgent (bind_ID b) d' = Inr (brow_agent r))"
proof -
  obtain r where r: "row_by brow_id (bind_ID b) (db_bindings d1) = Some r"
    "a = (case map_of (db_binding_tokens d1) (bind_ID b) of None \<Rightarrow> [] | Some (a, _) \<Rightarrow> a)"
    "d' = delete_binding (bind_ID b) (d1\<lparr>db_retired_bindings := AList.update (bind_ID b) (brow_agent r, now) (db_retired_bindings d1)\<rparr>)"
    by (rule RetireBinding_Inr[OF assms(3)])
  have d1: "d1 = d\<lparr>db_binding_tokens := AList.update (bind_ID b) (accessor, t) (db_binding_tokens d)\<rparr>"
    by (rule SaveAssignmentAccessor_Inr(1)[OF assms(2)])
  have "r \<in> set (db_bindings d)" "brow_id r = bind_ID b" using row_by_Some[OF r(1)] by (simp_all add: d1)
  moreover have "bind_ID b \<notin> binding_ids d'" "bind_ID b \<notin> fst ` set (db_binding_policies d')"
    by (auto simp: r(3) binding_ids_def delete_binding_def)
  moreover have "SaveTokenAccessor (bind_ID b) later t' d' = Inl ErrNotFound"
    using \<open>bind_ID b \<notin> binding_ids d'\<close>
    by (simp add: SaveTokenAccessor_def constraint_as_def isConstraint_def row_by_None binding_ids_def)
  ultimately show ?thesis
    using r(2) by (auto simp: r(3) d1 delete_binding_def TokenAccessor_of_def RetiredBindingAgent_def)
qed

theorem RetireBinding_complete_witness:
  "\<exists>d1 d'. SaveAssignmentAccessor web_binding ''acc'' 5 (MarkBindingApplied ''b-1'' web_bound) = Inr d1
     \<and> RetireBinding ''b-1'' 6 d1 = Inr (''acc'', d')"
proof -
  let ?d = "MarkBindingApplied ''b-1'' web_bound"
  have "store_steps no_stanza_hcl empty_db web_bound"
    using web_saved_step web_bound_step by (metis converse_rtranclp_into_rtranclp r_into_rtranclp)
  then have reach: "store_steps no_stanza_hcl empty_db ?d"
    using store_step.MarkBindingApplied by (rule rtranclp.rtrancl_into_rtrancl)
  have "\<not> isl (SaveAssignmentAccessor web_binding ''acc'' 5 ?d)" by code_simp
  then obtain d1 where d1: "SaveAssignmentAccessor web_binding ''acc'' 5 ?d = Inr d1"
    by (cases "SaveAssignmentAccessor web_binding ''acc'' 5 ?d") auto
  then have "d1 = projr (SaveAssignmentAccessor web_binding ''acc'' 5 ?d)" by simp
  moreover have "\<not> isl (RetireBinding (bind_ID web_binding) 6 (projr (SaveAssignmentAccessor web_binding ''acc'' 5 ?d)))"
    by code_simp
  ultimately obtain a d' where "RetireBinding (bind_ID web_binding) 6 d1 = Inr (a, d')"
    by (cases "RetireBinding (bind_ID web_binding) 6 d1") auto
  moreover have "bind_ID web_binding = ''b-1''" by code_simp
  ultimately show ?thesis using RetireBinding_complete[OF reach d1] d1 by force
qed

end
