(* ===== verification/Controller_State.thy ===== *)
theory Controller_State
  imports Readiness Store_Steps OpenBao_Client "HOL-Library.State_Monad"
begin

text \<open>
  The state of a running controller (\<^verbatim>\<open>Controller\<close> and the interface \<^verbatim>\<open>OpenBao\<close> of
  \<^verbatim>\<open>internal/controller/controller.go\<close>) and the calls its operations are made of. An operation is a
  program of the state monad over a \<open>world\<close>: the database, OpenBao, the in-memory flag
  \<^verbatim>\<open>policySyncPending\<close>, the clock and the recorded events.

  OpenBao is third-party code: its operations are a parameter (the record \<open>bao\<close>, over a state of any
  type), and what the controller relies on is the locale \<open>openbao_service\<close>, which \<open>Controller_Safety\<close> interprets
  on a service that may refuse any call or lose its answer and \<open>OpenBao_Service\<close> derives for the manager. The database is the model of
  \<open>Store\<close>; each call to it can also fail without effect, or fail after it took effect, as \<open>w_faults\<close> says. A
  process that dies is a run in which every later call fails, so every statement about the database and
  OpenBao after an operation also holds after a crash anywhere inside it.
\<close>

section \<open>OpenBao\<close>

record 'r bao =
  ob_WritePolicy :: "string \<Rightarrow> string \<Rightarrow> 'r \<Rightarrow> Category option \<times> 'r"
  ob_DeletePolicy :: "string \<Rightarrow> 'r \<Rightarrow> Category option \<times> 'r"
  ob_PolicyExists :: "string \<Rightarrow> 'r \<Rightarrow> (Category + bool) \<times> 'r"
  ob_WriteRole :: "string \<Rightarrow> string list \<Rightarrow> int \<Rightarrow> int \<Rightarrow> 'r \<Rightarrow> Category option \<times> 'r"
  ob_DeleteRole :: "string \<Rightarrow> 'r \<Rightarrow> Category option \<times> 'r"
  ob_RevokeAccessor :: "string \<Rightarrow> 'r \<Rightarrow> Category option \<times> 'r"
  ob_RoleID :: "string \<Rightarrow> 'r \<Rightarrow> (Category + string) \<times> 'r"
  ob_WrappedSecretID :: "string \<Rightarrow> int \<Rightarrow> (string, string) gomap \<Rightarrow> 'r \<Rightarrow> (Category + string) \<times> 'r"
  ob_TransitKeyExists :: "string \<Rightarrow> 'r \<Rightarrow> (Category + bool) \<times> 'r"
  ob_SSHRoleExists :: "string \<Rightarrow> 'r \<Rightarrow> (Category + bool) \<times> 'r"

text \<open>The part of an AppRole that decides what its tokens may do; its times are whole seconds.\<close>

record ob_role =
  role_Policies :: "string list"
  role_TTL :: int
  role_MaxTTL :: int

definition whole_seconds :: "int \<Rightarrow> int" where
  "whole_seconds d = (if d < 0 then - (- d div second) else d div second)"

definition granted :: "string list \<Rightarrow> int \<Rightarrow> int \<Rightarrow> ob_role" where
  "granted ps ttl maxttl = \<lparr>role_Policies = ps, role_TTL = whole_seconds ttl, role_MaxTTL = whole_seconds maxttl\<rparr>"

text \<open>
  The names the controller manages: lower-case letters, digits and hyphens after the prefix. OpenBao keeps such a name as it
  is; it would fold the case of others, and a slash would address another endpoint.
\<close>

definition managed_char :: "char \<Rightarrow> bool" where
  "managed_char c \<longleftrightarrow> CHR ''a'' \<le> c \<and> c \<le> CHR ''z'' \<or> CHR ''0'' \<le> c \<and> c \<le> CHR ''9'' \<or> c = CHR ''-''"

definition managed_name :: "string \<Rightarrow> bool" where
  "managed_name n \<longleftrightarrow> HasPrefix n ''wyrwood-'' \<and> list_all managed_char n"

text \<open>
  What the controller relies on. A call without an error took effect; a call with an error took
  effect or changed nothing, and a policy OpenBao calls invalid was not written. No call touches any other
  policy or role, and a revoked accessor stays revoked. \<open>compiled\<close> is the text under which a policy is kept.
\<close>

locale openbao_service =
  fixes bao :: "'r bao"
    and policies :: "'r \<Rightarrow> string \<Rightarrow> string option"
    and compiled :: "string \<Rightarrow> string"
    and roles :: "'r \<Rightarrow> string \<Rightarrow> ob_role option"
    and revoked :: "'r \<Rightarrow> string set"
  assumes WritePolicy: "ob_WritePolicy bao n h r = (e, r') \<Longrightarrow> managed_name n \<Longrightarrow>
      (policies r' = (policies r)(n \<mapsto> compiled h) \<and> e \<noteq> Some CategoryInvalid \<or> e \<noteq> None \<and> policies r' = policies r)
      \<and> roles r' = roles r \<and> revoked r \<subseteq> revoked r'"
    and DeletePolicy: "ob_DeletePolicy bao n r = (e, r') \<Longrightarrow> managed_name n \<Longrightarrow>
      (policies r' = (policies r)(n := None) \<or> e \<noteq> None \<and> policies r' = policies r)
      \<and> roles r' = roles r \<and> revoked r \<subseteq> revoked r'"
    and PolicyExists: "ob_PolicyExists bao n r = (x, r') \<Longrightarrow> managed_name n \<Longrightarrow>
      (\<forall>b. x = Inr b \<longrightarrow> (b \<longleftrightarrow> policies r n \<noteq> None))
      \<and> policies r' = policies r \<and> roles r' = roles r \<and> revoked r \<subseteq> revoked r'"
    and WriteRole: "ob_WriteRole bao n ps ttl maxttl r = (e, r') \<Longrightarrow> managed_name n \<Longrightarrow>
      (roles r' = (roles r)(n \<mapsto> granted ps ttl maxttl) \<or> e \<noteq> None \<and> roles r' = roles r)
      \<and> policies r' = policies r \<and> revoked r \<subseteq> revoked r'"
    and DeleteRole: "ob_DeleteRole bao n r = (e, r') \<Longrightarrow> managed_name n \<Longrightarrow>
      (roles r' = (roles r)(n := None) \<or> e \<noteq> None \<and> roles r' = roles r)
      \<and> policies r' = policies r \<and> revoked r \<subseteq> revoked r'"
    and RevokeAccessor: "ob_RevokeAccessor bao a r = (e, r') \<Longrightarrow>
      (e = None \<longrightarrow> a \<in> revoked r') \<and> policies r' = policies r \<and> roles r' = roles r \<and> revoked r \<subseteq> revoked r'"
    and RoleID: "ob_RoleID bao n r = (i, r') \<Longrightarrow> managed_name n \<Longrightarrow>
      (\<forall>k. i = Inr k \<longrightarrow> roles r n \<noteq> None) \<and> policies r' = policies r \<and> roles r' = roles r \<and> revoked r \<subseteq> revoked r'"
    and WrappedSecretID: "ob_WrappedSecretID bao n ttl md r = (i, r') \<Longrightarrow> managed_name n \<Longrightarrow>
      policies r' = policies r \<and> roles r' = roles r \<and> revoked r \<subseteq> revoked r'"
    and TransitKeyExists: "ob_TransitKeyExists bao n r = (x, r') \<Longrightarrow>
      policies r' = policies r \<and> roles r' = roles r \<and> revoked r \<subseteq> revoked r'"
    and SSHRoleExists: "ob_SSHRoleExists bao n r = (x, r') \<Longrightarrow>
      policies r' = policies r \<and> roles r' = roles r \<and> revoked r \<subseteq> revoked r'"

section \<open>The world\<close>

datatype store_failure = StoreErr store_error | StoreIO

datatype fault = Healthy | Broken | Lost

text \<open>A session with an agent, and the messages written to its connection. The hub names the current session
  of each agent by its position in the list of all sessions, so that a session a newer one replaced is still there.\<close>

datatype sent =
    SentPolicySet OpenBao "msg_Binding list"
  | SentCredential Credential
  | SentAccessorRecorded AccessorRecorded
  | SentResultRecorded ResultRecorded
  | SentUnbind string
  | SentRecreateRequest string

record agentSession =
  as_agent :: string
  as_groups :: "AssignableGroups option"
  as_credentialed :: "(string, string) gomap"
  as_matched :: "string list"
  as_statuses :: "(string, msg_BindingStatus) gomap"
  as_closed :: bool
  as_sent :: "sent list"

record 'r world =
  w_db :: db
  w_bao :: 'r
  w_pending :: bool
  w_faults :: "fault list"
  w_clock :: "nat \<Rightarrow> time"
  w_log :: "Event list"
  w_sessions :: "agentSession list"
  w_hub :: "(string, nat) gomap"
  w_sends :: "bool list"

abbreviation ret :: "'a \<Rightarrow> ('s, 'a) state" where
  "ret \<equiv> State_Monad.return"

definition now_read :: "('r world, time) state" where
  "now_read = State (\<lambda>w. (w_clock w 0, w\<lparr>w_clock := (\<lambda>n. w_clock w (Suc n))\<rparr>))"

definition log_event :: "Event \<Rightarrow> ('r world, unit) state" where
  "log_event event = State (\<lambda>w. ((), w\<lparr>w_log := w_log w @ [event]\<rparr>))"

definition set_pending :: "bool \<Rightarrow> ('r world, unit) state" where
  "set_pending p = State (\<lambda>w. ((), w\<lparr>w_pending := p\<rparr>))"

definition get_pending :: "('r world, bool) state" where
  "get_pending = State (\<lambda>w. (w_pending w, w))"

text \<open>Reading and changing what is beside the database, OpenBao and the flag.\<close>

definition read_rest :: "('r world \<Rightarrow> 'a) \<Rightarrow> ('r world, 'a) state" where
  "read_rest f = State (\<lambda>w. (f w, w))"

definition change_session :: "nat \<Rightarrow> (agentSession \<Rightarrow> agentSession) \<Rightarrow> ('r world, unit) state" where
  "change_session i f = State (\<lambda>w.
     ((), if i < length (w_sessions w) then w\<lparr>w_sessions := (w_sessions w)[i := f (w_sessions w ! i)]\<rparr> else w))"

text \<open>\<^verbatim>\<open>conn.Send\<close>: whether it succeeds is the next element of \<open>w_sends\<close>; beyond the list it does.\<close>

definition session_send :: "nat \<Rightarrow> sent \<Rightarrow> ('r world, bool) state" where
  "session_send i m = State (\<lambda>w.
     let ok = (case w_sends w of [] \<Rightarrow> True | b # _ \<Rightarrow> b) \<and> i < length (w_sessions w);
         w' = w\<lparr>w_sends := tl (w_sends w)\<rparr>
     in (ok, if ok then w'\<lparr>w_sessions := (w_sessions w)[i := (w_sessions w ! i)\<lparr>as_sent := as_sent (w_sessions w ! i) @ [m]\<rparr>]\<rparr> else w'))"

text \<open>The next fault of the database; a call beyond the list is healthy.\<close>

fun next_fault :: "fault list \<Rightarrow> fault" where
  "next_fault [] = Healthy"
| "next_fault (f # fs) = f"

definition store_read :: "(db \<Rightarrow> store_error + 'a) \<Rightarrow> ('r world, store_failure + 'a) state" where
  "store_read f = State (\<lambda>w.
     (if next_fault (w_faults w) = Healthy
      then (case f (w_db w) of Inl e \<Rightarrow> Inl (StoreErr e) | Inr x \<Rightarrow> Inr x)
      else Inl StoreIO,
      w\<lparr>w_faults := tl (w_faults w)\<rparr>))"

definition store_write :: "(db \<Rightarrow> store_error + 'a \<times> db) \<Rightarrow> ('r world, store_failure + 'a) state" where
  "store_write f = State (\<lambda>w.
     let w' = w\<lparr>w_faults := tl (w_faults w)\<rparr>
     in case (next_fault (w_faults w), f (w_db w)) of
          (Healthy, Inl e) \<Rightarrow> (Inl (StoreErr e), w')
        | (Healthy, Inr (x, d)) \<Rightarrow> (Inr x, w'\<lparr>w_db := d\<rparr>)
        | (Lost, Inr (x, d)) \<Rightarrow> (Inl StoreIO, w'\<lparr>w_db := d\<rparr>)
        | _ \<Rightarrow> (Inl StoreIO, w'))"

text \<open>A statement that gives no value, and one that cannot violate a constraint.\<close>

definition store_exec :: "(db \<Rightarrow> store_error + db) \<Rightarrow> ('r world, store_failure option) state" where
  "store_exec f = do {
     x \<leftarrow> store_write (\<lambda>d. map_sum id (Pair ()) (f d));
     ret (case x of Inl e \<Rightarrow> Some e | Inr _ \<Rightarrow> None)
   }"

definition store_set :: "(db \<Rightarrow> db) \<Rightarrow> ('r world, store_failure option) state" where
  "store_set f = store_exec (\<lambda>d. Inr (f d))"

definition bao_call :: "('r \<Rightarrow> 'a \<times> 'r) \<Rightarrow> ('r world, 'a) state" where
  "bao_call f = State (\<lambda>w. case f (w_bao w) of (x, r) \<Rightarrow> (x, w\<lparr>w_bao := r\<rparr>))"

text \<open>The two shapes of Go's error handling: \<^verbatim>\<open>x, err := m; if err != nil { h }; k\<close> and
  \<^verbatim>\<open>if err := m; err != nil { h }; k\<close>.\<close>

definition attempt :: "('s, 'e + 'a) state \<Rightarrow> ('e \<Rightarrow> ('s, 'b) state) \<Rightarrow> ('a \<Rightarrow> ('s, 'b) state) \<Rightarrow> ('s, 'b) state" where
  "attempt m h k = do { x \<leftarrow> m; case x of Inl e \<Rightarrow> h e | Inr a \<Rightarrow> k a }"

definition check :: "('s, 'e option) state \<Rightarrow> ('e \<Rightarrow> ('s, 'b) state) \<Rightarrow> ('s, 'b) state \<Rightarrow> ('s, 'b) state" where
  "check m h k = do { x \<leftarrow> m; case x of Some e \<Rightarrow> h e | None \<Rightarrow> k }"

section \<open>Triples\<close>

text \<open>
  \<open>triple L P m Q\<close>: from a world whose database, OpenBao and flag satisfy \<open>P\<close>, the program \<open>m\<close> ends in one
  that satisfies \<open>Q\<close> of its result. With \<open>L\<close> false, no answer of the database is lost.
\<close>

type_synonym 'r assertion = "db \<Rightarrow> 'r \<Rightarrow> bool \<Rightarrow> bool"

definition holds_in :: "bool \<Rightarrow> 'r assertion \<Rightarrow> 'r world \<Rightarrow> bool" where
  "holds_in L P w \<longleftrightarrow> (L \<or> Lost \<notin> set (w_faults w)) \<and> P (w_db w) (w_bao w) (w_pending w)"

definition triple :: "bool \<Rightarrow> 'r assertion \<Rightarrow> ('r world, 'a) state \<Rightarrow> ('a \<Rightarrow> 'r assertion) \<Rightarrow> bool" where
  "triple L P m Q \<longleftrightarrow> (\<forall>w x w'. holds_in L P w \<longrightarrow> run_state m w = (x, w') \<longrightarrow> holds_in L (Q x) w')"

lemma tripleI: "(\<And>w x w'. holds_in L P w \<Longrightarrow> run_state m w = (x, w') \<Longrightarrow> holds_in L (Q x) w') \<Longrightarrow> triple L P m Q"
  by (auto simp: triple_def)

lemma tripleD: "triple L P m Q \<Longrightarrow> holds_in L P w \<Longrightarrow> run_state m w = (x, w') \<Longrightarrow> holds_in L (Q x) w'"
  by (auto simp: triple_def)

lemma triple_pre: "triple L P' m Q \<Longrightarrow> (\<And>d r p. P d r p \<Longrightarrow> P' d r p) \<Longrightarrow> triple L P m Q"
  by (auto simp: triple_def holds_in_def)

lemma triple_post: "triple L P m Q' \<Longrightarrow> (\<And>x d r p. Q' x d r p \<Longrightarrow> Q x d r p) \<Longrightarrow> triple L P m Q"
  unfolding triple_def holds_in_def by blast

lemma triple_conseq:
  "triple L P' m Q' \<Longrightarrow> (\<And>d r p. P d r p \<Longrightarrow> P' d r p) \<Longrightarrow> (\<And>x d r p. Q' x d r p \<Longrightarrow> Q x d r p) \<Longrightarrow> triple L P m Q"
  by (rule triple_post[OF triple_pre])

lemma triple_ret: "(\<And>d r p. P d r p \<Longrightarrow> Q x d r p) \<Longrightarrow> triple L P (ret x) Q"
  by (auto simp: triple_def holds_in_def)

lemma triple_bind: "triple L P m R \<Longrightarrow> (\<And>x. triple L (R x) (k x) Q) \<Longrightarrow> triple L P (State_Monad.bind m k) Q"
  unfolding triple_def by (fastforce split: prod.splits)

lemma triple_if: "(c \<Longrightarrow> triple L P m Q) \<Longrightarrow> (\<not> c \<Longrightarrow> triple L P m' Q) \<Longrightarrow> triple L P (if c then m else m') Q"
  by simp

lemma triple_False: "triple L (\<lambda>d r p. False) m Q"
  by (simp add: triple_def holds_in_def)

lemma triple_fact: "(c \<Longrightarrow> triple L P m Q) \<Longrightarrow> (\<And>d r p. P d r p \<Longrightarrow> c) \<Longrightarrow> triple L P m Q"
  unfolding triple_def holds_in_def by blast

lemma triple_ex: "(\<And>x. triple L (P x) m Q) \<Longrightarrow> triple L (\<lambda>d r p. \<exists>x. P x d r p) m Q"
  unfolding triple_def holds_in_def by blast

lemma triple_attempt:
  "triple L P m R \<Longrightarrow> (\<And>e. triple L (R (Inl e)) (h e) Q) \<Longrightarrow> (\<And>x. triple L (R (Inr x)) (k x) Q) \<Longrightarrow> triple L P (attempt m h k) Q"
  unfolding attempt_def by (rule triple_bind) (auto split: sum.splits)

lemma triple_check:
  "triple L P m R \<Longrightarrow> (\<And>e. triple L (R (Some e)) (h e) Q) \<Longrightarrow> triple L (R None) k Q \<Longrightarrow> triple L P (check m h k) Q"
  unfolding check_def by (rule triple_bind) (auto split: option.splits)

lemma triple_now: "(\<And>t. triple L P (k t) Q) \<Longrightarrow> triple L P (State_Monad.bind now_read k) Q"
  by (rule triple_bind[where R = "\<lambda>_. P"]) (auto simp: triple_def holds_in_def now_read_def)

lemma triple_log: "triple L P (log_event e) (\<lambda>_. P)"
  by (auto simp: triple_def holds_in_def log_event_def)

lemma triple_read_rest: "(\<And>x. triple L P (k x) Q) \<Longrightarrow> triple L P (State_Monad.bind (read_rest f) k) Q"
  by (rule triple_bind[where R = "\<lambda>_. P"]) (auto simp: triple_def holds_in_def read_rest_def)

lemma triple_change_session: "triple L P (change_session i f) (\<lambda>_. P)"
  by (auto simp: triple_def holds_in_def change_session_def)

lemma triple_session_send: "triple L P (session_send i m) (\<lambda>_. P)"
  by (auto simp: triple_def holds_in_def session_send_def Let_def)

lemma triple_set_pending: "triple L P (set_pending b) (\<lambda>_ d r p. p = b \<and> (\<exists>q. P d r q))"
  by (auto simp: triple_def holds_in_def set_pending_def)

lemma triple_get_pending: "triple L P (get_pending) (\<lambda>b d r p. P d r p \<and> p = b)"
  by (auto simp: triple_def holds_in_def get_pending_def)

lemma Lost_tl: "Lost \<notin> set fs \<Longrightarrow> Lost \<notin> set (tl fs)"
  by (cases fs) auto

lemma next_fault_mem: "next_fault fs = Lost \<Longrightarrow> Lost \<in> set fs"
  by (cases fs) auto

lemma triple_store_read:
  "triple L P (store_read f) (\<lambda>x d r p. P d r p \<and> (\<forall>y. x = Inr y \<longrightarrow> f d = Inr y) \<and> (\<forall>e. x = Inl (StoreErr e) \<longrightarrow> f d = Inl e))"
  unfolding triple_def holds_in_def store_read_def by (auto dest: Lost_tl split: sum.splits if_splits)

lemma triple_store_write:
  "triple L P (store_write f) (\<lambda>x d r p.
     case x of Inr y \<Rightarrow> \<exists>d0. P d0 r p \<and> f d0 = Inr (y, d)
     | Inl e \<Rightarrow> P d r p \<and> (\<forall>e'. e = StoreErr e' \<longrightarrow> f d = Inl e') \<or> L \<and> e = StoreIO \<and> (\<exists>d0 y. P d0 r p \<and> f d0 = Inr (y, d)))"
  (is "triple L P (store_write f) ?Q")
proof (rule tripleI)
  fix w :: "'a world" and x w'
  assume h: "holds_in L P w" and run: "run_state (store_write f) w = (x, w')"
  let ?w = "w\<lparr>w_faults := tl (w_faults w)\<rparr>"
  have faults: "L \<or> Lost \<notin> set (tl (w_faults w))" "next_fault (w_faults w) = Lost \<Longrightarrow> L"
    using h Lost_tl next_fault_mem by (auto simp: holds_in_def)
  consider (same) e where "x = Inl e" "w' = ?w" "\<forall>e'. e = StoreErr e' \<longrightarrow> f (w_db w) = Inl e'"
    | (lost) y d where "x = Inl StoreIO" "w' = ?w\<lparr>w_db := d\<rparr>" "f (w_db w) = Inr (y, d)" "next_fault (w_faults w) = Lost"
    | (good) y d where "x = Inr y" "w' = ?w\<lparr>w_db := d\<rparr>" "f (w_db w) = Inr (y, d)"
    using run by (cases "next_fault (w_faults w)"; cases "f (w_db w)") (auto simp: store_write_def Let_def split: prod.splits)
  then show "holds_in L (?Q x) w'"
    using h faults by cases (auto simp: holds_in_def)
qed

lemma triple_store_exec:
  "triple L P (store_exec f) (\<lambda>x d r p.
     case x of None \<Rightarrow> \<exists>d0. P d0 r p \<and> f d0 = Inr d
     | Some e \<Rightarrow> P d r p \<and> (\<forall>e'. e = StoreErr e' \<longrightarrow> f d = Inl e') \<or> L \<and> e = StoreIO \<and> (\<exists>d0. P d0 r p \<and> f d0 = Inr d))"
proof -
  have f: "map_sum id (Pair ()) (f d0) = Inr ((), d) \<longleftrightarrow> f d0 = Inr d" "map_sum id (Pair ()) (f d0) = Inl e \<longleftrightarrow> f d0 = Inl e" for d0 d e
    by (cases "f d0"; auto)+
  show ?thesis
    unfolding store_exec_def
    by (rule triple_bind[OF triple_store_write triple_ret]) (auto simp: f split: sum.splits)
qed

lemma triple_store_set:
  "triple L P (store_set f) (\<lambda>x d r p. if x = None then \<exists>d0. P d0 r p \<and> d = f d0 else P d r p \<or> (\<exists>d0. P d0 r p \<and> d = f d0))"
  unfolding store_set_def by (rule triple_post[OF triple_store_exec]) (auto split: option.splits)

lemma triple_bao_call:
  "triple L P (bao_call f) (\<lambda>x d r p. \<exists>r0. P d r0 p \<and> f r0 = (x, r))"
  by (auto simp: triple_def holds_in_def bao_call_def split: prod.splits)

end
