(* ===== verification/Controller_Operations.thy ===== *)
theory Controller_Operations
  imports Controller_State
begin

text \<open>
  The controller's operations on policies and bindings: \<^verbatim>\<open>operations.go\<close>, \<^verbatim>\<open>policy_delete.go\<close>,
  \<^verbatim>\<open>policy_rename.go\<close> and \<^verbatim>\<open>policy_retirement.go\<close>, all under
  \<^verbatim>\<open>internal/controller\<close>; their exported wrappers are in \<open>Controller_Sessions\<close>. The operations that hold \<^verbatim>\<open>mutationMu\<close> are whole programs here, since no two of
  them run at once.

  Parameters are the HCL library, the digests \<^verbatim>\<open>Binding.Assignment\<close> and \<^verbatim>\<open>Effective.Identity\<close>, whether a
  policy set fits the wire's bound (\<^verbatim>\<open>protocol.Encode\<close>), \<^verbatim>\<open>reflect.DeepEqual\<close> on two documents and the random
  part of a new binding's identifier. The text of an error is named by a constructor of \<open>op_message\<close>.
\<close>

section \<open>Errors\<close>

datatype op_message =
    HostnameTaken | NoPendingAgent | DecisionNotRecorded
  | PolicyDoesNotExist string | SelectionInvalid error | WithBinding op_message Key string
  | MembershipInconsistent
  | PolicyInvalid error | TransitKeyUnconfirmed string | SSHRoleUnconfirmed string
  | StoredPolicyUnreadable | BindingsUnreadable | HCLRejected
  | PublicationUncertain | PublicationRolledBack | RecordRestorePending | RecordRolledBack | SavedTransitionPending
  | ContainerKeyInvalid | AgentNotApproved | GroupNotAssignable "32 word" | KeyAlreadyBound | BindingSavedPending
  | BindingMissing | BindingChanged | BindingNotUpdated | TransitionPending
  | BindingNotRemoved | TokenUnreported | TokenNotRevoked | RoleNotDeleted
  | AgentNotConnected
  | EffectiveTooLarge | PolicySetTooLarge
  | PolicyMissingMessage | RenameMissingMessage | PolicyBoundMessage | DeletionUncertain | DeletionRefused
  | DeletionUnconfirmed | DeletionRestorePending | DeletionKept
  | NewNameInvalid | PolicyChangedMeanwhile | NameInUse string | RenameNotRecorded | RenameHCLRejected
  | RenameLeftovers | RenameNothingChanged | RenameUnconfirmed | RenameNotCommittedLeftovers | RenameNotCommitted
  | RenamedTransitionPending | RenamedOldStays

record OperationError =
  oe_Message :: op_message
  oe_Code :: string
  oe_TokenLive :: bool
  oe_PolicyMissing :: bool
  oe_PolicyBound :: bool
  oe_Part :: Part

datatype ctl_error =
    OpErr OperationError
  | StoreFail store_failure
  | BaoFail Category
  | StillPresent string
  | Joined "ctl_error list"

definition operationError :: "string \<Rightarrow> op_message \<Rightarrow> ctl_error" where
  "operationError code m =
     OpErr \<lparr>oe_Message = m, oe_Code = code, oe_TokenLive = False, oe_PolicyMissing = False, oe_PolicyBound = False, oe_Part = NoPart\<rparr>"

definition partOperationError :: "Part \<Rightarrow> string \<Rightarrow> op_message \<Rightarrow> ctl_error" where
  "partOperationError part code m =
     OpErr \<lparr>oe_Message = m, oe_Code = code, oe_TokenLive = False, oe_PolicyMissing = False, oe_PolicyBound = False, oe_Part = part\<rparr>"

definition ErrorPolicyDenied :: string where "ErrorPolicyDenied = ''policy-denied''"
definition ErrorNotBound :: string where "ErrorNotBound = ''not-bound''"
definition ErrorInternal :: string where "ErrorInternal = ''internal''"
definition ErrorControllerUnavailable :: string where "ErrorControllerUnavailable = ''controller-unavailable''"

text \<open>\<^verbatim>\<open>errors.As\<close> for a categorized error, which looks through joined errors in order.\<close>

fun find_category :: "ctl_error \<Rightarrow> Category option" where
  "find_category (BaoFail c) = Some c"
| "find_category (Joined es) =
     (case concat (map (\<lambda>e. case find_category e of None \<Rightarrow> [] | Some c \<Rightarrow> [c]) es) of [] \<Rightarrow> None | c # _ \<Rightarrow> Some c)"
| "find_category _ = None"

definition CategoryOf :: "ctl_error \<Rightarrow> Category" where
  "CategoryOf err = (case find_category err of None \<Rightarrow> CategoryUnavailable | Some c \<Rightarrow> c)"

definition openBaoError :: "ctl_error \<Rightarrow> string" where
  "openBaoError err =
     (case CategoryOf err of
        CategoryDenied \<Rightarrow> ''openbao-denied''
      | CategoryTimeout \<Rightarrow> ''openbao-timeout''
      | CategoryInvalid \<Rightarrow> ErrorPolicyDenied
      | CategoryNotFound \<Rightarrow> ErrorPolicyDenied
      | CategoryUnavailable \<Rightarrow> ''openbao-unavailable'')"

definition outcomeFor :: "string \<Rightarrow> string" where
  "outcomeFor code =
     (if code = ErrorNone then OutcomeOK
      else if code \<in> set [''openbao-denied'', ErrorPolicyDenied, ''operator-not-allowed'', ''recreate-not-allowed'', ''outside-grant'']
      then OutcomeDenied
      else if code = ''openbao-timeout'' then OutcomeTimeout
      else OutcomeFailed)"

fun mutationErrorCode :: "ctl_error option \<Rightarrow> string" where
  "mutationErrorCode None = ErrorNone"
| "mutationErrorCode (Some (OpErr e)) = (if oe_Code e \<noteq> ErrorNone then oe_Code e else ErrorInternal)"
| "mutationErrorCode (Some _) = ErrorInternal"

section \<open>Parameters and events\<close>

record 'r ctl_env =
  ce_bao :: "'r bao"
  ce_hcl :: hcl_lib
  ce_Assignment :: "Binding \<Rightarrow> string"
  ce_Identity :: "Effective \<Rightarrow> string"
  ce_Encode :: "OpenBao \<Rightarrow> msg_Binding list \<Rightarrow> bool"
  ce_DeepEqual :: "Policy \<Rightarrow> Policy \<Rightarrow> bool"
  ce_sha256 :: "string \<Rightarrow> string"
  ce_agentOB :: OpenBao
  ce_AppRole :: string

definition no_event :: Event where
  "no_event =
     \<lparr>ev_Time = zero_time, ev_Operation = [], ev_Outcome = [], ev_Latency = 0, ev_ErrorCode = [], ev_Agent = [], ev_Binding = [],
      ev_ContainerKey = [], ev_Policy = [], ev_NewPolicy = [], ev_Operator = [], ev_Fingerprint = [], ev_Mount = [], ev_Method = []\<rparr>"

definition ctl_record :: "Event \<Rightarrow> ('r world, unit) state" where
  "ctl_record event =
     (if ev_Time event = zero_time then do { t \<leftarrow> now_read; log_event (event\<lparr>ev_Time := t\<rparr>) } else log_event event)"

definition boundedPolicyName :: "string \<Rightarrow> string" where
  "boundedPolicyName name =
     (if length name > 64 \<or> ContainsAny name [CHR 0x00, CHR 0x0A, CHR 0x0D, CHR 0x09] then [] else name)"

fun record_each :: "string list \<Rightarrow> Event \<Rightarrow> ('r world, unit) state" where
  "record_each [] event = ret ()"
| "record_each (name # names) event =
     do { ctl_record (event\<lparr>ev_Policy := boundedPolicyName name\<rparr>); record_each names event }"

definition recordBinding :: "string list \<Rightarrow> Event \<Rightarrow> ('r world, unit) state" where
  "recordBinding names event = (if names = [] then ctl_record event else record_each names event)"

section \<open>Roles\<close>

definition role_safe :: "char \<Rightarrow> bool" where
  "role_safe c = (CHR ''a'' \<le> c \<and> c \<le> CHR ''z'' \<or> CHR ''0'' \<le> c \<and> c \<le> CHR ''9'' \<or> c = CHR ''-'')"

text \<open>The lower case of an ASCII letter; an agent's name is a host name, which holds no other letters.\<close>

definition lower_char :: "char \<Rightarrow> char" where
  "lower_char c = (if CHR ''A'' \<le> c \<and> c \<le> CHR ''Z'' then char_of (of_char c + (32::nat)) else c)"

text \<open>\<^verbatim>\<open>roleNameUnsafe.ReplaceAllString\<close>: each maximal run of unsafe characters becomes one hyphen.\<close>

fun replace_unsafe :: "bool \<Rightarrow> string \<Rightarrow> string" where
  "replace_unsafe inside [] = []"
| "replace_unsafe inside (c # cs) =
     (if role_safe c then c # replace_unsafe False cs
      else if inside then replace_unsafe True cs
      else CHR ''-'' # replace_unsafe True cs)"

definition trim_hyphens :: "string \<Rightarrow> string" where
  "trim_hyphens s = rev (dropWhile (\<lambda>c. c = CHR ''-'') (rev (dropWhile (\<lambda>c. c = CHR ''-'') s)))"

definition ManagedPrefix :: string where
  "ManagedPrefix = ''wyrwood-''"

definition RoleName :: "string \<Rightarrow> string \<Rightarrow> string" where
  "RoleName agent binding =
     ManagedPrefix @ take 60 (trim_hyphens (replace_unsafe False (map lower_char agent))) @ ''-'' @ binding"

section \<open>Composition and the wire bound\<close>

fun compose_sources :: "hcl_lib \<Rightarrow> Policy option \<Rightarrow> string list \<Rightarrow> ('r world, ctl_error + Policy list) state" where
  "compose_sources hcl replacement [] = ret (Inr [])"
| "compose_sources hcl replacement (name # names) =
     (case replacement of
        Some p \<Rightarrow>
          if name = policy_Name p
          then attempt (compose_sources hcl replacement names) (\<lambda>e. ret (Inl e)) (\<lambda>ps. ret (Inr (p # ps)))
          else attempt (store_read (store_Policy hcl name))
                 (\<lambda>_. ret (Inl (partOperationError PartSelection ErrorPolicyDenied (PolicyDoesNotExist (boundedPolicyName name)))))
                 (\<lambda>stored. attempt (compose_sources hcl replacement names) (\<lambda>e. ret (Inl e)) (\<lambda>ps. ret (Inr (stored_Policy stored # ps))))
      | None \<Rightarrow>
          attempt (store_read (store_Policy hcl name))
            (\<lambda>_. ret (Inl (partOperationError PartSelection ErrorPolicyDenied (PolicyDoesNotExist (boundedPolicyName name)))))
            (\<lambda>stored. attempt (compose_sources hcl replacement names) (\<lambda>e. ret (Inl e)) (\<lambda>ps. ret (Inr (stored_Policy stored # ps)))))"

definition compose :: "hcl_lib \<Rightarrow> string list \<Rightarrow> Settings \<Rightarrow> Policy option \<Rightarrow> ('r world, ctl_error + Effective) state" where
  "compose hcl names settings replacement =
     attempt (compose_sources hcl replacement names) (\<lambda>e. ret (Inl e))
       (\<lambda>sources. ret (case Compose hcl sources settings of
          Inl err \<Rightarrow> Inl (partOperationError (PartOf err) ErrorPolicyDenied (SelectionInvalid err))
        | Inr effective \<Rightarrow> Inr effective))"

record Selection =
  sel_Policies :: "string list"
  sel_Settings :: Settings
  sel_Revision :: int

definition PreviewBinding :: "'r ctl_env \<Rightarrow> Selection \<Rightarrow> ('r world, ctl_error + Effective) state" where
  "PreviewBinding env request = compose (ce_hcl env) (sel_Policies request) (sel_Settings request) None"

definition encodes :: "'r ctl_env \<Rightarrow> Binding list \<Rightarrow> bool" where
  "encodes env bindings = ce_Encode env (ce_agentOB env) (map (wireBinding (ce_Assignment env)) bindings)"

fun replace_binding :: "Binding \<Rightarrow> Binding list \<Rightarrow> Binding list" where
  "replace_binding change bindings =
     (if bind_ID change \<in> bind_ID ` set bindings
      then map (\<lambda>b. if bind_ID b = bind_ID change then change else b) bindings
      else bindings @ [change])"

fun preflight_agents :: "'r ctl_env \<Rightarrow> (string, Binding list) gomap \<Rightarrow> ('r world, ctl_error option) state" where
  "preflight_agents env [] = ret None"
| "preflight_agents env ((agent, changes) # rest) =
     attempt (store_read (\<lambda>d. Inr (Bindings agent d)))
       (\<lambda>_. ret (Some (operationError ErrorInternal BindingsUnreadable)))
       (\<lambda>bindings. attempt (store_read (\<lambda>d. Inr (Inventory agent d)))
          (\<lambda>_. preflight_agents env rest)
          (\<lambda>inventory.
             if encodes env (CarriedBindings (fst inventory) (fold replace_binding changes bindings))
             then preflight_agents env rest
             else ret (Some (operationError ErrorPolicyDenied PolicySetTooLarge))))"

definition by_agent :: "Binding list \<Rightarrow> (string, Binding list) gomap" where
  "by_agent candidates =
     fold (\<lambda>b m. AList.update (bind_Agent b) ((case map_of m (bind_Agent b) of None \<Rightarrow> [] | Some bs \<Rightarrow> bs) @ [b]) m) candidates []"

definition preflight :: "'r ctl_env \<Rightarrow> Binding list \<Rightarrow> ('r world, ctl_error option) state" where
  "preflight env candidates =
     (if list_ex (\<lambda>b. \<not> encodes env [b]) candidates
      then ret (Some (operationError ErrorPolicyDenied EffectiveTooLarge))
      else preflight_agents env (by_agent candidates))"

section \<open>Applying a binding\<close>

definition bao_check :: "('r \<Rightarrow> Category option \<times> 'r) \<Rightarrow> ('r world, ctl_error option) state" where
  "bao_check f = do { x \<leftarrow> bao_call f; ret (map_option BaoFail x) }"

definition store_check :: "('r world, store_failure option) state \<Rightarrow> ('r world, ctl_error option) state" where
  "store_check m = do { x \<leftarrow> m; ret (map_option StoreFail x) }"

definition revoke_and_mark :: "'r ctl_env \<Rightarrow> Binding \<Rightarrow> string \<Rightarrow> ('r world, ctl_error option) state" where
  "revoke_and_mark env b accessor =
     check (if accessor \<noteq> [] then bao_check (ob_RevokeAccessor (ce_bao env) accessor) else ret None)
       (\<lambda>e. ret (Some e))
       (store_check (store_set (MarkBindingApplied (bind_ID b))))"

definition applyBinding :: "'r ctl_env \<Rightarrow> Binding \<Rightarrow> ('r world, ctl_error option) state" where
  "applyBinding env b =
     (if bind_Policies b \<noteq> Names (bind_Effective b)
      then ret (Some (operationError ErrorPolicyDenied MembershipInconsistent))
      else if bind_Applied b then ret None
      else
        check (if settings_Values (bind_Settings b) \<noteq> [] then bao_check (ob_DeleteRole (ce_bao env) (bind_Role b)) else ret None)
          (\<lambda>e. ret (Some e))
        (check (bao_check (ob_WriteRole (ce_bao env) (bind_Role b) (OpenBaoPolicies (bind_Effective b))
                 (TTL (bind_Settings b)) (MaxTTL (bind_Settings b))))
          (\<lambda>e. ret (Some e))
        (attempt (store_read (TokenAccessor_of (bind_ID b)))
          (\<lambda>e. if e = StoreErr ErrNotFound then revoke_and_mark env b [] else ret (Some (StoreFail e)))
          (revoke_and_mark env b))))"

text \<open>Applying each binding of a list, with the errors of those that failed.\<close>

fun apply_all :: "'r ctl_env \<Rightarrow> Binding list \<Rightarrow> ('r world, (Binding \<times> ctl_error option) list) state" where
  "apply_all env [] = ret []"
| "apply_all env (b # bs) = do { e \<leftarrow> applyBinding env b; rest \<leftarrow> apply_all env bs; ret ((b, e) # rest) }"

definition failures_of :: "(Binding \<times> ctl_error option) list \<Rightarrow> ctl_error list" where
  "failures_of results = List.map_filter snd results"

definition Join_errors :: "ctl_error list \<Rightarrow> ctl_error option" where
  "Join_errors es = (if es = [] then None else Some (Joined es))"

section \<open>Publishing policies\<close>

fun publish_all :: "'r ctl_env \<Rightarrow> StoredPolicy list \<Rightarrow> ('r world, ctl_error option) state" where
  "publish_all env [] = ret None"
| "publish_all env (stored # rest) =
     check (bao_check (ob_WritePolicy (ce_bao env) (OpenBaoPolicyName (stored_Policy stored)) (PublishedHCL (ce_hcl env) (stored_Policy stored))))
       (\<lambda>e. ret (Some e)) (publish_all env rest)"

definition syncPolicies :: "'r ctl_env \<Rightarrow> ('r world, ctl_error option) state" where
  "syncPolicies env = do {
     set_pending True;
     attempt (store_read (store_Policies (ce_hcl env))) (\<lambda>e. ret (Some (StoreFail e)))
       (\<lambda>documents. check (publish_all env documents) (\<lambda>e. ret (Some e)) (do { set_pending False; ret None }))
   }"

definition restorePolicy :: "'r ctl_env \<Rightarrow> Policy \<Rightarrow> Policy option \<Rightarrow> ('r world, ctl_error option) state" where
  "restorePolicy env attempted previous =
     check (case previous of
              Some p \<Rightarrow> bao_check (ob_WritePolicy (ce_bao env) (OpenBaoPolicyName p) (PublishedHCL (ce_hcl env) p))
            | None \<Rightarrow> bao_check (ob_DeletePolicy (ce_bao env) (OpenBaoPolicyName attempted)))
       (\<lambda>e. do { set_pending True; ret (Some e) }) (ret None)"

definition reconcileBindings :: "'r ctl_env \<Rightarrow> ('r world, ctl_error option) state" where
  "reconcileBindings env =
     check (syncPolicies env) (\<lambda>e. ret (Some e))
       (attempt (store_read (\<lambda>d. Inr (Bindings [] d)))
          (\<lambda>_. ret (Some (operationError ErrorInternal BindingsUnreadable)))
          (\<lambda>bindings. do { results \<leftarrow> apply_all env bindings; ret (Join_errors (failures_of results)) }))"

section \<open>Saving a policy\<close>

text \<open>The result of a policy operation: the policy, the agents to push to, and the error.\<close>

type_synonym policy_result = "Policy option \<times> string list \<times> ctl_error option"

definition policy_fail :: "string list \<Rightarrow> ctl_error \<Rightarrow> ('r world, policy_result) state" where
  "policy_fail agents e = ret (None, agents, Some e)"

fun confirm_names :: "(string \<Rightarrow> 'r \<Rightarrow> (Category + bool) \<times> 'r) \<Rightarrow> (string \<Rightarrow> op_message) \<Rightarrow> string list \<Rightarrow> ('r world, ctl_error option) state" where
  "confirm_names exists unconfirmed [] = ret None"
| "confirm_names exists unconfirmed (name # names) = do {
     x \<leftarrow> bao_call (exists name);
     if x = Inr True then confirm_names exists unconfirmed names
     else ret (Some (partOperationError PartSSH ErrorPolicyDenied (unconfirmed name)))
   }"

fun add_binding_note :: "Binding \<Rightarrow> ctl_error \<Rightarrow> ctl_error" where
  "add_binding_note b (OpErr e) = OpErr (e\<lparr>oe_Message := WithBinding (oe_Message e) (bind_Key b) (bind_Agent b)\<rparr>)"
| "add_binding_note b e = e"

text \<open>The next assignment of each binding that selects the policy.\<close>

fun recompose_saved :: "'r ctl_env \<Rightarrow> Policy \<Rightarrow> Binding list \<Rightarrow> ('r world, ctl_error + Binding list) state" where
  "recompose_saved env document [] = ret (Inr [])"
| "recompose_saved env document (b # bs) =
     (if \<not> HasPolicy b (policy_Name document) then recompose_saved env document bs
      else attempt (compose (ce_hcl env) (bind_Policies b) (bind_Settings b) (Some document))
        (\<lambda>e. ret (Inl (add_binding_note b e)))
        (\<lambda>effective. attempt (recompose_saved env document bs) (\<lambda>e. ret (Inl e))
           (\<lambda>rest. ret (Inr (b\<lparr>bind_Effective := effective, bind_Revision := bind_Revision b + 1, bind_Applied := False\<rparr> # rest)))))"

text \<open>\<open>old\<close> is the stored policy of this name, if there is one.\<close>

definition publish_saved :: "'r ctl_env \<Rightarrow> Policy \<Rightarrow> Policy option \<Rightarrow> Binding list \<Rightarrow> string \<Rightarrow> ('r world, policy_result) state" where
  "publish_saved env document old affected operator = do {
     e \<leftarrow> bao_call (ob_WritePolicy (ce_bao env) (OpenBaoPolicyName document) (PublishedHCL (ce_hcl env) document));
     case e of
       Some category \<Rightarrow>
         if category = CategoryInvalid then policy_fail [] (partOperationError PartOpenBao ErrorPolicyDenied HCLRejected)
         else check (restorePolicy env document old)
           (\<lambda>_. policy_fail [] (operationError ErrorPolicyDenied PublicationUncertain))
           (policy_fail [] (operationError ErrorPolicyDenied PublicationRolledBack))
     | None \<Rightarrow> do {
         t \<leftarrow> now_read;
         attempt (store_write (SavePolicyBindings document affected operator t))
           (\<lambda>_. check (restorePolicy env document old)
              (\<lambda>_. policy_fail [] (operationError ErrorPolicyDenied RecordRestorePending))
              (policy_fail [] (operationError ErrorPolicyDenied RecordRolledBack)))
           (\<lambda>saved. do {
              results \<leftarrow> apply_all env affected;
              ret (Some saved, map bind_Agent affected,
                if failures_of results = [] then None
                else Some (operationError (openBaoError (last (failures_of results))) SavedTransitionPending))
            })
       }
   }"

definition save_document :: "'r ctl_env \<Rightarrow> Policy \<Rightarrow> Policy option \<Rightarrow> string \<Rightarrow> ('r world, policy_result) state" where
  "save_document env document old operator =
     attempt (store_read (\<lambda>d. Inr (Bindings [] d)))
       (\<lambda>_. policy_fail [] (operationError ErrorPolicyDenied BindingsUnreadable))
       (\<lambda>bindings. attempt (recompose_saved env document bindings) (policy_fail [])
          (\<lambda>affected. check (preflight env affected) (policy_fail [])
             (publish_saved env document old affected operator)))"

definition savePolicy :: "'r ctl_env \<Rightarrow> Policy \<Rightarrow> string \<Rightarrow> ('r world, policy_result) state" where
  "savePolicy env document operator =
     (case Policy_Validate (ce_hcl env) document of
        Some err \<Rightarrow> policy_fail [] (partOperationError (PartOf err) ErrorPolicyDenied (PolicyInvalid err))
      | None \<Rightarrow>
          check (confirm_names (ob_TransitKeyExists (ce_bao env)) TransitKeyUnconfirmed (TransitKeys document)) (policy_fail [])
         (check (confirm_names (ob_SSHRoleExists (ce_bao env)) SSHRoleUnconfirmed (CARoles document)) (policy_fail [])
         (attempt (store_read (store_Policy (ce_hcl env) (policy_Name document)))
           (\<lambda>e. if e \<noteq> StoreErr ErrNotFound then policy_fail [] (operationError ErrorPolicyDenied StoredPolicyUnreadable)
                else attempt (store_read (\<lambda>d. Inr (NextPolicyGeneration (policy_Name document) d)))
                  (\<lambda>_. policy_fail [] (operationError ErrorPolicyDenied StoredPolicyUnreadable))
                  (\<lambda>next_generation.
                     save_document env (document\<lparr>policy_Generation := next_generation, policy_Revision := 1\<rparr>) None operator))
           (\<lambda>old.
              let document = document\<lparr>policy_Generation := policy_Generation (stored_Policy old)\<rparr>
              in if ce_DeepEqual env ((Policy_Clone (stored_Policy old))\<lparr>policy_Revision := 0\<rparr>) ((Policy_Clone document)\<lparr>policy_Revision := 0\<rparr>)
                 then ret (Some (stored_Policy old), [], None)
                 else save_document env (document\<lparr>policy_Revision := policy_Revision (stored_Policy old) + 1\<rparr>)
                        (Some (stored_Policy old)) operator))))"

section \<open>Creating, changing and deleting a binding\<close>

type_synonym binding_result = "Binding option \<times> ctl_error option"

definition validateAccessGroup :: "AssignableGroups option \<Rightarrow> 32 word option \<Rightarrow> ctl_error option" where
  "validateAccessGroup groups wanted =
     (case (wanted, groups) of
        (Some gid, Some reported) \<Rightarrow>
          if Allows reported gid then None else Some (partOperationError PartSettings ErrorPolicyDenied (GroupNotAssignable gid))
      | _ \<Rightarrow> None)"

definition AssignableGroups_of :: "string \<Rightarrow> 'r world \<Rightarrow> AssignableGroups option" where
  "AssignableGroups_of agent w =
     (case map_of (w_hub w) agent of None \<Rightarrow> None | Some i \<Rightarrow> as_groups (w_sessions w ! i))"

definition new_binding :: "string \<Rightarrow> string \<Rightarrow> Key \<Rightarrow> Effective \<Rightarrow> string \<Rightarrow> time \<Rightarrow> Binding" where
  "new_binding bid agent key effective operator t =
     \<lparr>bind_ID = bid, bind_Agent = agent, bind_Key = key, bind_Policies = Names effective, bind_Settings = eff_Settings effective,
      bind_Revision = 1, bind_Effective = effective, bind_Applied = False, bind_Role = RoleName agent bid,
      bind_CreatedAt = t, bind_CreatedBy = operator\<rparr>"

text \<open>\<open>random\<close> is the eight bytes that \<^verbatim>\<open>NewID\<close> draws.\<close>

definition NewID :: "string \<Rightarrow> string \<Rightarrow> string" where
  "NewID prefix random = prefix @ EncodeToString random"

definition createBinding :: "'r ctl_env \<Rightarrow> string \<Rightarrow> string \<Rightarrow> Key \<Rightarrow> Selection \<Rightarrow> string \<Rightarrow> ('r world, binding_result) state" where
  "createBinding env random agent key request operator =
     (if Key_Validate key \<noteq> None then ret (None, Some (partOperationError PartKey ErrorPolicyDenied ContainerKeyInvalid))
      else
        attempt (store_read (ApprovedAgent agent)) (\<lambda>_. ret (None, Some (operationError ErrorNotBound AgentNotApproved)))
       (\<lambda>_. do {
          groups \<leftarrow> read_rest (AssignableGroups_of agent);
          case validateAccessGroup groups (settings_AccessGroup (sel_Settings request)) of
            Some e \<Rightarrow> ret (None, Some e)
          | None \<Rightarrow>
              attempt (compose (ce_hcl env) (sel_Policies request) (sel_Settings request) None) (\<lambda>e. ret (None, Some e))
             (\<lambda>effective. do {
                t \<leftarrow> now_read;
                let b = new_binding (NewID ''b-'' random) agent key effective operator t;
                check (preflight env [b]) (\<lambda>e. ret (None, Some e))
               (check (store_exec (CreateBinding b)) (\<lambda>_. ret (None, Some (operationError ErrorPolicyDenied KeyAlreadyBound)))
               (check (applyBinding env b)
                  (\<lambda>e. ret (Some b, Some (operationError (openBaoError e) BindingSavedPending)))
                  (ret (Some (b\<lparr>bind_Applied := True\<rparr>), None))))
              })
        }))"

definition changeBinding :: "'r ctl_env \<Rightarrow> string \<Rightarrow> Selection \<Rightarrow> ('r world, binding_result) state" where
  "changeBinding env bid request =
     attempt (store_read (store_Binding bid)) (\<lambda>_. ret (None, Some (operationError ErrorNotBound BindingMissing)))
    (\<lambda>b. if sel_Revision request \<noteq> bind_Revision b
         then ret (Some b, Some (operationError ErrorPolicyDenied BindingChanged))
         else do {
           groups \<leftarrow> read_rest (AssignableGroups_of (bind_Agent b));
           case validateAccessGroup groups (settings_AccessGroup (sel_Settings request)) of
             Some e \<Rightarrow> ret (Some b, Some e)
           | None \<Rightarrow>
               attempt (compose (ce_hcl env) (sel_Policies request) (sel_Settings request) None) (\<lambda>e. ret (Some b, Some e))
              (\<lambda>effective.
                 if ce_Identity env effective = ce_Identity env (bind_Effective b) then ret (Some b, None)
                 else
                   let b = b\<lparr>bind_Policies := Names effective, bind_Settings := eff_Settings effective, bind_Effective := effective,
                             bind_Revision := bind_Revision b + 1, bind_Applied := False\<rparr>
                   in check (preflight env [b]) (\<lambda>e. ret (Some b, Some e))
                     (check (store_exec (ChangeBinding b)) (\<lambda>_. ret (Some b, Some (operationError ErrorInternal BindingNotUpdated)))
                     (check (applyBinding env b)
                        (\<lambda>e. ret (Some b, Some (operationError (openBaoError e) TransitionPending)))
                        (ret (Some b, None)))))
         })"

text \<open>What deleting reports, from the code of the role's and of the token's removal.\<close>

definition delete_report :: "bool \<Rightarrow> string \<Rightarrow> string \<Rightarrow> string \<times> ctl_error option" where
  "delete_report retire_failed roleCode tokenCode =
     (let code = (if retire_failed then ErrorInternal else if tokenCode \<noteq> [] then tokenCode else roleCode);
          live = (\<lambda>m. OpErr \<lparr>oe_Message = m, oe_Code = code, oe_TokenLive = True, oe_PolicyMissing = False, oe_PolicyBound = False, oe_Part = NoPart\<rparr>)
      in (code,
          if code = ErrorInternal then Some (operationError code BindingNotRemoved)
          else if code = ErrorNone then None
          else if tokenCode = ErrorControllerUnavailable then Some (live TokenUnreported)
          else if tokenCode \<noteq> [] then Some (live TokenNotRevoked)
          else Some (operationError code RoleNotDeleted)))"

definition deleteBinding :: "'r ctl_env \<Rightarrow> string \<Rightarrow> string \<Rightarrow> bool \<Rightarrow> ('r world, ctl_error option) state" where
  "deleteBinding env bid operator connected = do {
     started \<leftarrow> now_read;
     attempt (store_read (store_Binding bid)) (\<lambda>_. ret (Some (operationError ErrorNotBound BindingMissing)))
       (\<lambda>binding. do {
          role_error \<leftarrow> bao_call (ob_DeleteRole (ce_bao env) (bind_Role binding));
          t \<leftarrow> now_read;
          retired \<leftarrow> store_write (RetireBinding bid t);
          tokenCode \<leftarrow> (case retired of
              Inl _ \<Rightarrow> ret []
            | Inr accessor \<Rightarrow>
                if accessor \<noteq> [] then do {
                  e \<leftarrow> bao_call (ob_RevokeAccessor (ce_bao env) accessor);
                  ret (case e of None \<Rightarrow> [] | Some c \<Rightarrow> openBaoError (BaoFail c))
                }
                else ret (if connected then [] else ErrorControllerUnavailable));
          let (code, err) = delete_report (isl retired) (case role_error of None \<Rightarrow> [] | Some c \<Rightarrow> openBaoError (BaoFail c)) tokenCode;
          t2 \<leftarrow> now_read;
          recordBinding (bind_Policies binding)
            (no_event\<lparr>ev_Operation := ''binding-deleted'', ev_Outcome := outcomeFor code, ev_ErrorCode := code, ev_Agent := bind_Agent binding,
               ev_Binding := bind_ID binding,
               ev_ContainerKey := ev_ContainerKey_of (ce_sha256 env) (key_Kind (bind_Key binding)) (key_Value (bind_Key binding)),
               ev_Operator := operator, ev_Latency := word_of_int (t2 - started)\<rparr>);
          ret err
        })
   }"

section \<open>Deleting a policy\<close>

definition policyMissing :: "op_message \<Rightarrow> ctl_error" where
  "policyMissing m =
     OpErr \<lparr>oe_Message = m, oe_Code = ErrorPolicyDenied, oe_TokenLive = False, oe_PolicyMissing = True, oe_PolicyBound = False, oe_Part = NoPart\<rparr>"

definition policyBound :: ctl_error where
  "policyBound =
     OpErr \<lparr>oe_Message = PolicyBoundMessage, oe_Code = ErrorPolicyDenied, oe_TokenLive = False, oe_PolicyMissing = False, oe_PolicyBound = True,
       oe_Part = NoPart\<rparr>"

definition settleFailedPolicyDelete :: "'r ctl_env \<Rightarrow> Policy \<Rightarrow> ('r world, ctl_error option) state" where
  "settleFailedPolicyDelete env stored =
     attempt (store_read (store_Policy (ce_hcl env) (policy_Name stored)))
       (\<lambda>e. if e = StoreErr ErrNotFound then ret None
            else do { set_pending True; ret (Some (operationError ErrorInternal DeletionUnconfirmed)) })
       (\<lambda>_. check (restorePolicy env stored (Some stored))
          (\<lambda>_. ret (Some (operationError ErrorInternal DeletionRestorePending)))
          (ret (Some (operationError ErrorInternal DeletionKept))))"

definition deletePolicy :: "'r ctl_env \<Rightarrow> string \<Rightarrow> ('r world, ctl_error option) state" where
  "deletePolicy env name =
     (if \<not> ValidName name then ret (Some (policyMissing PolicyMissingMessage))
      else
        attempt (store_read (store_Policy (ce_hcl env) name))
          (\<lambda>e. ret (Some (if e = StoreErr ErrNotFound then policyMissing PolicyMissingMessage else operationError ErrorInternal StoredPolicyUnreadable)))
       (\<lambda>stored. attempt (store_read (\<lambda>d. Inr (Bindings [] d)))
          (\<lambda>_. ret (Some (operationError ErrorInternal BindingsUnreadable)))
       (\<lambda>bindings.
          if list_ex (\<lambda>b. HasPolicy b name) bindings then ret (Some policyBound)
          else
            check (bao_check (ob_DeletePolicy (ce_bao env) (OpenBaoPolicyName (stored_Policy stored))))
              (\<lambda>err. check (restorePolicy env (stored_Policy stored) (Some (stored_Policy stored)))
                 (\<lambda>_. ret (Some (operationError (openBaoError err) DeletionUncertain)))
                 (ret (Some (operationError (openBaoError err) DeletionRefused))))
              (check (store_exec (DeletePolicy name))
                 (\<lambda>_. settleFailedPolicyDelete env (stored_Policy stored))
                 (ret None)))))"

section \<open>Retiring policy identities\<close>

definition removePolicyIdentity :: "'r ctl_env \<Rightarrow> string \<Rightarrow> ('r world, ctl_error option) state" where
  "removePolicyIdentity env identity =
     check (bao_check (ob_DeletePolicy (ce_bao env) identity)) (\<lambda>e. ret (Some e))
       (attempt (bao_call (ob_PolicyExists (ce_bao env) identity)) (\<lambda>c. ret (Some (BaoFail c)))
          (\<lambda>exists. if exists then ret (Some (StillPresent identity))
                    else store_check (store_set (ForgetPolicyRetirement identity))))"

fun retire_identities :: "'r ctl_env \<Rightarrow> string list \<Rightarrow> string list \<Rightarrow> ('r world, ctl_error list) state" where
  "retire_identities env held [] = ret []"
| "retire_identities env held (identity # retirees) = do {
     e \<leftarrow> (if identity \<in> set held then store_check (store_set (ForgetPolicyRetirement identity)) else removePolicyIdentity env identity);
     rest \<leftarrow> retire_identities env held retirees;
     ret (case e of None \<Rightarrow> rest | Some err \<Rightarrow> err # rest)
   }"

definition retire_when_applied :: "'r ctl_env \<Rightarrow> string list \<Rightarrow> string list \<Rightarrow> ('r world, string list \<times> ctl_error option) state" where
  "retire_when_applied env retirees agents =
     attempt (store_read (store_Policies (ce_hcl env))) (\<lambda>e. ret (agents, Some (StoreFail e)))
       (\<lambda>documents. do {
          failures \<leftarrow> retire_identities env (map (\<lambda>s. OpenBaoPolicyName (stored_Policy s)) documents) retirees;
          ret (agents, Join_errors failures)
        })"

definition settlePolicyRetirements :: "'r ctl_env \<Rightarrow> ('r world, string list \<times> ctl_error option) state" where
  "settlePolicyRetirements env =
     attempt (store_read (\<lambda>d. Inr (PolicyRetirements d))) (\<lambda>e. ret ([], Some (StoreFail e)))
       (\<lambda>retirees.
          if retirees = [] then ret ([], None)
          else do {
            pending \<leftarrow> get_pending;
            check (if pending then syncPolicies env else ret None) (\<lambda>e. ret ([], Some e))
              (attempt (store_read (\<lambda>d. Inr (Bindings [] d))) (\<lambda>e. ret ([], Some (StoreFail e)))
                 (\<lambda>bindings. do {
                    results \<leftarrow> apply_all env (filter (\<lambda>b. \<not> bind_Applied b) bindings);
                    let agents = map (bind_Agent \<circ> fst) (filter (\<lambda>r. snd r = None) results);
                    if failures_of results \<noteq> [] then ret (agents, Join_errors (failures_of results))
                    else retire_when_applied env retirees agents
                  }))
          })"

section \<open>Renaming a policy\<close>

record PolicyRename =
  rename_Name :: string
  rename_NewName :: string
  rename_Revision :: int
  rename_Generation :: int

fun renamedBindings :: "'r ctl_env \<Rightarrow> string \<Rightarrow> Policy \<Rightarrow> Binding list \<Rightarrow> ('r world, ctl_error + Binding list) state" where
  "renamedBindings env oldName document [] = ret (Inr [])"
| "renamedBindings env oldName document (b # bs) =
     (if \<not> HasPolicy b oldName then renamedBindings env oldName document bs
      else
        attempt (compose (ce_hcl env) (map (\<lambda>name. if name = oldName then policy_Name document else name) (bind_Policies b))
            (bind_Settings b) (Some document))
          (\<lambda>e. ret (Inl e))
        (\<lambda>effective. attempt (renamedBindings env oldName document bs) (\<lambda>e. ret (Inl e))
           (\<lambda>rest. ret (Inr (b\<lparr>bind_Policies := Names effective, bind_Effective := effective, bind_Revision := bind_Revision b + 1,
                bind_Applied := False\<rparr> # rest)))))"

definition publishRenamed :: "'r ctl_env \<Rightarrow> Policy \<Rightarrow> ('r world, ctl_error option) state" where
  "publishRenamed env document = do {
     t \<leftarrow> now_read;
     check (store_set (recordPolicyRetirement (OpenBaoPolicyName document) t))
       (\<lambda>_. ret (Some (operationError ErrorInternal RenameNotRecorded)))
       (check (bao_check (ob_WritePolicy (ce_bao env) (OpenBaoPolicyName document) (PublishedHCL (ce_hcl env) document)))
          (\<lambda>err.
             if CategoryOf err = CategoryInvalid then do {
               store_set (ForgetPolicyRetirement (OpenBaoPolicyName document));
               ret (Some (operationError (openBaoError err) RenameHCLRejected))
             }
             else check (removePolicyIdentity env (OpenBaoPolicyName document))
               (\<lambda>_. ret (Some (operationError (openBaoError err) RenameLeftovers)))
               (ret (Some (operationError (openBaoError err) RenameNothingChanged))))
          (ret None))
   }"

definition settleFailedRename :: "'r ctl_env \<Rightarrow> Policy \<Rightarrow> ('r world, ctl_error option) state" where
  "settleFailedRename env document = do {
     x \<leftarrow> store_read (store_Policy (ce_hcl env) (policy_Name document));
     case x of
       Inr stored \<Rightarrow>
         if policy_Generation (stored_Policy stored) = policy_Generation document then ret None
         else check (removePolicyIdentity env (OpenBaoPolicyName document))
           (\<lambda>_. ret (Some (operationError ErrorInternal RenameNotCommittedLeftovers)))
           (ret (Some (operationError ErrorInternal RenameNotCommitted)))
     | Inl e \<Rightarrow>
         if e \<noteq> StoreErr ErrNotFound then ret (Some (operationError ErrorInternal RenameUnconfirmed))
         else check (removePolicyIdentity env (OpenBaoPolicyName document))
           (\<lambda>_. ret (Some (operationError ErrorInternal RenameNotCommittedLeftovers)))
           (ret (Some (operationError ErrorInternal RenameNotCommitted)))
   }"

text \<open>What follows the commit of a rename.\<close>

definition finish_rename :: "'r ctl_env \<Rightarrow> Policy \<Rightarrow> Binding list \<Rightarrow> ('r world, policy_result) state" where
  "finish_rename env renamed affected = do {
     results \<leftarrow> apply_all env affected;
     if failures_of results \<noteq> []
     then ret (Some renamed, map bind_Agent affected, Some (operationError (openBaoError (last (failures_of results))) RenamedTransitionPending))
     else do {
       settled \<leftarrow> settlePolicyRetirements env;
       ret (Some renamed, map bind_Agent affected @ fst settled,
         (case snd settled of None \<Rightarrow> None | Some e \<Rightarrow> Some (operationError (openBaoError e) RenamedOldStays)))
     }
   }"

definition commit_rename :: "'r ctl_env \<Rightarrow> string \<Rightarrow> Policy \<Rightarrow> Binding list \<Rightarrow> string \<Rightarrow> ('r world, policy_result) state" where
  "commit_rename env oldName document affected operator = do {
     t \<leftarrow> now_read;
     attempt (store_write (RenamePolicy (ce_hcl env) oldName document affected operator t))
       (\<lambda>_. check (settleFailedRename env document) (policy_fail []) (finish_rename env document affected))
       (\<lambda>renamed. finish_rename env renamed affected)
   }"

definition renamePolicy :: "'r ctl_env \<Rightarrow> PolicyRename \<Rightarrow> string \<Rightarrow> ('r world, policy_result) state" where
  "renamePolicy env request operator =
     (if \<not> ValidName (rename_Name request) then policy_fail [] (policyMissing RenameMissingMessage)
      else
        attempt (store_read (store_Policy (ce_hcl env) (rename_Name request)))
          (\<lambda>e. policy_fail [] (if e = StoreErr ErrNotFound then policyMissing RenameMissingMessage else operationError ErrorInternal StoredPolicyUnreadable))
       (\<lambda>stored.
          if \<not> ValidName (rename_NewName request) then policy_fail [] (operationError ErrorPolicyDenied NewNameInvalid)
          else if rename_NewName request = rename_Name request then ret (Some (stored_Policy stored), [], None)
          else if rename_Revision request \<noteq> policy_Revision (stored_Policy stored) \<or> rename_Generation request \<noteq> policy_Generation (stored_Policy stored)
          then policy_fail [] (operationError ErrorPolicyDenied PolicyChangedMeanwhile)
          else do {
            taken \<leftarrow> store_read (store_Policy (ce_hcl env) (rename_NewName request));
            case taken of
              Inr _ \<Rightarrow> policy_fail [] (operationError ErrorPolicyDenied (NameInUse (rename_NewName request)))
            | Inl e \<Rightarrow>
                if e \<noteq> StoreErr ErrNotFound then policy_fail [] (operationError ErrorInternal StoredPolicyUnreadable)
                else
                  attempt (store_read (\<lambda>d. Inr (NextPolicyGeneration (rename_NewName request) d)))
                    (\<lambda>_. policy_fail [] (operationError ErrorInternal StoredPolicyUnreadable))
                 (\<lambda>generation.
                    let document = (Policy_Clone (stored_Policy stored))\<lparr>policy_Name := rename_NewName request, policy_Generation := generation,
                          policy_Revision := policy_Revision (stored_Policy stored) + 1\<rparr>
                    in attempt (store_read (\<lambda>d. Inr (Bindings [] d))) (\<lambda>_. policy_fail [] (operationError ErrorInternal BindingsUnreadable))
                      (\<lambda>bindings. attempt (renamedBindings env (rename_Name request) document bindings) (policy_fail [])
                      (\<lambda>affected. check (preflight env affected) (policy_fail [])
                        (check (publishRenamed env document) (policy_fail [])
                          (commit_rename env (rename_Name request) document affected operator)))))
          }))"

end
