(* ===== verification/Controller_Facts.thy ===== *)
theory Controller_Facts
  imports Controller_Operations
begin

text \<open>
  What must hold between the database and OpenBao, and that each statement of the store keeps it when
  its arguments are what the controller's operations compute.
\<close>

section \<open>The invariant\<close>

definition row_policy :: "policy_row \<Rightarrow> Policy" where
  "row_policy r = (prow_document r)\<lparr>policy_Generation := prow_generation r\<rparr>"

definition role_for :: "binding_row \<Rightarrow> ob_role" where
  "role_for row =
     granted (OpenBaoPolicies (brow_effective row)) (TTL (brow_settings row)) (MaxTTL (brow_settings row))"

text \<open>Policy names are slugs, a binding's role is named after it, and what is to be retired was published.\<close>

definition names_ok :: "db \<Rightarrow> bool" where
  "names_ok d \<longleftrightarrow> (\<forall>r\<in>set (db_policies d). ValidName (prow_name r))
     \<and> (\<forall>row\<in>set (db_bindings d). length (brow_id row) = 18 \<and> list_all managed_char (brow_id row)
           \<and> brow_role row = RoleName (brow_agent row) (brow_id row))
     \<and> (\<forall>i\<in>dom (map_of (db_policy_retirements d)). managed_name i)"

text \<open>The role of an applied binding is missing or exactly that of its effective assignment.\<close>

definition roles_exact :: "(string \<Rightarrow> ob_role option) \<Rightarrow> db \<Rightarrow> bool" where
  "roles_exact roles d \<longleftrightarrow>
     (\<forall>row\<in>set (db_bindings d). brow_applied row \<longrightarrow> roles (brow_role row) \<in> {None, Some (role_for row)})"

text \<open>A stored assignment is composed of the stored policies it selects, as they are now.\<close>

definition row_current :: "db \<Rightarrow> binding_row \<Rightarrow> bool" where
  "row_current d row \<longleftrightarrow> Names (brow_effective row) = binding_names (brow_id row) d
     \<and> set (eff_Sources (brow_effective row)) \<subseteq> policy_source ` row_policy ` set (db_policies d)"

definition sources_current :: "db \<Rightarrow> bool" where
  "sources_current d \<longleftrightarrow> (\<forall>row\<in>set (db_bindings d). row_current d row)"

text \<open>OpenBao holds the published text of every stored policy under the policy's identity.\<close>

definition published :: "hcl_lib \<Rightarrow> (string \<Rightarrow> string) \<Rightarrow> (string \<Rightarrow> string option) \<Rightarrow> db \<Rightarrow> bool" where
  "published hcl compiled policies d \<longleftrightarrow>
     (\<forall>r\<in>set (db_policies d). policies (OpenBaoPolicyName (row_policy r)) = Some (compiled (PublishedHCL hcl (row_policy r))))"

definition stored_ok :: "db \<Rightarrow> bool" where
  "stored_ok d \<longleftrightarrow> db_ok d \<and> names_ok d \<and> sources_current d"

section \<open>Names\<close>

lemma map_sort_key: "map f (sort_key f xs) = sort (map f xs)"
  by (rule sym, rule properties_for_sort) simp_all

lemma RoleName_inj:
  assumes "RoleName a i = RoleName b j" "length i = length j"
  shows "i = j"
  using assms append_eq_append_conv[of i j "ManagedPrefix @ take 60 (trim_hyphens (replace_unsafe False (map lower_char a))) @ ''-''"]
  by (simp add: RoleName_def)

lemma list_all_within: "list_all P ys \<Longrightarrow> list_all (\<lambda>c. c \<in> set ys) xs \<Longrightarrow> list_all P xs"
  by (auto simp: list_all_iff)

lemma NewID_chars: "length random = 8 \<Longrightarrow> length (NewID ''b-'' random) = 18 \<and> list_all managed_char (NewID ''b-'' random)"
proof -
  have hex: "list_all managed_char ''0123456789abcdef''" and b: "managed_char (CHR ''b'')" "managed_char (CHR ''-'')" by code_simp+
  have "list_all managed_char (EncodeToString random)" by (rule list_all_within[OF hex hex_digits])
  then show "length random = 8 \<Longrightarrow> length (NewID ''b-'' random) = 18 \<and> list_all managed_char (NewID ''b-'' random)"
    using b by (simp add: NewID_def)
qed

lemma identity_managed:
  assumes "ValidName name"
  shows "managed_name (openBaoPolicyName name g)"
proof -
  have "list_all managed_char name"
  proof (rule MatchString_chars)
    show "MatchString namePattern name" using assms by (simp add: ValidName_def)
    have c: "rx_class namePattern = [range_az, range_az, range_09, only (CHR ''-''), range_az, range_09, range_az, range_09]"
      by code_simp
    show "\<forall>(lo, hi)\<in>set (rx_class namePattern). \<forall>c. lo \<le> c \<and> c \<le> hi \<longrightarrow> managed_char c"
      unfolding c by (auto simp: managed_char_def)
  qed
  moreover have "list_all managed_char (Itoa g)" if "g > 1"
    using all_digits_nat_digits[of "nat g"] that by (auto simp: Itoa_nonneg list_all_iff all_digits_def is_digit_def managed_char_def)
  moreover have "list_all managed_char ''wyrwood---''" by code_simp
  ultimately show ?thesis
    by (auto simp: managed_name_def openBaoPolicyName_def openBaoPolicyPrefix_def HasPrefix_def)
qed

lemma replace_unsafe_chars: "list_all managed_char (replace_unsafe inside s)"
  by (induction inside s rule: replace_unsafe.induct) (auto simp: role_safe_def managed_char_def)

lemma RoleName_managed:
  assumes "list_all managed_char bid"
  shows "managed_name (RoleName agent bid)"
proof -
  have "set (take 60 (trim_hyphens s)) \<subseteq> set s" for s
    unfolding trim_hyphens_def by (auto dest!: in_set_takeD set_dropWhileD simp: set_dropWhileD)
  then have "list_all managed_char (take 60 (trim_hyphens (replace_unsafe False (map lower_char agent))))"
    using replace_unsafe_chars by (fastforce simp: list_all_iff)
  moreover have "list_all managed_char ''wyrwood--''" by code_simp
  ultimately show ?thesis
    using assms by (auto simp: managed_name_def RoleName_def ManagedPrefix_def HasPrefix_def)
qed

lemma role_managed: "stored_ok d \<Longrightarrow> row \<in> set (db_bindings d) \<Longrightarrow> managed_name (brow_role row)"
  by (simp add: stored_ok_def names_ok_def RoleName_managed)

lemma policy_managed: "ValidName (policy_Name p) \<Longrightarrow> managed_name (OpenBaoPolicyName p)"
  by (simp add: OpenBaoPolicyName_def identity_managed)


lemma binding_row_unique:
  assumes "db_ok d" "r \<in> set (db_bindings d)" "r' \<in> set (db_bindings d)" "brow_id r = brow_id r'"
  shows "r = r'"
  using assms by (auto simp: db_ok_def bindings_ok_def distinct_map dest: inj_onD)

lemma role_unique:
  assumes "stored_ok d" "r \<in> set (db_bindings d)" "r' \<in> set (db_bindings d)" "brow_role r = brow_role r'"
  shows "r = r'"
proof -
  have "brow_id r = brow_id r'"
    using assms RoleName_inj[of "brow_agent r" "brow_id r" "brow_agent r'" "brow_id r'"] by (simp add: stored_ok_def names_ok_def)
  then show ?thesis
    using assms binding_row_unique by (auto simp: stored_ok_def)
qed

lemma row_policy_simps [simp]:
  "policy_Generation (row_policy r) = prow_generation r" "policy_Revision (row_policy r) = policy_Revision (prow_document r)"
  "policy_Name (row_policy r) = policy_Name (prow_document r)"
  by (simp_all add: row_policy_def)

lemma policy_row_name: "db_ok d \<Longrightarrow> r \<in> set (db_policies d) \<Longrightarrow> policy_Name (prow_document r) = prow_name r"
  by (simp add: db_ok_def policies_ok_def policy_row_ok_def)

lemma row_managed: "stored_ok d \<Longrightarrow> x \<in> set (db_policies d) \<Longrightarrow> managed_name (OpenBaoPolicyName (row_policy x))"
  using policy_row_name[of d x] by (intro policy_managed) (auto simp: stored_ok_def names_ok_def)

lemma policy_row_unique:
  "db_ok d \<Longrightarrow> r \<in> set (db_policies d) \<Longrightarrow> r' \<in> set (db_policies d) \<Longrightarrow> prow_name r = prow_name r' \<Longrightarrow> r = r'"
  by (auto simp: db_ok_def policies_ok_def distinct_map dest: inj_onD)

text \<open>Identities of policies with different valid names differ.\<close>

lemma identity_names:
  assumes "OpenBaoPolicyName p = OpenBaoPolicyName q" "ValidName (policy_Name p)" "ValidName (policy_Name q)"
  shows "policy_Name p = policy_Name q"
  using assms ValidName_no_double_hyphen by (simp add: OpenBaoPolicyName_def openBaoPolicyName_eq)

lemma identity_row:
  assumes "stored_ok d" "r \<in> set (db_policies d)" "OpenBaoPolicyName (row_policy r) = OpenBaoPolicyName p" "ValidName (policy_Name p)"
  shows "prow_name r = policy_Name p"
  using assms identity_names[OF assms(3)] policy_row_name[of d r] by (simp add: stored_ok_def names_ok_def)

lemma store_Policy_row:
  assumes "store_Policy hcl name d = Inr s"
  obtains r where "r \<in> set (db_policies d)" "prow_name r = name" "stored_Policy s = row_policy r" "row_by prow_name name (db_policies d) = Some r"
  using assms by (auto simp: store_Policy_def scanPolicy_def row_policy_def split: option.splits dest!: row_by_Some)

lemma store_Policy_none: "store_Policy hcl name d = Inl ErrNotFound \<Longrightarrow> name \<notin> prow_name ` set (db_policies d)"
  by (auto simp: store_Policy_def scanPolicy_def row_by_None split: option.splits)

lemma scan_all_Inr: "scan_all scan rs = Inr xs \<longleftrightarrow> list_all2 (\<lambda>r x. scan r = Inr x) rs xs"
  by (induction rs arbitrary: xs) (auto simp: list_all2_Cons1)

lemma store_Policies_list:
  assumes "store_Policies hcl d = Inr documents"
  shows "\<exists>rows. map stored_Policy documents = map row_policy rows \<and> set rows = set (db_policies d)"
proof -
  have l: "list_all2 (\<lambda>r x. scanPolicy hcl r = Inr x) (sort_key prow_name (db_policies d)) documents"
    using assms by (simp add: store_Policies_def scan_all_Inr)
  have "map stored_Policy documents = map row_policy (sort_key prow_name (db_policies d))"
    using l by (induction rule: list_all2_induct) (auto simp: scanPolicy_def row_policy_def split: option.splits)
  then show ?thesis by (metis set_sort)
qed

lemma store_Policies_rows: "store_Policies hcl d = Inr documents \<Longrightarrow> stored_Policy ` set documents = row_policy ` set (db_policies d)"
  by (drule store_Policies_list) (metis list.set_map)

section \<open>Composition of stored policies\<close>

definition looked_up :: "hcl_lib \<Rightarrow> db \<Rightarrow> Policy option \<Rightarrow> string \<Rightarrow> Policy \<Rightarrow> bool" where
  "looked_up hcl d replacement name p \<longleftrightarrow>
     (case replacement of
        Some q \<Rightarrow> if name = policy_Name q then p = q else \<exists>s. store_Policy hcl name d = Inr s \<and> p = stored_Policy s
      | None \<Rightarrow> \<exists>s. store_Policy hcl name d = Inr s \<and> p = stored_Policy s)"

definition composed_of :: "hcl_lib \<Rightarrow> db \<Rightarrow> Policy option \<Rightarrow> string list \<Rightarrow> Settings \<Rightarrow> Effective \<Rightarrow> bool" where
  "composed_of hcl d replacement names settings e \<longleftrightarrow>
     (\<exists>ps. list_all2 (looked_up hcl d replacement) names ps \<and> Compose hcl ps settings = Inr e)"

lemma Compose_sources:
  assumes "Compose hcl ps settings = Inr e"
  shows "eff_Sources e = map policy_source (sort_key policy_Name ps)" "eff_Settings e = Defaults settings" "distinct (map policy_Name ps)"
proof -
  obtain st p0 where st: "composed hcl compose_start (sort_key policy_Name ps) st" "e = compose_result hcl p0 settings st"
    "distinct (map policy_Name (sort_key policy_Name ps))"
    using Compose_Inr[OF assms] by metis
  then show "eff_Sources e = map policy_source (sort_key policy_Name ps)" "eff_Settings e = Defaults settings"
    by (simp_all add: composed_def compose_start_def)
  show "distinct (map policy_Name ps)"
    using st(3) by (simp add: map_sort_key)
qed

lemma looked_up_row:
  assumes "looked_up hcl d replacement name p" "db_ok d"
  shows "policy_Name p = name"
    "replacement = Some p \<or> (\<exists>r\<in>set (db_policies d). p = row_policy r \<and> prow_name r = name \<and> (\<forall>q. replacement = Some q \<longrightarrow> policy_Name q \<noteq> name))"
  using assms policy_row_name[OF assms(2)]
  by (auto simp: looked_up_def split: option.splits if_splits elim!: store_Policy_row)

lemma composed_of_facts:
  assumes "composed_of hcl d replacement names settings e" "db_ok d"
  shows "Names e = sort names" "distinct names" "eff_Settings e = Defaults settings"
    "\<And>s. s \<in> set (eff_Sources e) \<Longrightarrow> (\<exists>q. replacement = Some q \<and> policy_Name q \<in> set names \<and> s = policy_source q) \<or>
       (\<exists>r\<in>set (db_policies d). s = policy_source (row_policy r) \<and> prow_name r \<in> set names \<and> (\<forall>q. replacement = Some q \<longrightarrow> policy_Name q \<noteq> prow_name r))"
proof -
  obtain ps where l: "list_all2 (looked_up hcl d replacement) names ps" and c: "Compose hcl ps settings = Inr e"
    using assms(1) by (auto simp: composed_of_def)
  have names: "map policy_Name ps = names"
    using l by (induction rule: list_all2_induct) (auto dest: looked_up_row(1)[OF _ assms(2)])
  show "Names e = sort names" "distinct names" "eff_Settings e = Defaults settings"
    using Compose_sources[OF c] by (simp_all add: Names_def names comp_def map_sort_key flip: names)
  fix s assume "s \<in> set (eff_Sources e)"
  then obtain p where p: "p \<in> set ps" "s = policy_source p"
    using Compose_sources[OF c] by auto
  then obtain name where "name \<in> set names" "looked_up hcl d replacement name p"
    using l by (metis in_set_conv_nth list_all2_conv_all_nth)
  then show "(\<exists>q. replacement = Some q \<and> policy_Name q \<in> set names \<and> s = policy_source q) \<or>
       (\<exists>r\<in>set (db_policies d). s = policy_source (row_policy r) \<and> prow_name r \<in> set names \<and> (\<forall>q. replacement = Some q \<longrightarrow> policy_Name q \<noteq> prow_name r))"
    using looked_up_row[OF _ assms(2)] p by metis
qed

section \<open>Frames\<close>

lemma binding_names_cong: "db_binding_policies d' = db_binding_policies d \<Longrightarrow> binding_names i d' = binding_names i d"
  by (simp add: binding_names_def)

lemma row_current_cong:
  "db_binding_policies d' = db_binding_policies d \<Longrightarrow> db_policies d' = db_policies d \<Longrightarrow> row_current d' row = row_current d row"
  by (simp add: row_current_def binding_names_def)

text \<open>Statements on other tables.\<close>

lemma stored_ok_frame:
  assumes "stored_ok d" "db_ok d'" "db_policies d' = db_policies d" "db_bindings d' = db_bindings d" "db_binding_policies d' = db_binding_policies d"
    and "dom (map_of (db_policy_retirements d')) \<subseteq> dom (map_of (db_policy_retirements d)) \<union> {i. managed_name i}"
  shows "stored_ok d'"
proof -
  have "\<forall>i\<in>dom (map_of (db_policy_retirements d')). managed_name i"
    using assms(1,6) unfolding stored_ok_def names_ok_def by blast
  then show ?thesis
    using assms(1-5) by (simp add: stored_ok_def names_ok_def sources_current_def row_current_cong[OF assms(5,3)])
qed

lemma published_cong: "db_policies d' = db_policies d \<Longrightarrow> published hcl compiled policies d' = published hcl compiled policies d"
  by (simp add: published_def)

lemma roles_exact_cong: "db_bindings d' = db_bindings d \<Longrightarrow> roles_exact roles d' = roles_exact roles d"
  by (simp add: roles_exact_def)

lemma binding_names_sorted [simp]: "sorted (binding_names i d)"
  by (simp add: binding_names_def)

lemma binding_names_mem: "n \<in> set (binding_names i d) \<longleftrightarrow> (i, n) \<in> set (db_binding_policies d)"
  by (force simp: binding_names_def)

lemma source_names: "row_current d row \<Longrightarrow> s \<in> set (eff_Sources (brow_effective row)) \<Longrightarrow> source_Name s \<in> set (binding_names (brow_id row) d)"
  unfolding row_current_def Names_def by (metis image_eqI set_map)

text \<open>An assignment stays current while its memberships and the rows of the policies it selects do.\<close>

lemma row_current_keep:
  assumes "row_current d row" "db_ok d" "binding_names (brow_id row) d' = binding_names (brow_id row) d"
    and "\<And>r. r \<in> set (db_policies d) \<Longrightarrow> (brow_id row, prow_name r) \<in> set (db_binding_policies d) \<Longrightarrow> row_policy r \<in> row_policy ` set (db_policies d')"
  shows "row_current d' row"
proof -
  have "s \<in> policy_source ` row_policy ` set (db_policies d')" if s: "s \<in> set (eff_Sources (brow_effective row))" for s
  proof -
    obtain r where r: "r \<in> set (db_policies d)" "s = policy_source (row_policy r)"
      using assms(1) s by (auto simp: row_current_def)
    have "(brow_id row, prow_name r) \<in> set (db_binding_policies d)"
      using source_names[OF assms(1) s] r policy_row_name[OF assms(2) r(1)] by (simp add: binding_names_mem)
    then show ?thesis
      using assms(4)[OF r(1)] r(2) by blast
  qed
  then show ?thesis
    using assms(1,3) by (auto simp: row_current_def)
qed

section \<open>Assignments\<close>

definition assigned :: "Binding \<Rightarrow> binding_row \<Rightarrow> binding_row" where
  "assigned b r = r\<lparr>brow_settings := Defaults (bind_Settings b), brow_revision := bind_Revision b, brow_effective := bind_Effective b, brow_applied := False\<rparr>"

definition reassign :: "Binding \<Rightarrow> binding_row \<Rightarrow> binding_row" where
  "reassign b r = (if brow_id r = bind_ID b then assigned b r else r)"

lemma assigned_simps [simp]:
  "brow_id (assigned b r) = brow_id r" "brow_role (assigned b r) = brow_role r" "brow_agent (assigned b r) = brow_agent r"
  "brow_effective (assigned b r) = bind_Effective b" "brow_settings (assigned b r) = Defaults (bind_Settings b)" "\<not> brow_applied (assigned b r)"
  by (simp_all add: assigned_def)

lemma reassign_simps [simp]:
  "brow_id (reassign b r) = brow_id r" "brow_role (reassign b r) = brow_role r" "brow_agent (reassign b r) = brow_agent r"
  by (simp_all add: reassign_def)

lemma update_assignment_map:
  assumes "update_assignment b d = Inr d'" "distinct (map brow_id (db_bindings d))"
  shows "d' = d\<lparr>db_bindings := map (reassign b) (db_bindings d)\<rparr>" "bind_ID b \<in> brow_id ` set (db_bindings d)"
proof -
  let ?t = "\<lambda>r. brow_id r = bind_ID b \<and> brow_revision r = bind_Revision b - 1"
  have d': "d' = d\<lparr>db_bindings := set_where ?t (assigned b) (db_bindings d)\<rparr>" and one: "length (filter ?t (db_bindings d)) = 1"
    using assms(1) by (auto simp: update_assignment_def Let_def assigned_def[abs_def] split: if_splits)
  then obtain r where "filter ?t (db_bindings d) = [r]" by (auto simp: length_Suc_conv)
  then have "r \<in> set (filter ?t (db_bindings d))" by simp
  then have r: "r \<in> set (db_bindings d)" "?t r" by simp_all
  then show "bind_ID b \<in> brow_id ` set (db_bindings d)" by (metis image_eqI)
  have "?t x \<longleftrightarrow> brow_id x = bind_ID b" if "x \<in> set (db_bindings d)" for x
    using that r assms(2) by (metis distinct_map inj_onD)
  then show "d' = d\<lparr>db_bindings := map (reassign b) (db_bindings d)\<rparr>"
    unfolding d' set_where_def by (auto simp: reassign_def intro!: arg_cong[of _ _ "\<lambda>x. d\<lparr>db_bindings := x\<rparr>"])
qed

lemma update_assignments_map:
  "fold_try update_assignment bs d = Inr d' \<Longrightarrow> distinct (map brow_id (db_bindings d)) \<Longrightarrow>
     d' = d\<lparr>db_bindings := map (fold reassign bs) (db_bindings d)\<rparr> \<and> bind_ID ` set bs \<subseteq> brow_id ` set (db_bindings d)"
proof (induction bs arbitrary: d)
  case (Cons b bs)
  obtain d1 where d1: "update_assignment b d = Inr d1" "fold_try update_assignment bs d1 = Inr d'"
    using Cons.prems(1) by (auto split: sum.splits)
  note u = update_assignment_map[OF d1(1) Cons.prems(2)]
  have "distinct (map brow_id (db_bindings d1))"
    using Cons.prems(2) by (simp add: u(1) comp_def)
  from Cons.IH[OF d1(2) this] u show ?case
    by (auto simp: image_image)
qed simp

lemma fold_reassign_id [simp]: "brow_id (fold reassign bs r) = brow_id r" "brow_role (fold reassign bs r) = brow_role r"
    "brow_agent (fold reassign bs r) = brow_agent r"
  by (induction bs arbitrary: r) auto

lemma fold_reassign_other: "brow_id r \<notin> bind_ID ` set bs \<Longrightarrow> fold reassign bs r = r"
  by (induction bs arbitrary: r) (auto simp: reassign_def)

lemma fold_reassign_mem: "distinct (map bind_ID bs) \<Longrightarrow> b \<in> set bs \<Longrightarrow> brow_id r = bind_ID b \<Longrightarrow> fold reassign bs r = assigned b r"
proof (induction bs arbitrary: r)
  case (Cons c bs)
  show ?case
  proof (cases "c = b")
    case True
    then have "brow_id (assigned b r) \<notin> bind_ID ` set bs"
      using Cons.prems by auto
    then show ?thesis
      using True Cons.prems(3) fold_reassign_other[of "assigned b r" bs] by (simp add: reassign_def[of b r])
  next
    case False
    then have "bind_ID c \<noteq> bind_ID b" "b \<in> set bs"
      using Cons.prems by auto
    then show ?thesis
      using Cons by (simp add: reassign_def[of c r])
  qed
qed simp

text \<open>The binding value \<open>b\<close> describes its stored row.\<close>

definition stored_as :: "db \<Rightarrow> Binding \<Rightarrow> bool" where
  "stored_as d b \<longleftrightarrow> (\<exists>row\<in>set (db_bindings d). brow_id row = bind_ID b \<and> brow_role row = bind_Role b
     \<and> brow_effective row = bind_Effective b \<and> TTL (brow_settings row) = TTL (bind_Settings b)
     \<and> MaxTTL (brow_settings row) = MaxTTL (bind_Settings b) \<and> (bind_Applied b \<longrightarrow> brow_applied row))"

lemma TTL_Defaults [simp]: "TTL (Defaults s) = TTL s" "MaxTTL (Defaults s) = MaxTTL s"
  by (auto simp: TTL_def MaxTTL_def Defaults_def Let_def durationOr_def)

lemma stored_as_scan: "row \<in> set (db_bindings d) \<Longrightarrow> stored_as d (scanBinding d row)"
  by (auto simp: stored_as_def scanBinding_def)

lemma set_Bindings: "set (Bindings [] d) = scanBinding d ` set (db_bindings d)"
  by (simp add: Bindings_def)

lemma distinct_Bindings: "db_ok d \<Longrightarrow> distinct (map bind_ID (Bindings [] d))"
proof -
  assume "db_ok d"
  moreover have "mset (map brow_id (sort_key (\<lambda>r. (brow_agent r, brow_created_at r)) (db_bindings d))) = mset (map brow_id (db_bindings d))"
    by simp
  ultimately have "distinct (map brow_id (sort_key (\<lambda>r. (brow_agent r, brow_created_at r)) (db_bindings d)))"
    by (metis bindings_ok_def db_ok_def mset_eq_imp_distinct_iff)
  then show ?thesis
    by (simp add: Bindings_def comp_def scanBinding_def)
qed

lemma store_Binding_scan:
  assumes "store_Binding bid d = Inr b"
  obtains row where "row \<in> set (db_bindings d)" "brow_id row = bid" "b = scanBinding d row"
  using assms by (auto simp: store_Binding_def split: option.splits dest!: row_by_Some)

section \<open>Statements on bindings\<close>

lemma writeMembership_names:
  assumes "writeMembership b d = Inr d'"
  shows "binding_names i d' = (if i = bind_ID b then sort (bind_Policies b) else binding_names i d)"
    "db_policies d' = db_policies d" "db_bindings d' = db_bindings d" "db_policy_retirements d' = db_policy_retirements d"
proof -
  note w = writeMembership_Inr(1)[OF assms]
  show "db_policies d' = db_policies d" "db_bindings d' = db_bindings d" "db_policy_retirements d' = db_policy_retirements d"
    by (simp_all add: w)
  have "filter (\<lambda>r. fst r = i) (delete_where (\<lambda>r. fst r = bind_ID b) xs) = (if i = bind_ID b then [] else filter (\<lambda>r. fst r = i) xs)"
    for xs :: "(string \<times> string) list"
    by (auto simp: delete_where_def filter_empty_conv intro: filter_cong)
  moreover have "filter (\<lambda>r. fst r = i) (map (Pair (bind_ID b)) xs) = (if i = bind_ID b then map (Pair (bind_ID b)) xs else [])" for xs :: "string list"
    by (induction xs) auto
  ultimately show "binding_names i d' = (if i = bind_ID b then sort (bind_Policies b) else binding_names i d)"
    by (simp add: w binding_names_def comp_def)
qed

text \<open>The part of a new assignment that both creating and changing a binding compute.\<close>

definition new_assignment :: "db \<Rightarrow> Binding \<Rightarrow> bool" where
  "new_assignment d b \<longleftrightarrow> bind_Policies b = Names (bind_Effective b) \<and> sorted (Names (bind_Effective b)) \<and> \<not> bind_Applied b
     \<and> set (eff_Sources (bind_Effective b)) \<subseteq> policy_source ` row_policy ` set (db_policies d)"

lemma new_assignment_composed:
  assumes "composed_of hcl d None names settings e" "db_ok d"
    and "bind_Policies b = Names e" "bind_Effective b = e" "\<not> bind_Applied b"
  shows "new_assignment d b"
proof -
  have "set (eff_Sources e) \<subseteq> policy_source ` row_policy ` set (db_policies d)"
    using composed_of_facts(4)[OF assms(1,2)] by blast
  then show ?thesis
    using composed_of_facts(1)[OF assms(1,2)] assms(3-5) by (simp add: new_assignment_def)
qed

lemma membership_current:
  assumes "writeMembership b d = Inr d'" "new_assignment d b"
    and "\<And>row. row \<in> set (db_bindings d) \<Longrightarrow> brow_id row \<noteq> bind_ID b \<Longrightarrow> row_current d row"
    and "\<And>row. row \<in> set (db_bindings d) \<Longrightarrow> brow_id row = bind_ID b \<Longrightarrow> brow_effective row = bind_Effective b"
  shows "sources_current d'"
proof -
  note w = writeMembership_names[OF assms(1)]
  have "row_current d' row" if row: "row \<in> set (db_bindings d)" for row
  proof (cases "brow_id row = bind_ID b")
    case True
    then show ?thesis
      using assms(4)[OF row True] assms(2) by (simp add: row_current_def w new_assignment_def sorted_sort_id)
  next
    case False
    then show ?thesis
      using assms(3)[OF row False] by (simp add: row_current_def w)
  qed
  then show ?thesis
    by (simp add: sources_current_def w)
qed

lemma CreateBinding_stored:
  assumes "CreateBinding b d = Inr d'" "stored_ok d" "new_assignment d b" "bind_Revision b \<noteq> 0"
    "length (bind_ID b) = 18 \<and> list_all managed_char (bind_ID b)" "bind_Role b = RoleName (bind_Agent b) (bind_ID b)"
  shows "stored_ok d'" "roles_exact roles d \<Longrightarrow> roles_exact roles d'" "db_policies d' = db_policies d" "stored_as d' b"
proof -
  let ?d = "d\<lparr>db_bindings := db_bindings d @ [binding_row_of b]\<rparr>"
  have new: "bind_ID b \<notin> binding_ids d" and w: "writeMembership b ?d = Inr d'"
    using CreateBinding_Inr[OF assms(1)] assms(4) by (metis (full_types))+
  note n = writeMembership_names[OF w]
  show "db_policies d' = db_policies d"
    by (simp add: n)
  show "stored_as d' b"
    using assms(3) by (auto simp: stored_as_def n binding_row_of_def new_assignment_def)
  show "roles_exact roles d \<Longrightarrow> roles_exact roles d'"
    using assms(3) by (auto simp: roles_exact_def n binding_row_of_def new_assignment_def)
  have "sources_current d'"
  proof (rule membership_current[OF w])
    show "new_assignment ?d b"
      using assms(3) by (simp add: new_assignment_def)
    show "row_current ?d row" if "row \<in> set (db_bindings ?d)" "brow_id row \<noteq> bind_ID b" for row
      using that assms(2) row_current_cong[of ?d d row] by (auto simp: stored_ok_def sources_current_def binding_row_of_def)
    show "brow_effective row = bind_Effective b" if "row \<in> set (db_bindings ?d)" "brow_id row = bind_ID b" for row
      using that new by (auto simp: binding_ids_def binding_row_of_def) (metis image_eqI)
  qed
  moreover have "names_ok d'"
    using assms(2,5,6) by (auto simp: stored_ok_def names_ok_def n binding_row_of_def)
  ultimately show "stored_ok d'"
    using CreateBinding_ok[OF assms(1)] assms(2) by (simp add: stored_ok_def)
qed

lemma ChangeBinding_stored:
  assumes "ChangeBinding b d = Inr d'" "stored_ok d" "new_assignment d b"
    "row \<in> set (db_bindings d)" "brow_id row = bind_ID b" "brow_role row = bind_Role b"
  shows "stored_ok d'" "roles_exact roles d \<Longrightarrow> roles_exact roles d'" "db_policies d' = db_policies d" "stored_as d' b"
proof -
  obtain d1 where d1: "update_assignment b d = Inr d1" and w: "writeMembership b d1 = Inr d'"
    using assms(1) by (auto simp: ChangeBinding_def)
  have dist: "distinct (map brow_id (db_bindings d))"
    using assms(2) by (simp add: stored_ok_def db_ok_def bindings_ok_def)
  note u = update_assignment_map(1)[OF d1 dist] and n = writeMembership_names[OF w]
  show "db_policies d' = db_policies d"
    by (simp add: n u)
  show "stored_as d' b"
    using assms(3-6) by (auto simp: stored_as_def n u new_assignment_def reassign_def[of b row] intro!: bexI[of _ row])
  show "roles_exact roles d \<Longrightarrow> roles_exact roles d'"
    by (auto simp: roles_exact_def n u reassign_def)
  have "sources_current d'"
  proof (rule membership_current[OF w])
    show "new_assignment d1 b"
      using assms(3) by (simp add: new_assignment_def u)
    show "row_current d1 r" if "r \<in> set (db_bindings d1)" "brow_id r \<noteq> bind_ID b" for r
      using that assms(2) row_current_cong[of d1 d r] by (auto simp: stored_ok_def sources_current_def u reassign_def split: if_splits)
    show "brow_effective r = bind_Effective b" if "r \<in> set (db_bindings d1)" "brow_id r = bind_ID b" for r
      using that by (auto simp: u reassign_def)
  qed
  moreover have "names_ok d'"
    using assms(2) by (auto simp: stored_ok_def names_ok_def n u)
  ultimately show "stored_ok d'"
    using ChangeBinding_ok[OF assms(1)] assms(2) by (simp add: stored_ok_def)
qed

lemma MarkBindingApplied_rows:
  "set (db_bindings (MarkBindingApplied bid d)) = (\<lambda>r. if brow_id r = bid then r\<lparr>brow_applied := True\<rparr> else r) ` set (db_bindings d)"
  "db_policies (MarkBindingApplied bid d) = db_policies d" "db_binding_policies (MarkBindingApplied bid d) = db_binding_policies d"
  "db_binding_tokens (MarkBindingApplied bid d) = db_binding_tokens d" "db_policy_retirements (MarkBindingApplied bid d) = db_policy_retirements d"
  by (simp_all add: MarkBindingApplied_def set_set_where)

text \<open>The rows with the mark, read through what a mark leaves alone.\<close>

lemma MarkBindingApplied_row:
  assumes "row \<in> set (db_bindings (MarkBindingApplied bid d))"
  obtains r where "r \<in> set (db_bindings d)" "brow_id row = brow_id r" "brow_role row = brow_role r" "brow_agent row = brow_agent r"
    "brow_effective row = brow_effective r" "brow_settings row = brow_settings r" "brow_applied row \<longleftrightarrow> brow_applied r \<or> brow_id r = bid"
  using assms by (auto simp: MarkBindingApplied_rows split: if_splits)

lemma MarkBindingApplied_keeps:
  assumes "r \<in> set (db_bindings d)"
  obtains row where "row \<in> set (db_bindings (MarkBindingApplied bid d))" "brow_id row = brow_id r" "brow_role row = brow_role r"
    "brow_effective row = brow_effective r" "brow_settings row = brow_settings r" "brow_applied row \<longleftrightarrow> brow_applied r \<or> brow_id r = bid"
proof
  let ?row = "if brow_id r = bid then r\<lparr>brow_applied := True\<rparr> else r"
  show "?row \<in> set (db_bindings (MarkBindingApplied bid d))"
    unfolding MarkBindingApplied_rows using assms by blast
qed auto

lemma MarkBindingApplied_stored:
  assumes "stored_ok d"
  shows "stored_ok (MarkBindingApplied bid d)"
proof -
  have "row_current (MarkBindingApplied bid d) row \<and> length (brow_id row) = 18 \<and> list_all managed_char (brow_id row)
      \<and> brow_role row = RoleName (brow_agent row) (brow_id row)"
    if "row \<in> set (db_bindings (MarkBindingApplied bid d))" for row
    using MarkBindingApplied_row[OF that] assms
    by (metis MarkBindingApplied_rows(2,3) binding_names_cong names_ok_def row_current_def sources_current_def stored_ok_def)
  then show ?thesis
    using assms MarkBindingApplied_ok by (simp add: stored_ok_def names_ok_def sources_current_def MarkBindingApplied_rows(2,5))
qed

lemma MarkBindingApplied_stored_as:
  assumes "stored_as d b"
  shows "stored_as (MarkBindingApplied bid d) b"
  using assms unfolding stored_as_def by (metis MarkBindingApplied_keeps)

lemma MarkBindingApplied_roles:
  assumes "stored_ok d" "roles_exact roles d" "row \<in> set (db_bindings d)" "brow_id row = bid" "roles (brow_role row) \<in> {None, Some (role_for row)}"
  shows "roles_exact roles (MarkBindingApplied bid d)"
  unfolding roles_exact_def
proof (intro ballI impI)
  fix r' assume r': "r' \<in> set (db_bindings (MarkBindingApplied bid d))" "brow_applied r'"
  obtain r where r: "r \<in> set (db_bindings d)" "brow_role r' = brow_role r" "role_for r' = role_for r" "brow_applied r \<or> brow_id r = bid"
    using MarkBindingApplied_row[OF r'(1)] r'(2) by (metis role_for_def)
  have "brow_id r = bid \<Longrightarrow> r = row"
    using r(1) assms by (auto simp: stored_ok_def intro: binding_row_unique)
  then show "roles (brow_role r') \<in> {None, Some (role_for r')}"
    using r assms(2,5) by (auto simp: roles_exact_def)
qed

lemma RetireBinding_stored:
  assumes "RetireBinding bid now d = Inr (a, d')" "stored_ok d"
  shows "stored_ok d'" "roles_exact roles d \<Longrightarrow> roles_exact roles d'" "db_policies d' = db_policies d"
proof -
  have d': "db_bindings d' = delete_where (\<lambda>r. brow_id r = bid) (db_bindings d)" "db_policies d' = db_policies d"
      "db_binding_policies d' = delete_where (\<lambda>r. fst r = bid) (db_binding_policies d)" "db_policy_retirements d' = db_policy_retirements d"
    using assms(1) by (auto simp: RetireBinding_def delete_binding_def Let_def split: option.splits)
  show "db_policies d' = db_policies d" "roles_exact roles d \<Longrightarrow> roles_exact roles d'"
    by (simp_all add: d' roles_exact_def)
  have "binding_names i d' = binding_names i d" if "i \<noteq> bid" for i
    using that by (auto simp: binding_names_def d' delete_where_def intro!: arg_cong[of _ _ "\<lambda>x. sort (map snd x)"] filter_cong)
  then have "sources_current d'"
    using assms(2) by (simp add: stored_ok_def sources_current_def row_current_def d')
  moreover have "names_ok d'"
    using assms(2) by (simp add: stored_ok_def names_ok_def d')
  ultimately show "stored_ok d'"
    using RetireBinding_ok[OF assms(1)] assms(2) by (simp add: stored_ok_def)
qed

section \<open>Statements on policies\<close>

text \<open>A saved or renamed document, as its row reads afterwards.\<close>

definition next_document :: "db \<Rightarrow> Policy \<Rightarrow> bool" where
  "next_document d document \<longleftrightarrow> ValidName (policy_Name document) \<and> saved_policy document d = document"

lemma row_policy_of: "row_policy (policy_row_of p operator now) = p"
  by (simp add: row_policy_def policy_row_of_def)

lemma save_policy_row_policies:
  assumes "next_document d document" "db_ok d"
  shows "row_policy ` set (db_policies (save_policy_row document operator now d)) =
      insert document (row_policy ` {r \<in> set (db_policies d). prow_name r \<noteq> policy_Name document})"
proof (cases "row_by prow_name (policy_Name document) (db_policies d)")
  case None
  then have "{r \<in> set (db_policies d). prow_name r \<noteq> policy_Name document} = set (db_policies d)"
    by (auto simp: row_by_None) (metis image_eqI)
  then show ?thesis
    using None assms(1) by (simp add: save_policy_row_def Let_def next_document_def row_policy_of)
next
  case (Some r)
  note r = row_by_Some[OF Some]
  let ?new = "\<lambda>r. r\<lparr>prow_revision := policy_Revision document, prow_document := document\<lparr>policy_Generation := 0\<rparr>,
      prow_saved_at := now, prow_saved_by := operator\<rparr>"
  have "policy_Generation (saved_policy document d) = policy_Generation document"
    using assms(1) by (simp add: next_document_def)
  then have gen: "prow_generation r = policy_Generation document"
    using Some by (simp add: saved_policy_def)
  let ?f = "\<lambda>r. if prow_name r = policy_Name document then ?new r else r"
  let ?T = "{x \<in> set (db_policies d). prow_name x \<noteq> policy_Name document}"
  have rows: "set (db_policies (save_policy_row document operator now d)) = ?f ` set (db_policies d)"
    using Some assms(1) by (simp add: save_policy_row_def Let_def next_document_def upsert_policy_def set_where_def policy_row_of_def)
  have "x = r" if "x \<in> set (db_policies d)" "prow_name x = policy_Name document" for x
    using that r policy_row_unique[OF assms(2), of x r] by simp
  then have "set (db_policies d) = insert r ?T"
    using r by blast
  from arg_cong[OF this, of "\<lambda>S. row_policy ` ?f ` S"]
  have "row_policy ` ?f ` set (db_policies d) = insert (row_policy (?f r)) (row_policy ` ?f ` ?T)"
    by (simp only: image_insert)
  moreover have "row_policy (?f r) = document"
    using r by (simp add: row_policy_def gen)
  moreover have "?f ` ?T = id ` ?T"
    by (rule image_cong) auto
  ultimately show ?thesis
    unfolding rows by simp
qed

text \<open>The next assignments of the bindings that select a policy: \<open>rename\<close> is the change of their names.\<close>

definition next_assignment :: "hcl_lib \<Rightarrow> db \<Rightarrow> Policy \<Rightarrow> (string \<Rightarrow> string) \<Rightarrow> Binding \<Rightarrow> Binding \<Rightarrow> bool" where
  "next_assignment hcl d document ren b b' \<longleftrightarrow>
     composed_of hcl d (Some document) (map ren (bind_Policies b)) (bind_Settings b) (bind_Effective b')
     \<and> bind_ID b' = bind_ID b \<and> bind_Role b' = bind_Role b \<and> bind_Settings b' = bind_Settings b \<and> \<not> bind_Applied b'"

definition next_assignments :: "hcl_lib \<Rightarrow> db \<Rightarrow> string \<Rightarrow> Policy \<Rightarrow> (string \<Rightarrow> string) \<Rightarrow> Binding list \<Rightarrow> bool" where
  "next_assignments hcl d name document ren bs \<longleftrightarrow>
     list_all2 (next_assignment hcl d document ren) (filter (\<lambda>b. HasPolicy b name) (Bindings [] d)) bs"

lemma HasPolicy_scan: "HasPolicy (scanBinding d r) name \<longleftrightarrow> (brow_id r, name) \<in> set (db_binding_policies d)"
  by (simp add: HasPolicy_def scanBinding_def list_ex_iff flip: binding_names_mem)

text \<open>After the rows are rewritten: a row is unchanged when its binding does not select the policy,
  and holds the recomposed assignment when it does.\<close>

lemma reassigned_rows:
  assumes "next_assignments hcl d name document ren bs" "db_ok d"
    and "fold_try update_assignment bs d1 = Inr d2" "db_bindings d1 = db_bindings d"
  shows "distinct (map bind_ID bs)" "d2 = d1\<lparr>db_bindings := map (fold reassign bs) (db_bindings d)\<rparr>"
    and "\<And>r. r \<in> set (db_bindings d) \<Longrightarrow> (brow_id r, name) \<notin> set (db_binding_policies d) \<Longrightarrow> fold reassign bs r = r"
    and "\<And>r. r \<in> set (db_bindings d) \<Longrightarrow> (brow_id r, name) \<in> set (db_binding_policies d) \<Longrightarrow>
      \<exists>b\<in>set bs. fold reassign bs r = assigned b r \<and> bind_Settings b = brow_settings r
        \<and> composed_of hcl d (Some document) (map ren (binding_names (brow_id r) d)) (brow_settings r) (bind_Effective b)"
    and "\<And>b. b \<in> set bs \<Longrightarrow> stored_as d2 b"
proof -
  let ?old = "filter (\<lambda>b. HasPolicy b name) (Bindings [] d)"
  have l: "list_all2 (next_assignment hcl d document ren) ?old bs"
    using assms(1) by (simp add: next_assignments_def)
  then have ids: "map bind_ID bs = map bind_ID ?old"
    by (induction rule: list_all2_induct) (simp_all add: next_assignment_def)
  show dist: "distinct (map bind_ID bs)"
    unfolding ids using distinct_Bindings[OF assms(2)] by (rule distinct_map_filter)
  have rows: "distinct (map brow_id (db_bindings d1))"
    using assms(2,4) by (simp add: db_ok_def bindings_ok_def)
  show d2: "d2 = d1\<lparr>db_bindings := map (fold reassign bs) (db_bindings d)\<rparr>"
    using update_assignments_map[OF assms(3) rows] assms(4) by simp
  have selected: "brow_id r \<in> bind_ID ` set bs \<longleftrightarrow> (brow_id r, name) \<in> set (db_binding_policies d)" if "r \<in> set (db_bindings d)" for r
  proof -
    have "bind_ID ` set bs = bind_ID ` set ?old"
      using ids by (metis set_map)
    also have "\<dots> = brow_id ` {r \<in> set (db_bindings d). (brow_id r, name) \<in> set (db_binding_policies d)}"
      by (auto simp: set_Bindings HasPolicy_scan) (auto simp: scanBinding_def image_iff HasPolicy_scan[unfolded scanBinding_def])
    finally show ?thesis
      using that by auto
  qed
  show "fold reassign bs r = r" if "r \<in> set (db_bindings d)" "(brow_id r, name) \<notin> set (db_binding_policies d)" for r
    using that selected[OF that(1)] by (intro fold_reassign_other) simp
  have from_old: "\<exists>b0\<in>set ?old. next_assignment hcl d document ren b0 b" if "b \<in> set bs" for b
    using that l by (metis in_set_conv_nth list_all2_conv_all_nth)
  have row_of: "\<exists>r\<in>set (db_bindings d). brow_id r = bind_ID b \<and> brow_role r = bind_Role b \<and> bind_Settings b = brow_settings r \<and> \<not> bind_Applied b
      \<and> composed_of hcl d (Some document) (map ren (binding_names (brow_id r) d)) (brow_settings r) (bind_Effective b)" if "b \<in> set bs" for b
    using from_old[OF that] by (auto simp: set_Bindings next_assignment_def scanBinding_def)
  show "stored_as d2 b" if b: "b \<in> set bs" for b
  proof -
    obtain r where r: "r \<in> set (db_bindings d)" "brow_id r = bind_ID b" "brow_role r = bind_Role b" "bind_Settings b = brow_settings r" "\<not> bind_Applied b"
      using row_of[OF b] by blast
    have "assigned b r \<in> set (db_bindings d2)"
      using r(1) fold_reassign_mem[OF dist b r(2)] by (metis d2 db.select_convs(3) db.surjective db.update_convs(3) image_eqI image_set)
    then show ?thesis
      using r by (auto simp: stored_as_def intro!: bexI[of _ "assigned b r"])
  qed
  fix r assume r: "r \<in> set (db_bindings d)" "(brow_id r, name) \<in> set (db_binding_policies d)"
  then obtain b where b: "b \<in> set bs" "bind_ID b = brow_id r"
    using selected[OF r(1)] by auto
  obtain r' where r': "r' \<in> set (db_bindings d)" "brow_id r' = bind_ID b" "bind_Settings b = brow_settings r'"
      "composed_of hcl d (Some document) (map ren (binding_names (brow_id r') d)) (brow_settings r') (bind_Effective b)"
    using row_of[OF b(1)] by blast
  have "r' = r"
    using r' r(1) b binding_row_unique[OF assms(2)] by simp
  then show "\<exists>b\<in>set bs. fold reassign bs r = assigned b r \<and> bind_Settings b = brow_settings r
        \<and> composed_of hcl d (Some document) (map ren (binding_names (brow_id r) d)) (brow_settings r) (bind_Effective b)"
    using b r' fold_reassign_mem[OF dist b(1), of r] by auto
qed

lemma SavePolicyBindings_stored:
  assumes save: "SavePolicyBindings document bs operator now d = Inr (p, d')" and ok: "stored_ok d"
    and doc: "next_document d document" and bs: "next_assignments hcl d (policy_Name document) document id bs"
  shows "stored_ok d'" "roles_exact roles d \<Longrightarrow> roles_exact roles d'" "\<And>b. b \<in> set bs \<Longrightarrow> stored_as d' b"
    "row_policy ` set (db_policies d') = insert document (row_policy ` {r \<in> set (db_policies d). prow_name r \<noteq> policy_Name document})"
    "p = document"
proof -
  let ?d = "save_policy_row document operator now d"
  have db: "db_ok d" using ok by (simp add: stored_ok_def)
  note s = SavePolicyBindings_Inr[OF save]
  note t = save_policy_row_tables[of document operator now d]
  note r = reassigned_rows[OF bs db s(2) t(3)]
  show "p = document" using s(1) doc by (simp add: next_document_def)
  show "\<And>b. b \<in> set bs \<Longrightarrow> stored_as d' b" by (rule r(5))
  show pol: "row_policy ` set (db_policies d') = insert document (row_policy ` {r \<in> set (db_policies d). prow_name r \<noteq> policy_Name document})"
    using save_policy_row_policies[OF doc db] by (simp add: r(2))
  show "roles_exact roles d'" if "roles_exact roles d"
    unfolding roles_exact_def
  proof (intro ballI impI)
    fix row' assume "row' \<in> set (db_bindings d')" "brow_applied row'"
    then obtain row where "row \<in> set (db_bindings d)" "row' = fold reassign bs row" by (auto simp: r(2))
    then show "roles (brow_role row') \<in> {None, Some (role_for row')}"
      using that r(3,4)[of row] \<open>brow_applied row'\<close> by (cases "(brow_id row, policy_Name document) \<in> set (db_binding_policies d)") (auto simp: roles_exact_def)
  qed
  have names: "binding_names i d' = binding_names i d" for i
    by (rule binding_names_cong) (simp add: r(2) t)
  have kept: "row_policy x \<in> row_policy ` set (db_policies d')" if "x \<in> set (db_policies d)" "prow_name x \<noteq> policy_Name document" for x
    unfolding pol using that by blast
  have "row_current d' (fold reassign bs row)" if row: "row \<in> set (db_bindings d)" for row
  proof (cases "(brow_id row, policy_Name document) \<in> set (db_binding_policies d)")
    case False
    have "row_current d' row"
      using ok row False by (intro row_current_keep[OF _ db names] kept) (auto simp: stored_ok_def sources_current_def)
    then show ?thesis using r(3)[OF row False] by simp
  next
    case True
    obtain b where b: "fold reassign bs row = assigned b row"
        and c: "composed_of hcl d (Some document) (map id (binding_names (brow_id row) d)) (brow_settings row) (bind_Effective b)"
      using r(4)[OF row True] by blast
    have "document \<in> row_policy ` set (db_policies d')" unfolding pol by simp
    then have "source \<in> policy_source ` row_policy ` set (db_policies d')" if "source \<in> set (eff_Sources (bind_Effective b))" for source
      using composed_of_facts(4)[OF c db that] kept by (metis image_eqI option.inject)
    then show ?thesis
      using composed_of_facts(1)[OF c db] by (auto simp: b row_current_def names sorted_sort_id)
  qed
  then have "sources_current d'" by (simp add: sources_current_def r(2))
  moreover have "prow_name ` set (db_policies d') = insert (policy_Name document) (prow_name ` set (db_policies d))"
    by (simp add: r(2) save_policy_row_names)
  then have "\<forall>n\<in>prow_name ` set (db_policies d'). ValidName n"
    using ok doc by (simp add: stored_ok_def names_ok_def next_document_def)
  then have "names_ok d'"
    using ok by (simp add: stored_ok_def names_ok_def r(2) save_policy_row_def Let_def split: option.splits)
  ultimately show "stored_ok d'"
    using SavePolicyBindings_ok[OF save db] by (simp add: stored_ok_def)
qed

lemma DeletePolicy_stored:
  assumes "DeletePolicy name d = Inr d'" "stored_ok d"
  shows "stored_ok d'" "roles_exact roles d \<Longrightarrow> roles_exact roles d'"
    "db_policies d' = delete_where (\<lambda>r. prow_name r = name) (db_policies d)" "db_bindings d' = db_bindings d"
proof -
  have d': "d' = d\<lparr>db_policies := delete_where (\<lambda>r. prow_name r = name) (db_policies d)\<rparr>" and free: "name \<notin> snd ` set (db_binding_policies d)"
    using assms(1) by (auto simp: DeletePolicy_def split: if_splits)
  show "db_policies d' = delete_where (\<lambda>r. prow_name r = name) (db_policies d)" "db_bindings d' = db_bindings d"
      "roles_exact roles d \<Longrightarrow> roles_exact roles d'"
    by (simp_all add: d' roles_exact_def)
  have db: "db_ok d" using assms(2) by (simp add: stored_ok_def)
  have "row_current d' row" if "row \<in> set (db_bindings d)" for row
  proof (rule row_current_keep[OF _ db])
    show "row_current d row" using assms(2) that by (simp add: stored_ok_def sources_current_def)
    show "binding_names (brow_id row) d' = binding_names (brow_id row) d" by (simp add: d' binding_names_def)
    show "row_policy r \<in> row_policy ` set (db_policies d')" if "r \<in> set (db_policies d)" "(brow_id row, prow_name r) \<in> set (db_binding_policies d)" for r
      using that free by (simp add: d') (metis (mono_tags, lifting) image_eqI mem_Collect_eq snd_conv)
  qed
  then show "stored_ok d'"
    using assms(2) DeletePolicy_ok[OF assms(1) db] by (auto simp: stored_ok_def names_ok_def sources_current_def d')
qed

lemma binding_names_rename:
  "binding_names i (d\<lparr>db_binding_policies := rename_membership old new (db_binding_policies d)\<rparr>) =
     sort (map (\<lambda>n. if n = old then new else n) (binding_names i d))"
proof -
  have "map snd (filter (\<lambda>r. fst r = i) (rename_membership old new ms)) =
      map (\<lambda>n. if n = old then new else n) (map snd (filter (\<lambda>r. fst r = i) ms))" for ms
    by (induction ms) (auto simp: rename_membership_def set_where_def)
  moreover have "sort (map f (sort xs)) = sort (map f xs)" for f :: "string \<Rightarrow> string" and xs
    by (rule properties_for_sort) simp_all
  ultimately show ?thesis
    by (simp add: binding_names_def)
qed

lemma RenamePolicy_stored:
  assumes rename: "RenamePolicy hcl old document bs operator now d = Inr (p, d')" and ok: "stored_ok d"
    and valid: "ValidName (policy_Name document)"
    and bs: "next_assignments hcl d old document (\<lambda>n. if n = old then policy_Name document else n) bs"
  shows "stored_ok d'" "roles_exact roles d \<Longrightarrow> roles_exact roles d'" "\<And>b. b \<in> set bs \<Longrightarrow> stored_as d' b" "p = document"
    "row_policy ` set (db_policies d') = insert document (row_policy ` {r \<in> set (db_policies d). prow_name r \<noteq> old})"
proof -
  let ?ren = "\<lambda>n. if n = old then policy_Name document else n"
  have db: "db_ok d" using ok by (simp add: stored_ok_def)
  obtain r0 d3 where r0: "row_by prow_name old (db_policies d) = Some r0" and p: "p = document"
    and new: "policy_Name document \<notin> prow_name ` set (db_policies d)"
    and f: "fold_try update_assignment bs (rename_insert old document operator now d) = Inr d3"
    and d': "d' = recordPolicyRetirement (OpenBaoPolicyName ((prow_document r0)\<lparr>policy_Generation := prow_generation r0\<rparr>)) now
       (ForgetPolicyRetirement (OpenBaoPolicyName document)
         (d3\<lparr>db_policies := delete_where (\<lambda>r. prow_name r = old) (db_policies d3)\<rparr>))"
    by (rule RenamePolicy_Inr[OF rename])
  note r = reassigned_rows[OF bs db f, unfolded rename_insert_def, simplified]
  have neq: "policy_Name document \<noteq> old"
    using new row_by_Some[OF r0] by force
  have rows: "db_bindings d' = map (fold reassign bs) (db_bindings d)"
      "set (db_policies d') = insert (policy_row_of document operator now) {r \<in> set (db_policies d). prow_name r \<noteq> old}"
    using neq by (auto simp: d' r(2) policy_row_of_def)
  show "p = document" by (fact p)
  show pol: "row_policy ` set (db_policies d') = insert document (row_policy ` {r \<in> set (db_policies d). prow_name r \<noteq> old})"
    by (simp add: rows row_policy_of)
  show "stored_as d' b" if "b \<in> set bs" for b
    using r(5)[OF that] by (simp add: stored_as_def d')
  show "roles_exact roles d'" if "roles_exact roles d"
    unfolding roles_exact_def
  proof (intro ballI impI)
    fix row' assume "row' \<in> set (db_bindings d')" "brow_applied row'"
    then obtain row where "row \<in> set (db_bindings d)" "row' = fold reassign bs row" by (auto simp: rows)
    then show "roles (brow_role row') \<in> {None, Some (role_for row')}"
      using that r(3,4)[of row] \<open>brow_applied row'\<close> by (cases "(brow_id row, old) \<in> set (db_binding_policies d)") (auto simp: roles_exact_def)
  qed
  have names: "binding_names i d' = sort (map ?ren (binding_names i d))" for i
    unfolding binding_names_rename[symmetric] by (rule binding_names_cong) (simp add: d' r(2))
  have kept: "row_policy x \<in> row_policy ` set (db_policies d')" if "x \<in> set (db_policies d)" "prow_name x \<noteq> old" for x
    unfolding pol using that by blast
  have "row_current d' (fold reassign bs row)" if row: "row \<in> set (db_bindings d)" for row
  proof (cases "(brow_id row, old) \<in> set (db_binding_policies d)")
    case False
    then have "map ?ren (binding_names (brow_id row) d) = binding_names (brow_id row) d"
      by (intro map_idI) (auto simp: binding_names_mem)
    then have same: "binding_names (brow_id row) d' = binding_names (brow_id row) d"
      by (simp add: names sorted_sort_id)
    have "row_current d row" using ok row by (simp add: stored_ok_def sources_current_def)
    then have "row_current d' row"
      by (rule row_current_keep[OF _ db same]) (use False kept in auto)
    then show ?thesis using r(3)[OF row False] by simp
  next
    case True
    obtain b where b: "fold reassign bs row = assigned b row"
        and c: "composed_of hcl d (Some document) (map ?ren (binding_names (brow_id row) d)) (brow_settings row) (bind_Effective b)"
      using r(4)[OF row True] by blast
    have "old \<notin> set (map ?ren (binding_names (brow_id row) d))"
      using neq by auto
    then have row_kept: "policy_source (row_policy x) \<in> policy_source ` row_policy ` set (db_policies d')"
      if "x \<in> set (db_policies d)" "prow_name x \<in> set (map ?ren (binding_names (brow_id row) d))" for x
      using that kept by blast
    have doc_kept: "policy_source document \<in> policy_source ` row_policy ` set (db_policies d')" unfolding pol by simp
    have "source \<in> policy_source ` row_policy ` set (db_policies d')" if "source \<in> set (eff_Sources (bind_Effective b))" for source
      using composed_of_facts(4)[OF c db that]
    proof (elim disjE exE bexE conjE)
      fix q assume "Some document = Some q" "source = policy_source q"
      then show ?thesis using doc_kept by simp
    next
      fix x assume "x \<in> set (db_policies d)" "source = policy_source (row_policy x)" "prow_name x \<in> set (map ?ren (binding_names (brow_id row) d))"
      then show ?thesis using row_kept by simp
    qed
    then show ?thesis
      using composed_of_facts(1)[OF c db] by (auto simp: b row_current_def names)
  qed
  then have "sources_current d'" by (simp add: sources_current_def rows)
  moreover have "managed_name (OpenBaoPolicyName (row_policy r0))"
    using row_managed[OF ok] row_by_Some[OF r0] by blast
  then have "\<forall>i\<in>dom (map_of (db_policy_retirements d')). managed_name i"
    using ok by (auto simp: d' r(2) recordPolicyRetirement_def ForgetPolicyRetirement_def row_policy_def stored_ok_def names_ok_def
        map_of_append split: if_splits)
  then have "names_ok d'"
    using ok valid by (auto simp: stored_ok_def names_ok_def rows policy_row_of_def)
  ultimately show "stored_ok d'"
    using RenamePolicy_ok[OF rename db] by (simp add: stored_ok_def)
qed

end
