(* ===== verification/Controller_Sessions.thy ===== *)
theory Controller_Sessions
  imports Controller_Operations
begin

text \<open>
  The controller's sessions with agents (\<^verbatim>\<open>internal/controller/session.go\<close>) and the exported operations
  that record an event and push the result to the agents (\<^verbatim>\<open>operations.go\<close>, \<^verbatim>\<open>policy_delete.go\<close>,
  \<^verbatim>\<open>policy_rename.go\<close>, \<^verbatim>\<open>policy_retirement.go\<close>). A session is named by its position in the world.
\<close>

section \<open>Issuing credentials\<close>

definition credentialWrapTTL :: int where
  "credentialWrapTTL = 2 * minute"

definition issue_credential :: "'r ctl_env \<Rightarrow> string \<Rightarrow> Binding \<Rightarrow> ('r world, Credential option) state" where
  "issue_credential env agent binding = do {
     started \<leftarrow> now_read;
     role \<leftarrow> bao_call (ob_RoleID (ce_bao env) (bind_Role binding));
     wrapped \<leftarrow> (case role of
         Inl c \<Rightarrow> ret (Inl c)
       | Inr roleID \<Rightarrow> do {
           secret \<leftarrow> bao_call (ob_WrappedSecretID (ce_bao env) (bind_Role binding) credentialWrapTTL (IdentityMetadata (bind_Settings binding)));
           ret (map_sum id (Pair roleID) secret)
         });
     let code = (case wrapped of Inl c \<Rightarrow> openBaoError (BaoFail c) | Inr _ \<Rightarrow> ErrorNone);
     t \<leftarrow> now_read;
     recordBinding (bind_Policies binding)
       (no_event\<lparr>ev_Operation := ''credential-issued'', ev_Outcome := outcomeFor code, ev_ErrorCode := code, ev_Agent := agent,
          ev_Binding := bind_ID binding, ev_Latency := word_of_int (t - started)\<rparr>);
     ret (case wrapped of
        Inl _ \<Rightarrow> None
      | Inr (roleID, secretID) \<Rightarrow>
          Some \<lparr>credential_Assignment = ce_Assignment env binding, credential_Binding = bind_ID binding,
            credential_AppRoleMount = ce_AppRole env, credential_RoleID = roleID, credential_WrappedSecretID = secretID\<rparr>)
   }"

definition prepareCredential :: "'r ctl_env \<Rightarrow> string \<Rightarrow> Binding \<Rightarrow> ('r world, Credential option) state" where
  "prepareCredential env agent binding = do {
     pending \<leftarrow> get_pending;
     check (if pending then syncPolicies env else ret None) (\<lambda>_. ret None)
       (attempt (store_read (store_Binding (bind_ID binding))) (\<lambda>_. ret None)
          (\<lambda>current.
             if bind_Agent current \<noteq> agent \<or> ce_Assignment env current \<noteq> ce_Assignment env binding then ret None
             else check (applyBinding env current) (\<lambda>_. ret None) (issue_credential env agent current)))
   }"

definition issue :: "'r ctl_env \<Rightarrow> nat \<Rightarrow> string \<Rightarrow> Binding \<Rightarrow> ('r world, bool) state" where
  "issue env i agent binding = do {
     credential \<leftarrow> prepareCredential env agent binding;
     case credential of
       None \<Rightarrow> ret True
     | Some c \<Rightarrow> do {
         ok \<leftarrow> session_send i (SentCredential c);
         if ok then do {
           change_session i (\<lambda>s. s\<lparr>as_credentialed := AList.update (bind_ID binding) (credential_Assignment c) (as_credentialed s)\<rparr>);
           ret True
         }
         else ret False
       }
   }"

fun issue_all :: "'r ctl_env \<Rightarrow> nat \<Rightarrow> string \<Rightarrow> Binding list \<Rightarrow> ('r world, bool) state" where
  "issue_all env i agent [] = ret True"
| "issue_all env i agent (b # bs) = do { ok \<leftarrow> issue env i agent b; if ok then issue_all env i agent bs else ret False }"

section \<open>Pushing policy sets\<close>

definition session_at :: "nat \<Rightarrow> 'r world \<Rightarrow> agentSession" where
  "session_at i w = w_sessions w ! i"

definition to_issue :: "(Binding \<Rightarrow> string) \<Rightarrow> Binding list \<Rightarrow> agentSession \<Rightarrow> Binding list" where
  "to_issue assignment matched s =
     filter (\<lambda>b. (case map_of (as_credentialed s) (bind_ID b) of None \<Rightarrow> [] | Some a \<Rightarrow> a) \<noteq> assignment b) matched"

definition note_matched :: "Binding list \<Rightarrow> agentSession \<Rightarrow> agentSession" where
  "note_matched matched s =
     s\<lparr>as_matched := map bind_ID matched,
       as_credentialed := filter (\<lambda>c. fst c \<in> set (map bind_ID matched)) (as_credentialed s)\<rparr>"

definition push :: "'r ctl_env \<Rightarrow> nat \<Rightarrow> ('r world, bool) state" where
  "push env i = do {
     s \<leftarrow> read_rest (session_at i);
     attempt (store_read (\<lambda>d. Inr (Inventory (as_agent s) d))) (\<lambda>_. ret True)
       (\<lambda>inventory. attempt (store_read (\<lambda>d. Inr (Bindings (as_agent s) d))) (\<lambda>_. ret True)
          (\<lambda>bindings. do {
             let matched = MatchBindings (fst inventory) bindings;
             current \<leftarrow> read_rest (session_at i);
             change_session i (note_matched matched);
             ok \<leftarrow> session_send i (SentPolicySet (ce_agentOB env)
               (map (wireBinding (ce_Assignment env)) (CarriedBindings (fst inventory) bindings)));
             if ok then issue_all env i (as_agent s) (to_issue (ce_Assignment env) matched current) else ret False
           }))
   }"

definition close :: "nat \<Rightarrow> ('r world, unit) state" where
  "close i = change_session i (\<lambda>s. s\<lparr>as_closed := True\<rparr>)"

definition pushAgent :: "'r ctl_env \<Rightarrow> string \<Rightarrow> ('r world, unit) state" where
  "pushAgent env agent = do {
     hub \<leftarrow> read_rest w_hub;
     case map_of hub agent of
       None \<Rightarrow> ret ()
     | Some i \<Rightarrow> do { ok \<leftarrow> push env i; if ok then ret () else close i }
   }"

fun push_agents :: "'r ctl_env \<Rightarrow> string list \<Rightarrow> ('r world, unit) state" where
  "push_agents env [] = ret ()"
| "push_agents env (agent # agents) = do { pushAgent env agent; push_agents env agents }"

text \<open>\<^verbatim>\<open>hub.send\<close>, telling whether the agent is connected and took the message.\<close>

definition hub_send :: "string \<Rightarrow> sent \<Rightarrow> ('r world, bool) state" where
  "hub_send agent m = do {
     hub \<leftarrow> read_rest w_hub;
     case map_of hub agent of
       None \<Rightarrow> ret False
     | Some i \<Rightarrow> do { ok \<leftarrow> session_send i m; if ok then ret True else do { close i; ret False } }
   }"

section \<open>Messages from agents\<close>

datatype received =
    InInventory "Container list"
  | InContractResult ContractResult
  | InTokenAccessor TokenAccessor
  | InBindingStatus msg_BindingStatus
  | InCredentialRequest string
  | InOther

definition revoke_and_acknowledge :: "'r ctl_env \<Rightarrow> nat \<Rightarrow> TokenAccessor \<Rightarrow> ('r world, bool) state" where
  "revoke_and_acknowledge env i report =
     check (bao_check (ob_RevokeAccessor (ce_bao env) (accessor_Accessor report))) (\<lambda>_. ret True)
       (session_send i (SentAccessorRecorded (TokenAccessor_Acknowledge report)))"

definition retired_accessor :: "'r ctl_env \<Rightarrow> nat \<Rightarrow> string \<Rightarrow> TokenAccessor \<Rightarrow> ('r world, bool) state" where
  "retired_accessor env i agent report = do {
     x \<leftarrow> store_read (RetiredBindingAgent (accessor_Binding report));
     case x of
       Inl e \<Rightarrow> if e = StoreErr ErrNotFound then session_send i (SentAccessorRecorded (TokenAccessor_Acknowledge report)) else ret True
     | Inr owner \<Rightarrow>
         if owner \<noteq> agent then session_send i (SentAccessorRecorded (TokenAccessor_Acknowledge report))
         else revoke_and_acknowledge env i report
   }"

definition recordAccessor :: "'r ctl_env \<Rightarrow> nat \<Rightarrow> string \<Rightarrow> TokenAccessor \<Rightarrow> ('r world, bool) state" where
  "recordAccessor env i agent report = do {
     x \<leftarrow> store_read (store_Binding (accessor_Binding report));
     case x of
       Inr binding \<Rightarrow>
         if bind_Agent binding \<noteq> agent then session_send i (SentAccessorRecorded (TokenAccessor_Acknowledge report))
         else if accessor_Assignment report \<noteq> ce_Assignment env binding \<or> \<not> bind_Applied binding
         then revoke_and_acknowledge env i report
         else do {
           t \<leftarrow> now_read;
           e \<leftarrow> store_exec (SaveAssignmentAccessor binding (accessor_Accessor report) t);
           case e of
             None \<Rightarrow> session_send i (SentAccessorRecorded (TokenAccessor_Acknowledge report))
           | Some err \<Rightarrow>
               if err = StoreErr ErrConflict then revoke_and_acknowledge env i report
               else do {
                 again \<leftarrow> store_read (store_Binding (accessor_Binding report));
                 if again = Inl (StoreErr ErrNotFound) then retired_accessor env i agent report else ret True
               }
         }
     | Inl e \<Rightarrow> if e = StoreErr ErrNotFound then retired_accessor env i agent report else ret True
   }"

definition record_result :: "nat \<Rightarrow> string \<Rightarrow> ContractResult \<Rightarrow> ('r world, bool) state" where
  "record_result i agent result = do {
     x \<leftarrow> store_read (store_Binding (result_Binding result));
     case x of
       Inl e \<Rightarrow> if e = StoreErr ErrNotFound then session_send i (SentResultRecorded (ContractResult_Acknowledge result)) else ret True
     | Inr binding \<Rightarrow>
         if bind_Agent binding \<noteq> agent then session_send i (SentResultRecorded (ContractResult_Acknowledge result))
         else do {
           t \<leftarrow> now_read;
           check (store_exec (SaveContractResult result t))
             (\<lambda>_. do {
                again \<leftarrow> store_read (store_Binding (result_Binding result));
                if again = Inl (StoreErr ErrNotFound) then session_send i (SentResultRecorded (ContractResult_Acknowledge result)) else ret True
              })
             (session_send i (SentResultRecorded (ContractResult_Acknowledge result)))
         }
   }"

text \<open>\<^verbatim>\<open>recordStatus\<close>: a failed lookup keeps the status, as \<open>Readiness.recordStatus\<close> says.\<close>

definition record_status :: "nat \<Rightarrow> string \<Rightarrow> msg_BindingStatus \<Rightarrow> ('r world, unit) state" where
  "record_status i agent status = do {
     x \<leftarrow> store_read (store_Binding (ms_Binding status));
     case x of
       Inl StoreIO \<Rightarrow> change_session i (\<lambda>s. s\<lparr>as_statuses := AList.update (ms_Binding status) status (as_statuses s)\<rparr>)
     | Inl (StoreErr e) \<Rightarrow> change_session i (\<lambda>s. s\<lparr>as_statuses := recordStatus (Inl e) agent status (as_statuses s)\<rparr>)
     | Inr b \<Rightarrow> change_session i (\<lambda>s. s\<lparr>as_statuses := recordStatus (Inr b) agent status (as_statuses s)\<rparr>)
   }"

text \<open>\<^verbatim>\<open>handle\<close> gives false when it returns an error, which ends the session.\<close>

definition handle :: "'r ctl_env \<Rightarrow> nat \<Rightarrow> string \<Rightarrow> received \<Rightarrow> ('r world, bool) state" where
  "handle env i fingerprint message = do {
     s \<leftarrow> read_rest (session_at i);
     case message of
       InInventory containers \<Rightarrow> do {
         t \<leftarrow> now_read;
         store_set (SaveInventory (as_agent s) fingerprint containers t);
         push env i
       }
     | InContractResult result \<Rightarrow> record_result i (as_agent s) result
     | InTokenAccessor report \<Rightarrow> recordAccessor env i (as_agent s) report
     | InBindingStatus status \<Rightarrow> do { record_status i (as_agent s) status; ret True }
     | InCredentialRequest bid \<Rightarrow>
         attempt (store_read (store_Binding bid)) (\<lambda>_. ret True)
           (\<lambda>binding. do {
              current \<leftarrow> read_rest (session_at i);
              if bind_Agent binding \<noteq> as_agent s \<or> bind_ID binding \<notin> set (as_matched current) then ret True
              else issue env i (as_agent s) binding
            })
     | InOther \<Rightarrow> ret False
   }"

section \<open>Sessions\<close>

definition boundedVersion :: "string \<Rightarrow> string" where
  "boundedVersion v = take 64 v"

definition new_session :: "string \<Rightarrow> AssignableGroups option \<Rightarrow> agentSession" where
  "new_session agent groups =
     \<lparr>as_agent = agent, as_groups = groups, as_credentialed = [], as_matched = [], as_statuses = [], as_closed = False, as_sent = []\<rparr>"

definition register :: "string \<Rightarrow> AssignableGroups option \<Rightarrow> ('r world, nat option) state" where
  "register agent groups = State (\<lambda>w.
     (map_of (w_hub w) agent,
      w\<lparr>w_sessions := w_sessions w @ [new_session agent groups], w_hub := AList.update agent (length (w_sessions w)) (w_hub w)\<rparr>))"

definition unregister :: "nat \<Rightarrow> ('r world, unit) state" where
  "unregister i = State (\<lambda>w.
     ((), let agent = as_agent (session_at i w)
          in if map_of (w_hub w) agent = Some i then w\<lparr>w_hub := AList.delete agent (w_hub w)\<rparr> else w))"

text \<open>The start of \<^verbatim>\<open>serve\<close>, with what \<^verbatim>\<open>receiveHello\<close> gives, and its end with the session's closing code.\<close>

definition serve_start :: "string \<Rightarrow> string \<Rightarrow> Hello option \<Rightarrow> ('r world, unit) state" where
  "serve_start agent fingerprint hello = do {
     started \<leftarrow> now_read;
     case hello of
       None \<Rightarrow> do {
         t \<leftarrow> now_read;
         ctl_record (no_event\<lparr>ev_Operation := ''session-opened'', ev_Outcome := OutcomeFailed, ev_ErrorCode := ''protocol'', ev_Agent := agent,
           ev_Latency := word_of_int (t - started)\<rparr>)
       }
     | Some h \<Rightarrow> do {
         t \<leftarrow> now_read;
         store_set (RecordConnection fingerprint (boundedVersion (hello_AgentVersion h)) (hello_AllowRecreate h) t);
         previous \<leftarrow> register agent (hello_AssignableGroups h);
         (case previous of None \<Rightarrow> ret () | Some i \<Rightarrow> close i);
         t2 \<leftarrow> now_read;
         ctl_record (no_event\<lparr>ev_Operation := ''session-opened'', ev_Outcome := OutcomeOK, ev_Agent := agent, ev_Latency := word_of_int (t2 - started)\<rparr>)
       }
   }"

definition serve_end :: "nat \<Rightarrow> string \<Rightarrow> time \<Rightarrow> ('r world, unit) state" where
  "serve_end i closeCode started = do {
     s \<leftarrow> read_rest (session_at i);
     unregister i;
     t \<leftarrow> now_read;
     ctl_record (no_event\<lparr>ev_Operation := ''session-closed'', ev_Outcome := outcomeFor closeCode, ev_ErrorCode := closeCode, ev_Agent := as_agent s,
       ev_Latency := word_of_int (t - started)\<rparr>)
   }"

section \<open>The exported operations\<close>

definition ctl_DecideAgent :: "string \<Rightarrow> bool \<Rightarrow> string \<Rightarrow> ('r world, ctl_error option) state" where
  "ctl_DecideAgent fingerprint approve operator = do {
     t \<leftarrow> now_read;
     attempt (store_write (DecideAgent fingerprint (if approve then AgentApproved else AgentRejected) operator t))
       (\<lambda>e. ret (Some (
          if e = StoreErr ErrConflict then operationError ErrorPolicyDenied HostnameTaken
          else if e = StoreErr ErrNotFound then operationError ErrorNotBound NoPendingAgent
          else operationError ErrorInternal DecisionNotRecorded)))
       (\<lambda>agent. do {
          ctl_record (no_event\<lparr>ev_Operation := (if approve then ''agent-approved'' else ''agent-rejected''), ev_Outcome := OutcomeOK,
            ev_Agent := agent_Name agent, ev_Operator := operator\<rparr>);
          ret None
        })
   }"

definition policy_event :: "string \<Rightarrow> string \<Rightarrow> string \<Rightarrow> string \<Rightarrow> time \<Rightarrow> time \<Rightarrow> Event" where
  "policy_event operation code name operator started t =
     no_event\<lparr>ev_Operation := operation, ev_Outcome := outcomeFor code, ev_ErrorCode := code, ev_Policy := name, ev_Operator := operator,
       ev_Latency := word_of_int (t - started)\<rparr>"

definition ctl_SavePolicy :: "'r ctl_env \<Rightarrow> Policy \<Rightarrow> string \<Rightarrow> ('r world, Policy option \<times> ctl_error option) state" where
  "ctl_SavePolicy env document operator = do {
     started \<leftarrow> now_read;
     result \<leftarrow> savePolicy env document operator;
     t \<leftarrow> now_read;
     ctl_record (policy_event ''policy-saved'' (mutationErrorCode (snd (snd result))) (boundedPolicyName (policy_Name document)) operator started t);
     push_agents env (remdups (fst (snd result)));
     ret (fst result, snd (snd result))
   }"

definition ctl_DeletePolicy :: "'r ctl_env \<Rightarrow> string \<Rightarrow> string \<Rightarrow> ('r world, ctl_error option) state" where
  "ctl_DeletePolicy env name operator = do {
     started \<leftarrow> now_read;
     err \<leftarrow> deletePolicy env name;
     t \<leftarrow> now_read;
     ctl_record (policy_event ''policy-deleted'' (mutationErrorCode err) (if ValidName name then name else []) operator started t);
     ret err
   }"

definition ctl_RenamePolicy :: "'r ctl_env \<Rightarrow> PolicyRename \<Rightarrow> string \<Rightarrow> ('r world, Policy option \<times> ctl_error option) state" where
  "ctl_RenamePolicy env request operator = do {
     started \<leftarrow> now_read;
     result \<leftarrow> renamePolicy env request operator;
     if snd (snd result) = None \<and> rename_Name request = rename_NewName request then ret (fst result, None)
     else do {
       t \<leftarrow> now_read;
       ctl_record ((policy_event ''policy-renamed'' (mutationErrorCode (snd (snd result)))
           (if ValidName (rename_Name request) then rename_Name request else []) operator started t)
         \<lparr>ev_NewPolicy := (if ValidName (rename_NewName request) then rename_NewName request else [])\<rparr>);
       push_agents env (remdups (fst (snd result)));
       ret (fst result, snd (snd result))
     }
   }"

definition binding_event :: "'r ctl_env \<Rightarrow> string \<Rightarrow> string \<Rightarrow> string \<Rightarrow> string \<Rightarrow> string \<Rightarrow> time \<Rightarrow> time \<Rightarrow> Event" where
  "binding_event env operation code bid agent operator started t =
     no_event\<lparr>ev_Operation := operation, ev_Outcome := outcomeFor code, ev_ErrorCode := code, ev_Binding := bid, ev_Agent := agent,
       ev_Operator := operator, ev_Latency := word_of_int (t - started)\<rparr>"

definition names_for_event :: "binding_result \<Rightarrow> string list" where
  "names_for_event result = (case result of (Some b, None) \<Rightarrow> bind_Policies b | _ \<Rightarrow> [])"

definition finishCreateBinding :: "'r ctl_env \<Rightarrow> string \<Rightarrow> binding_result \<Rightarrow> string \<Rightarrow> time \<Rightarrow> ('r world, unit) state" where
  "finishCreateBinding env agent result operator started = do {
     t \<leftarrow> now_read;
     recordBinding (names_for_event result)
       (binding_event env ''binding-created'' (mutationErrorCode (snd result))
         (case fst result of None \<Rightarrow> [] | Some b \<Rightarrow> bind_ID b) agent operator started t);
     if fst result \<noteq> None then pushAgent env agent else ret ()
   }"

definition ctl_CreateBinding :: "'r ctl_env \<Rightarrow> string \<Rightarrow> string \<Rightarrow> Key \<Rightarrow> Selection \<Rightarrow> string \<Rightarrow> ('r world, binding_result) state" where
  "ctl_CreateBinding env random agent key request operator = do {
     started \<leftarrow> now_read;
     result \<leftarrow> createBinding env random agent key request operator;
     finishCreateBinding env agent result operator started;
     ret result
   }"

definition ctl_ChangeBinding :: "'r ctl_env \<Rightarrow> string \<Rightarrow> Selection \<Rightarrow> string \<Rightarrow> ('r world, ctl_error option) state" where
  "ctl_ChangeBinding env bid request operator = do {
     started \<leftarrow> now_read;
     result \<leftarrow> changeBinding env bid request;
     t \<leftarrow> now_read;
     recordBinding (names_for_event result)
       (binding_event env ''binding-changed'' (mutationErrorCode (snd result)) bid
         (case fst result of None \<Rightarrow> [] | Some b \<Rightarrow> bind_Agent b) operator started t);
     (case fst result of None \<Rightarrow> ret () | Some b \<Rightarrow> pushAgent env (bind_Agent b));
     ret (snd result)
   }"

definition ctl_DeleteBinding :: "'r ctl_env \<Rightarrow> string \<Rightarrow> string \<Rightarrow> ('r world, ctl_error option) state" where
  "ctl_DeleteBinding env bid operator = do {
     x \<leftarrow> store_read (store_Binding bid);
     case x of
       Inl _ \<Rightarrow> deleteBinding env bid operator False
     | Inr binding \<Rightarrow> do {
         connected \<leftarrow> hub_send (bind_Agent binding) (SentUnbind (bind_ID binding));
         err \<leftarrow> deleteBinding env bid operator connected;
         pushAgent env (bind_Agent binding);
         ret err
       }
   }"

definition RequestRecreate :: "'r ctl_env \<Rightarrow> string \<Rightarrow> string \<Rightarrow> ('r world, ctl_error option) state" where
  "RequestRecreate env bid operator =
     attempt (store_read (store_Binding bid)) (\<lambda>_. ret (Some (operationError ErrorNotBound BindingMissing)))
       (\<lambda>binding. do {
          ok \<leftarrow> hub_send (bind_Agent binding) (SentRecreateRequest (bind_ID binding));
          let code = (if ok then ErrorNone else ErrorControllerUnavailable);
          recordBinding (bind_Policies binding)
            (no_event\<lparr>ev_Operation := ''recreate-requested'', ev_Outcome := outcomeFor code, ev_ErrorCode := code, ev_Agent := bind_Agent binding,
               ev_Binding := bind_ID binding,
               ev_ContainerKey := ev_ContainerKey_of (ce_sha256 env) (key_Kind (bind_Key binding)) (key_Value (bind_Key binding)),
               ev_Operator := operator\<rparr>);
          ret (if ok then None else Some (operationError code AgentNotConnected))
        })"

text \<open>One pass of the retirement consumer, telling whether work remains.\<close>

definition retirePolicies :: "'r ctl_env \<Rightarrow> ('r world, bool) state" where
  "retirePolicies env = do {
     result \<leftarrow> settlePolicyRetirements env;
     push_agents env (remdups (fst result));
     ret (snd result \<noteq> None)
   }"

end
