(* ===== verification/Controller_Invariant.thy ===== *)
theory Controller_Invariant
  imports Controller_Facts Controller_Sessions
begin

text \<open>
  Every operation of the controller keeps the database and OpenBao consistent, whatever call fails or
  loses its answer. The proofs are triples over the laws of the locale \<open>openbao_service\<close>.
\<close>

definition ctl_inv ::
  "hcl_lib \<Rightarrow> (string \<Rightarrow> string) \<Rightarrow> bool \<Rightarrow> db \<Rightarrow> (string \<Rightarrow> string option) \<Rightarrow> (string \<Rightarrow> ob_role option) \<Rightarrow> bool \<Rightarrow> bool" where
  "ctl_inv hcl compiled e d policies roles p \<longleftrightarrow>
     stored_ok d \<and> roles_exact roles d \<and> (e \<longrightarrow> p \<or> published hcl compiled policies d)"

text \<open>The stored row of a binding is applied, and its recorded token is revoked.\<close>

definition applied_in :: "db \<Rightarrow> Binding \<Rightarrow> bool" where
  "applied_in d b \<longleftrightarrow> (\<exists>row\<in>set (db_bindings d). brow_id row = bind_ID b \<and> brow_applied row)"

definition token_revoked :: "string set \<Rightarrow> db \<Rightarrow> Binding \<Rightarrow> bool" where
  "token_revoked gone d b \<longleftrightarrow> (\<forall>a. TokenAccessor_of (bind_ID b) d = Inr a \<longrightarrow> a = [] \<or> a \<in> gone)"

definition role_of :: "Binding \<Rightarrow> ob_role" where
  "role_of b = granted (OpenBaoPolicies (bind_Effective b)) (TTL (bind_Settings b)) (MaxTTL (bind_Settings b))"

lemma stored_as_row:
  assumes "stored_as d b"
  obtains row where "row \<in> set (db_bindings d)" "brow_id row = bind_ID b" "brow_role row = bind_Role b" "role_for row = role_of b"
  using assms by (auto simp: stored_as_def role_for_def role_of_def)

lemma stored_as_managed: "stored_as d b \<Longrightarrow> stored_ok d \<Longrightarrow> managed_name (bind_Role b)"
  by (erule stored_as_row) (metis role_managed)

lemma roles_exact_remove: "roles_exact roles d \<Longrightarrow> roles_exact (roles(n := None)) d"
  by (auto simp: roles_exact_def)

lemma roles_exact_write:
  assumes "roles_exact roles d" "stored_ok d" "stored_as d b"
  shows "roles_exact (roles(bind_Role b \<mapsto> role_of b)) d"
proof -
  obtain row where row: "row \<in> set (db_bindings d)" "brow_role row = bind_Role b" "role_for row = role_of b"
    using stored_as_row[OF assms(3)] by metis
  have "(roles(bind_Role b \<mapsto> role_of b)) (brow_role r) \<in> {None, Some (role_for r)}"
    if r: "r \<in> set (db_bindings d)" "brow_applied r" for r
  proof (cases "brow_role r = bind_Role b")
    case True
    then have "r = row" using role_unique[OF assms(2) r(1) row(1)] row(2) by simp
    then show ?thesis using row True by simp
  next
    case False
    then show ?thesis using assms(1) r by (simp add: roles_exact_def)
  qed
  then show ?thesis
    by (simp add: roles_exact_def)
qed

lemma MarkBindingApplied_applied: "stored_as d b \<Longrightarrow> applied_in (MarkBindingApplied (bind_ID b) d) b"
  unfolding stored_as_def applied_in_def by (metis MarkBindingApplied_keeps)

lemma MarkBindingApplied_token: "token_revoked gone (MarkBindingApplied i d) b = token_revoked gone d b"
  by (simp add: token_revoked_def TokenAccessor_of_def MarkBindingApplied_rows)

lemma MarkBindingApplied_inv:
  assumes "ctl_inv hcl compiled e d policies roles p" "stored_as d b" "roles (bind_Role b) = Some (role_of b)"
  shows "ctl_inv hcl compiled e (MarkBindingApplied (bind_ID b) d) policies roles p"
proof -
  obtain row where row: "row \<in> set (db_bindings d)" "brow_id row = bind_ID b" "brow_role row = bind_Role b" "role_for row = role_of b"
    using stored_as_row[OF assms(2)] .
  have "roles_exact roles (MarkBindingApplied (bind_ID b) d)"
    using assms(1,3) row by (intro MarkBindingApplied_roles[of d roles row]) (simp_all add: ctl_inv_def)
  then show ?thesis
    using assms(1) MarkBindingApplied_stored[of d "bind_ID b"] published_cong[of "MarkBindingApplied (bind_ID b) d" d]
    by (simp add: ctl_inv_def MarkBindingApplied_rows)
qed

text \<open>A fact about the database and the flag that marking a binding applied keeps.\<close>

definition mark_stable :: "(db \<Rightarrow> bool \<Rightarrow> bool) \<Rightarrow> bool" where
  "mark_stable K \<longleftrightarrow> (\<forall>d i p. K d p \<longrightarrow> K (MarkBindingApplied i d) p)"

lemma mark_stable_True: "mark_stable (\<lambda>d p. True)"
  by (simp add: mark_stable_def)

lemma triple_bao_check:
  "triple L P (bao_check f) (\<lambda>x d r p. \<exists>r0 c. P d r0 p \<and> f r0 = (c, r) \<and> x = map_option BaoFail c)"
  unfolding bao_check_def by (rule triple_bind[OF triple_bao_call triple_ret]) blast

lemma triple_store_check:
  "triple L P m R \<Longrightarrow> triple L P (store_check m) (\<lambda>x d r p. \<exists>y. x = map_option StoreFail y \<and> R y d r p)"
  unfolding store_check_def by (rule triple_bind, assumption) (rule triple_ret, blast)

section \<open>Calls that leave everything alone\<close>

lemma compose_sources_triple:
  "triple L P (compose_sources hcl replacement names)
     (\<lambda>x d r p. P d r p \<and> (\<forall>ps. x = Inr ps \<longrightarrow> list_all2 (looked_up hcl d replacement) names ps))"
proof (induction names arbitrary: P)
  case Nil
  show ?case by (simp, rule triple_ret) simp
next
  case (Cons name names)
  have rest: "triple L P' (attempt (compose_sources hcl replacement names) (\<lambda>e. ret (Inl e)) (\<lambda>ps. ret (Inr (q # ps))))
      (\<lambda>x d r p. P d r p \<and> (\<forall>ps. x = Inr ps \<longrightarrow> list_all2 (looked_up hcl d replacement) (name # names) ps))"
    if "\<And>d r p. P' d r p \<Longrightarrow> P d r p \<and> looked_up hcl d replacement name q" for P' q
    by (rule triple_attempt[OF Cons.IH[of P'] triple_ret triple_ret]) (use that in auto)
  have lookup: "triple L P (attempt (store_read (store_Policy hcl name)) (\<lambda>_. ret (Inl err))
        (\<lambda>stored. attempt (compose_sources hcl replacement names) (\<lambda>e. ret (Inl e)) (\<lambda>ps. ret (Inr (stored_Policy stored # ps)))))
      (\<lambda>x d r p. P d r p \<and> (\<forall>ps. x = Inr ps \<longrightarrow> list_all2 (looked_up hcl d replacement) (name # names) ps))"
    if "\<And>q. replacement = Some q \<Longrightarrow> policy_Name q \<noteq> name" for err
    by (rule triple_attempt[OF triple_store_read triple_ret rest]) (use that in \<open>auto simp: looked_up_def split: option.splits\<close>)
  show ?case
  proof (cases replacement)
    case None
    then show ?thesis using lookup by simp
  next
    case (Some q)
    have "looked_up hcl d replacement (policy_Name q) q" for d
      using Some by (simp add: looked_up_def)
    then show ?thesis
      using Some lookup rest[of P q] by (cases "name = policy_Name q") simp_all
  qed
qed

lemma compose_triple:
  "triple L P (compose hcl names settings replacement)
     (\<lambda>x d r p. P d r p \<and> (\<forall>e. x = Inr e \<longrightarrow> composed_of hcl d replacement names settings e))"
  unfolding compose_def
  by (rule triple_attempt[OF compose_sources_triple triple_ret triple_ret]) (auto simp: composed_of_def split: sum.splits)

lemma preflight_agents_triple: "triple L P (preflight_agents env agents) (\<lambda>_. P)"
proof (induction agents)
  case Nil
  show ?case by (simp, rule triple_ret)
next
  case (Cons a agents)
  have IH: "triple L P' (preflight_agents env agents) (\<lambda>_. P)" if "\<And>d r p. P' d r p \<Longrightarrow> P d r p" for P'
    by (rule triple_pre[OF Cons.IH that])
  show ?case
    by (cases a, simp, rule triple_attempt[OF triple_store_read triple_ret triple_attempt[OF triple_store_read IH triple_if[OF IH triple_ret]]]) auto
qed

lemma preflight_triple: "triple L P (preflight env candidates) (\<lambda>_. P)"
  unfolding preflight_def by (rule triple_if[OF triple_ret preflight_agents_triple])

lemma ctl_record_triple: "triple L P (ctl_record event) (\<lambda>_. P)"
  unfolding ctl_record_def by (rule triple_if[OF triple_now triple_log]) (rule triple_log)

lemma recordBinding_triple: "triple L P (recordBinding names event) (\<lambda>_. P)"
proof -
  have "triple L P (record_each names event) (\<lambda>_. P)" for names
    by (induction names) (simp_all add: triple_ret triple_bind[OF ctl_record_triple])
  then show ?thesis
    unfolding recordBinding_def by (intro triple_if ctl_record_triple)
qed

lemma recompose_saved_triple:
  "triple L P (recompose_saved env document bs)
     (\<lambda>x d r p. P d r p \<and> (\<forall>as. x = Inr as \<longrightarrow>
        list_all2 (next_assignment (ce_hcl env) d document id) (filter (\<lambda>b. HasPolicy b (policy_Name document)) bs) as))"
proof (induction bs arbitrary: P)
  case Nil
  show ?case by (simp, rule triple_ret) simp
next
  case (Cons b bs)
  show ?case
  proof (cases "HasPolicy b (policy_Name document)")
    case False
    then show ?thesis using Cons.IH by simp
  next
    case True
    then show ?thesis
      by (simp, intro triple_attempt[OF compose_triple triple_ret triple_attempt[OF Cons.IH triple_ret triple_ret]])
        (auto simp: next_assignment_def)
  qed
qed

lemma renamedBindings_triple:
  "triple L P (renamedBindings env old document bs)
     (\<lambda>x d r p. P d r p \<and> (\<forall>as. x = Inr as \<longrightarrow>
        list_all2 (next_assignment (ce_hcl env) d document (\<lambda>n. if n = old then policy_Name document else n)) (filter (\<lambda>b. HasPolicy b old) bs) as))"
proof (induction bs arbitrary: P)
  case Nil
  show ?case by (simp, rule triple_ret) simp
next
  case (Cons b bs)
  show ?case
  proof (cases "HasPolicy b old")
    case False
    then show ?thesis using Cons.IH by simp
  next
    case True
    then show ?thesis
      by (simp, intro triple_attempt[OF compose_triple triple_ret triple_attempt[OF Cons.IH triple_ret triple_ret]])
        (auto simp: next_assignment_def)
  qed
qed

lemma next_assignments_cong:
  assumes "db_policies d' = db_policies d" "db_bindings d' = db_bindings d" "db_binding_policies d' = db_binding_policies d"
  shows "next_assignments hcl d' = next_assignments hcl d"
proof -
  have "Bindings [] d' = Bindings [] d"
    by (simp add: Bindings_def scanBinding_def binding_names_def assms)
  moreover have "store_Policy hcl n d' = store_Policy hcl n d" for n
    by (simp add: store_Policy_def assms)
  then have "looked_up hcl d' = looked_up hcl d"
    by (intro ext) (simp add: looked_up_def split: option.split)
  then have "next_assignment hcl d' = next_assignment hcl d"
    by (simp add: next_assignment_def[abs_def] composed_of_def)
  ultimately show ?thesis
    by (simp add: next_assignments_def[abs_def])
qed

locale controller = openbao_service "ce_bao env" policies compiled roles revoked
  for env :: "'r ctl_env" and policies compiled roles revoked
begin

abbreviation inv :: "bool \<Rightarrow> 'r assertion" where
  "inv e \<equiv> (\<lambda>d r p. ctl_inv (ce_hcl env) compiled e d (policies r) (roles r) p)"

lemma revoke_and_mark_triple:
  assumes "mark_stable K"
  shows "triple L (\<lambda>d r p. inv e d r p \<and> stored_as d b \<and> K d p \<and> roles r (bind_Role b) = Some (role_of b)
        \<and> (\<forall>a'. TokenAccessor_of (bind_ID b) d = Inr a' \<longrightarrow> a' = a))
      (revoke_and_mark env b a)
      (\<lambda>x d r p. inv e d r p \<and> stored_as d b \<and> K d p \<and> (x = None \<longrightarrow> applied_in d b \<and> token_revoked (revoked r) d b))"
    (is "triple L ?P _ ?Q")
proof -
  let ?R = "\<lambda>x d r p. inv e d r p \<and> stored_as d b \<and> K d p \<and> roles r (bind_Role b) = Some (role_of b) \<and> (x = None \<longrightarrow> token_revoked (revoked r) d b)"
  have revoke: "triple L ?P (if a \<noteq> [] then bao_check (ob_RevokeAccessor (ce_bao env) a) else ret None) ?R"
  proof (rule triple_if)
    show "triple L ?P (bao_check (ob_RevokeAccessor (ce_bao env) a)) ?R"
      by (rule triple_post[OF triple_bao_check]) (auto dest!: RevokeAccessor simp: token_revoked_def)
    show "\<not> a \<noteq> [] \<Longrightarrow> triple L ?P (ret None) ?R"
      by (rule triple_ret) (auto simp: token_revoked_def)
  qed
  have mark: "triple L (?R None) (store_check (store_set (MarkBindingApplied (bind_ID b)))) ?Q"
    by (rule triple_post[OF triple_store_check[OF triple_store_set]])
      (use assms in \<open>auto simp: mark_stable_def MarkBindingApplied_inv MarkBindingApplied_stored_as MarkBindingApplied_applied
          MarkBindingApplied_token split: if_splits\<close>)
  show ?thesis
    unfolding revoke_and_mark_def by (rule triple_check[OF revoke triple_ret mark]) auto
qed

lemma applyBinding_triple:
  assumes "mark_stable K"
  shows "triple L (\<lambda>d r p. inv e d r p \<and> stored_as d b \<and> K d p) (applyBinding env b)
      (\<lambda>x d r p. inv e d r p \<and> stored_as d b \<and> K d p \<and> (x = None \<longrightarrow> applied_in d b \<and> (bind_Applied b \<or> token_revoked (revoked r) d b)))"
    (is "triple L ?P _ ?Q")
proof -
  let ?R = "\<lambda>x d r p. ?P d r p \<and> (x = None \<longrightarrow> roles r (bind_Role b) = Some (role_of b))"
  have del: "triple L ?P (if settings_Values (bind_Settings b) \<noteq> [] then bao_check (ob_DeleteRole (ce_bao env) (bind_Role b)) else ret None) (\<lambda>_. ?P)"
    by (intro triple_if triple_ret triple_post[OF triple_bao_check]) (auto dest!: DeleteRole[OF _ stored_as_managed] simp: ctl_inv_def roles_exact_remove)
  have wr: "triple L ?P (bao_check (ob_WriteRole (ce_bao env) (bind_Role b) (OpenBaoPolicies (bind_Effective b)) (TTL (bind_Settings b)) (MaxTTL (bind_Settings b)))) ?R"
    by (rule triple_post[OF triple_bao_check])
      (auto dest!: WriteRole[OF _ stored_as_managed] simp: ctl_inv_def roles_exact_write simp flip: role_of_def)
  have rest: "triple L (?R None) (attempt (store_read (TokenAccessor_of (bind_ID b)))
          (\<lambda>e. if e = StoreErr ErrNotFound then revoke_and_mark env b [] else ret (Some (StoreFail e))) (revoke_and_mark env b)) ?Q"
    by (rule triple_attempt[OF triple_store_read])
      (intro triple_if triple_ret triple_conseq[OF revoke_and_mark_triple[OF assms, of L e b]]; auto)+
  have none: "triple L ?P (ret None) ?Q" if "bind_Applied b"
    using that by (intro triple_ret) (auto simp: applied_in_def stored_as_def)
  have some: "triple L ?P (ret (Some x)) ?Q" for x
    by (rule triple_ret) simp
  have main: "triple L ?P (check (if settings_Values (bind_Settings b) \<noteq> [] then bao_check (ob_DeleteRole (ce_bao env) (bind_Role b)) else ret None)
      (\<lambda>e. ret (Some e)) (check (bao_check (ob_WriteRole (ce_bao env) (bind_Role b) (OpenBaoPolicies (bind_Effective b)) (TTL (bind_Settings b)) (MaxTTL (bind_Settings b))))
      (\<lambda>e. ret (Some e)) (attempt (store_read (TokenAccessor_of (bind_ID b)))
          (\<lambda>e. if e = StoreErr ErrNotFound then revoke_and_mark env b [] else ret (Some (StoreFail e))) (revoke_and_mark env b)))) ?Q"
    by (rule triple_check[OF del triple_ret triple_check[OF wr triple_ret rest]]) auto
  show ?thesis
    unfolding applyBinding_def by (intro triple_if; (rule some | rule main | rule none, assumption))
qed

lemma apply_all_triple:
  assumes "mark_stable K"
  shows "triple L (\<lambda>d r p. inv e d r p \<and> (\<forall>b\<in>set bs. stored_as d b) \<and> K d p) (apply_all env bs)
     (\<lambda>xs d r p. inv e d r p \<and> (\<forall>b\<in>set bs. stored_as d b) \<and> K d p)"
  using assms
proof (induction bs arbitrary: K)
  case Nil
  show ?case by (simp, rule triple_ret) simp
next
  case (Cons b bs)
  let ?K = "\<lambda>d p. K d p \<and> (\<forall>b\<in>set bs. stored_as d b)"
  have K: "mark_stable ?K" "mark_stable (\<lambda>d p. K d p \<and> stored_as d b)"
    using Cons.prems by (simp_all add: mark_stable_def MarkBindingApplied_stored_as)
  have "triple L (\<lambda>d r p. inv e d r p \<and> (\<forall>b\<in>set (b # bs). stored_as d b) \<and> K d p) (applyBinding env b)
      (\<lambda>x d r p. inv e d r p \<and> (\<forall>b\<in>set bs. stored_as d b) \<and> K d p \<and> stored_as d b)"
    by (rule triple_conseq[OF applyBinding_triple[OF K(1)]]) auto
  then show ?case
    by (simp, intro triple_bind[OF _ triple_bind[OF Cons.IH[OF K(2)] triple_ret]]) auto
qed

lemma identity_unique:
  assumes "stored_ok d" "x \<in> set (db_policies d)" "y \<in> set (db_policies d)" "OpenBaoPolicyName (row_policy x) = OpenBaoPolicyName (row_policy y)"
  shows "x = y"
proof -
  have "prow_name x = prow_name y"
    using identity_row[OF assms(1,2,4)] assms(1,3) policy_row_name[of d y] by (simp add: stored_ok_def names_ok_def)
  then show ?thesis
    using assms policy_row_unique by (auto simp: stored_ok_def)
qed

text \<open>Publishing a list of rows, after those of a set.\<close>

definition published_rows :: "policy_row set \<Rightarrow> 'r \<Rightarrow> bool" where
  "published_rows rows r \<longleftrightarrow> (\<forall>x\<in>rows. policies r (OpenBaoPolicyName (row_policy x)) = Some (compiled (PublishedHCL (ce_hcl env) (row_policy x))))"

lemma WritePolicy_published_rows:
  assumes w: "ob_WritePolicy (ce_bao env) (OpenBaoPolicyName (row_policy x)) (PublishedHCL (ce_hcl env) (row_policy x)) r0 = (None, r)"
    and "stored_ok d" "insert x before \<subseteq> set (db_policies d)" "published_rows before r0"
  shows "published_rows (insert x before) r"
  unfolding published_rows_def
proof
  fix y assume y: "y \<in> insert x before"
  have r: "policies r = (policies r0)(OpenBaoPolicyName (row_policy x) \<mapsto> compiled (PublishedHCL (ce_hcl env) (row_policy x)))"
    using WritePolicy[OF w row_managed[OF assms(2)]] assms(3) by simp
  show "policies r (OpenBaoPolicyName (row_policy y)) = Some (compiled (PublishedHCL (ce_hcl env) (row_policy y)))"
  proof (cases "OpenBaoPolicyName (row_policy y) = OpenBaoPolicyName (row_policy x)")
    case True
    then have "y = x" using identity_unique[OF assms(2) _ _ True] assms(3) y by auto
    then show ?thesis by (simp add: r)
  next
    case False
    then show ?thesis using assms(4) y by (auto simp: published_rows_def r)
  qed
qed

lemma publish_all_triple:
  "map stored_Policy ss = map row_policy rows \<Longrightarrow>
   triple L (\<lambda>d r p. stored_ok d \<and> roles_exact (roles r) d \<and> p \<and> K d \<and> set rows \<union> before \<subseteq> set (db_policies d) \<and> published_rows before r)
     (publish_all env ss)
     (\<lambda>x d r p. stored_ok d \<and> roles_exact (roles r) d \<and> p \<and> K d \<and> (x = None \<longrightarrow> published_rows (set rows \<union> before) r))"
proof (induction ss arbitrary: rows before)
  case Nil
  then show ?case by (simp, intro triple_ret) auto
next
  case (Cons s ss)
  then obtain x rest where rows: "rows = x # rest" "stored_Policy s = row_policy x" "map stored_Policy ss = map row_policy rest" by auto
  have wr: "triple L (\<lambda>d r p. stored_ok d \<and> roles_exact (roles r) d \<and> p \<and> K d \<and> set rows \<union> before \<subseteq> set (db_policies d) \<and> published_rows before r)
      (bao_check (ob_WritePolicy (ce_bao env) (OpenBaoPolicyName (row_policy x)) (PublishedHCL (ce_hcl env) (row_policy x))))
      (\<lambda>e d r p. stored_ok d \<and> roles_exact (roles r) d \<and> p \<and> K d \<and> (e = None \<longrightarrow>
         set rest \<union> insert x before \<subseteq> set (db_policies d) \<and> published_rows (insert x before) r))"
    by (rule triple_post[OF triple_bao_check]) (auto simp: rows(1) WritePolicy_published_rows dest: WritePolicy[OF _ row_managed])
  show ?case
    unfolding publish_all.simps rows(2)
    by (rule triple_check[OF wr triple_ret triple_conseq[OF Cons.IH[OF rows(3), of "insert x before"]]]) (auto simp: rows(1))
qed

lemma syncPolicies_triple:
  "triple L (\<lambda>d r p. inv False d r p \<and> K d) (syncPolicies env) (\<lambda>x d r p. inv True d r p \<and> K d \<and> (x = None \<longrightarrow> \<not> p))"
proof -
  let ?P = "\<lambda>d r p. stored_ok d \<and> roles_exact (roles r) d \<and> p \<and> K d"
  let ?Q = "\<lambda>x d r p. inv True d r p \<and> K d \<and> (x = None \<longrightarrow> \<not> p)"
  have set: "triple L (\<lambda>d r p. inv False d r p \<and> K d) (set_pending True) (\<lambda>_. ?P)"
    by (rule triple_post[OF triple_set_pending]) (auto simp: ctl_inv_def)
  have clear: "triple L (\<lambda>d r p. ?P d r p \<and> published_rows (set (db_policies d)) r) (do { set_pending False; ret None }) ?Q"
    by (rule triple_bind[OF triple_set_pending triple_ret]) (auto simp: ctl_inv_def published_rows_def published_def)
  have pub: "triple L (\<lambda>d r p. ?P d r p \<and> store_Policies (ce_hcl env) d = Inr docs) (publish_all env docs)
      (\<lambda>x d r p. ?P d r p \<and> (x = None \<longrightarrow> published_rows (set (db_policies d)) r))" for docs
  proof (rule triple_pre[OF triple_ex])
    fix rows
    show "triple L (\<lambda>d r p. ?P d r p \<and> map stored_Policy docs = map row_policy rows \<and> set rows = set (db_policies d))
        (publish_all env docs) (\<lambda>x d r p. ?P d r p \<and> (x = None \<longrightarrow> published_rows (set (db_policies d)) r))"
    proof (rule triple_fact)
      assume m: "map stored_Policy docs = map row_policy rows"
      show "triple L (\<lambda>d r p. ?P d r p \<and> map stored_Policy docs = map row_policy rows \<and> set rows = set (db_policies d))
          (publish_all env docs) (\<lambda>x d r p. ?P d r p \<and> (x = None \<longrightarrow> published_rows (set (db_policies d)) r))"
        by (rule triple_conseq[OF publish_all_triple[OF m, of L "\<lambda>d. K d \<and> set rows = set (db_policies d)" "{}"]])
          (auto simp: published_rows_def)
    qed simp
  qed (auto dest: store_Policies_list)
  show ?thesis
    unfolding syncPolicies_def
    by (rule triple_bind[OF set triple_attempt[OF triple_store_read triple_ret triple_check[OF triple_pre[OF pub] triple_ret triple_pre[OF clear]]]])
      (auto simp: ctl_inv_def)
qed

section \<open>Publishing one policy\<close>

text \<open>Every stored policy but those of one name is published.\<close>

definition published_except :: "string \<Rightarrow> db \<Rightarrow> 'r \<Rightarrow> bool" where
  "published_except n d r \<longleftrightarrow> published_rows {x \<in> set (db_policies d). prow_name x \<noteq> n} r"

definition stored_policy :: "db \<Rightarrow> string \<Rightarrow> Policy option \<Rightarrow> bool" where
  "stored_policy d n old \<longleftrightarrow>
     (case old of Some q \<Rightarrow> \<exists>x\<in>set (db_policies d). row_policy x = q \<and> prow_name x = n | None \<Rightarrow> n \<notin> prow_name ` set (db_policies d))"

lemma published_iff: "published (ce_hcl env) compiled (policies r) d \<longleftrightarrow> published_rows (set (db_policies d)) r"
  by (simp add: published_def published_rows_def)

lemma published_except_weaken: "published (ce_hcl env) compiled (policies r) d \<Longrightarrow> published_except n d r"
  by (auto simp: published_iff published_except_def published_rows_def)

lemma published_except_none:
  "published_except n d r \<Longrightarrow> n \<notin> prow_name ` set (db_policies d) \<Longrightarrow> published (ce_hcl env) compiled (policies r) d"
  by (auto simp: published_iff published_except_def published_rows_def)

lemma published_except_other:
  assumes "published_except (policy_Name q) d r0" "stored_ok d" "ValidName (policy_Name q)"
    and "\<And>n. n \<noteq> OpenBaoPolicyName q \<Longrightarrow> policies r n = policies r0 n"
  shows "published_except (policy_Name q) d r"
  unfolding published_except_def published_rows_def
proof
  fix x assume x: "x \<in> {x \<in> set (db_policies d). prow_name x \<noteq> policy_Name q}"
  then have "OpenBaoPolicyName (row_policy x) \<noteq> OpenBaoPolicyName q"
    using identity_row[OF assms(2) _ _ assms(3)] by auto
  then show "policies r (OpenBaoPolicyName (row_policy x)) = Some (compiled (PublishedHCL (ce_hcl env) (row_policy x)))"
    using assms(1,4) x by (simp add: published_except_def published_rows_def)
qed

lemma published_except_write:
  assumes "published_except n d r0" "stored_ok d" "x \<in> set (db_policies d)" "prow_name x = n"
    and "ob_WritePolicy (ce_bao env) (OpenBaoPolicyName (row_policy x)) (PublishedHCL (ce_hcl env) (row_policy x)) r0 = (None, r)"
  shows "published (ce_hcl env) compiled (policies r) d"
proof -
  have "published_rows (insert x {y \<in> set (db_policies d). prow_name y \<noteq> n}) r"
    using assms(1) by (intro WritePolicy_published_rows[OF assms(5,2)]) (use assms(3) in \<open>auto simp: published_except_def\<close>)
  moreover have "y = x" if "y \<in> set (db_policies d)" "prow_name y = n" for y
    using that assms policy_row_unique[of d y x] by (simp add: stored_ok_def)
  then have "set (db_policies d) \<subseteq> insert x {y \<in> set (db_policies d). prow_name y \<noteq> n}"
    by blast
  ultimately show ?thesis
    by (auto simp: published_iff published_rows_def)
qed

lemma restorePolicy_triple:
  assumes "ValidName (policy_Name attempted)" and previous: "\<And>q. previous = Some q \<Longrightarrow> ValidName (policy_Name q)"
  shows "triple L (\<lambda>d r p. stored_ok d \<and> roles_exact (roles r) d \<and> K d \<and>
        (e \<longrightarrow> (p \<or> published_except (policy_Name attempted) d r) \<and> stored_policy d (policy_Name attempted) previous))
      (restorePolicy env attempted previous)
      (\<lambda>x d r p. inv e d r p \<and> K d)"
    (is "triple L ?P _ _")
proof -
  have call: "triple L ?P (case previous of
          Some q \<Rightarrow> bao_check (ob_WritePolicy (ce_bao env) (OpenBaoPolicyName q) (PublishedHCL (ce_hcl env) q))
        | None \<Rightarrow> bao_check (ob_DeletePolicy (ce_bao env) (OpenBaoPolicyName attempted)))
      (\<lambda>x d r p. stored_ok d \<and> roles_exact (roles r) d \<and> K d \<and> (e \<and> x = None \<longrightarrow> p \<or> published (ce_hcl env) compiled (policies r) d))"
  proof (cases previous)
    case None
    have "published (ce_hcl env) compiled (policies r) d"
      if "published_except (policy_Name attempted) d r0" "stored_ok d" "stored_policy d (policy_Name attempted) None"
        "ob_DeletePolicy (ce_bao env) (OpenBaoPolicyName attempted) r0 = (None, r)" for d r0 r
      using that DeletePolicy[OF that(4) policy_managed[OF assms(1)]]
      by (intro published_except_none[OF published_except_other[OF that(1,2) assms(1)]]) (auto simp: stored_policy_def)
    then show ?thesis
      using None by (simp, intro triple_post[OF triple_bao_check]) (auto dest: DeletePolicy[OF _ policy_managed[OF assms(1)]])
  next
    case (Some q)
    then show ?thesis
      by (simp, intro triple_post[OF triple_bao_check]) (auto dest: WritePolicy[OF _ policy_managed[OF previous]] published_except_write simp: stored_policy_def)
  qed
  show ?thesis
    unfolding restorePolicy_def
    by (rule triple_check[OF call triple_bind[OF triple_set_pending triple_ret] triple_ret]) (auto simp: ctl_inv_def)
qed

section \<open>Saving a policy\<close>

lemma inv_weaken: "inv e d r p \<Longrightarrow> inv False d r p"
  by (simp add: ctl_inv_def)

lemma confirm_names_triple:
  assumes "\<And>n r x r'. exists n r = (x, r') \<Longrightarrow> policies r' = policies r \<and> roles r' = roles r"
  shows "triple L (\<lambda>d r p. inv e d r p \<and> K d) (confirm_names exists unconfirmed names) (\<lambda>_ d r p. inv e d r p \<and> K d)"
proof (induction names)
  case Nil
  show ?case by (simp, rule triple_ret)
next
  case (Cons name names)
  have "triple L (\<lambda>d r p. inv e d r p \<and> K d) (bao_call (exists name)) (\<lambda>_ d r p. inv e d r p \<and> K d)"
    by (rule triple_post[OF triple_bao_call]) (auto dest: assms)
  then show ?case
    by (simp, intro triple_bind[OF _ triple_if[OF Cons.IH triple_ret]])
qed

text \<open>What holds before a document is published: it is the next document of its name, and the assignments that
  follow from it are composed of what is stored.\<close>

definition save_ready :: "Policy \<Rightarrow> Policy option \<Rightarrow> Binding list \<Rightarrow> db \<Rightarrow> bool" where
  "save_ready document old affected d \<longleftrightarrow> next_document d document \<and> stored_policy d (policy_Name document) old
     \<and> next_assignments (ce_hcl env) d (policy_Name document) document id affected"

lemma save_commit:
  assumes "SavePolicyBindings document affected operator t d0 = Inr (saved, d)" "stored_ok d0" "roles_exact (roles r) d0" "save_ready document old affected d0"
    and "e \<longrightarrow> p \<or> published_except (policy_Name document) d0 r \<and> policies r (OpenBaoPolicyName document) = Some (compiled (PublishedHCL (ce_hcl env) document))"
  shows "inv e d r p" "\<forall>b\<in>set affected. stored_as d b"
proof -
  note s = SavePolicyBindings_stored[OF assms(1,2), of "ce_hcl env"]
  have ready: "next_document d0 document" "next_assignments (ce_hcl env) d0 (policy_Name document) document id affected"
    using assms(4) by (simp_all add: save_ready_def)
  show "\<forall>b\<in>set affected. stored_as d b" using s(3)[OF ready] by blast
  have "published (ce_hcl env) compiled (policies r) d"
    if "published_except (policy_Name document) d0 r" "policies r (OpenBaoPolicyName document) = Some (compiled (PublishedHCL (ce_hcl env) document))"
  proof -
    have "\<forall>q\<in>row_policy ` set (db_policies d). policies r (OpenBaoPolicyName q) = Some (compiled (PublishedHCL (ce_hcl env) q))"
      unfolding s(4)[OF ready] using that by (auto simp: published_except_def published_rows_def)
    then show ?thesis by (simp add: published_def)
  qed
  then show "inv e d r p"
    using s(1)[OF ready] s(2)[OF ready assms(3)] assms(5) by (auto simp: ctl_inv_def)
qed

lemma publish_saved_triple:
  assumes "e \<Longrightarrow> \<not> L" "ValidName (policy_Name document)" "\<And>q. old = Some q \<Longrightarrow> ValidName (policy_Name q)"
  shows "triple L (\<lambda>d r p. inv e d r p \<and> save_ready document old affected d) (publish_saved env document old affected operator) (\<lambda>_. inv e)"
proof -
  let ?P = "\<lambda>d r p. inv e d r p \<and> save_ready document old affected d"
  let ?base = "\<lambda>d r p. stored_ok d \<and> roles_exact (roles r) d \<and>
     (e \<longrightarrow> (p \<or> published_except (policy_Name document) d r) \<and> stored_policy d (policy_Name document) old)"
  let ?done = "\<lambda>d r p. stored_ok d \<and> roles_exact (roles r) d \<and> save_ready document old affected d \<and>
     (e \<longrightarrow> p \<or> published_except (policy_Name document) d r \<and> policies r (OpenBaoPolicyName document) = Some (compiled (PublishedHCL (ce_hcl env) document)))"
  let ?R = "\<lambda>x d r p. case x of None \<Rightarrow> ?done d r p
      | Some c \<Rightarrow> if c = CategoryInvalid then inv e d r p else ?base d r p"
  have wr: "triple L ?P (bao_call (ob_WritePolicy (ce_bao env) (OpenBaoPolicyName document) (PublishedHCL (ce_hcl env) document))) ?R"
  proof (rule triple_post[OF triple_bao_call], elim exE conjE)
    fix x d r p r0
    assume a: "inv e d r0 p" "save_ready document old affected d"
      and w: "ob_WritePolicy (ce_bao env) (OpenBaoPolicyName document) (PublishedHCL (ce_hcl env) document) r0 = (x, r)"
    have other: "\<And>n. n \<noteq> OpenBaoPolicyName document \<Longrightarrow> policies r n = policies r0 n" using WritePolicy[OF w policy_managed[OF assms(2)]] by auto
    have ok: "stored_ok d" "roles_exact (roles r) d" "stored_policy d (policy_Name document) old"
      using a WritePolicy[OF w policy_managed[OF assms(2)]] by (auto simp: ctl_inv_def save_ready_def)
    have "published_except (policy_Name document) d r" if "published (ce_hcl env) compiled (policies r0) d"
      by (rule published_except_other[OF published_except_weaken[OF that] ok(1) assms(2) other])
    then show "?R x d r p"
      using a ok WritePolicy[OF w policy_managed[OF assms(2)]] by (auto simp: ctl_inv_def split: option.split)
  qed
  have restore: "triple L Pre (check (restorePolicy env document old) (\<lambda>_. policy_fail [] e1) (policy_fail [] e2)) (\<lambda>_. inv e)"
    if "\<And>d r p. Pre d r p \<Longrightarrow> ?base d r p" for Pre e1 e2
    unfolding policy_fail_def
    by (rule triple_check[OF triple_pre[OF restorePolicy_triple[OF assms(2,3), where L = L and K = "\<lambda>_. True" and e = e]] triple_ret triple_ret]) (use that in auto)
  have saved: "triple L (\<lambda>d r p. inv e d r p \<and> (\<forall>b\<in>set affected. stored_as d b))
      (do { results \<leftarrow> apply_all env affected; ret (f results) }) (\<lambda>_. inv e)" for f :: "(Binding \<times> ctl_error option) list \<Rightarrow> policy_result"
    by (rule triple_bind[OF triple_pre[OF apply_all_triple[OF mark_stable_True]] triple_ret]) auto
  have commit: "triple L ?done (attempt (store_write (SavePolicyBindings document affected operator t))
      (\<lambda>_. check (restorePolicy env document old) (\<lambda>_. policy_fail [] e1) (policy_fail [] e2))
      (\<lambda>s. do { results \<leftarrow> apply_all env affected; ret (f s results) })) (\<lambda>_. inv e)" for t e1 e2 and f :: "Policy \<Rightarrow> (Binding \<times> ctl_error option) list \<Rightarrow> policy_result"
  proof (rule triple_attempt[OF triple_store_write restore triple_pre[OF saved]])
    fix err d r p
    assume "case Inl err of Inr y \<Rightarrow> \<exists>d0. ?done d0 r p \<and> SavePolicyBindings document affected operator t d0 = Inr (y, d)
      | Inl e' \<Rightarrow> ?done d r p \<and> (\<forall>e''. e' = StoreErr e'' \<longrightarrow> SavePolicyBindings document affected operator t d = Inl e'')
          \<or> L \<and> e' = StoreIO \<and> (\<exists>d0 y. ?done d0 r p \<and> SavePolicyBindings document affected operator t d0 = Inr (y, d))"
    then consider "?done d r p" | d0 y where "L" "?done d0 r p" "SavePolicyBindings document affected operator t d0 = Inr (y, d)" by auto
    then show "?base d r p"
    proof cases
      case 1
      then show ?thesis by (auto simp: save_ready_def)
    next
      case (2 d0 y)
      then have "inv e d r p" using save_commit(1)[OF 2(3), of r old e p] by simp
      then show ?thesis using assms(1) 2(1) by (auto simp: ctl_inv_def)
    qed
  next
    fix s d r p
    assume "case Inr s of Inr y \<Rightarrow> \<exists>d0. ?done d0 r p \<and> SavePolicyBindings document affected operator t d0 = Inr (y, d)
      | Inl e' \<Rightarrow> ?done d r p \<and> (\<forall>e''. e' = StoreErr e'' \<longrightarrow> SavePolicyBindings document affected operator t d = Inl e'')
          \<or> L \<and> e' = StoreIO \<and> (\<exists>d0 y. ?done d0 r p \<and> SavePolicyBindings document affected operator t d0 = Inr (y, d))"
    then obtain d0 where d0: "?done d0 r p" "SavePolicyBindings document affected operator t d0 = Inr (s, d)" by auto
    then show "inv e d r p \<and> (\<forall>b\<in>set affected. stored_as d b)"
      using save_commit[OF d0(2), of r old e p] by simp
  qed
  show ?thesis
    unfolding publish_saved_def
  proof (rule triple_bind[OF wr])
    fix x
    show "triple L (?R x) (case x of
        Some category \<Rightarrow>
          if category = CategoryInvalid then policy_fail [] (partOperationError PartOpenBao ErrorPolicyDenied HCLRejected)
          else check (restorePolicy env document old)
            (\<lambda>_. policy_fail [] (operationError ErrorPolicyDenied PublicationUncertain))
            (policy_fail [] (operationError ErrorPolicyDenied PublicationRolledBack))
      | None \<Rightarrow> do {
          t \<leftarrow> now_read;
          attempt (store_write (SavePolicyBindings document affected operator t))
            (\<lambda>_. check (restorePolicy env document old)
               (\<lambda>_. policy_fail [] (operationError ErrorPolicyDenied RecordRestorePending))
               (policy_fail [] (operationError ErrorPolicyDenied RecordRolledBack)))
            (\<lambda>saved. do {
               results \<leftarrow> apply_all env affected;
               ret (Some saved, map bind_Agent affected,
                 if failures_of results = [] then None
                 else Some (operationError (openBaoError (last (failures_of results))) SavedTransitionPending))
             })
        }) (\<lambda>_. inv e)"
    proof (cases x)
      case None
      then show ?thesis using triple_now[OF commit] by simp
    next
      case (Some c)
      then show ?thesis
        using restore[of "?R x"] by (cases "c = CategoryInvalid") (auto simp: policy_fail_def intro!: triple_ret)
    qed
  qed
qed

lemma save_document_triple:
  assumes "e \<Longrightarrow> \<not> L" "ValidName (policy_Name document)" "\<And>q. old = Some q \<Longrightarrow> ValidName (policy_Name q)"
  shows "triple L (\<lambda>d r p. inv e d r p \<and> next_document d document \<and> stored_policy d (policy_Name document) old)
      (save_document env document old operator) (\<lambda>_. inv e)"
  unfolding save_document_def policy_fail_def
  by (rule triple_attempt[OF triple_store_read triple_ret triple_attempt[OF recompose_saved_triple triple_ret
        triple_check[OF preflight_triple triple_ret triple_pre[OF publish_saved_triple[OF assms, where old = old]]]]])
    (auto simp: save_ready_def next_assignments_def)

lemma next_document_new:
  assumes "store_Policy hcl (policy_Name p) d = Inl ErrNotFound" "ValidName (policy_Name p)"
  shows "next_document d (p\<lparr>policy_Generation := NextPolicyGeneration (policy_Name p) d, policy_Revision := 1\<rparr>)"
    "stored_policy d (policy_Name p) None"
proof -
  have "row_by prow_name (policy_Name p) (db_policies d) = None"
    using assms(1) by (auto simp: store_Policy_def scanPolicy_def split: option.splits)
  then show "next_document d (p\<lparr>policy_Generation := NextPolicyGeneration (policy_Name p) d, policy_Revision := 1\<rparr>)"
    using assms(2) by (simp add: next_document_def saved_policy_def NextPolicyGeneration_def)
  show "stored_policy d (policy_Name p) None"
    using store_Policy_none[OF assms(1)] by (simp add: stored_policy_def)
qed

lemma next_document_old:
  assumes "store_Policy hcl (policy_Name p) d = Inr old" "ValidName (policy_Name p)" "db_ok d"
  shows "next_document d (p\<lparr>policy_Generation := policy_Generation (stored_Policy old), policy_Revision := policy_Revision (stored_Policy old) + 1\<rparr>)"
    "stored_policy d (policy_Name p) (Some (stored_Policy old))"
proof -
  obtain x where x: "x \<in> set (db_policies d)" "prow_name x = policy_Name p" "stored_Policy old = row_policy x"
      "row_by prow_name (policy_Name p) (db_policies d) = Some x"
    using store_Policy_row[OF assms(1)] .
  have "policy_Revision (prow_document x) = prow_revision x"
    using assms(3) x(1) by (simp add: db_ok_def policies_ok_def policy_row_ok_def)
  then show "next_document d (p\<lparr>policy_Generation := policy_Generation (stored_Policy old), policy_Revision := policy_Revision (stored_Policy old) + 1\<rparr>)"
    using assms(2) x by (simp add: next_document_def saved_policy_def)
  show "stored_policy d (policy_Name p) (Some (stored_Policy old))"
    using x by (auto simp: stored_policy_def)
qed

lemma savePolicy_triple:
  assumes "e \<Longrightarrow> \<not> L"
  shows "triple L (inv e) (savePolicy env document operator) (\<lambda>_. inv e)"
proof (cases "Policy_Validate (ce_hcl env) document")
  case (Some err)
  then show ?thesis by (simp add: savePolicy_def policy_fail_def triple_ret)
next
  case None
  then have valid: "ValidName (policy_Name document)" by (rule Policy_Validate_name)
  have keys: "triple L (inv e) (confirm_names (ob_TransitKeyExists (ce_bao env)) TransitKeyUnconfirmed (TransitKeys document)) (\<lambda>_. inv e)"
    using confirm_names_triple[of "ob_TransitKeyExists (ce_bao env)" L e "\<lambda>_. True"] by (auto dest: TransitKeyExists)
  have ca: "triple L (inv e) (confirm_names (ob_SSHRoleExists (ce_bao env)) SSHRoleUnconfirmed (CARoles document)) (\<lambda>_. inv e)"
    using confirm_names_triple[of "ob_SSHRoleExists (ce_bao env)" L e "\<lambda>_. True"] by (auto dest: SSHRoleExists)
  have new: "triple L (\<lambda>d r p. inv e d r p \<and> store_Policy (ce_hcl env) (policy_Name document) d = Inl ErrNotFound)
      (attempt (store_read (\<lambda>d. Inr (NextPolicyGeneration (policy_Name document) d)))
        (\<lambda>_. policy_fail [] (operationError ErrorPolicyDenied StoredPolicyUnreadable))
        (\<lambda>g. save_document env (document\<lparr>policy_Generation := g, policy_Revision := 1\<rparr>) None operator)) (\<lambda>_. inv e)"
    unfolding policy_fail_def
    by (rule triple_attempt[OF triple_store_read triple_ret triple_pre[OF save_document_triple[OF assms]]])
      (use valid next_document_new in auto)
  have old: "triple L (\<lambda>d r p. inv e d r p \<and> store_Policy (ce_hcl env) (policy_Name document) d = Inr stored)
      (save_document env (document\<lparr>policy_Generation := policy_Generation (stored_Policy stored), policy_Revision := policy_Revision (stored_Policy stored) + 1\<rparr>)
        (Some (stored_Policy stored)) operator) (\<lambda>_. inv e)" for stored
  proof (rule triple_fact)
    assume "policy_Name (stored_Policy stored) = policy_Name document"
    then show "triple L (\<lambda>d r p. inv e d r p \<and> store_Policy (ce_hcl env) (policy_Name document) d = Inr stored)
        (save_document env (document\<lparr>policy_Generation := policy_Generation (stored_Policy stored), policy_Revision := policy_Revision (stored_Policy stored) + 1\<rparr>)
          (Some (stored_Policy stored)) operator) (\<lambda>_. inv e)"
      by (intro triple_pre[OF save_document_triple[OF assms]])
        (use valid next_document_old in \<open>auto simp: ctl_inv_def stored_ok_def\<close>)
  qed (auto simp: ctl_inv_def stored_ok_def policy_row_name elim!: store_Policy_row)
  show ?thesis
    unfolding savePolicy_def None option.case Let_def
    by (rule triple_check[OF keys _ triple_check[OF ca _ triple_attempt[OF triple_store_read triple_if[OF _ triple_pre[OF new]]
              triple_if[OF triple_ret triple_pre[OF old]]]]])
      (auto simp: policy_fail_def intro!: triple_ret)
qed

section \<open>Bindings\<close>

lemma createBinding_triple:
  assumes "length random = 8"
  shows "triple L (inv e) (createBinding env random agent key request operator) (\<lambda>_. inv e)"
proof -
  let ?b = "\<lambda>effective t. new_binding (NewID ''b-'' random) agent key effective operator t"
  have create: "CreateBinding (?b effective t) d0 = Inr d \<Longrightarrow> inv e d0 r p \<Longrightarrow> composed_of (ce_hcl env) d0 None (sel_Policies request) (sel_Settings request) effective \<Longrightarrow>
      inv e d r p \<and> stored_as d (?b effective t)" for effective t d d0 r p
  proof -
    assume c: "CreateBinding (?b effective t) d0 = Inr d" and i: "inv e d0 r p"
      and o: "composed_of (ce_hcl env) d0 None (sel_Policies request) (sel_Settings request) effective"
    have "new_assignment d0 (?b effective t)"
      using i by (intro new_assignment_composed[OF o]) (auto simp: ctl_inv_def stored_ok_def new_binding_def)
    then show ?thesis
      using i CreateBinding_stored[OF c] NewID_chars[OF assms] published_cong[of d d0]
      by (simp add: ctl_inv_def) (simp add: new_binding_def)
  qed
  have store: "triple L (\<lambda>d r p. inv e d r p \<and> composed_of (ce_hcl env) d None (sel_Policies request) (sel_Settings request) effective)
      (store_exec (CreateBinding (?b effective t))) (\<lambda>x d r p. inv e d r p \<and> (x = None \<longrightarrow> stored_as d (?b effective t)))" for effective t
    by (rule triple_post[OF triple_store_exec]) (auto dest: create split: option.splits)
  have apply_it: "triple L (\<lambda>d r p. inv e d r p \<and> stored_as d (?b effective t)) (applyBinding env (?b effective t)) (\<lambda>_. inv e)" for effective t
    by (rule triple_conseq[OF applyBinding_triple[OF mark_stable_True]]) auto
  have body: "triple L (inv e) (attempt (compose (ce_hcl env) (sel_Policies request) (sel_Settings request) None) (\<lambda>err. ret (None, Some err))
      (\<lambda>effective. do {
         t \<leftarrow> now_read;
         let b = ?b effective t;
         check (preflight env [b]) (\<lambda>err. ret (None, Some err))
        (check (store_exec (CreateBinding b)) (\<lambda>_. ret (None, Some (operationError ErrorPolicyDenied KeyAlreadyBound)))
        (check (applyBinding env b)
           (\<lambda>err. ret (Some b, Some (operationError (openBaoError err) BindingSavedPending)))
           (ret (Some (b\<lparr>bind_Applied := True\<rparr>), None))))
       })) (\<lambda>_. inv e)"
    unfolding Let_def
    by (rule triple_attempt[OF compose_triple triple_ret triple_now[OF triple_check[OF preflight_triple triple_ret
            triple_check[OF triple_pre[OF store] triple_ret triple_check[OF triple_pre[OF apply_it] triple_ret triple_ret]]]]]) auto
  have approved: "triple L (inv e) (State_Monad.bind (read_rest f) (\<lambda>groups. case validateAccessGroup groups g of Some err \<Rightarrow> ret (None, Some err) | None \<Rightarrow> k)) (\<lambda>_. inv e)"
    if "triple L (inv e) k (\<lambda>_. inv e)" for f :: "'r world \<Rightarrow> AssignableGroups option" and g and k :: "('r world, binding_result) state"
    by (rule triple_read_rest) (auto split: option.split intro: triple_ret that)
  show ?thesis
    unfolding createBinding_def
    by (intro triple_if triple_ret triple_attempt[OF triple_store_read triple_ret triple_pre[OF approved[OF body]]]) auto
qed

lemma changeBinding_triple: "triple L (inv e) (changeBinding env bid request) (\<lambda>_. inv e)"
proof -
  let ?b = "\<lambda>b effective. b\<lparr>bind_Policies := Names effective, bind_Settings := eff_Settings effective, bind_Effective := effective,
      bind_Revision := bind_Revision b + 1, bind_Applied := False\<rparr>"
  have change: "inv e d r p \<and> stored_as d (?b b effective)"
    if c: "ChangeBinding (?b b effective) d0 = Inr d" and i: "inv e d0 r p" and s: "store_Binding bid d0 = Inr b"
      and k: "composed_of (ce_hcl env) d0 None (sel_Policies request) (sel_Settings request) effective" for b effective d d0 r p
  proof -
    obtain row where row: "row \<in> set (db_bindings d0)" "b = scanBinding d0 row"
      using store_Binding_scan[OF s] by metis
    have ok: "stored_ok d0" "roles_exact (roles r) d0" "e \<longrightarrow> p \<or> published (ce_hcl env) compiled (policies r) d0"
      using i by (simp_all add: ctl_inv_def)
    have new: "new_assignment d0 (?b b effective)"
      using ok(1) by (intro new_assignment_composed[OF k]) (auto simp: stored_ok_def)
    have at: "brow_id row = bind_ID (?b b effective)" "brow_role row = bind_Role (?b b effective)"
      using row(2) by (simp_all add: scanBinding_def)
    note stored = ChangeBinding_stored[OF c ok(1) new row(1) at]
    show ?thesis
      using ok(3) stored(1,4) stored(2)[OF ok(2)] published_cong[OF stored(3)] unfolding ctl_inv_def by blast
  qed
  have store: "triple L (\<lambda>d r p. inv e d r p \<and> store_Binding bid d = Inr b \<and> composed_of (ce_hcl env) d None (sel_Policies request) (sel_Settings request) effective)
      (store_exec (ChangeBinding (?b b effective))) (\<lambda>x d r p. inv e d r p \<and> (x = None \<longrightarrow> stored_as d (?b b effective)))" for b effective
    by (rule triple_post[OF triple_store_exec]) (auto dest: change split: option.splits)
  have apply_it: "triple L (\<lambda>d r p. inv e d r p \<and> stored_as d x) (applyBinding env x) (\<lambda>_. inv e)" for x
    by (rule triple_conseq[OF applyBinding_triple[OF mark_stable_True]]) auto
  have body: "triple L (\<lambda>d r p. inv e d r p \<and> store_Binding bid d = Inr b)
      (attempt (compose (ce_hcl env) (sel_Policies request) (sel_Settings request) None) (\<lambda>err. ret (Some b, Some err))
        (\<lambda>effective. if ce_Identity env effective = ce_Identity env (bind_Effective b) then ret (Some b, None)
          else let b = ?b b effective
            in check (preflight env [b]) (\<lambda>err. ret (Some b, Some err))
              (check (store_exec (ChangeBinding b)) (\<lambda>_. ret (Some b, Some (operationError ErrorInternal BindingNotUpdated)))
              (check (applyBinding env b)
                 (\<lambda>err. ret (Some b, Some (operationError (openBaoError err) TransitionPending)))
                 (ret (Some b, None)))))) (\<lambda>_. inv e)" for b
    unfolding Let_def
    by (rule triple_attempt[OF compose_triple triple_ret triple_if[OF triple_ret triple_check[OF preflight_triple triple_ret
            triple_check[OF triple_pre[OF store] triple_ret triple_check[OF triple_pre[OF apply_it] triple_ret triple_ret]]]]]) auto
  have grouped: "triple L P (State_Monad.bind (read_rest f) (\<lambda>groups. case validateAccessGroup groups g of Some err \<Rightarrow> ret (h err) | None \<Rightarrow> k)) (\<lambda>_. inv e)"
    if "triple L P k (\<lambda>_. inv e)" "\<And>d r p. P d r p \<Longrightarrow> inv e d r p"
    for P and f :: "'r world \<Rightarrow> AssignableGroups option" and g h and k :: "('r world, binding_result) state"
    using that by (intro triple_read_rest) (auto split: option.split intro!: triple_ret)
  show ?thesis
    unfolding changeBinding_def
    by (intro triple_attempt[OF triple_store_read triple_ret] triple_if triple_ret triple_pre[OF grouped[OF body]]) auto
qed

lemma deleteBinding_triple: "triple L (inv e) (deleteBinding env bid operator connected) (\<lambda>_. inv e)"
proof -
  have role: "triple L Pre (bao_call (ob_DeleteRole (ce_bao env) n)) (\<lambda>_. inv e)" if "\<And>d r p. Pre d r p \<Longrightarrow> inv e d r p \<and> managed_name n" for Pre n
    by (rule triple_post[OF triple_bao_call]) (auto dest!: that dest: DeleteRole simp: ctl_inv_def roles_exact_remove)
  have retire: "triple L (inv e) (store_write (RetireBinding bid t)) (\<lambda>_. inv e)" for t
    by (rule triple_post[OF triple_store_write])
      (auto simp: ctl_inv_def RetireBinding_stored published_cong[OF RetireBinding_stored(3)] split: sum.splits)
  have revoke: "triple L (inv e) (bao_call (ob_RevokeAccessor (ce_bao env) a)) (\<lambda>_. inv e)" for a
    by (rule triple_post[OF triple_bao_call]) (auto dest: RevokeAccessor)
  have token: "triple L (inv e) (case x of Inl _ \<Rightarrow> ret [] | Inr accessor \<Rightarrow>
      if accessor \<noteq> [] then do { c \<leftarrow> bao_call (ob_RevokeAccessor (ce_bao env) accessor); ret (f c) } else ret g) (\<lambda>_. inv e)"
    for x :: "store_failure + string" and f and g :: string
    by (cases x) (auto intro!: triple_if triple_ret triple_bind[OF revoke])
  have report: "triple L (inv e) (do { let (code, err) = y; t2 \<leftarrow> now_read; recordBinding names (h code t2); ret err }) (\<lambda>_. inv e)"
    for y :: "string \<times> ctl_error option" and names h
    by (cases y, simp) (intro triple_now triple_bind[OF recordBinding_triple triple_ret])
  have named: "managed_name (bind_Role b)" if "store_Binding bid d = Inr b" "inv e d r p" for b d r p
    using that by (auto elim!: store_Binding_scan simp: scanBinding_def ctl_inv_def role_managed)
  show ?thesis
    unfolding deleteBinding_def
    by (intro triple_now triple_attempt[OF triple_store_read triple_ret] triple_bind[OF role] triple_bind[OF retire] triple_bind[OF token] report)
      (auto dest: named)
qed

section \<open>Deleting a policy\<close>

lemma deletePolicy_triple: "triple L (inv e) (deletePolicy env name) (\<lambda>_. inv e)"
proof (cases "ValidName name")
  case False
  then show ?thesis by (simp add: deletePolicy_def triple_ret)
next
  case valid: True
  let ?half = "\<lambda>q d r p. stored_ok d \<and> roles_exact (roles r) d \<and> policy_Name q = name \<and> (e \<longrightarrow> (p \<or> published_except name d r) \<and>
      (stored_policy d name (Some q) \<or> name \<notin> prow_name ` set (db_policies d)))"
  let ?kept = "\<lambda>q d r p. stored_ok d \<and> roles_exact (roles r) d \<and> policy_Name q = name \<and> (e \<longrightarrow> (p \<or> published_except name d r) \<and> stored_policy d name (Some q))"
  have restore: "triple L Pre (check (restorePolicy env q (Some q)) (\<lambda>_. ret x) (ret y)) (\<lambda>_. inv e)"
    if "\<And>d r p. Pre d r p \<Longrightarrow> ?kept q d r p" for Pre q and x y :: "ctl_error option"
  proof (rule triple_fact)
    assume q: "policy_Name q = name"
    show "triple L Pre (check (restorePolicy env q (Some q)) (\<lambda>_. ret x) (ret y)) (\<lambda>_. inv e)"
      by (rule triple_check[OF triple_pre[OF restorePolicy_triple[where attempted = q and previous = "Some q" and L = L and K = "\<lambda>_. True" and e = e]] triple_ret triple_ret]) (use that valid q in auto)
  qed (use that in blast)
  have settle: "triple L (?half q) (settleFailedPolicyDelete env q) (\<lambda>_. inv e)" for q
    unfolding settleFailedPolicyDelete_def
  proof (rule triple_attempt[OF triple_store_read triple_if[OF triple_ret triple_bind[OF triple_set_pending triple_ret]] restore])
    fix err d r p
    assume "?half q d r p \<and> (\<forall>y. Inl err = Inr y \<longrightarrow> store_Policy (ce_hcl env) (policy_Name q) d = Inr y)
        \<and> (\<forall>e'. Inl err = Inl (StoreErr e') \<longrightarrow> store_Policy (ce_hcl env) (policy_Name q) d = Inl e')" "err = StoreErr ErrNotFound"
    then show "inv e d r p"
      using store_Policy_none[of "ce_hcl env" name d] published_except_none[of name d r] by (auto simp: ctl_inv_def)
  next
    fix s d r p
    assume a: "?half q d r p \<and> (\<forall>y. Inr s = Inr y \<longrightarrow> store_Policy (ce_hcl env) (policy_Name q) d = Inr y)
        \<and> (\<forall>e'. Inr s = Inl (StoreErr e') \<longrightarrow> store_Policy (ce_hcl env) (policy_Name q) d = Inl e')"
    then have "policy_Name q = name" "store_Policy (ce_hcl env) (policy_Name q) d = Inr s" by blast+
    then have "store_Policy (ce_hcl env) name d = Inr s" by metis
    then obtain x where "x \<in> set (db_policies d)" "prow_name x = name" by (rule store_Policy_row)
    then have "name \<in> prow_name ` set (db_policies d)" by auto
    then show "?kept q d r p" using a by auto
  qed (auto simp: ctl_inv_def)
  have remote: "triple L (\<lambda>d r p. inv e d r p \<and> stored_policy d name (Some q) \<and> policy_Name q = name)
      (bao_check (ob_DeletePolicy (ce_bao env) (OpenBaoPolicyName q))) (\<lambda>_. ?kept q)" for q
  proof (rule triple_post[OF triple_bao_check], elim exE conjE)
    fix x d r p r0 c
    assume a: "inv e d r0 p" "stored_policy d name (Some q)" "policy_Name q = name"
      and w: "ob_DeletePolicy (ce_bao env) (OpenBaoPolicyName q) r0 = (c, r)"
    have ok: "stored_ok d" "ValidName (policy_Name q)" using a valid by (simp_all add: ctl_inv_def)
    note del = DeletePolicy[OF w policy_managed[OF ok(2)]]
    have other: "\<And>n. n \<noteq> OpenBaoPolicyName q \<Longrightarrow> policies r n = policies r0 n" using del by auto
    have "published_except name d r" if "published (ce_hcl env) compiled (policies r0) d"
      using published_except_other[OF published_except_weaken[OF that] ok other] a(3) by simp
    then show "?kept q d r p" using a del by (auto simp: ctl_inv_def)
  qed
  have gone: "inv e d r p" if "DeletePolicy name d0 = Inr d" "?kept q d0 r p" for q d d0 r p
  proof -
    note s = DeletePolicy_stored[OF that(1)]
    have "published (ce_hcl env) compiled (policies r) d" if "published_except name d0 r"
      using that s(3) \<open>?kept q d0 r p\<close> by (auto simp: published_iff published_except_def published_rows_def)
    then show ?thesis using that(2) s(1) s(2)[of "roles r"] by (auto simp: ctl_inv_def)
  qed
  have store: "triple L (?kept q) (store_exec (DeletePolicy name)) (\<lambda>x d r p. if x = None then inv e d r p else ?half q d r p)" for q
  proof (rule triple_post[OF triple_store_exec])
    fix x d r p
    assume a: "case x of None \<Rightarrow> \<exists>d0. ?kept q d0 r p \<and> DeletePolicy name d0 = Inr d
        | Some e' \<Rightarrow> ?kept q d r p \<and> (\<forall>e''. e' = StoreErr e'' \<longrightarrow> DeletePolicy name d = Inl e'')
            \<or> L \<and> e' = StoreIO \<and> (\<exists>d0. ?kept q d0 r p \<and> DeletePolicy name d0 = Inr d)"
    have "?half q d r p" if "?kept q d0 r p" "DeletePolicy name d0 = Inr d" for d0
    proof -
      have "name \<notin> prow_name ` set (db_policies d)" using DeletePolicy_stored(3)[OF that(2)] that(1) by auto
      then show ?thesis using gone[OF that(2,1)] that(1) published_except_weaken[of r d name] by (auto simp: ctl_inv_def)
    qed
    note half = this
    show "if x = None then inv e d r p else ?half q d r p"
    proof (cases x)
      case None
      then obtain d0 where "?kept q d0 r p" "DeletePolicy name d0 = Inr d" using a by auto
      then show ?thesis using gone None by simp
    next
      case (Some err)
      then consider "?kept q d r p" | d0 where "?kept q d0 r p" "DeletePolicy name d0 = Inr d" using a by auto
      then have "?half q d r p"
      proof cases
        case 1
        then show ?thesis by blast
      next
        case (2 d0)
        then show ?thesis by (rule half)
      qed
      then show ?thesis using Some by simp
    qed
  qed
  have body: "triple L (\<lambda>d r p. inv e d r p \<and> stored_policy d name (Some q) \<and> policy_Name q = name)
      (check (bao_check (ob_DeletePolicy (ce_bao env) (OpenBaoPolicyName q)))
        (\<lambda>err. check (restorePolicy env q (Some q)) (\<lambda>_. ret (f err)) (ret (g err)))
        (check (store_exec (DeletePolicy name)) (\<lambda>_. settleFailedPolicyDelete env q) (ret None))) (\<lambda>_. inv e)" for q f g
    by (rule triple_check[OF remote restore triple_check[OF store triple_pre[OF settle] triple_ret]]) auto
  have looked: "stored_policy d name (Some (stored_Policy s)) \<and> policy_Name (stored_Policy s) = name"
    if "store_Policy (ce_hcl env) name d = Inr s" "inv e d r p" for s d r p
    using that policy_row_name[of d] by (auto simp: stored_policy_def ctl_inv_def stored_ok_def elim!: store_Policy_row)
  have "triple L (inv e) (attempt (store_read (store_Policy (ce_hcl env) name)) (\<lambda>err. ret (h err))
      (\<lambda>stored. attempt (store_read (\<lambda>d. Inr (Bindings [] d))) (\<lambda>_. ret (Some (operationError ErrorInternal BindingsUnreadable)))
      (\<lambda>bindings. if list_ex (\<lambda>b. HasPolicy b name) bindings then ret (Some policyBound)
          else check (bao_check (ob_DeletePolicy (ce_bao env) (OpenBaoPolicyName (stored_Policy stored))))
            (\<lambda>err. check (restorePolicy env (stored_Policy stored) (Some (stored_Policy stored))) (\<lambda>_. ret (f err)) (ret (g err)))
            (check (store_exec (DeletePolicy name)) (\<lambda>_. settleFailedPolicyDelete env (stored_Policy stored)) (ret None))))) (\<lambda>_. inv e)" for f g h
    by (rule triple_attempt[OF triple_store_read triple_ret triple_attempt[OF triple_store_read triple_ret triple_if[OF triple_ret triple_pre[OF body]]]])
      (auto simp: looked)
  with valid show ?thesis
    unfolding deletePolicy_def by simp
qed

section \<open>Retiring identities\<close>

definition unheld :: "db \<Rightarrow> string \<Rightarrow> bool" where
  "unheld d identity \<longleftrightarrow> (\<forall>x\<in>set (db_policies d). OpenBaoPolicyName (row_policy x) \<noteq> identity)"

lemma retirement_inv:
  "inv e d r p \<Longrightarrow> inv e (ForgetPolicyRetirement i d) r p" "inv e d r p \<Longrightarrow> managed_name i \<Longrightarrow> inv e (recordPolicyRetirement i t d) r p"
proof -
  assume i: "inv e d r p"
  then have ok: "stored_ok d" by (simp add: ctl_inv_def)
  have "stored_ok (ForgetPolicyRetirement i d)"
    by (rule stored_ok_frame[OF ok]) (use ok retirements_ok[of d i] in \<open>auto simp: stored_ok_def, auto simp: ForgetPolicyRetirement_def split: if_splits\<close>)
  then show "inv e (ForgetPolicyRetirement i d) r p"
    using i roles_exact_cong[of "ForgetPolicyRetirement i d" d] published_cong[of "ForgetPolicyRetirement i d" d] by (simp add: ctl_inv_def)
  assume "managed_name i"
  then have "stored_ok (recordPolicyRetirement i t d)"
    by (intro stored_ok_frame[OF ok]) (use ok retirements_ok[of d i] in \<open>auto simp: stored_ok_def, auto simp: recordPolicyRetirement_def split: if_splits\<close>)
  then show "inv e (recordPolicyRetirement i t d) r p"
    using i roles_exact_cong[of "recordPolicyRetirement i t d" d] published_cong[of "recordPolicyRetirement i t d" d] by (simp add: ctl_inv_def)
qed

definition retirement_stable :: "(db \<Rightarrow> bool) \<Rightarrow> bool" where
  "retirement_stable K \<longleftrightarrow> (\<forall>d i t. K d \<longrightarrow> K (ForgetPolicyRetirement i d) \<and> K (recordPolicyRetirement i t d))"

lemma published_unheld:
  "published (ce_hcl env) compiled (policies r0) d \<Longrightarrow> unheld d i \<Longrightarrow> (\<And>n. n \<noteq> i \<Longrightarrow> policies r n = policies r0 n) \<Longrightarrow>
     published (ce_hcl env) compiled (policies r) d"
  by (simp add: published_def unheld_def)

lemma removePolicyIdentity_triple:
  assumes "retirement_stable K" "managed_name i"
  shows "triple L (\<lambda>d r p. inv e d r p \<and> unheld d i \<and> K d) (removePolicyIdentity env i) (\<lambda>_ d r p. inv e d r p \<and> K d)"
proof -
  have del: "triple L (\<lambda>d r p. inv e d r p \<and> unheld d i \<and> K d) (bao_check (ob_DeletePolicy (ce_bao env) i)) (\<lambda>_ d r p. inv e d r p \<and> K d)"
  proof (rule triple_post[OF triple_bao_check], elim exE conjE)
    fix x d r p r0 c
    assume a: "inv e d r0 p" "unheld d i" "K d" and w: "ob_DeletePolicy (ce_bao env) i r0 = (c, r)"
    have other: "\<And>n. n \<noteq> i \<Longrightarrow> policies r n = policies r0 n" using DeletePolicy[OF w assms(2)] by auto
    have "published (ce_hcl env) compiled (policies r) d" if "published (ce_hcl env) compiled (policies r0) d"
      by (rule published_unheld[OF that a(2) other])
    then show "inv e d r p \<and> K d" using a DeletePolicy[OF w assms(2)] by (auto simp: ctl_inv_def)
  qed
  have read_back: "triple L (\<lambda>d r p. inv e d r p \<and> K d) (bao_call (ob_PolicyExists (ce_bao env) i)) (\<lambda>_ d r p. inv e d r p \<and> K d)"
    by (rule triple_post[OF triple_bao_call]) (auto dest: PolicyExists[OF _ assms(2)])
  have forget: "triple L (\<lambda>d r p. inv e d r p \<and> K d) (store_check (store_set (ForgetPolicyRetirement i))) (\<lambda>_ d r p. inv e d r p \<and> K d)"
    by (rule triple_post[OF triple_store_check[OF triple_store_set]])
      (use assms(1) in \<open>auto simp: retirement_inv retirement_stable_def split: if_splits\<close>)
  show ?thesis
    unfolding removePolicyIdentity_def
    by (rule triple_check[OF del triple_ret triple_attempt[OF read_back triple_ret triple_if[OF triple_ret forget]]]) auto
qed

lemma retirement_keeps:
  "unheld (ForgetPolicyRetirement i d) j = unheld d j" "unheld (recordPolicyRetirement i t d) j = unheld d j"
  "db_policies (ForgetPolicyRetirement i d) = db_policies d" "db_policies (recordPolicyRetirement i t d) = db_policies d"
  by (simp_all add: unheld_def ForgetPolicyRetirement_def recordPolicyRetirement_def)

lemma forget_triple:
  assumes "retirement_stable K"
  shows "triple L (\<lambda>d r p. inv e d r p \<and> K d) (store_check (store_set (ForgetPolicyRetirement i))) (\<lambda>_ d r p. inv e d r p \<and> K d)"
  by (rule triple_post[OF triple_store_check[OF triple_store_set]])
    (use assms in \<open>auto simp: retirement_inv retirement_stable_def split: if_splits\<close>)

lemma retire_identities_triple:
  assumes "retirement_stable K" "\<forall>i\<in>set retirees. managed_name i"
  shows "triple L (\<lambda>d r p. inv e d r p \<and> (\<forall>x\<in>set (db_policies d). OpenBaoPolicyName (row_policy x) \<in> set held) \<and> K d)
     (retire_identities env held retirees) (\<lambda>_ d r p. inv e d r p \<and> K d)"
  using assms(2)
proof (induction retirees)
  case Nil
  show ?case by (simp, rule triple_ret) simp
next
  case (Cons i retirees)
  let ?K = "\<lambda>d. (\<forall>x\<in>set (db_policies d). OpenBaoPolicyName (row_policy x) \<in> set held) \<and> K d"
  have K: "retirement_stable ?K"
    using assms(1) by (simp add: retirement_stable_def retirement_keeps)
  have one: "triple L (\<lambda>d r p. inv e d r p \<and> ?K d)
      (if i \<in> set held then store_check (store_set (ForgetPolicyRetirement i)) else removePolicyIdentity env i) (\<lambda>_ d r p. inv e d r p \<and> ?K d)"
    by (intro triple_if forget_triple[OF K] triple_pre[OF removePolicyIdentity_triple[OF K]]) (use Cons.prems in \<open>auto simp: unheld_def\<close>)
  show ?case
    unfolding retire_identities.simps by (rule triple_bind[OF one triple_bind[OF Cons.IH triple_ret]]) (use Cons.prems in auto)
qed

lemma retire_when_applied_triple: "\<forall>i\<in>set retirees. managed_name i \<Longrightarrow> triple L (inv e) (retire_when_applied env retirees agents) (\<lambda>_. inv e)"
proof -
  assume managed: "\<forall>i\<in>set retirees. managed_name i"
  have each: "triple L (\<lambda>d r p. inv e d r p \<and> store_Policies (ce_hcl env) d = Inr docs)
      (retire_identities env (map (\<lambda>s. OpenBaoPolicyName (stored_Policy s)) docs) retirees) (\<lambda>_. inv e)" for docs
  proof (rule triple_conseq[OF retire_identities_triple[of "\<lambda>_. True"]])
    fix d r p assume "inv e d r p \<and> store_Policies (ce_hcl env) d = Inr docs"
    then show "inv e d r p \<and> (\<forall>x\<in>set (db_policies d). OpenBaoPolicyName (row_policy x) \<in> set (map (\<lambda>s. OpenBaoPolicyName (stored_Policy s)) docs)) \<and> True"
      using store_Policies_rows[of "ce_hcl env" d docs] by (auto simp: image_iff) (metis image_eqI imageE)
  qed (use managed in \<open>auto simp: retirement_stable_def\<close>)
  show ?thesis
    unfolding retire_when_applied_def
    by (rule triple_attempt[OF triple_store_read triple_ret triple_bind[OF triple_pre[OF each] triple_ret]]) auto
qed

lemma apply_unapplied_triple:
  "triple L (\<lambda>d r p. inv e d r p \<and> bs = Bindings [] d) (apply_all env (filter f bs)) (\<lambda>_. inv e)"
  by (rule triple_conseq[OF apply_all_triple[OF mark_stable_True]]) (auto simp: set_Bindings stored_as_scan)

lemma sync_if_pending_triple:
  "triple L (\<lambda>d r p. inv e d r p \<and> p = pending) (if pending then syncPolicies env else ret None) (\<lambda>x d r p. inv e d r p \<and> (x = None \<longrightarrow> \<not> p))"
proof (rule triple_if)
  show "triple L (\<lambda>d r p. inv e d r p \<and> p = pending) (syncPolicies env) (\<lambda>x d r p. inv e d r p \<and> (x = None \<longrightarrow> \<not> p))"
    by (rule triple_conseq[OF syncPolicies_triple[of L "\<lambda>_. True"]]) (auto simp: ctl_inv_def)
  show "\<not> pending \<Longrightarrow> triple L (\<lambda>d r p. inv e d r p \<and> p = pending) (ret None) (\<lambda>x d r p. inv e d r p \<and> (x = None \<longrightarrow> \<not> p))"
    by (rule triple_ret) auto
qed

lemma settlePolicyRetirements_triple: "triple L (inv e) (settlePolicyRetirements env) (\<lambda>_. inv e)"
proof -
  let ?work = "\<lambda>retirees. do {
      pending \<leftarrow> get_pending;
      check (if pending then syncPolicies env else ret None) (\<lambda>e. ret ([], Some e))
        (attempt (store_read (\<lambda>d. Inr (Bindings [] d))) (\<lambda>e. ret ([], Some (StoreFail e)))
           (\<lambda>bindings. do {
              results \<leftarrow> apply_all env (filter (\<lambda>b. \<not> bind_Applied b) bindings);
              let agents = map (bind_Agent \<circ> fst) (filter (\<lambda>r. snd r = None) results);
              if failures_of results \<noteq> [] then ret (agents, Join_errors (failures_of results))
              else retire_when_applied env retirees agents
            })) }"
  have run: "triple L (inv e) (?work retirees) (\<lambda>_. inv e)" if "\<forall>i\<in>set retirees. managed_name i" for retirees
    unfolding Let_def
    by (rule triple_bind[OF triple_get_pending triple_check[OF triple_pre[OF sync_if_pending_triple] triple_ret
          triple_attempt[OF triple_store_read triple_ret triple_bind[OF triple_pre[OF apply_unapplied_triple]
            triple_if[OF triple_ret retire_when_applied_triple[OF that]]]]]]) auto
  have work: "triple L (\<lambda>d r p. inv e d r p \<and> (\<forall>i\<in>set retirees. managed_name i)) (?work retirees) (\<lambda>_. inv e)" for retirees
  proof (rule triple_fact)
    assume "\<forall>i\<in>set retirees. managed_name i"
    from run[OF this] show "triple L (\<lambda>d r p. inv e d r p \<and> (\<forall>i\<in>set retirees. managed_name i)) (?work retirees) (\<lambda>_. inv e)"
      by (rule triple_pre) simp
  qed simp
  have managed: "\<forall>i\<in>set (PolicyRetirements d). managed_name i" if "inv e d r p" for d r p
    using that by (auto simp: ctl_inv_def stored_ok_def names_ok_def PolicyRetirements_def)
  show ?thesis
    unfolding settlePolicyRetirements_def
    by (rule triple_attempt[OF triple_store_read triple_ret triple_if[OF triple_ret triple_pre[OF work]]]) (use managed in auto)
qed

section \<open>Renaming a policy\<close>

text \<open>Before the commit of a rename: the new name is free and the next assignments are composed of what is stored.\<close>

definition rename_ready :: "string \<Rightarrow> Policy \<Rightarrow> Binding list \<Rightarrow> db \<Rightarrow> bool" where
  "rename_ready old document affected d \<longleftrightarrow> policy_Name document \<notin> prow_name ` set (db_policies d)
     \<and> next_assignments (ce_hcl env) d old document (\<lambda>n. if n = old then policy_Name document else n) affected"

lemma rename_ready_stable: "retirement_stable (rename_ready old document affected)"
proof -
  have "rename_ready old document affected d'"
    if "rename_ready old document affected d" "db_policies d' = db_policies d" "db_bindings d' = db_bindings d" "db_binding_policies d' = db_binding_policies d" for d d'
    using that(1) next_assignments_cong[OF that(2-4)] that(2) by (simp add: rename_ready_def)
  then show ?thesis
    by (simp add: retirement_stable_def ForgetPolicyRetirement_def recordPolicyRetirement_def)
qed

lemma rename_unheld: "rename_ready old document affected d \<Longrightarrow> stored_ok d \<Longrightarrow> ValidName (policy_Name document) \<Longrightarrow> unheld d (OpenBaoPolicyName document)"
  unfolding unheld_def rename_ready_def by (metis identity_row image_eqI)

lemma publishRenamed_triple:
  assumes "ValidName (policy_Name document)"
  shows "triple L (\<lambda>d r p. inv e d r p \<and> rename_ready old document affected d) (publishRenamed env document)
     (\<lambda>x d r p. inv e d r p \<and> (x = None \<longrightarrow> rename_ready old document affected d \<and>
        policies r (OpenBaoPolicyName document) = Some (compiled (PublishedHCL (ce_hcl env) document))))"
proof -
  let ?P = "\<lambda>d r p. inv e d r p \<and> rename_ready old document affected d"
  let ?done = "\<lambda>r. policies r (OpenBaoPolicyName document) = Some (compiled (PublishedHCL (ce_hcl env) document))"
  have "?P (recordPolicyRetirement (OpenBaoPolicyName document) t d) r p" if "?P d r p" for t d r p
    using that rename_ready_stable[of old document affected] retirement_inv(2)[OF _ policy_managed[OF assms]] by (auto simp: retirement_stable_def)
  then have rec: "triple L ?P (store_set (recordPolicyRetirement (OpenBaoPolicyName document) t)) (\<lambda>_. ?P)" for t
    by (intro triple_post[OF triple_store_set]) (auto split: if_splits)
  have wr: "triple L ?P (bao_check (ob_WritePolicy (ce_bao env) (OpenBaoPolicyName document) (PublishedHCL (ce_hcl env) document)))
      (\<lambda>x d r p. ?P d r p \<and> (x = None \<longrightarrow> ?done r))"
  proof (rule triple_post[OF triple_bao_check], elim exE conjE)
    fix x d r p r0 c
    assume a: "inv e d r0 p" "rename_ready old document affected d" and x: "x = map_option BaoFail c"
      and w: "ob_WritePolicy (ce_bao env) (OpenBaoPolicyName document) (PublishedHCL (ce_hcl env) document) r0 = (c, r)"
    have other: "\<And>n. n \<noteq> OpenBaoPolicyName document \<Longrightarrow> policies r n = policies r0 n" using WritePolicy[OF w policy_managed[OF assms]] by auto
    have "unheld d (OpenBaoPolicyName document)" using rename_unheld[OF a(2) _ assms] a(1) by (simp add: ctl_inv_def)
    then have "published (ce_hcl env) compiled (policies r) d" if "published (ce_hcl env) compiled (policies r0) d"
      by (rule published_unheld[OF that _ other])
    then show "?P d r p \<and> (x = None \<longrightarrow> ?done r)"
      using a x WritePolicy[OF w policy_managed[OF assms]] by (auto simp: ctl_inv_def)
  qed
  have forget: "triple L ?P (store_set (ForgetPolicyRetirement i)) (\<lambda>_. inv e)" for i
    by (rule triple_post[OF triple_store_set]) (auto simp: retirement_inv split: if_splits)
  have remove: "triple L ?P (removePolicyIdentity env (OpenBaoPolicyName document)) (\<lambda>_. inv e)"
    by (rule triple_conseq[OF removePolicyIdentity_triple[of "\<lambda>_. True"]])
      (auto simp: retirement_stable_def ctl_inv_def intro: rename_unheld assms policy_managed)
  show ?thesis
    unfolding publishRenamed_def
    by (rule triple_now, rule triple_check[OF rec triple_ret triple_check[OF wr triple_if[OF triple_bind[OF triple_pre[OF forget] triple_ret]
            triple_check[OF triple_pre[OF remove] triple_ret triple_ret]] triple_ret]]) auto
qed

text \<open>After the commit of a rename.\<close>

definition rename_committed :: "Policy \<Rightarrow> Binding list \<Rightarrow> db \<Rightarrow> bool" where
  "rename_committed document affected d \<longleftrightarrow> document \<in> row_policy ` set (db_policies d) \<and> (\<forall>b\<in>set affected. stored_as d b)"

lemma rename_commit:
  assumes "RenamePolicy (ce_hcl env) old document affected operator t d0 = Inr (renamed, d)" "ValidName (policy_Name document)"
    and "inv e d0 r p" "rename_ready old document affected d0"
    and "policies r (OpenBaoPolicyName document) = Some (compiled (PublishedHCL (ce_hcl env) document))"
  shows "inv e d r p \<and> rename_committed document affected d"
proof -
  have ok: "stored_ok d0" "roles_exact (roles r) d0" using assms(3) by (simp_all add: ctl_inv_def)
  have assignments: "next_assignments (ce_hcl env) d0 old document (\<lambda>n. if n = old then policy_Name document else n) affected"
    using assms(4) by (simp add: rename_ready_def)
  note s = RenamePolicy_stored[OF assms(1) ok(1) assms(2) assignments]
  have "published (ce_hcl env) compiled (policies r) d" if "published (ce_hcl env) compiled (policies r) d0"
  proof -
    have "\<forall>q\<in>row_policy ` set (db_policies d). policies r (OpenBaoPolicyName q) = Some (compiled (PublishedHCL (ce_hcl env) q))"
      unfolding s(5) using that assms(5) by (auto simp: published_def)
    then show ?thesis by (simp add: published_def)
  qed
  then show ?thesis
    using s(1) s(2)[OF ok(2)] s(3) s(5) assms(3) by (auto simp: ctl_inv_def rename_committed_def)
qed

lemma finish_rename_triple:
  "triple L (\<lambda>d r p. inv e d r p \<and> rename_committed document affected d) (finish_rename env renamed affected) (\<lambda>_. inv e)"
proof -
  have all: "triple L (\<lambda>d r p. inv e d r p \<and> rename_committed document affected d) (apply_all env affected) (\<lambda>_. inv e)"
    by (rule triple_conseq[OF apply_all_triple[OF mark_stable_True]]) (auto simp: rename_committed_def)
  show ?thesis
    unfolding finish_rename_def
    by (rule triple_bind[OF all triple_if[OF triple_ret triple_bind[OF settlePolicyRetirements_triple triple_ret]]]) auto
qed

lemma settleFailedRename_triple:
  assumes "ValidName (policy_Name document)"
  shows "triple L (\<lambda>d r p. inv e d r p \<and> (rename_ready old document affected d \<or> rename_committed document affected d))
     (settleFailedRename env document) (\<lambda>x d r p. inv e d r p \<and> (x = None \<longrightarrow> rename_committed document affected d))"
proof -
  let ?P = "\<lambda>d r p. inv e d r p \<and> (rename_ready old document affected d \<or> rename_committed document affected d)"
  have named: "row_policy x = document"
    if c: "rename_committed document affected d" and "stored_ok d" "x \<in> set (db_policies d)" "prow_name x = policy_Name document" for d x
  proof -
    obtain y where y: "y \<in> set (db_policies d)" "document = row_policy y" using c by (auto simp: rename_committed_def)
    then have "prow_name y = prow_name x" using that(2,4) policy_row_name[of d y] by (auto simp: stored_ok_def)
    then show ?thesis using policy_row_unique[of d y x] that(2,3) y by (auto simp: stored_ok_def)
  qed
  have remove: "triple L (\<lambda>d r p. inv e d r p \<and> rename_ready old document affected d)
      (check (removePolicyIdentity env (OpenBaoPolicyName document)) (\<lambda>_. ret (Some f)) (ret (Some g))) (\<lambda>x d r p. inv e d r p \<and> (x = None \<longrightarrow> rename_committed document affected d))" for f g
    by (rule triple_check[OF triple_conseq[OF removePolicyIdentity_triple[of "\<lambda>_. True"]] triple_ret triple_ret])
      (auto simp: retirement_stable_def ctl_inv_def intro: rename_unheld assms policy_managed)
  have found: "rename_committed document affected d \<and> policy_Generation (stored_Policy s) = policy_Generation document"
    if "?P d r p" and s: "store_Policy (ce_hcl env) (policy_Name document) d = Inr s" for d r p s
  proof -
    obtain x where x: "x \<in> set (db_policies d)" "prow_name x = policy_Name document" "stored_Policy s = row_policy x" using store_Policy_row[OF s] .
    then have "policy_Name document \<in> prow_name ` set (db_policies d)" by force
    then have "rename_committed document affected d" using that(1) by (auto simp: rename_ready_def)
    then show ?thesis using named[of d x] x that(1) by (auto simp: ctl_inv_def)
  qed
  have missing: "rename_ready old document affected d"
    if "?P d r p" "store_Policy (ce_hcl env) (policy_Name document) d = Inl ErrNotFound" for d r p
  proof -
    have free: "policy_Name document \<notin> prow_name ` set (db_policies d)" using store_Policy_none[OF that(2)] .
    have "\<not> rename_committed document affected d"
    proof
      assume "rename_committed document affected d"
      then obtain y where "y \<in> set (db_policies d)" "document = row_policy y" by (auto simp: rename_committed_def)
      then have "policy_Name document = prow_name y" using that(1) policy_row_name[of d y] by (auto simp: ctl_inv_def stored_ok_def)
      then show False using free \<open>y \<in> set (db_policies d)\<close> by simp
    qed
    then show ?thesis using that(1) by blast
  qed
  show ?thesis
    unfolding settleFailedRename_def
  proof (rule triple_bind[OF triple_store_read])
    fix x
    let ?R = "\<lambda>d r p. ?P d r p \<and> (\<forall>y. x = Inr y \<longrightarrow> store_Policy (ce_hcl env) (policy_Name document) d = Inr y)
        \<and> (\<forall>e'. x = Inl (StoreErr e') \<longrightarrow> store_Policy (ce_hcl env) (policy_Name document) d = Inl e')"
    show "triple L ?R (case x of
       Inr stored \<Rightarrow>
         if policy_Generation (stored_Policy stored) = policy_Generation document then ret None
         else check (removePolicyIdentity env (OpenBaoPolicyName document))
           (\<lambda>_. ret (Some (operationError ErrorInternal RenameNotCommittedLeftovers)))
           (ret (Some (operationError ErrorInternal RenameNotCommitted)))
     | Inl e \<Rightarrow>
         if e \<noteq> StoreErr ErrNotFound then ret (Some (operationError ErrorInternal RenameUnconfirmed))
         else check (removePolicyIdentity env (OpenBaoPolicyName document))
           (\<lambda>_. ret (Some (operationError ErrorInternal RenameNotCommittedLeftovers)))
           (ret (Some (operationError ErrorInternal RenameNotCommitted))))
      (\<lambda>x d r p. inv e d r p \<and> (x = None \<longrightarrow> rename_committed document affected d))"
    proof (cases x)
      case (Inl err)
      have "triple L ?R (check (removePolicyIdentity env (OpenBaoPolicyName document)) (\<lambda>_. ret (Some f)) (ret (Some g)))
          (\<lambda>x d r p. inv e d r p \<and> (x = None \<longrightarrow> rename_committed document affected d))" if "err = StoreErr ErrNotFound" for f g
        by (rule triple_pre[OF remove]) (use that missing Inl in blast)
      then show ?thesis using Inl by (auto intro!: triple_ret)
    next
      case (Inr s)
      have "triple L ?R m Q" if "policy_Generation (stored_Policy s) \<noteq> policy_Generation document" for m :: "('r world, ctl_error option) state" and Q
        by (rule triple_pre[OF triple_False]) (use that found Inr in blast)
      moreover have "triple L ?R (ret None) (\<lambda>x d r p. inv e d r p \<and> (x = None \<longrightarrow> rename_committed document affected d))"
        by (rule triple_ret) (use found Inr in blast)
      ultimately show ?thesis using Inr by auto
    qed
  qed
qed

lemma commit_rename_triple:
  assumes "ValidName (policy_Name document)"
  shows "triple L (\<lambda>d r p. inv e d r p \<and> rename_ready old document affected d \<and>
        policies r (OpenBaoPolicyName document) = Some (compiled (PublishedHCL (ce_hcl env) document)))
      (commit_rename env old document affected operator) (\<lambda>_. inv e)"
  unfolding commit_rename_def policy_fail_def
  by (rule triple_now, rule triple_attempt[OF triple_store_write triple_check[OF triple_pre[OF settleFailedRename_triple[OF assms, of L e old affected]] triple_ret
          triple_pre[OF finish_rename_triple]] triple_pre[OF finish_rename_triple[where document = document]]])
    (use rename_commit[OF _ assms] in \<open>auto 0 4\<close>)

lemma renamePolicy_triple: "triple L (inv e) (renamePolicy env request operator) (\<lambda>_. inv e)"
proof (cases "ValidName (rename_Name request) \<and> ValidName (rename_NewName request)")
  case False
  then show ?thesis
    unfolding renamePolicy_def policy_fail_def by (auto intro!: triple_ret triple_attempt[OF triple_store_read])
next
  case True
  have go: "triple L (\<lambda>d r p. inv e d r p \<and> store_Policy (ce_hcl env) (rename_NewName request) d = Inl ErrNotFound)
     (attempt (store_read (\<lambda>d. Inr (Bindings [] d))) (\<lambda>_. policy_fail [] (operationError ErrorInternal BindingsUnreadable))
        (\<lambda>bindings. attempt (renamedBindings env (rename_Name request) document bindings) (policy_fail [])
        (\<lambda>affected. check (preflight env affected) (policy_fail [])
          (check (publishRenamed env document) (policy_fail [])
            (commit_rename env (rename_Name request) document affected operator))))) (\<lambda>_. inv e)"
    if "policy_Name document = rename_NewName request" for document
    unfolding policy_fail_def
    by (rule triple_attempt[OF triple_store_read triple_ret triple_attempt[OF renamedBindings_triple triple_ret triple_check[OF preflight_triple triple_ret
            triple_check[OF triple_pre[OF publishRenamed_triple] triple_ret triple_pre[OF commit_rename_triple]]]]])
      (use True that in \<open>auto simp: rename_ready_def next_assignments_def dest: store_Policy_none\<close>)
  have clone: "policy_Name (p\<lparr>policy_Name := rename_NewName request, policy_Generation := g, policy_Revision := v\<rparr>) = rename_NewName request" for p :: Policy and g v
    by simp
  have free: "triple L (\<lambda>d r p. inv e d r p \<and> (\<forall>y. x = Inr y \<longrightarrow> store_Policy (ce_hcl env) (rename_NewName request) d = Inr y)
        \<and> (\<forall>e'. x = Inl (StoreErr e') \<longrightarrow> store_Policy (ce_hcl env) (rename_NewName request) d = Inl e'))
      (case x of Inr _ \<Rightarrow> policy_fail [] f | Inl e \<Rightarrow> if e \<noteq> StoreErr ErrNotFound then policy_fail [] g else k) (\<lambda>_. inv e)"
    if "triple L (\<lambda>d r p. inv e d r p \<and> store_Policy (ce_hcl env) (rename_NewName request) d = Inl ErrNotFound) k (\<lambda>_. inv e)"
    for x :: "store_failure + StoredPolicy" and f g and k :: "('r world, policy_result) state"
    by (cases x) (auto simp: policy_fail_def intro!: triple_ret triple_pre[OF that])
  show ?thesis
    unfolding renamePolicy_def Let_def
    by (rule triple_if[OF _ triple_attempt[OF triple_store_read _ triple_if[OF _ triple_if[OF _ triple_if[OF _ triple_bind[OF triple_store_read
            triple_pre[OF free[OF triple_attempt[OF triple_store_read _ triple_pre[OF go[OF clone]]]]]]]]]]])
      (auto simp: policy_fail_def intro!: triple_ret)
qed

section \<open>Starting\<close>

lemma reconcileBindings_triple: "triple L (inv False) (reconcileBindings env) (\<lambda>_. inv True)"
proof -
  have all: "triple L (\<lambda>d r p. inv True d r p \<and> bs = Bindings [] d) (apply_all env bs) (\<lambda>_. inv True)" for bs
    using apply_unapplied_triple[of L True bs "\<lambda>_. True"] by simp
  show ?thesis
    unfolding reconcileBindings_def
    by (rule triple_check[OF triple_pre[OF syncPolicies_triple[of L "\<lambda>_. True"]] triple_ret
          triple_attempt[OF triple_store_read triple_ret triple_bind[OF triple_pre[OF all] triple_ret]]]) auto
qed

end

end
