(* ===== verification/Operator_Session.thy ===== *)
theory Operator_Session
  imports Controller_Sessions
begin

text \<open>
  What the controller does for an operator's key: authentication of the keys of agents and operators
  (\<^verbatim>\<open>sshserver.go\<close>, \<^verbatim>\<open>operator_keys.go\<close>), decisions on operator keys, and the requests of an operator session
  (\<^verbatim>\<open>operator_session.go\<close>), all under \<^verbatim>\<open>internal/controller\<close>.

  The JSON library is a parameter (\<open>codec\<close>): it decodes a request and its body, writes a response and copies a
  binding's status into the type of the public package. A request is handled as a whole, as the operations it
  calls are.
\<close>

section \<open>Authentication\<close>

definition maximumPendingKeys :: nat where
  [simp]: "maximumPendingKeys = 256"

definition hostname_label :: rx where
  "hostname_label =
     Seq (Cls [range_AZ, range_az, range_09]) (rx_between 0 62 (Cls [range_AZ, range_az, range_09, only (CHR ''-'')]))"

definition hostnamePattern :: rx where
  "hostnamePattern = Seq hostname_label (Star (Seq (rx_char (CHR ''.'')) hostname_label))"

definition ValidAgentName :: "string \<Rightarrow> bool" where
  "ValidAgentName name \<longleftrightarrow> length name \<le> 253 \<and> MatchString hostnamePattern name"

text \<open>What the last call of \<^verbatim>\<open>authenticate\<close> leaves in the context of a connection.\<close>

datatype identity = AgentIdentity string string | OperatorIdentity string

text \<open>A presented key: its fingerprint and its text. Line breaks around the text are trimmed for an agent.\<close>

record public_key =
  pk_Fingerprint :: string
  pk_Authorized :: string

definition authenticateOperator :: "public_key \<Rightarrow> string \<Rightarrow> ('r world, identity option) state" where
  "authenticateOperator key label = do {
     found \<leftarrow> store_read (store_OperatorKey (pk_Fingerprint key));
     case found of
       Inl e \<Rightarrow>
         if e = StoreErr ErrNotFound then
           attempt (store_read (\<lambda>d. Inr (PendingOperatorKeyCount d))) (\<lambda>_. ret None)
             (\<lambda>pending.
                if pending \<ge> maximumPendingKeys then ret None
                else do {
                  t \<leftarrow> now_read;
                  store_write (RecordOperatorKey (pk_Fingerprint key) label (pk_Authorized key) t);
                  ret None
                })
         else ret None
     | Inr k \<Rightarrow> ret (if opk_State k \<noteq> OperatorKeyApproved then None else Some (OperatorIdentity (pk_Fingerprint key)))
   }"

definition authenticate :: "string \<Rightarrow> public_key \<Rightarrow> ('r world, identity option) state" where
  "authenticate name key =
     (case ParseUser name of
        Some label \<Rightarrow> authenticateOperator key label
      | None \<Rightarrow>
          if \<not> ValidAgentName name then ret None
          else do {
            found \<leftarrow> store_read (store_Agent (pk_Fingerprint key));
            case found of
              Inl e \<Rightarrow>
                if e = StoreErr ErrNotFound then
                  attempt (store_read (\<lambda>d. Inr (PendingCount d))) (\<lambda>_. ret None)
                    (\<lambda>pending.
                       if pending \<ge> maximumPendingKeys then ret None
                       else do {
                         t \<leftarrow> now_read;
                         store_write (RecordKey (pk_Fingerprint key) name (TrimSpace (pk_Authorized key)) t);
                         ret None
                       })
                else ret None
            | Inr agent \<Rightarrow>
                ret (if agent_State agent \<noteq> AgentApproved \<or> agent_Name agent \<noteq> name then None
                     else Some (AgentIdentity (pk_Fingerprint key) name))
          })"

section \<open>Errors of a session\<close>

datatype op_text =
    OutsideGrantText | KeyUnreadable | PoliciesUnreadable | PolicyAbsent | PolicyUnreadable | SessionBindingsUnreadable
  | SessionPolicyUnreadable | SessionStatusUnreadable | BindingAbsent | BindingUnreadable | AssignmentPending
  | RequestInvalid | VersionUnsupported | OperationUnsupported | SelectionDiffers | SelectOneBinding
  | LabelInvalid | GrantInvalid grant_error | LabelTaken | NoSuchKey | KeyDecisionNotRecorded
  | KeyNotApprovedText | OperationFailed | ResultTooLarge | ResultUnencodable
  | OperationText op_message

datatype Code = CodeNotApproved | CodeOutsideGrant | CodeNotFound | CodeBindingDiffer | CodeInvalid | CodePending | CodeFailed

text \<open>An error of the operations below: one of theirs, an operation error made here, an error of the public package,
  an unapproved key, or the mark of a change that is durable and not applied.\<close>

datatype op_error =
    OpCtl ctl_error
  | OpSession string op_text
  | OpWire Code op_text
  | OpNotApproved
  | OpPending op_error

record wire_error =
  we_Code :: Code
  we_Message :: op_text
  we_Part :: Part

definition outsideGrant :: op_error where
  "outsideGrant = OpSession ''outside-grant'' OutsideGrantText"

text \<open>\<^verbatim>\<open>errors.As\<close> for an operation error: its code, message and part.\<close>

fun find_operation :: "ctl_error \<Rightarrow> (string \<times> op_text \<times> Part) option" where
  "find_operation (OpErr e) = Some (oe_Code e, OperationText (oe_Message e), oe_Part e)"
| "find_operation (Joined es) =
     (case concat (map (\<lambda>e. case find_operation e of None \<Rightarrow> [] | Some c \<Rightarrow> [c]) es) of [] \<Rightarrow> None | c # _ \<Rightarrow> Some c)"
| "find_operation _ = None"

fun as_operation :: "op_error \<Rightarrow> (string \<times> op_text \<times> Part) option" where
  "as_operation (OpCtl e) = find_operation e"
| "as_operation (OpSession code text) = Some (code, text, NoPart)"
| "as_operation (OpPending e) = as_operation e"
| "as_operation _ = None"

definition problemText :: "op_error \<Rightarrow> op_text" where
  "problemText err = (case as_operation err of Some (_, text, _) \<Rightarrow> text | None \<Rightarrow> OperationFailed)"

definition wire_code :: "string \<Rightarrow> Code" where
  "wire_code code =
     (if code = ''outside-grant'' then CodeOutsideGrant
      else if code = ErrorNotBound then CodeNotFound
      else if code = ErrorPolicyDenied then CodeInvalid
      else CodeFailed)"

fun operatorWireError :: "op_error \<Rightarrow> wire_error" where
  "operatorWireError (OpPending e) = \<lparr>we_Code = CodePending, we_Message = problemText (OpPending e), we_Part = NoPart\<rparr>"
| "operatorWireError (OpWire code text) = \<lparr>we_Code = code, we_Message = text, we_Part = NoPart\<rparr>"
| "operatorWireError OpNotApproved = \<lparr>we_Code = CodeNotApproved, we_Message = KeyNotApprovedText, we_Part = NoPart\<rparr>"
| "operatorWireError err =
     (case as_operation err of
        None \<Rightarrow> \<lparr>we_Code = CodeFailed, we_Message = OperationFailed, we_Part = NoPart\<rparr>
      | Some (code, text, part) \<Rightarrow> \<lparr>we_Code = wire_code code, we_Message = text, we_Part = part\<rparr>)"

text \<open>The event code of a result: \<^verbatim>\<open>mutationErrorCode\<close> of its error.\<close>

definition session_code :: "op_error option \<Rightarrow> string" where
  "session_code err =
     (case err of
        None \<Rightarrow> ErrorNone
      | Some e \<Rightarrow> (case as_operation e of Some (code, _, _) \<Rightarrow> if code \<noteq> ErrorNone then code else ErrorInternal | None \<Rightarrow> ErrorInternal))"

section \<open>Decisions on operator keys\<close>

definition operatorKeyDecision :: "store_failure option \<Rightarrow> string \<Rightarrow> string \<Rightarrow> string \<Rightarrow> ('r world, op_error option) state" where
  "operatorKeyDecision err operation fingerprint who =
     (case err of
        Some e \<Rightarrow>
          ret (Some (
            if e = StoreErr ErrConflict then OpSession ErrorPolicyDenied LabelTaken
            else if e = StoreErr ErrNotFound then OpSession ErrorNotBound NoSuchKey
            else OpSession ErrorInternal KeyDecisionNotRecorded))
      | None \<Rightarrow> do {
          ctl_record (no_event\<lparr>ev_Operation := operation, ev_Outcome := OutcomeOK, ev_Fingerprint := fingerprint, ev_Operator := who\<rparr>);
          ret None
        })"

definition decided :: "(db \<Rightarrow> store_error + OperatorKey \<times> db) \<Rightarrow> ('r world, store_failure option) state" where
  "decided f = do { x \<leftarrow> store_write f; ret (case x of Inl e \<Rightarrow> Some e | Inr _ \<Rightarrow> None) }"

definition ctl_ApproveOperatorKey :: "string \<Rightarrow> string \<Rightarrow> Grant \<Rightarrow> string \<Rightarrow> ('r world, op_error option) state" where
  "ctl_ApproveOperatorKey fingerprint label grant who =
     (if \<not> ValidLabel label then ret (Some (OpSession ErrorPolicyDenied LabelInvalid))
      else
        case Grant_Validate grant ValidAgentName ValidName of
          Some e \<Rightarrow> ret (Some (OpSession ErrorPolicyDenied (GrantInvalid e)))
        | None \<Rightarrow> do {
            t \<leftarrow> now_read;
            err \<leftarrow> decided (ApproveOperatorKey fingerprint label grant who t);
            operatorKeyDecision err ''operator-key-approved'' fingerprint who
          })"

definition ctl_RejectOperatorKey :: "string \<Rightarrow> string \<Rightarrow> ('r world, op_error option) state" where
  "ctl_RejectOperatorKey fingerprint who = do {
     t \<leftarrow> now_read;
     err \<leftarrow> decided (RejectOperatorKey fingerprint who t);
     operatorKeyDecision err ''operator-key-rejected'' fingerprint who
   }"

definition ctl_RevokeOperatorKey :: "string \<Rightarrow> string \<Rightarrow> ('r world, op_error option) state" where
  "ctl_RevokeOperatorKey fingerprint who = do {
     t \<leftarrow> now_read;
     err \<leftarrow> decided (RevokeOperatorKey fingerprint who t);
     operatorKeyDecision err ''operator-key-revoked'' fingerprint who
   }"

section \<open>Requests\<close>

record PolicySSH =
  pssh_TransitKeys :: "string list"
  pssh_CARoles :: "string list"

record PolicyPut =
  put_Name :: string
  put_HCL :: string
  put_SSH :: "PolicySSH option"

text \<open>The settings of a request and of a policy have the same fields.\<close>

record BindRequest =
  breq_Agent :: string
  breq_Key :: Key
  breq_Policies :: "string list"
  breq_Settings :: Settings

record UnbindRequest =
  ureq_ID :: string
  ureq_Agent :: string
  ureq_Key :: "Key option"

record op_Policy =
  opp_Name :: string
  opp_Revision :: int
  opp_HCL :: string
  opp_SSH :: "PolicySSH option"
  opp_ValueNames :: "string list"

record op_Binding =
  opb_ID :: string
  opb_Agent :: string
  opb_Key :: Key
  opb_Policies :: "string list"
  opb_Settings :: Settings
  opb_Revision :: int
  opb_Applied :: bool
  opb_Status :: "ctl_BindingStatus option"

record UnbindResult =
  ures_Removed :: bool
  ures_TokenLive :: bool
  ures_Warning :: "op_text option"

datatype op_body =
    BodyIdentity string string Grant
  | BodyPolicies "op_Policy list"
  | BodyPolicy op_Policy
  | BodyBindings "op_Binding list"
  | BodyBinding op_Binding
  | BodyUnbind UnbindResult

record op_request =
  orq_Version :: int
  orq_Operation :: string
  orq_Body :: string

record op_response =
  ors_Version :: int
  ors_Body :: "op_body option"
  ors_Error :: "wire_error option"

text \<open>\<open>co_marshals\<close> says whether a result can be written, \<open>co_response\<close> writes a response without its line break.\<close>

record codec =
  co_request :: "string \<Rightarrow> op_request option"
  co_PolicyName :: "string \<Rightarrow> string option"
  co_PolicyPut :: "string \<Rightarrow> PolicyPut option"
  co_BindingList :: "string \<Rightarrow> string option"
  co_BindingID :: "string \<Rightarrow> string option"
  co_BindRequest :: "string \<Rightarrow> BindRequest option"
  co_UnbindRequest :: "string \<Rightarrow> UnbindRequest option"
  co_publicStatus :: "ctl_BindingStatus option \<Rightarrow> ctl_BindingStatus option option"
  co_marshals :: "op_body \<Rightarrow> bool"
  co_response :: "op_response \<Rightarrow> string option"

definition op_ProtocolVersion :: int where
  [simp]: "op_ProtocolVersion = 1"

definition OperatorSubject :: "string \<Rightarrow> string" where
  "OperatorSubject label = ''key:'' @ label"

subsection \<open>Policies\<close>

definition publicPolicy :: "hcl_lib \<Rightarrow> Policy \<Rightarrow> op_Policy" where
  "publicPolicy hcl document =
     \<lparr>opp_Name = policy_Name document, opp_Revision = policy_Revision document, opp_HCL = openbao_Policy (policy_OpenBao document),
      opp_SSH = map_option (\<lambda>s. \<lparr>pssh_TransitKeys = ssh_TransitKeys s, pssh_CARoles = ssh_CARoles s\<rparr>) (policy_SSH document),
      opp_ValueNames = ValueNames hcl document\<rparr>"

definition operatorPolicies :: "'r ctl_env \<Rightarrow> OperatorKey \<Rightarrow> ('r world, op_error + op_body) state" where
  "operatorPolicies env key =
     (if \<not> Can (opk_Grant key) ActionRead then ret (Inl outsideGrant)
      else attempt (store_read (store_Policies (ce_hcl env))) (\<lambda>_. ret (Inl (OpSession ErrorInternal PoliciesUnreadable)))
        (\<lambda>documents. ret (Inr (BodyPolicies (map (\<lambda>s. publicPolicy (ce_hcl env) (stored_Policy s))
           (filter (\<lambda>s. AllowsPolicy (opk_Grant key) (policy_Name (stored_Policy s))) documents))))))"

definition operatorPolicy :: "'r ctl_env \<Rightarrow> OperatorKey \<Rightarrow> string \<Rightarrow> ('r world, op_error + op_body) state" where
  "operatorPolicy env key name =
     (if \<not> Can (opk_Grant key) ActionRead \<or> \<not> AllowsPolicy (opk_Grant key) name then ret (Inl outsideGrant)
      else attempt (store_read (store_Policy (ce_hcl env) name))
        (\<lambda>e. ret (Inl (if e = StoreErr ErrNotFound then OpSession ErrorNotBound PolicyAbsent else OpSession ErrorInternal PolicyUnreadable)))
        (\<lambda>stored. ret (Inr (BodyPolicy (publicPolicy (ce_hcl env) (stored_Policy stored))))))"

definition replaceSSH :: "SSH option \<Rightarrow> PolicySSH \<Rightarrow> SSH option" where
  "replaceSSH previous put =
     (if pssh_TransitKeys put = [] \<and> pssh_CARoles put = [] then None
      else
        let result = \<lparr>ssh_TransitKeys = pssh_TransitKeys put, ssh_CARoles = pssh_CARoles put, ssh_NotForwardable = None\<rparr>
        in case Option.bind previous ssh_NotForwardable of
             None \<Rightarrow> Some result
           | Some marked \<Rightarrow>
               let kept = \<lparr>names_TransitKeys = filter (\<lambda>n. n \<in> set (pssh_TransitKeys put)) (names_TransitKeys marked),
                           names_CARoles = filter (\<lambda>n. n \<in> set (pssh_CARoles put)) (names_CARoles marked)\<rparr>
               in Some (if names_TransitKeys kept \<noteq> [] \<or> names_CARoles kept \<noteq> [] then result\<lparr>ssh_NotForwardable := Some kept\<rparr> else result))"

text \<open>The document a request stands for, given the stored policy of its name.\<close>

definition put_document :: "PolicyPut \<Rightarrow> Policy option \<Rightarrow> Policy" where
  "put_document put stored =
     (let document = (case stored of
            None \<Rightarrow> New (put_Name put) (put_HCL put)
          | Some p \<Rightarrow> let p = Policy_Clone p in p\<lparr>policy_OpenBao := (policy_OpenBao p)\<lparr>openbao_Policy := put_HCL put\<rparr>\<rparr>)
      in case put_SSH put of None \<Rightarrow> document | Some s \<Rightarrow> document\<lparr>policy_SSH := replaceSSH (policy_SSH document) s\<rparr>)"

type_synonym put_result = "Policy option \<times> string list \<times> op_error option"

definition save_put :: "'r ctl_env \<Rightarrow> Policy \<Rightarrow> string \<Rightarrow> ('r world, put_result) state" where
  "save_put env document subject = do {
     (saved, agents, err) \<leftarrow> savePolicy env document subject;
     ret (saved, agents, map_option OpCtl err)
   }"

definition authorizedPutPolicy :: "'r ctl_env \<Rightarrow> OperatorKey \<Rightarrow> PolicyPut \<Rightarrow> string \<Rightarrow> ('r world, put_result) state" where
  "authorizedPutPolicy env key put subject =
     (if \<not> Can (opk_Grant key) ActionPolicyWrite \<or> \<not> AllowsPolicy (opk_Grant key) (put_Name put) then ret (None, [], Some outsideGrant)
      else
        attempt (store_read (\<lambda>d. Inr (Bindings [] d))) (\<lambda>_. ret (None, [], Some (OpSession ErrorInternal SessionBindingsUnreadable)))
       (\<lambda>bindings.
          if list_ex (\<lambda>b. HasPolicy b (put_Name put) \<and> \<not> Covers (opk_Grant key) (bind_Agent b) (bind_Policies b)) bindings
          then ret (None, [], Some outsideGrant)
          else
            attempt (store_read (store_Policy (ce_hcl env) (put_Name put)))
              (\<lambda>e. if e = StoreErr ErrNotFound then save_put env (put_document put None) subject
                   else ret (None, [], Some (OpSession ErrorInternal SessionPolicyUnreadable)))
              (\<lambda>stored. save_put env (put_document put (Some (stored_Policy stored))) subject)))"

definition operatorPutPolicy :: "'r ctl_env \<Rightarrow> OperatorKey \<Rightarrow> PolicyPut \<Rightarrow> ('r world, op_error + op_body) state" where
  "operatorPutPolicy env key put = do {
     started \<leftarrow> now_read;
     (saved, agents, err) \<leftarrow> authorizedPutPolicy env key put (OperatorSubject (opk_Label key));
     t \<leftarrow> now_read;
     ctl_record (policy_event ''policy-saved'' (session_code err) (boundedPolicyName (put_Name put)) (OperatorSubject (opk_Label key)) started t);
     push_agents env (remdups agents);
     ret (case (err, saved) of
        (None, Some p) \<Rightarrow> Inr (BodyPolicy (publicPolicy (ce_hcl env) p))
      | (None, None) \<Rightarrow> Inr (BodyPolicy \<lparr>opp_Name = [], opp_Revision = 0, opp_HCL = [], opp_SSH = None, opp_ValueNames = []\<rparr>)
      | (Some e, Some _) \<Rightarrow> Inl (OpPending e)
      | (Some e, None) \<Rightarrow> Inl e)
   }"

subsection \<open>Bindings\<close>

definition session_statuses :: "'r world \<Rightarrow> string \<Rightarrow> (string, msg_BindingStatus) gomap option" where
  "session_statuses w agent = map_option (\<lambda>i. as_statuses (w_sessions w ! i)) (map_of (w_hub w) agent)"

text \<open>A status that a map of statuses does not hold is Go's zero value, \<open>None\<close> here.\<close>

definition publicBinding :: "codec \<Rightarrow> Binding \<Rightarrow> ctl_BindingStatus option \<Rightarrow> op_error + op_Binding" where
  "publicBinding co b status =
     (case co_publicStatus co status of
        None \<Rightarrow> Inl (OpSession ErrorInternal SessionStatusUnreadable)
      | Some public \<Rightarrow>
          Inr \<lparr>opb_ID = bind_ID b, opb_Agent = bind_Agent b, opb_Key = bind_Key b, opb_Policies = bind_Policies b, opb_Settings = bind_Settings b,
            opb_Revision = bind_Revision b, opb_Applied = bind_Applied b, opb_Status = public\<rparr>)"

definition operator_statuses :: "'r ctl_env \<Rightarrow> string \<Rightarrow> ('r world, store_failure + ctl_BindingStatus list) state" where
  "operator_statuses env agent = do {
     sessions \<leftarrow> read_rest session_statuses;
     store_read (\<lambda>d. Inr (ctl_BindingStatuses (ce_Assignment env) sessions agent d))
   }"

fun list_bindings ::
  "'r ctl_env \<Rightarrow> codec \<Rightarrow> Grant \<Rightarrow> (string, ctl_BindingStatus list) gomap \<Rightarrow> Binding list \<Rightarrow> ('r world, op_error + op_Binding list) state" where
  "list_bindings env co grant statuses [] = ret (Inr [])"
| "list_bindings env co grant statuses (b # bs) =
     (if \<not> Covers grant (bind_Agent b) (bind_Policies b) then list_bindings env co grant statuses bs
      else
        attempt (case map_of statuses (bind_Agent b) of Some l \<Rightarrow> ret (Inr l) | None \<Rightarrow> operator_statuses env (bind_Agent b))
          (\<lambda>_. ret (Inl (OpSession ErrorInternal SessionStatusUnreadable)))
       (\<lambda>l. case publicBinding co b (find (\<lambda>s. st_Binding s = bind_ID b) (rev l)) of
          Inl e \<Rightarrow> ret (Inl e)
        | Inr public \<Rightarrow>
            attempt (list_bindings env co grant (AList.update (bind_Agent b) l statuses) bs) (\<lambda>e. ret (Inl e))
              (\<lambda>rest. ret (Inr (public # rest)))))"

definition operatorBindings :: "'r ctl_env \<Rightarrow> codec \<Rightarrow> OperatorKey \<Rightarrow> string \<Rightarrow> ('r world, op_error + op_body) state" where
  "operatorBindings env co key agent =
     (if \<not> Can (opk_Grant key) ActionRead \<or> agent \<noteq> [] \<and> \<not> AllowsAgent (opk_Grant key) agent then ret (Inl outsideGrant)
      else
        attempt (store_read (\<lambda>d. Inr (Bindings agent d))) (\<lambda>_. ret (Inl (OpSession ErrorInternal SessionBindingsUnreadable)))
       (\<lambda>bindings. attempt (list_bindings env co (opk_Grant key) [] bindings) (\<lambda>e. ret (Inl e)) (\<lambda>l. ret (Inr (BodyBindings l)))))"

definition readOperatorBinding :: "'r ctl_env \<Rightarrow> codec \<Rightarrow> Binding \<Rightarrow> ('r world, op_error + op_body) state" where
  "readOperatorBinding env co b = do {
     sessions \<leftarrow> read_rest session_statuses;
     attempt (store_read (ctl_BindingStatus_of (ce_Assignment env) sessions (bind_ID b)))
       (\<lambda>_. ret (Inl (OpSession ErrorInternal SessionStatusUnreadable)))
       (\<lambda>status. ret (map_sum id BodyBinding (publicBinding co b (Some status))))
   }"

definition operatorBinding :: "'r ctl_env \<Rightarrow> codec \<Rightarrow> OperatorKey \<Rightarrow> string \<Rightarrow> ('r world, op_error + op_body) state" where
  "operatorBinding env co key bid =
     (if \<not> Can (opk_Grant key) ActionRead then ret (Inl outsideGrant)
      else
        attempt (store_read (store_Binding bid))
          (\<lambda>e. ret (Inl (if e = StoreErr ErrNotFound then OpSession ErrorNotBound BindingAbsent else OpSession ErrorInternal BindingUnreadable)))
       (\<lambda>b. if \<not> Covers (opk_Grant key) (bind_Agent b) (bind_Policies b) then ret (Inl outsideGrant)
            else readOperatorBinding env co b))"

definition eventAgent :: "string \<Rightarrow> string" where
  "eventAgent agent = (if ValidAgentName agent then agent else [])"

definition recordDenied :: "string \<Rightarrow> string \<Rightarrow> string \<Rightarrow> ('r world, unit) state" where
  "recordDenied operation agent subject =
     ctl_record (no_event\<lparr>ev_Operation := operation, ev_Outcome := OutcomeDenied, ev_ErrorCode := ''outside-grant'',
       ev_Agent := eventAgent agent, ev_Operator := subject\<rparr>)"

definition findBinding :: "string \<Rightarrow> Key \<Rightarrow> ('r world, op_error + Binding option) state" where
  "findBinding agent key =
     attempt (store_read (\<lambda>d. Inr (Bindings agent d))) (\<lambda>_. ret (Inl (OpSession ErrorInternal SessionBindingsUnreadable)))
       (\<lambda>bindings. ret (Inr (find (\<lambda>b. bind_Key b = key) bindings)))"

definition repeatBind :: "'r ctl_env \<Rightarrow> OperatorKey \<Rightarrow> Binding \<Rightarrow> Selection \<Rightarrow> ('r world, op_error + Binding) state" where
  "repeatBind env key existing selection =
     (if \<not> Covers (opk_Grant key) (bind_Agent existing) (bind_Policies existing) then ret (Inl outsideGrant)
      else
        attempt (compose (ce_hcl env) (sel_Policies selection) (sel_Settings selection) None) (\<lambda>e. ret (Inl (OpCtl e)))
       (\<lambda>effective.
          if ce_Identity env effective \<noteq> ce_Identity env (bind_Effective existing) then ret (Inl (OpWire CodeBindingDiffer SelectionDiffers))
          else
            check (applyBinding env existing)
              (\<lambda>e. ret (Inl (OpPending (OpSession (openBaoError e) AssignmentPending))))
              (ret (Inr (existing\<lparr>bind_Applied := True\<rparr>)))))"

definition bind_selection :: "BindRequest \<Rightarrow> Selection" where
  "bind_selection request = \<lparr>sel_Policies = breq_Policies request, sel_Settings = breq_Settings request, sel_Revision = 0\<rparr>"

definition operatorBind :: "'r ctl_env \<Rightarrow> codec \<Rightarrow> string \<Rightarrow> OperatorKey \<Rightarrow> BindRequest \<Rightarrow> ('r world, op_error + op_body) state" where
  "operatorBind env co random key request =
     (let subject = OperatorSubject (opk_Label key); agent = breq_Agent request
      in if \<not> Can (opk_Grant key) ActionBind \<or> \<not> Covers (opk_Grant key) agent (breq_Policies request)
         then do { recordDenied ''binding-created'' agent subject; ret (Inl outsideGrant) }
         else do {
           started \<leftarrow> now_read;
           found \<leftarrow> findBinding agent (breq_Key request);
           case found of
             Inl e \<Rightarrow> ret (Inl e)
           | Inr (Some existing) \<Rightarrow> do {
               x \<leftarrow> repeatBind env key existing (bind_selection request);
               case x of
                 Inl e \<Rightarrow> do { (if e = outsideGrant then recordDenied ''binding-created'' agent subject else ret ()); ret (Inl e) }
               | Inr applied \<Rightarrow> do {
                   (if \<not> bind_Applied existing then pushAgent env agent else ret ());
                   readOperatorBinding env co applied
                 }
             }
           | Inr None \<Rightarrow> do {
               result \<leftarrow> createBinding env random agent (breq_Key request) (bind_selection request) subject;
               finishCreateBinding env agent result subject started;
               case result of
                 (Some _, Some e) \<Rightarrow> ret (Inl (OpPending (OpCtl e)))
               | (None, Some e) \<Rightarrow> ret (Inl (OpCtl e))
               | (Some created, None) \<Rightarrow> readOperatorBinding env co created
               | (None, None) \<Rightarrow> ret (Inl (OpSession ErrorInternal SessionStatusUnreadable))
             }
         })"

text \<open>A deletion that failed with the internal code left the binding in place.\<close>

fun bindingStays :: "ctl_error option \<Rightarrow> bool" where
  "bindingStays (Some e) = (case find_operation e of Some (code, _, _) \<Rightarrow> code = ErrorInternal | None \<Rightarrow> False)"
| "bindingStays None = False"

definition resolveUnbind :: "UnbindRequest \<Rightarrow> ('r world, op_error + Binding option) state" where
  "resolveUnbind request =
     (if ureq_ID request = [] then
        (case ureq_Key request of None \<Rightarrow> ret (Inr None) | Some key \<Rightarrow> findBinding (ureq_Agent request) key)
      else
        attempt (store_read (store_Binding (ureq_ID request)))
          (\<lambda>e. ret (if e = StoreErr ErrNotFound then Inr None else Inl (OpSession ErrorInternal BindingUnreadable)))
          (\<lambda>b. ret (Inr (Some b))))"

definition Connected :: "string \<Rightarrow> 'r world \<Rightarrow> bool" where
  "Connected agent w = (map_of (w_hub w) agent \<noteq> None)"

text \<open>What an unbind answers after the deletion.\<close>

definition unbind_answer :: "ctl_error option \<Rightarrow> op_error + op_body" where
  "unbind_answer err =
     (case err of
        None \<Rightarrow> Inr (BodyUnbind \<lparr>ures_Removed = True, ures_TokenLive = False, ures_Warning = None\<rparr>)
      | Some (OpErr e) \<Rightarrow>
          if oe_TokenLive e then Inr (BodyUnbind \<lparr>ures_Removed = True, ures_TokenLive = True, ures_Warning = Some (OperationText (oe_Message e))\<rparr>)
          else if oe_Code e = ErrorInternal then Inl (OpCtl (OpErr e))
          else Inr (BodyUnbind \<lparr>ures_Removed = True, ures_TokenLive = False, ures_Warning = Some (OperationText (oe_Message e))\<rparr>)
      | Some e \<Rightarrow> Inl (OpCtl e))"

definition operatorUnbind :: "'r ctl_env \<Rightarrow> OperatorKey \<Rightarrow> UnbindRequest \<Rightarrow> ('r world, op_error + op_body) state" where
  "operatorUnbind env key request =
     (let subject = OperatorSubject (opk_Label key);
          byID = (ureq_ID request \<noteq> []);
          byKey = (ureq_Agent request \<noteq> [] \<or> ureq_Key request \<noteq> None)
      in if byID = byKey \<or> byKey \<and> (ureq_Agent request = [] \<or> ureq_Key request = None)
         then ret (Inl (OpWire CodeInvalid SelectOneBinding))
         else if \<not> Can (opk_Grant key) ActionBind \<or> byKey \<and> \<not> AllowsAgent (opk_Grant key) (ureq_Agent request)
         then do { recordDenied ''binding-deleted'' (ureq_Agent request) subject; ret (Inl outsideGrant) }
         else do {
           found \<leftarrow> resolveUnbind request;
           case found of
             Inl e \<Rightarrow> ret (Inl e)
           | Inr None \<Rightarrow> ret (Inr (BodyUnbind \<lparr>ures_Removed = False, ures_TokenLive = False, ures_Warning = None\<rparr>))
           | Inr (Some b) \<Rightarrow>
               if \<not> Covers (opk_Grant key) (bind_Agent b) (bind_Policies b)
               then do { recordDenied ''binding-deleted'' (bind_Agent b) subject; ret (Inl outsideGrant) }
               else do {
                 connected \<leftarrow> read_rest (Connected (bind_Agent b));
                 err \<leftarrow> deleteBinding env (bind_ID b) subject connected;
                 (if \<not> bindingStays err then do { hub_send (bind_Agent b) (SentUnbind (bind_ID b)); ret () } else ret ());
                 pushAgent env (bind_Agent b);
                 ret (unbind_answer err)
               }
         })"

subsection \<open>Dispatch\<close>

definition decoded :: "'a option \<Rightarrow> ('a \<Rightarrow> ('r world, op_error + op_body) state) \<Rightarrow> ('r world, op_error + op_body) state" where
  "decoded x k = (case x of None \<Rightarrow> ret (Inl (OpWire CodeInvalid RequestInvalid)) | Some a \<Rightarrow> k a)"

definition run_operation :: "'r ctl_env \<Rightarrow> codec \<Rightarrow> string \<Rightarrow> OperatorKey \<Rightarrow> op_request \<Rightarrow> ('r world, op_error + op_body) state" where
  "run_operation env co random key request =
     (let body = orq_Body request
      in if orq_Operation request = ''whoami'' then ret (Inr (BodyIdentity (opk_Label key) (opk_Fingerprint key) (opk_Grant key)))
         else if orq_Operation request = ''policy-list'' then operatorPolicies env key
         else if orq_Operation request = ''policy-get'' then decoded (co_PolicyName co body) (operatorPolicy env key)
         else if orq_Operation request = ''policy-put'' then decoded (co_PolicyPut co body) (operatorPutPolicy env key)
         else if orq_Operation request = ''binding-list'' then decoded (co_BindingList co body) (operatorBindings env co key)
         else if orq_Operation request = ''binding-get'' then decoded (co_BindingID co body) (operatorBinding env co key)
         else if orq_Operation request = ''bind'' then decoded (co_BindRequest co body) (operatorBind env co random key)
         else if orq_Operation request = ''unbind'' then decoded (co_UnbindRequest co body) (operatorUnbind env key)
         else ret (Inl (OpWire CodeInvalid OperationUnsupported)))"

definition dispatchOperator :: "'r ctl_env \<Rightarrow> codec \<Rightarrow> string \<Rightarrow> string \<Rightarrow> string \<Rightarrow> ('r world, op_error + op_body) state" where
  "dispatchOperator env co random fingerprint line = do {
     found \<leftarrow> store_read (store_OperatorKey fingerprint);
     case found of
       Inl e \<Rightarrow> ret (Inl (if e = StoreErr ErrNotFound then OpNotApproved else OpSession ErrorInternal KeyUnreadable))
     | Inr key \<Rightarrow>
         if opk_State key \<noteq> OperatorKeyApproved then ret (Inl OpNotApproved)
         else decoded (co_request co line) (\<lambda>request.
           if orq_Version request \<noteq> op_ProtocolVersion then ret (Inl (OpWire CodeInvalid VersionUnsupported))
           else run_operation env co random key request)
   }"

definition answerOperator :: "'r ctl_env \<Rightarrow> codec \<Rightarrow> string \<Rightarrow> string \<Rightarrow> string \<Rightarrow> ('r world, op_response) state" where
  "answerOperator env co random fingerprint line = do {
     x \<leftarrow> dispatchOperator env co random fingerprint line;
     ret (case x of
        Inl e \<Rightarrow> \<lparr>ors_Version = op_ProtocolVersion, ors_Body = None, ors_Error = Some (operatorWireError e)\<rparr>
      | Inr body \<Rightarrow>
          if co_marshals co body then \<lparr>ors_Version = op_ProtocolVersion, ors_Body = Some body, ors_Error = None\<rparr>
          else \<lparr>ors_Version = op_ProtocolVersion, ors_Body = None,
                 ors_Error = Some \<lparr>we_Code = CodeFailed, we_Message = ResultUnencodable, we_Part = NoPart\<rparr>\<rparr>)
   }"

definition too_large :: op_response where
  "too_large = \<lparr>ors_Version = op_ProtocolVersion, ors_Body = None,
     ors_Error = Some \<lparr>we_Code = CodeFailed, we_Message = ResultTooLarge, we_Part = NoPart\<rparr>\<rparr>"

definition encodeOperatorResponse :: "codec \<Rightarrow> op_response \<Rightarrow> string option" where
  "encodeOperatorResponse co response =
     (case co_response co response of
        None \<Rightarrow> None
      | Some encoded \<Rightarrow>
          if length encoded \<ge> op_MaximumResponseBytes
          then map_option (\<lambda>e. e @ [CHR 0x0A]) (co_response co too_large)
          else Some (encoded @ [CHR 0x0A]))"

text \<open>
  The lines a session reads, each with the random bytes a new binding would draw and whether writing its answer
  succeeds; the session ends with the lines, at a failed write and after an answer that the key is not approved. The result
  is what was written.
\<close>

fun serveOperatorRequests :: "'r ctl_env \<Rightarrow> codec \<Rightarrow> string \<Rightarrow> (string \<times> string \<times> bool) list \<Rightarrow> ('r world, string list) state" where
  "serveOperatorRequests env co fingerprint [] = ret []"
| "serveOperatorRequests env co fingerprint ((line, random, writes) # rest) = do {
     response \<leftarrow> answerOperator env co random fingerprint line;
     case encodeOperatorResponse co response of
       None \<Rightarrow> ret []
     | Some encoded \<Rightarrow>
         if \<not> writes then ret []
         else if map_option we_Code (ors_Error response) = Some CodeNotApproved then ret [encoded]
         else do { later \<leftarrow> serveOperatorRequests env co fingerprint rest; ret (encoded # later) }
   }"

definition serveOperatorSubsystem ::
  "'r ctl_env \<Rightarrow> codec \<Rightarrow> identity option \<Rightarrow> (string \<times> string \<times> bool) list \<Rightarrow> ('r world, string list option) state" where
  "serveOperatorSubsystem env co identity lines =
     (case identity of
        Some (OperatorIdentity fingerprint) \<Rightarrow> do {
          t \<leftarrow> now_read;
          store_set (RecordOperatorKeyUse fingerprint t);
          written \<leftarrow> serveOperatorRequests env co fingerprint lines;
          ret (Some written)
        }
      | _ \<Rightarrow> ret None)"

end
