(* ===== verification/Controller_Safety.thy ===== *)
theory Controller_Safety
  imports Controller_Invariant Operator_Session
begin

text \<open>
  What the controller as a whole keeps: the sessions with agents and the exported operations, their runs as a
  step relation, and the properties of the states these reach.
\<close>

section \<open>Credentials\<close>

text \<open>
  What holds when the credential \<open>c\<close> for the binding \<open>b\<close> is handed to \<open>agent\<close>: the binding is the agent's and
  applied, its role carries exactly the policies and times of the stored assignment, and OpenBao holds each of
  these policies as the database does.
\<close>

definition credential_exact ::
  "hcl_lib \<Rightarrow> (string \<Rightarrow> string) \<Rightarrow> string \<Rightarrow> string \<Rightarrow> db \<Rightarrow> (string \<Rightarrow> string option) \<Rightarrow> (string \<Rightarrow> ob_role option) \<Rightarrow> bool" where
  "credential_exact hcl compiled agent bid d policies roles \<longleftrightarrow>
     (\<exists>row\<in>set (db_bindings d). brow_id row = bid \<and> brow_agent row = agent \<and> brow_applied row
        \<and> roles (brow_role row) = Some (role_for row)
        \<and> (\<forall>n\<in>set (role_Policies (role_for row)). \<exists>x\<in>set (db_policies d).
              prow_name x \<in> set (binding_names bid d) \<and> n = OpenBaoPolicyName (row_policy x) \<and> policies n = Some (compiled (PublishedHCL hcl (row_policy x)))))"

lemma credential_exactI:
  assumes ok: "stored_ok d" "roles_exact roles d" "published hcl compiled policies d"
    and row: "row \<in> set (db_bindings d)" "brow_id row = bid" "brow_agent row = agent" "brow_applied row" "roles (brow_role row) \<noteq> None"
  shows "credential_exact hcl compiled agent bid d policies roles"
proof -
  have cur: "row_current d row" using ok(1) row(1) by (simp add: stored_ok_def sources_current_def)
  have role: "roles (brow_role row) = Some (role_for row)" using ok(2) row by (auto simp: roles_exact_def)
  have "\<exists>x\<in>set (db_policies d). prow_name x \<in> set (binding_names bid d) \<and> n = OpenBaoPolicyName (row_policy x)
        \<and> policies n = Some (compiled (PublishedHCL hcl (row_policy x)))"
    if n: "n \<in> set (role_Policies (role_for row))" for n
  proof -
    obtain s where s: "s \<in> set (eff_Sources (brow_effective row))" "n = openBaoPolicyName (source_Name s) (source_Generation s)"
      using n by (auto simp: role_for_def granted_def OpenBaoPolicies_def)
    then obtain x where x: "x \<in> set (db_policies d)" "s = policy_source (row_policy x)"
      using cur by (auto simp: row_current_def)
    have "source_Name s = prow_name x"
      using x policy_row_name[of d x] ok(1) by (simp add: policy_source_def stored_ok_def)
    then have "prow_name x \<in> set (binding_names bid d)"
      using source_names[OF cur s(1)] row(2) by simp
    moreover have "n = OpenBaoPolicyName (row_policy x)"
      using s(2) x(2) by (simp add: policy_source_def OpenBaoPolicyName_def sourceGeneration_def openBaoPolicyName_def)
    ultimately show ?thesis using x(1) ok(3) by (auto simp: published_def)
  qed
  then show ?thesis
    unfolding credential_exact_def using row role by blast
qed

lemma ctl_inv_frame:
  assumes "ctl_inv hcl compiled e d policies roles p" "store_step hcl d d'"
    and "db_policies d' = db_policies d" "db_bindings d' = db_bindings d" "db_binding_policies d' = db_binding_policies d"
    and "db_policy_retirements d' = db_policy_retirements d"
  shows "ctl_inv hcl compiled e d' policies roles p"
proof -
  have "stored_ok d" using assms(1) by (simp add: ctl_inv_def)
  moreover from this have "db_ok d'" using store_step_ok[OF assms(2)] by (simp add: stored_ok_def)
  ultimately have "stored_ok d'" using stored_ok_frame[of d d'] assms(3-6) by simp
  then show ?thesis
    using assms(1) roles_exact_cong[OF assms(4)] published_cong[OF assms(3)] by (simp add: ctl_inv_def)
qed

lemma ctl_inv_tables:
  assumes "ctl_inv hcl compiled e d policies roles p"
  shows "ctl_inv hcl compiled e (SaveInventory agent fp cs now d) policies roles p"
    "ctl_inv hcl compiled e (RecordConnection fp v a now d) policies roles p"
    "SaveContractResult res now d = Inr d' \<Longrightarrow> ctl_inv hcl compiled e d' policies roles p"
    "SaveAssignmentAccessor b acc now d = Inr d' \<Longrightarrow> ctl_inv hcl compiled e d' policies roles p"
    "DecideAgent fp st who now d = Inr (ag, d') \<Longrightarrow> ctl_inv hcl compiled e d' policies roles p"
proof -
  show "ctl_inv hcl compiled e (SaveInventory agent fp cs now d) policies roles p"
    by (rule ctl_inv_frame[OF assms store_step.SaveInventory]) (simp_all add: SaveInventory_def)
  show "ctl_inv hcl compiled e (RecordConnection fp v a now d) policies roles p"
    by (rule ctl_inv_frame[OF assms store_step.RecordConnection]) (simp_all add: RecordConnection_def)
  show "ctl_inv hcl compiled e d' policies roles p" if "SaveContractResult res now d = Inr d'"
    by (rule ctl_inv_frame[OF assms store_step.SaveContractResult[OF that]])
      (use that in \<open>auto simp: SaveContractResult_def constraint_as_def split: if_splits\<close>)
  show "ctl_inv hcl compiled e d' policies roles p" if "SaveAssignmentAccessor b acc now d = Inr d'"
    by (rule ctl_inv_frame[OF assms store_step.SaveAssignmentAccessor[OF that]])
      (use that in \<open>auto simp: SaveAssignmentAccessor_def split: if_splits\<close>)
  show "ctl_inv hcl compiled e d' policies roles p" if "DecideAgent fp st who now d = Inr (ag, d')"
    by (rule ctl_inv_frame[OF assms store_step.DecideAgent[OF that]])
      (use that in \<open>auto simp: DecideAgent_def Let_def try_bind_def split: if_splits sum.splits\<close>)
qed

context controller
begin

lemma issue_credential_triple:
  assumes managed: "managed_name (bind_Role b)"
  shows "triple L (\<lambda>d r p. inv e d r p \<and> K d p) (issue_credential env agent b)
     (\<lambda>x d r p. inv e d r p \<and> K d p \<and> (x \<noteq> None \<longrightarrow> roles r (bind_Role b) \<noteq> None)
        \<and> (\<forall>c. x = Some c \<longrightarrow> credential_Binding c = bind_ID b \<and> credential_Assignment c = ce_Assignment env b))"
proof -
  let ?P = "\<lambda>d r p. inv e d r p \<and> K d p"
  let ?some = "\<lambda>x d r p. ?P d r p \<and> (\<not> isl x \<longrightarrow> roles r (bind_Role b) \<noteq> None)"
  have role: "triple L ?P (bao_call (ob_RoleID (ce_bao env) (bind_Role b))) ?some"
  proof (rule triple_post[OF triple_bao_call], elim exE conjE)
    fix x d r p r0 assume "inv e d r0 p" "K d p" and w: "ob_RoleID (ce_bao env) (bind_Role b) r0 = (x, r)"
    then show "?some x d r p" using RoleID[OF w managed] by (cases x) auto
  qed
  have secret: "triple L (?some (Inr i)) (bao_call (ob_WrappedSecretID (ce_bao env) (bind_Role b) ttl md)) (\<lambda>_. ?some (Inr i))" for i :: string and ttl md
    by (rule triple_post[OF triple_bao_call]) (auto dest: WrappedSecretID[OF _ managed])
  have wrapped: "triple L (?some x) (case x of Inl c \<Rightarrow> ret (Inl c) | Inr i \<Rightarrow> do {
         s \<leftarrow> bao_call (ob_WrappedSecretID (ce_bao env) (bind_Role b) ttl md); ret (map_sum id (Pair i) s) }) ?some" for x :: "Category + string" and ttl md
  proof (cases x)
    case (Inr i)
    then show ?thesis
      unfolding Inr sum.case by (intro triple_bind[OF secret[of i] triple_ret]) auto
  qed (simp add: triple_ret)
  show ?thesis
    unfolding issue_credential_def Let_def
    by (rule triple_now, rule triple_bind[OF role triple_bind[OF wrapped triple_now[OF triple_bind[OF recordBinding_triple triple_ret]]]])
      (auto split: sum.splits)
qed

lemma prepareCredential_triple:
  "triple L (inv e) (prepareCredential env agent b)
     (\<lambda>x d r p. inv e d r p \<and> (\<forall>c. e \<and> x = Some c \<longrightarrow> credential_Binding c = bind_ID b \<and> credential_Assignment c = ce_Assignment env b
        \<and> credential_exact (ce_hcl env) compiled agent (bind_ID b) d (policies r) (roles r)))"
    (is "triple L _ _ ?Q")
proof -
  let ?at = "\<lambda>b d. \<exists>row\<in>set (db_bindings d). brow_id row = bind_ID b \<and> brow_agent row = agent \<and> brow_role row = bind_Role b"
  have "\<exists>row'\<in>set (db_bindings (MarkBindingApplied i d)). brow_id row' = brow_id row \<and> brow_agent row' = brow_agent row \<and> brow_role row' = brow_role row"
    if "row \<in> set (db_bindings d)" for i d row
    using that by (intro bexI[of _ "if brow_id row = i then row\<lparr>brow_applied := True\<rparr> else row"]) (auto simp: MarkBindingApplied_def set_where_def)
  then have stable: "mark_stable (\<lambda>d p. ?at b d \<and> \<not> p)" for b
    unfolding mark_stable_def by metis
  have apply_it: "triple L (\<lambda>d r p. inv e d r p \<and> \<not> p \<and> store_Binding (bind_ID b) d = Inr current \<and> bind_Agent current = agent)
      (applyBinding env current) (\<lambda>x d r p. inv e d r p \<and> (x = None \<longrightarrow> applied_in d current \<and> ?at current d \<and> \<not> p))" for current
  proof (rule triple_conseq[OF applyBinding_triple[OF stable[of current]]])
    fix d r p assume "inv e d r p \<and> \<not> p \<and> store_Binding (bind_ID b) d = Inr current \<and> bind_Agent current = agent"
    then show "inv e d r p \<and> stored_as d current \<and> ?at current d \<and> \<not> p"
      by (auto elim!: store_Binding_scan simp: stored_as_scan) (auto simp: scanBinding_def)
  qed auto
  have exact: "credential_exact (ce_hcl env) compiled agent (bind_ID c) d (policies r) (roles r)"
    if a: "inv e d r p" "\<not> p" "applied_in d c" "?at c d" "roles r (bind_Role c) \<noteq> None" and e: e for c d r p
  proof -
    obtain row where row: "row \<in> set (db_bindings d)" "brow_id row = bind_ID c" "brow_agent row = agent" "brow_role row = bind_Role c" using a(4) by blast
    obtain row' where row': "row' \<in> set (db_bindings d)" "brow_id row' = bind_ID c" "brow_applied row'" using a(3) by (auto simp: applied_in_def)
    have "row = row'" using a(1) row row' by (intro binding_row_unique[of d]) (simp_all add: ctl_inv_def stored_ok_def)
    with row' have "brow_applied row" by simp
    then show ?thesis
      using a row e by (intro credential_exactI[of d _ _ _ _ row]) (auto simp: ctl_inv_def)
  qed
  have issue_it: "triple L (\<lambda>d r p. inv e d r p \<and> applied_in d c \<and> ?at c d \<and> \<not> p) (issue_credential env agent c)
      (\<lambda>x d r p. inv e d r p \<and> (\<forall>k. e \<and> x = Some k \<longrightarrow> credential_Binding k = bind_ID c \<and> credential_Assignment k = ce_Assignment env c
        \<and> credential_exact (ce_hcl env) compiled agent (bind_ID c) d (policies r) (roles r)))" for c
  proof (rule triple_fact)
    assume "managed_name (bind_Role c)"
    from issue_credential_triple[OF this, of L e "\<lambda>d p. applied_in d c \<and> ?at c d \<and> \<not> p"]
    show "triple L (\<lambda>d r p. inv e d r p \<and> applied_in d c \<and> ?at c d \<and> \<not> p) (issue_credential env agent c)
      (\<lambda>x d r p. inv e d r p \<and> (\<forall>k. e \<and> x = Some k \<longrightarrow> credential_Binding k = bind_ID c \<and> credential_Assignment k = ce_Assignment env c
        \<and> credential_exact (ce_hcl env) compiled agent (bind_ID c) d (policies r) (roles r)))"
      by (rule triple_conseq) (blast, metis exact option.discI)
  next
    fix d r p assume "inv e d r p \<and> applied_in d c \<and> ?at c d \<and> \<not> p"
    then show "managed_name (bind_Role c)" by (auto simp: ctl_inv_def) (metis role_managed)+
  qed
  have chain: "triple L (\<lambda>d r p. inv e d r p \<and> \<not> p \<and> store_Binding (bind_ID b) d = Inr c)
      (check (applyBinding env c) (\<lambda>_. ret None) (issue_credential env agent c)) ?Q" if "bind_Agent c = agent" "ce_Assignment env c = ce_Assignment env b" for c
  proof (rule triple_fact)
    assume "bind_ID c = bind_ID b"
    then show "triple L (\<lambda>d r p. inv e d r p \<and> \<not> p \<and> store_Binding (bind_ID b) d = Inr c)
        (check (applyBinding env c) (\<lambda>_. ret None) (issue_credential env agent c)) ?Q"
      by (intro triple_check[OF triple_pre[OF apply_it] triple_ret triple_conseq[OF issue_it]]) (use that in auto)
  next
    fix d r p assume "inv e d r p \<and> \<not> p \<and> store_Binding (bind_ID b) d = Inr c"
    then show "bind_ID c = bind_ID b" by (auto elim!: store_Binding_scan simp: scanBinding_def)
  qed
  show ?thesis
    unfolding prepareCredential_def
    by (rule triple_bind[OF triple_get_pending triple_check[OF triple_pre[OF sync_if_pending_triple] triple_ret
          triple_attempt[OF triple_store_read triple_ret triple_if[OF triple_ret triple_pre[OF chain]]]]])
      auto
qed

section \<open>Sessions and exported operations\<close>

text \<open>What these keep: any fact the invariant gives.\<close>

lemma issue_triple: "triple L (inv e) (issue env i agent b) (\<lambda>_. inv e)"
proof -
  have send: "triple L (inv e) (case x of None \<Rightarrow> ret True | Some c \<Rightarrow> do { ok \<leftarrow> session_send i (SentCredential c);
      if ok then do { change_session i (f c); ret True } else ret False }) (\<lambda>_. inv e)" for x :: "Credential option" and f
    by (cases x) (auto intro!: triple_ret triple_bind[OF triple_session_send] triple_bind[OF triple_change_session])
  have prepare: "triple L (inv e) (prepareCredential env agent b) (\<lambda>_. inv e)"
    by (rule triple_post[OF prepareCredential_triple]) simp
  show ?thesis
    unfolding issue_def by (rule triple_bind[OF prepare send])
qed

lemma issue_all_triple: "triple L (inv e) (issue_all env i agent bs) (\<lambda>_. inv e)"
  by (induction bs) (auto intro!: triple_ret triple_bind[OF issue_triple])

lemma push_triple: "triple L (inv e) (push env i) (\<lambda>_. inv e)"
  unfolding push_def Let_def
  by (rule triple_read_rest, rule triple_attempt[OF triple_store_read triple_ret triple_attempt[OF triple_store_read triple_ret
        triple_read_rest[OF triple_bind[OF triple_change_session triple_bind[OF triple_session_send triple_if[OF triple_pre[OF issue_all_triple] triple_ret]]]]]]) auto

lemma pushAgent_triple: "triple L (inv e) (pushAgent env agent) (\<lambda>_. inv e)"
  unfolding pushAgent_def close_def
  by (rule triple_read_rest) (auto split: option.split intro!: triple_ret triple_bind[OF push_triple] triple_change_session)

lemma push_agents_triple: "triple L (inv e) (push_agents env agents) (\<lambda>_. inv e)"
  by (induction agents) (auto intro!: triple_ret triple_bind[OF pushAgent_triple])

lemma hub_send_triple: "triple L (inv e) (hub_send agent m) (\<lambda>_. inv e)"
  unfolding hub_send_def close_def
  by (rule triple_read_rest)
    (auto split: option.split intro!: triple_ret triple_bind[OF triple_session_send] triple_bind[OF triple_change_session])

lemma store_set_tables:
  "triple L (inv e) (store_set (SaveInventory agent fp cs now)) (\<lambda>_. inv e)"
  "triple L (inv e) (store_set (RecordConnection fp v a now)) (\<lambda>_. inv e)"
  "triple L (inv e) (store_exec (SaveContractResult res now)) (\<lambda>_. inv e)"
  "triple L (inv e) (store_exec (SaveAssignmentAccessor b acc now)) (\<lambda>_. inv e)"
  "triple L (inv e) (store_write (DecideAgent fp st who now)) (\<lambda>_. inv e)"
proof -
  show "triple L (inv e) (store_set (SaveInventory agent fp cs now)) (\<lambda>_. inv e)"
    by (rule triple_post[OF triple_store_set]) (auto simp: ctl_inv_tables(1) split: if_splits)
  show "triple L (inv e) (store_set (RecordConnection fp v a now)) (\<lambda>_. inv e)"
    by (rule triple_post[OF triple_store_set]) (auto simp: ctl_inv_tables(2) split: if_splits)
  show "triple L (inv e) (store_exec (SaveContractResult res now)) (\<lambda>_. inv e)"
    by (rule triple_post[OF triple_store_exec]) (auto intro: ctl_inv_tables(3) split: option.splits)
  show "triple L (inv e) (store_exec (SaveAssignmentAccessor b acc now)) (\<lambda>_. inv e)"
    by (rule triple_post[OF triple_store_exec]) (auto intro: ctl_inv_tables(4) split: option.splits)
  show "triple L (inv e) (store_write (DecideAgent fp st who now)) (\<lambda>_. inv e)"
    by (rule triple_post[OF triple_store_write]) (auto intro: ctl_inv_tables(5) split: sum.splits)
qed

lemma store_read_inv: "triple L (inv e) (store_read f) (\<lambda>_. inv e)"
  by (rule triple_post[OF triple_store_read]) simp

lemma revoke_and_acknowledge_triple: "triple L (inv e) (revoke_and_acknowledge env i report) (\<lambda>_. inv e)"
proof -
  have "triple L (inv e) (bao_check (ob_RevokeAccessor (ce_bao env) a)) (\<lambda>_. inv e)" for a
    by (rule triple_post[OF triple_bao_check]) (auto dest: RevokeAccessor)
  then show ?thesis
    unfolding revoke_and_acknowledge_def by (intro triple_check[OF _ triple_ret triple_session_send]) auto
qed

lemma retired_accessor_triple: "triple L (inv e) (retired_accessor env i agent report) (\<lambda>_. inv e)"
  unfolding retired_accessor_def
  by (rule triple_bind[OF store_read_inv]) (auto split: sum.split intro!: triple_ret triple_session_send revoke_and_acknowledge_triple)

lemma recordAccessor_triple: "triple L (inv e) (recordAccessor env i agent report) (\<lambda>_. inv e)"
  unfolding recordAccessor_def
  by (rule triple_bind[OF store_read_inv])
    (auto split: sum.split option.split intro!: triple_ret triple_session_send revoke_and_acknowledge_triple retired_accessor_triple triple_now
      triple_bind[OF store_set_tables(4)] triple_bind[OF store_read_inv])

lemma record_result_triple: "triple L (inv e) (record_result i agent result) (\<lambda>_. inv e)"
  unfolding record_result_def
  by (rule triple_bind[OF store_read_inv])
    (auto split: sum.split intro!: triple_ret triple_session_send triple_now triple_check[OF store_set_tables(3)] triple_bind[OF store_read_inv])

lemma record_status_triple: "triple L (inv e) (record_status i agent status) (\<lambda>_. inv e)"
  unfolding record_status_def
  by (rule triple_bind[OF store_read_inv]) (auto split: sum.split store_failure.split intro!: triple_change_session)

lemma handle_triple: "triple L (inv e) (handle env i fingerprint message) (\<lambda>_. inv e)"
  unfolding handle_def
  by (rule triple_read_rest)
    (auto split: received.split intro!: triple_ret triple_now triple_bind[OF store_set_tables(1)] push_triple record_result_triple recordAccessor_triple
      triple_bind[OF record_status_triple] triple_attempt[OF store_read_inv] triple_read_rest issue_triple)

lemma serve_start_triple: "triple L (inv e) (serve_start agent fingerprint hello) (\<lambda>_. inv e)"
proof -
  have "triple L (inv e) (register agent groups) (\<lambda>_. inv e)" for groups
    by (auto simp: triple_def holds_in_def register_def)
  then show ?thesis
    unfolding serve_start_def close_def
    by (rule_tac triple_now) (auto split: option.split intro!: triple_ret triple_now ctl_record_triple triple_bind[OF store_set_tables(2)] triple_bind
        triple_change_session)
qed

lemma serve_end_triple: "triple L (inv e) (serve_end i code started) (\<lambda>_. inv e)"
proof -
  have "triple L (inv e) (unregister i) (\<lambda>_. inv e)"
    by (auto simp: triple_def holds_in_def unregister_def Let_def)
  then show ?thesis
    unfolding serve_end_def by (intro triple_read_rest triple_bind[OF _ triple_now[OF ctl_record_triple]])
qed

lemma ctl_DecideAgent_triple: "triple L (inv e) (ctl_DecideAgent fingerprint approve operator) (\<lambda>_. inv e)"
  unfolding ctl_DecideAgent_def
  by (intro triple_now triple_attempt[OF store_set_tables(5) triple_ret triple_bind[OF ctl_record_triple triple_ret]]) auto

lemma ctl_SavePolicy_triple:
  assumes "e \<Longrightarrow> \<not> L"
  shows "triple L (inv e) (ctl_SavePolicy env document operator) (\<lambda>_. inv e)"
  unfolding ctl_SavePolicy_def
  by (intro triple_now triple_bind[OF savePolicy_triple[OF assms]] triple_bind[OF ctl_record_triple] triple_bind[OF push_agents_triple] triple_ret)

lemma ctl_DeletePolicy_triple: "triple L (inv e) (ctl_DeletePolicy env name operator) (\<lambda>_. inv e)"
  unfolding ctl_DeletePolicy_def by (intro triple_now triple_bind[OF deletePolicy_triple] triple_bind[OF ctl_record_triple] triple_ret)

lemma ctl_RenamePolicy_triple: "triple L (inv e) (ctl_RenamePolicy env request operator) (\<lambda>_. inv e)"
  unfolding ctl_RenamePolicy_def
  by (intro triple_now triple_bind[OF renamePolicy_triple] triple_if triple_bind[OF ctl_record_triple] triple_bind[OF push_agents_triple] triple_ret)

lemma ctl_CreateBinding_triple:
  "length random = 8 \<Longrightarrow> triple L (inv e) (ctl_CreateBinding env random agent key request operator) (\<lambda>_. inv e)"
  unfolding ctl_CreateBinding_def finishCreateBinding_def
  by (rule triple_now, rule triple_bind[OF createBinding_triple triple_bind[OF triple_now[OF triple_bind[OF recordBinding_triple
            triple_if[OF pushAgent_triple triple_ret]]] triple_ret]]) auto

lemma ctl_ChangeBinding_triple: "triple L (inv e) (ctl_ChangeBinding env bid request operator) (\<lambda>_. inv e)"
proof -
  have "triple L (inv e) (case x of None \<Rightarrow> ret () | Some b \<Rightarrow> pushAgent env (bind_Agent b)) (\<lambda>_. inv e)" for x :: "Binding option"
    by (cases x) (simp_all add: triple_ret pushAgent_triple)
  then show ?thesis
    unfolding ctl_ChangeBinding_def by (intro triple_now triple_bind[OF changeBinding_triple] triple_bind[OF recordBinding_triple] triple_bind triple_ret)
qed

lemma ctl_DeleteBinding_triple: "triple L (inv e) (ctl_DeleteBinding env bid operator) (\<lambda>_. inv e)"
  unfolding ctl_DeleteBinding_def
  by (rule triple_bind[OF store_read_inv])
    (auto split: sum.split intro!: deleteBinding_triple triple_bind[OF hub_send_triple] triple_bind[OF deleteBinding_triple] triple_bind[OF pushAgent_triple] triple_ret)

lemma RequestRecreate_triple: "triple L (inv e) (RequestRecreate env bid operator) (\<lambda>_. inv e)"
  unfolding RequestRecreate_def Let_def
  by (intro triple_attempt[OF store_read_inv triple_ret triple_bind[OF hub_send_triple triple_bind[OF recordBinding_triple triple_ret]]]) auto

lemma retirePolicies_triple: "triple L (inv e) (retirePolicies env) (\<lambda>_. inv e)"
  unfolding retirePolicies_def
  by (intro triple_bind[OF settlePolicyRetirements_triple] triple_bind[OF push_agents_triple] triple_ret)

subsection \<open>Requests of operators\<close>

lemma reading_inv:
  "triple L (inv e) (operatorPolicies env key) (\<lambda>_. inv e)" "triple L (inv e) (operatorPolicy env key name) (\<lambda>_. inv e)"
  "triple L (inv e) (readOperatorBinding env co b) (\<lambda>_. inv e)" "triple L (inv e) (operatorBinding env co key bid) (\<lambda>_. inv e)"
  "triple L (inv e) (findBinding agent k) (\<lambda>x d r p. inv e d r p \<and> (\<forall>b. x = Inr (Some b) \<longrightarrow> stored_as d b))"
proof -
  show read: "triple L (inv e) (readOperatorBinding env co b) (\<lambda>_. inv e)" for b
    unfolding readOperatorBinding_def by (intro triple_read_rest triple_attempt[OF store_read_inv] triple_ret)
  show "triple L (inv e) (operatorPolicies env key) (\<lambda>_. inv e)"
    unfolding operatorPolicies_def by (intro triple_if triple_ret triple_attempt[OF store_read_inv])
  show "triple L (inv e) (operatorPolicy env key name) (\<lambda>_. inv e)"
    unfolding operatorPolicy_def by (intro triple_if triple_ret triple_attempt[OF store_read_inv])
  show "triple L (inv e) (operatorBinding env co key bid) (\<lambda>_. inv e)"
    unfolding operatorBinding_def by (intro triple_if triple_ret triple_attempt[OF store_read_inv] read)
  show "triple L (inv e) (findBinding agent k) (\<lambda>x d r p. inv e d r p \<and> (\<forall>b. x = Inr (Some b) \<longrightarrow> stored_as d b))"
    unfolding findBinding_def
  proof (rule triple_attempt[OF triple_store_read triple_ret triple_ret], goal_cases)
    case (2 bindings d r p)
    have "stored_as d b" if "b \<in> set (Bindings agent d)" for b
      using that by (auto simp: Bindings_def stored_as_scan)
    moreover have "find f xs = Some b \<Longrightarrow> b \<in> set xs" for f xs and b :: Binding
      by (auto simp: find_Some_iff)
    ultimately show ?case using 2 by simp
  qed simp
qed

lemma operatorBindings_triple: "triple L (inv e) (operatorBindings env co key agent) (\<lambda>_. inv e)"
proof -
  have "triple L (inv e) (list_bindings env co grant statuses bs) (\<lambda>_. inv e)" for grant statuses bs
  proof (induction bs arbitrary: statuses)
    case (Cons b bs)
    have "triple L (inv e) (case map_of statuses (bind_Agent b) of Some l \<Rightarrow> ret (Inr l) | None \<Rightarrow> operator_statuses env (bind_Agent b)) (\<lambda>_. inv e)"
      by (cases "map_of statuses (bind_Agent b)") (auto simp: operator_statuses_def intro!: triple_ret triple_read_rest store_read_inv)
    then show ?case
      using Cons.IH by (auto split: sum.split intro!: triple_ret triple_attempt)
  qed (auto intro!: triple_ret)
  then show ?thesis
    unfolding operatorBindings_def by (intro triple_if triple_ret triple_attempt[OF store_read_inv] triple_attempt[where R = "\<lambda>_. inv e"])
qed

lemma operatorPutPolicy_triple:
  assumes "e \<Longrightarrow> \<not> L"
  shows "triple L (inv e) (operatorPutPolicy env key put) (\<lambda>_. inv e)"
proof -
  have save: "triple L (inv e) (save_put env document subject) (\<lambda>_. inv e)" for document subject
    unfolding save_put_def by (rule triple_bind[OF savePolicy_triple[OF assms]]) (auto split: prod.split intro!: triple_ret)
  have "triple L (inv e) (authorizedPutPolicy env key put subject) (\<lambda>_. inv e)" for subject
    unfolding authorizedPutPolicy_def by (intro triple_if triple_ret triple_attempt[OF store_read_inv] save)
  then show ?thesis
    unfolding operatorPutPolicy_def
    by (intro triple_now triple_bind[where R = "\<lambda>_. inv e"])
      (auto split: prod.split intro!: triple_now triple_bind[OF ctl_record_triple] triple_bind[OF push_agents_triple] triple_ret)
qed

lemma operatorBind_triple:
  assumes "length random = 8"
  shows "triple L (inv e) (operatorBind env co random key request) (\<lambda>_. inv e)"
proof -
  have denied: "triple L (inv e) (recordDenied operation agent subject) (\<lambda>_. inv e)" for operation agent subject
    unfolding recordDenied_def by (rule ctl_record_triple)
  have apply_it: "triple L (\<lambda>d r p. (inv e d r p \<and> stored_as d b) \<and> Q d r p) (applyBinding env b) (\<lambda>_. inv e)" for b Q
    by (rule triple_conseq[OF applyBinding_triple[OF mark_stable_True]]) auto
  have again: "triple L (\<lambda>d r p. inv e d r p \<and> stored_as d b) (repeatBind env key b selection) (\<lambda>_. inv e)" for b selection
    unfolding repeatBind_def
    by (rule triple_if[OF triple_ret triple_attempt[OF compose_triple triple_ret triple_if[OF triple_ret triple_check[OF apply_it triple_ret triple_ret]]]]) auto
  have result: "triple L (inv e) (case x of
        (Some _, Some e) \<Rightarrow> ret (Inl (OpPending (OpCtl e)))
      | (None, Some e) \<Rightarrow> ret (Inl (OpCtl e))
      | (Some created, None) \<Rightarrow> readOperatorBinding env co created
      | (None, None) \<Rightarrow> ret (Inl (OpSession ErrorInternal SessionStatusUnreadable))) (\<lambda>_. inv e)" for x
    by (auto split: prod.split option.split intro!: triple_ret reading_inv(3))
  have finish: "triple L (inv e) (finishCreateBinding env agent x subject started) (\<lambda>_. inv e)" for agent x subject started
    unfolding finishCreateBinding_def by (intro triple_now triple_bind[OF recordBinding_triple] triple_if pushAgent_triple triple_ret)
  have found: "triple L (\<lambda>d r p. inv e d r p \<and> (\<forall>b. x = Inr (Some b) \<longrightarrow> stored_as d b)) (case x of
        Inl err \<Rightarrow> ret (Inl err)
      | Inr (Some existing) \<Rightarrow> do {
          x \<leftarrow> repeatBind env key existing selection;
          case x of
            Inl err \<Rightarrow> do { (if err = outsideGrant then recordDenied ''binding-created'' agent subject else ret ()); ret (Inl err) }
          | Inr applied \<Rightarrow> do { (if \<not> bind_Applied existing then pushAgent env agent else ret ()); readOperatorBinding env co applied } }
      | Inr None \<Rightarrow> do {
          result \<leftarrow> createBinding env random agent k selection subject;
          finishCreateBinding env agent result subject started;
          case result of
            (Some _, Some e) \<Rightarrow> ret (Inl (OpPending (OpCtl e)))
          | (None, Some e) \<Rightarrow> ret (Inl (OpCtl e))
          | (Some created, None) \<Rightarrow> readOperatorBinding env co created
          | (None, None) \<Rightarrow> ret (Inl (OpSession ErrorInternal SessionStatusUnreadable)) }) (\<lambda>_. inv e)" for x agent k selection subject started
  proof (cases x)
    case (Inr q)
    show ?thesis
    proof (cases q)
      case None
      show ?thesis
        unfolding Inr None sum.case option.case
        by (rule triple_pre[OF triple_bind[OF createBinding_triple[OF assms] triple_bind[OF finish result]]]) simp
    next
      case (Some b)
      show ?thesis
        unfolding Inr Some sum.case option.case
        by (rule triple_pre[OF triple_bind[OF again]])
          (auto split: sum.split intro!: triple_bind[OF denied] triple_bind[OF triple_ret] triple_bind[OF pushAgent_triple] triple_ret reading_inv(3))
    qed
  qed (auto intro!: triple_ret)
  show ?thesis
    unfolding operatorBind_def Let_def
    by (intro triple_if triple_bind[OF denied] triple_ret triple_now triple_bind[OF reading_inv(5) found])
qed

lemma operatorUnbind_triple: "triple L (inv e) (operatorUnbind env key request) (\<lambda>_. inv e)"
proof -
  have find: "triple L (inv e) (findBinding agent k) (\<lambda>_. inv e)" for agent k
    by (rule triple_post[OF reading_inv(5)]) simp
  have resolve: "triple L (inv e) (resolveUnbind request) (\<lambda>_. inv e)"
    unfolding resolveUnbind_def
    by (intro triple_if triple_attempt[OF store_read_inv] triple_ret) (auto split: option.split intro!: triple_ret find)
  have told: "triple L (inv e) (if stays then do { hub_send agent m; ret () } else ret ()) (\<lambda>_. inv e)" for stays agent m
    by (intro triple_if triple_bind[OF hub_send_triple] triple_ret)
  have "triple L (inv e) (do {
      connected \<leftarrow> read_rest f;
      err \<leftarrow> deleteBinding env bid subject connected;
      (if \<not> bindingStays err then do { hub_send agent m; ret () } else ret ());
      pushAgent env agent;
      ret (unbind_answer err) }) (\<lambda>_. inv e)" for f bid subject agent m
    by (intro triple_read_rest triple_bind[OF deleteBinding_triple triple_bind[OF told triple_bind[OF pushAgent_triple triple_ret]]])
  then show ?thesis
    unfolding operatorUnbind_def Let_def recordDenied_def
    by (intro triple_if triple_ret triple_bind[OF ctl_record_triple] triple_bind[OF resolve])
      (auto split: sum.split option.split intro!: triple_ret triple_bind[OF ctl_record_triple])
qed

lemma answerOperator_triple:
  assumes "length random = 8" "e \<Longrightarrow> \<not> L"
  shows "triple L (inv e) (answerOperator env co random fingerprint line) (\<lambda>_. inv e)"
proof -
  have dec: "triple L (inv e) (decoded x k) (\<lambda>_. inv e)" if "\<And>a. triple L (inv e) (k a) (\<lambda>_. inv e)" for x :: "'x option" and k
    using that by (cases x) (auto simp: decoded_def intro!: triple_ret)
  have "triple L (inv e) (run_operation env co random key request) (\<lambda>_. inv e)" for key request
    unfolding run_operation_def Let_def
    by (intro triple_if triple_ret dec reading_inv operatorBindings_triple operatorPutPolicy_triple operatorBind_triple operatorUnbind_triple assms)
  then have "triple L (inv e) (dispatchOperator env co random fingerprint line) (\<lambda>_. inv e)"
    unfolding dispatchOperator_def by (auto split: sum.split intro!: triple_bind[OF store_read_inv] triple_ret dec)
  then show ?thesis
    unfolding answerOperator_def by (intro triple_bind[where R = "\<lambda>_. inv e"] triple_ret)
qed

end

section \<open>Runs of the controller\<close>

text \<open>
  One operation of the controller. The random part of a new binding's identifier is eight bytes. A restart forgets the
  sessions and the flag and reconciles; an operator, an agent or the retirement consumer starts the others.
\<close>

inductive ctl_op :: "'r ctl_env \<Rightarrow> bool \<Rightarrow> ('r world, unit) state \<Rightarrow> bool" for env L where
  DecideAgent: "ctl_op env L (State_Monad.bind (ctl_DecideAgent fingerprint approve operator) (\<lambda>_. ret ()))"
| SavePolicy: "\<not> L \<Longrightarrow> ctl_op env L (State_Monad.bind (ctl_SavePolicy env document operator) (\<lambda>_. ret ()))"
| DeletePolicy: "ctl_op env L (State_Monad.bind (ctl_DeletePolicy env name operator) (\<lambda>_. ret ()))"
| RenamePolicy: "ctl_op env L (State_Monad.bind (ctl_RenamePolicy env rename operator) (\<lambda>_. ret ()))"
| CreateBinding: "length random = 8 \<Longrightarrow>
    ctl_op env L (State_Monad.bind (ctl_CreateBinding env random agent key request operator) (\<lambda>_. ret ()))"
| ChangeBinding: "ctl_op env L (State_Monad.bind (ctl_ChangeBinding env bid request operator) (\<lambda>_. ret ()))"
| DeleteBinding: "ctl_op env L (State_Monad.bind (ctl_DeleteBinding env bid operator) (\<lambda>_. ret ()))"
| RequestRecreate: "ctl_op env L (State_Monad.bind (RequestRecreate env bid operator) (\<lambda>_. ret ()))"
| OperatorRequest: "\<not> L \<Longrightarrow> length random = 8 \<Longrightarrow>
    ctl_op env L (State_Monad.bind (answerOperator env co random fingerprint line) (\<lambda>_. ret ()))"
| RetirePolicies: "ctl_op env L (State_Monad.bind (retirePolicies env) (\<lambda>_. ret ()))"
| Open: "ctl_op env L (serve_start agent fingerprint hello)"
| Handle: "ctl_op env L (State_Monad.bind (handle env i fingerprint message) (\<lambda>_. ret ()))"
| Close: "ctl_op env L (serve_end i code started)"

definition restarted :: "'r world \<Rightarrow> 'r world" where
  "restarted w = w\<lparr>w_pending := False, w_sessions := [], w_hub := []\<rparr>"

text \<open>
  Each operation may meet any faults, any outcome of the writes to connections and any clock. Between operations the
  statements on other tables run: keys that ask for approval, operator keys and web sessions.
\<close>

inductive ctl_step :: "'r ctl_env \<Rightarrow> 'r world \<Rightarrow> 'r world \<Rightarrow> bool" for env where
  Operation: "ctl_op env L m \<Longrightarrow> L \<or> Lost \<notin> set faults \<Longrightarrow>
    ctl_step env w (snd (run_state m (w\<lparr>w_faults := faults, w_sends := sends, w_clock := clock\<rparr>)))"
| Restart: "ctl_step env w (snd (run_state (reconcileBindings env) ((restarted w)\<lparr>w_faults := faults, w_clock := clock\<rparr>)))"
| Elsewhere: "store_step (ce_hcl env) (w_db w) d \<Longrightarrow> db_policies d = db_policies (w_db w) \<Longrightarrow> db_bindings d = db_bindings (w_db w) \<Longrightarrow>
    db_binding_policies d = db_binding_policies (w_db w) \<Longrightarrow> db_policy_retirements d = db_policy_retirements (w_db w) \<Longrightarrow> ctl_step env w (w\<lparr>w_db := d\<rparr>)"

definition ctl_reachable :: "'r ctl_env \<Rightarrow> 'r world \<Rightarrow> bool" where
  "ctl_reachable env w \<longleftrightarrow> (\<exists>w0. w_db w0 = empty_db \<and> (ctl_step env)\<^sup>*\<^sup>* w0 w)"

context controller
begin

definition world_ok :: "'r world \<Rightarrow> bool" where
  "world_ok w \<longleftrightarrow> inv True (w_db w) (w_bao w) (w_pending w)"

lemma ctl_op_triple: "ctl_op env L m \<Longrightarrow> triple L (inv True) m (\<lambda>_. inv True)"
proof (induction rule: ctl_op.induct)
  case (Open agent fingerprint hello)
  show ?case by (rule serve_start_triple)
next
  case (Close i code started)
  show ?case by (rule serve_end_triple)
qed (auto intro!: triple_bind[OF _ triple_ret] ctl_DecideAgent_triple ctl_SavePolicy_triple ctl_DeletePolicy_triple ctl_RenamePolicy_triple
    ctl_CreateBinding_triple ctl_ChangeBinding_triple ctl_DeleteBinding_triple RequestRecreate_triple answerOperator_triple retirePolicies_triple handle_triple)

lemma ctl_step_ok: "ctl_step env w w' \<Longrightarrow> world_ok w \<Longrightarrow> world_ok w'"
proof (induction rule: ctl_step.induct)
  case (Operation L m faults w clock sends)
  let ?w = "w\<lparr>w_faults := faults, w_sends := sends, w_clock := clock\<rparr>"
  have "holds_in L (inv True) ?w" using Operation by (simp add: holds_in_def world_ok_def)
  from tripleD[OF ctl_op_triple[OF Operation(1)] this]
  show ?case by (cases "run_state m ?w") (auto simp: holds_in_def world_ok_def)
next
  case (Restart w clock faults)
  let ?w = "(restarted w)\<lparr>w_faults := faults, w_clock := clock\<rparr>"
  have "holds_in True (inv False) ?w" using Restart by (simp add: holds_in_def world_ok_def restarted_def ctl_inv_def)
  from tripleD[OF reconcileBindings_triple this]
  show ?case by (cases "run_state (reconcileBindings env) ?w") (auto simp: holds_in_def world_ok_def)
next
  case (Elsewhere w d)
  then show ?case by (auto simp: world_ok_def intro: ctl_inv_frame)
qed

lemma empty_world_ok: "w_db w = empty_db \<Longrightarrow> world_ok w"
  using empty_db_ok by (simp add: world_ok_def ctl_inv_def stored_ok_def names_ok_def sources_current_def roles_exact_def published_def empty_db_def)

lemma reachable_ok: "ctl_reachable env w \<Longrightarrow> world_ok w"
proof -
  assume "ctl_reachable env w"
  then obtain w0 where "w_db w0 = empty_db" "(ctl_step env)\<^sup>*\<^sup>* w0 w" by (auto simp: ctl_reachable_def)
  from this(2) show "world_ok w"
    by (induction rule: rtranclp_induct) (auto intro: ctl_step_ok empty_world_ok \<open>w_db w0 = empty_db\<close>)
qed

end

section \<open>A scripted OpenBao\<close>

text \<open>An OpenBao whose calls are answered, refused or answered too late as a script says.\<close>

record scripted =
  sc_policies :: "string \<Rightarrow> string option"
  sc_roles :: "string \<Rightarrow> ob_role option"
  sc_revoked :: "string set"
  sc_fates :: "fault list"

definition scripted_call :: "(scripted \<Rightarrow> scripted) \<Rightarrow> scripted \<Rightarrow> Category option \<times> scripted" where
  "scripted_call f r =
     (let r' = r\<lparr>sc_fates := tl (sc_fates r)\<rparr>
      in case next_fault (sc_fates r) of
           Healthy \<Rightarrow> (None, f r') | Broken \<Rightarrow> (Some CategoryUnavailable, r') | Lost \<Rightarrow> (Some CategoryTimeout, f r'))"

definition scripted_query :: "(scripted \<Rightarrow> Category + 'a) \<Rightarrow> scripted \<Rightarrow> (Category + 'a) \<times> scripted" where
  "scripted_query f r =
     (if next_fault (sc_fates r) = Healthy then f r else Inl CategoryUnavailable, r\<lparr>sc_fates := tl (sc_fates r)\<rparr>)"

definition scripted_bao :: "scripted bao" where
  "scripted_bao =
     \<lparr>ob_WritePolicy = (\<lambda>n h. scripted_call (\<lambda>r. r\<lparr>sc_policies := (sc_policies r)(n \<mapsto> h)\<rparr>)),
      ob_DeletePolicy = (\<lambda>n. scripted_call (\<lambda>r. r\<lparr>sc_policies := (sc_policies r)(n := None)\<rparr>)),
      ob_PolicyExists = (\<lambda>n. scripted_query (\<lambda>r. Inr (sc_policies r n \<noteq> None))),
      ob_WriteRole = (\<lambda>n ps ttl maxttl. scripted_call
        (\<lambda>r. r\<lparr>sc_roles := (sc_roles r)(n \<mapsto> granted ps ttl maxttl)\<rparr>)),
      ob_DeleteRole = (\<lambda>n. scripted_call (\<lambda>r. r\<lparr>sc_roles := (sc_roles r)(n := None)\<rparr>)),
      ob_RevokeAccessor = (\<lambda>a. scripted_call (\<lambda>r. r\<lparr>sc_revoked := insert a (sc_revoked r)\<rparr>)),
      ob_RoleID = (\<lambda>n. scripted_query (\<lambda>r. case sc_roles r n of None \<Rightarrow> Inl CategoryNotFound | Some _ \<Rightarrow> Inr ''role-id'')),
      ob_WrappedSecretID = (\<lambda>n ttl md. scripted_query (\<lambda>r. Inr ''wrapped'')),
      ob_TransitKeyExists = (\<lambda>n. scripted_query (\<lambda>r. Inr True)),
      ob_SSHRoleExists = (\<lambda>n. scripted_query (\<lambda>r. Inr True))\<rparr>"

interpretation scripted: openbao_service scripted_bao sc_policies id sc_roles sc_revoked
  by unfold_locales
    (auto simp: scripted_bao_def scripted_call_def scripted_query_def Let_def split: fault.splits if_splits option.splits)

definition scripted_env :: "scripted ctl_env" where
  "scripted_env =
     \<lparr>ce_bao = scripted_bao, ce_hcl = no_stanza_hcl, ce_Assignment = (\<lambda>b. bind_ID b), ce_Identity = (\<lambda>e. concat (Names e)),
      ce_Encode = (\<lambda>_ _. True), ce_DeepEqual = (\<lambda>p q. p = q), ce_sha256 = id,
      ce_agentOB = \<lparr>bao_Address = [], bao_CAPEM = [], bao_Namespace = [], bao_TransitMount = [], bao_SSHMount = []\<rparr>, ce_AppRole = ''approle''\<rparr>"

interpretation scripted_run: controller scripted_env sc_policies id sc_roles sc_revoked
  by (simp add: controller_def scripted_env_def scripted.openbao_service_axioms)

definition scripted_world :: "scripted world" where
  "scripted_world =
     \<lparr>w_db = empty_db, w_bao = \<lparr>sc_policies = (\<lambda>_. None), sc_roles = (\<lambda>_. None), sc_revoked = {}, sc_fates = []\<rparr>, w_pending = False,
      w_faults = [], w_clock = (\<lambda>n. int n), w_log = [], w_sessions = [], w_hub = [], w_sends = []\<rparr>"

text \<open>An agent is approved, a policy saved and a binding created.\<close>

definition at_start :: "scripted world \<Rightarrow> fault list \<Rightarrow> scripted world" where
  "at_start w faults = w\<lparr>w_faults := faults, w_sends := [], w_clock := (\<lambda>n. int n)\<rparr>"

definition run_known :: "scripted world" where
  "run_known = scripted_world\<lparr>w_db := snd (projr (RecordKey ''fp'' ''host'' ''pk'' 1 empty_db))\<rparr>"

definition run_approved :: "scripted world" where
  "run_approved = snd (run_state (ctl_DecideAgent ''fp'' True ''op'') (at_start run_known []))"

definition run_saved :: "scripted world" where
  "run_saved = snd (run_state (ctl_SavePolicy scripted_env (New ''web'' []) ''op'') (at_start run_approved []))"

definition run_bound :: "scripted world" where
  "run_bound = snd (run_state (ctl_CreateBinding scripted_env ''abcdefgh'' ''host'' \<lparr>key_Kind = KeyName, key_Value = ''app''\<rparr>
      \<lparr>sel_Policies = [''web''], sel_Settings = DefaultSettings, sel_Revision = 0\<rparr> ''op'') (at_start run_saved []))"

lemma snd_forget: "snd (run_state (State_Monad.bind m (\<lambda>_. ret ())) w) = snd (run_state m w)"
  by (simp add: split_beta)

lemma at_start_step:
  "ctl_op scripted_env False (State_Monad.bind m (\<lambda>_. ret ())) \<Longrightarrow> Lost \<notin> set faults \<Longrightarrow> ctl_reachable scripted_env w \<Longrightarrow>
     ctl_reachable scripted_env (snd (run_state m (at_start w faults)))"
  using ctl_step.Operation[of scripted_env False "State_Monad.bind m (\<lambda>_. ret ())" faults w "\<lambda>n. int n" "[]"]
  unfolding ctl_reachable_def at_start_def snd_forget by (auto intro: rtranclp.rtrancl_into_rtrancl)

lemma run_reachable: "ctl_reachable scripted_env run_saved" "ctl_reachable scripted_env run_bound"
proof -
  let ?d = "snd (projr (RecordKey ''fp'' ''host'' ''pk'' 1 empty_db))"
  have step: "store_step (ce_hcl scripted_env) (w_db scripted_world) ?d"
    unfolding scripted_world_def scripted_env_def by simp (rule steps_of_results, code_simp)
  have empty: "db_policies ?d = []" "db_bindings ?d = []" "db_binding_policies ?d = []" "db_policy_retirements ?d = []"
    by code_simp+
  have "ctl_step scripted_env scripted_world run_known"
    unfolding run_known_def by (rule ctl_step.Elsewhere[OF step]) (simp_all add: empty, simp_all add: scripted_world_def empty_db_def)
  then have "ctl_reachable scripted_env run_known"
    unfolding ctl_reachable_def by (intro exI[of _ scripted_world]) (auto simp: scripted_world_def)
  then have "ctl_reachable scripted_env run_approved"
    unfolding run_approved_def by (intro at_start_step[OF ctl_op.DecideAgent]) simp_all
  then show saved: "ctl_reachable scripted_env run_saved"
    unfolding run_saved_def by (intro at_start_step[OF ctl_op.SavePolicy]) simp_all
  show "ctl_reachable scripted_env run_bound"
    unfolding run_bound_def by (intro at_start_step[OF ctl_op.CreateBinding _ saved]) simp_all
qed

section \<open>Properties\<close>





section \<open>Where an answer is lost\<close>

text \<open>
  When the statement that saves a policy commits but its answer is lost, \<open>savePolicy\<close> restores the old text in OpenBao
  and reports that nothing changed: the database holds the new document, OpenBao the old one, and the flag that
  would block issuance is clear.
\<close>

definition lost_save :: "scripted world" where
  "lost_save = snd (run_state (savePolicy scripted_env (New ''web'' ''path \"secret/*\" { capabilities = [\"read\"] }'') ''op'')
     (at_start run_saved [Healthy, Healthy, Lost]))"

lemma lost_save_unpublished:
  "\<not> w_pending lost_save \<and> \<not> published no_stanza_hcl id (sc_policies (w_bao lost_save)) (w_db lost_save)"
  unfolding published_def by code_simp

end
