(* ===== verification/Controller_Effects.thy ===== *)
theory Controller_Effects
  imports Controller_Safety
begin

text \<open>
  What single operations of the controller achieve when they report success: removing a binding, retiring policy
  identities and acknowledging a token.
\<close>

lemma openBaoError_nonempty: "openBaoError err \<noteq> []" "openBaoError err \<noteq> ErrorInternal" "openBaoError err \<noteq> ''internal''"
  by (simp_all add: openBaoError_def ErrorPolicyDenied_def ErrorInternal_def split: Category.split)

lemma delete_report_cases:
  assumes "delete_report failed roleCode tokenCode = (code, err)" "tokenCode \<noteq> ErrorInternal" "roleCode \<noteq> ErrorInternal"
  shows "err = None \<Longrightarrow> \<not> failed \<and> roleCode = [] \<and> tokenCode = []"
    "err = Some (OpErr e) \<Longrightarrow> oe_Code e \<noteq> ErrorInternal \<Longrightarrow> \<not> failed \<and> (oe_TokenLive e \<longleftrightarrow> tokenCode \<noteq> [])"
proof -
  have neq: "ErrorInternal \<noteq> []" "ErrorNone = []" "ErrorControllerUnavailable \<noteq> []"
    by (simp_all add: ErrorInternal_def ErrorNone_def ErrorControllerUnavailable_def)
  show "\<not> failed \<and> roleCode = [] \<and> tokenCode = []" if "err = None"
    using that assms neq by (cases failed; cases "tokenCode = []"; cases "roleCode = []") (auto simp: delete_report_def Let_def split: if_splits)
  show "\<not> failed \<and> (oe_TokenLive e \<longleftrightarrow> tokenCode \<noteq> [])" if "err = Some (OpErr e)" "oe_Code e \<noteq> ErrorInternal"
    using that assms neq
    by (cases failed; cases "tokenCode = []"; cases "roleCode = []") (auto simp: delete_report_def Let_def operationError_def split: if_splits)
qed

text \<open>The recorded token of a removed binding is revoked; without one, its agent was told to unbind.\<close>

definition token_gone :: "bool \<Rightarrow> string set \<Rightarrow> string \<Rightarrow> bool" where
  "token_gone connected gone a \<longleftrightarrow> (if a = [] then connected else a \<in> gone)"

lemma triple_conj:
  "triple L P m Q \<Longrightarrow> triple L P' m Q' \<Longrightarrow> triple L (\<lambda>d r p. P d r p \<and> P' d r p) m (\<lambda>x d r p. Q x d r p \<and> Q' x d r p)"
  unfolding triple_def holds_in_def by blast

context controller
begin

lemma deleteBinding_effect:
  assumes ok: "stored_ok d0"
  shows "triple L (\<lambda>d r p. d = d0) (deleteBinding env bid operator connected)
     (\<lambda>x d r p. (x = None \<longrightarrow> (\<exists>b t a. store_Binding bid d0 = Inr b \<and> RetireBinding bid t d0 = Inr (a, d) \<and> roles r (bind_Role b) = None
          \<and> token_gone connected (revoked r) a))
        \<and> (\<forall>e. x = Some (OpErr e) \<and> oe_Code e \<notin> {ErrorInternal, ErrorNotBound} \<longrightarrow>
            (\<exists>t a. RetireBinding bid t d0 = Inr (a, d) \<and> (oe_TokenLive e \<or> token_gone connected (revoked r) a))))"
    (is "triple L _ _ ?Q")
proof -
  let ?role = "\<lambda>b c r. c = None \<longrightarrow> roles r (bind_Role b) = None"
  let ?R2 = "\<lambda>b c retired d r p. ?role b c r \<and> (\<forall>a. retired = Inr a \<longrightarrow> (\<exists>t. RetireBinding bid t d0 = Inr (a, d)))"
  let ?R3 = "\<lambda>b c retired code d r p. ?R2 b c retired d r p \<and> code \<noteq> ErrorInternal
      \<and> (\<forall>a. retired = Inr a \<and> code = [] \<longrightarrow> token_gone connected (revoked r) a)"
  have "managed_name (bind_Role b)" if "store_Binding bid d0 = Inr b" for b
    using store_Binding_scan[OF that] role_managed[OF ok] by (metis scanBinding_def Binding.select_convs(9))
  then have role: "triple L (\<lambda>d r p. d = d0) (bao_call (ob_DeleteRole (ce_bao env) (bind_Role b))) (\<lambda>c d r p. d = d0 \<and> ?role b c r)"
    if "store_Binding bid d0 = Inr b" for b
    using that by (intro triple_post[OF triple_bao_call]) (auto dest!: DeleteRole)
  have retire: "triple L (\<lambda>d r p. d = d0 \<and> ?role b c r) (store_write (RetireBinding bid t)) (\<lambda>x. ?R2 b c x)" for b c t
    by (rule triple_post[OF triple_store_write]) (auto split: sum.splits)
  have revoke: "triple L (?R2 b c (Inr a)) (bao_call (ob_RevokeAccessor (ce_bao env) a))
      (\<lambda>x d r p. ?R2 b c (Inr a) d r p \<and> (x = None \<longrightarrow> a \<in> revoked r))" for b c and a
    by (rule triple_post[OF triple_bao_call]) (auto dest!: RevokeAccessor)
  have token: "triple L (?R2 b c x) (case x of Inl _ \<Rightarrow> ret []
      | Inr a \<Rightarrow> if a \<noteq> [] then do { e \<leftarrow> bao_call (ob_RevokeAccessor (ce_bao env) a); ret (case e of None \<Rightarrow> [] | Some k \<Rightarrow> openBaoError (BaoFail k)) }
          else ret (if connected then [] else ErrorControllerUnavailable)) (\<lambda>code. ?R3 b c x code)" for b c and x :: "store_failure + string"
  proof (cases x)
    case (Inl e)
    then show ?thesis by (simp add: triple_ret ErrorInternal_def)
  next
    case (Inr a)
    show ?thesis
      unfolding Inr sum.case
      by (rule triple_if[OF triple_bind[OF revoke triple_ret] triple_ret])
        (auto simp: token_gone_def openBaoError_nonempty ErrorInternal_def ErrorControllerUnavailable_def split: option.splits)
  qed
  have report: "triple L (?R3 b c x code) (do { let (k, err) = delete_report (isl x) (case c of None \<Rightarrow> [] | Some k \<Rightarrow> openBaoError (BaoFail k)) code;
      t2 \<leftarrow> now_read; recordBinding names (h k t2); ret err }) ?Q" if "store_Binding bid d0 = Inr b" for b c x code names h
  proof -
    obtain k err where k: "delete_report (isl x) (case c of None \<Rightarrow> [] | Some k \<Rightarrow> openBaoError (BaoFail k)) code = (k, err)" by fastforce
    have role_code: "(case c of None \<Rightarrow> [] | Some k \<Rightarrow> openBaoError (BaoFail k)) \<noteq> ErrorInternal"
      using openBaoError_nonempty(2) by (auto simp: ErrorInternal_def split: option.splits)
    have "?Q err d r p" if "?R3 b c x code d r p" for d r p
    proof -
      note cases = delete_report_cases[OF k _ role_code]
      have "\<exists>b t a. store_Binding bid d0 = Inr b \<and> RetireBinding bid t d0 = Inr (a, d) \<and> roles r (bind_Role b) = None
          \<and> token_gone connected (revoked r) a" if "err = None"
        using cases(1)[OF _ that] \<open>?R3 b c x code d r p\<close> \<open>store_Binding bid d0 = Inr b\<close> openBaoError_nonempty(1)
        by (cases x) (auto split: option.splits)
      moreover have "\<exists>t a. RetireBinding bid t d0 = Inr (a, d) \<and> (oe_TokenLive e \<or> token_gone connected (revoked r) a)"
        if "err = Some (OpErr e)" "oe_Code e \<noteq> ErrorInternal" for e
        using cases(2)[OF _ that] \<open>?R3 b c x code d r p\<close> by (cases x) auto
      ultimately show ?thesis by blast
    qed
    then show ?thesis
      unfolding k by (simp, intro triple_now triple_bind[OF recordBinding_triple triple_ret]) auto
  qed
  show ?thesis
    unfolding deleteBinding_def
  proof (rule triple_now, rule triple_attempt[OF triple_store_read triple_ret], goal_cases)
    case (1 t e d r p)
    then show ?case by (simp add: operationError_def)
  next
    case (2 t b)
    show ?case
    proof (rule triple_fact[of "store_Binding bid d0 = Inr b"], goal_cases)
      case 1
      show ?case
        by (rule triple_bind[OF triple_pre[OF role[OF 1]] triple_now[OF triple_bind[OF retire triple_bind[OF token report[OF 1]]]]]) simp
    qed auto
  qed
qed

section \<open>Retiring policy identities\<close>

lemma apply_all_applied:
  assumes "mark_stable K"
  shows "triple L (\<lambda>d r p. inv e d r p \<and> (\<forall>b\<in>set bs. stored_as d b) \<and> K d p) (apply_all env bs)
     (\<lambda>xs d r p. inv e d r p \<and> K d p \<and> (failures_of xs = [] \<longrightarrow> (\<forall>b\<in>set bs. applied_in d b)))"
  using assms
proof (induction bs arbitrary: K)
  case Nil
  show ?case by (simp, rule triple_ret) simp
next
  case (Cons b bs)
  let ?K1 = "\<lambda>d p. K d p \<and> (\<forall>b\<in>set bs. stored_as d b)"
  let ?K2 = "\<lambda>x d p. K d p \<and> (x = None \<longrightarrow> applied_in d b)"
  have applied: "applied_in (MarkBindingApplied i d) c" if "applied_in d c" for i d c
    using that MarkBindingApplied_keeps unfolding applied_in_def by metis
  have K: "mark_stable ?K1" "\<And>x. mark_stable (?K2 x)"
    using Cons.prems by (auto simp: mark_stable_def MarkBindingApplied_stored_as applied)
  have one: "triple L (\<lambda>d r p. inv e d r p \<and> (\<forall>b\<in>set (b # bs). stored_as d b) \<and> K d p) (applyBinding env b)
      (\<lambda>x d r p. inv e d r p \<and> (\<forall>b\<in>set bs. stored_as d b) \<and> ?K2 x d p)"
    by (rule triple_conseq[OF applyBinding_triple[OF K(1)]]) auto
  have last: "failures_of ((b, x) # xs) = [] \<longleftrightarrow> x = None \<and> failures_of xs = []" for x xs
    by (cases x) (simp_all add: failures_of_def map_filter_simps)
  show ?case
    unfolding apply_all.simps
    by (rule triple_bind[OF one triple_bind[OF Cons.IH[OF K(2)] triple_ret]]) (auto simp: last)
qed

text \<open>The identities that were removed: no longer to be retired and, unless a stored policy holds them, gone from OpenBao.\<close>

definition retired :: "string set \<Rightarrow> string set \<Rightarrow> string set \<Rightarrow> db \<Rightarrow> 'r \<Rightarrow> bool" where
  "retired R held D d r \<longleftrightarrow> dom (map_of (db_policy_retirements d)) \<subseteq> R \<and> (\<forall>i\<in>D. map_of (db_policy_retirements d) i = None \<and> (i \<in> held \<or> policies r i = None))"

lemma retired_forget: "retired R held D d r \<Longrightarrow> retired R held D (ForgetPolicyRetirement i d) r"
  by (auto simp: retired_def ForgetPolicyRetirement_def delete_conv' split: if_splits)

lemma removePolicyIdentity_effect:
  assumes "managed_name i"
  shows "triple L (\<lambda>d r p. retired R held D d r) (removePolicyIdentity env i)
     (\<lambda>x d r p. retired R held D d r \<and> (x = None \<longrightarrow> retired R held (insert i D) d r))"
proof -
  have del: "triple L (\<lambda>d r p. retired R held D d r) (bao_check (ob_DeletePolicy (ce_bao env) i)) (\<lambda>_ d r p. retired R held D d r)"
    by (rule triple_post[OF triple_bao_check]) (auto dest!: DeletePolicy[OF _ assms] simp: retired_def split: if_splits)
  have read_back: "triple L (\<lambda>d r p. retired R held D d r) (bao_call (ob_PolicyExists (ce_bao env) i))
      (\<lambda>x d r p. retired R held D d r \<and> (x = Inr False \<longrightarrow> policies r i = None))"
    by (rule triple_post[OF triple_bao_call]) (auto dest!: PolicyExists[OF _ assms] simp: retired_def)
  have forget: "triple L (\<lambda>d r p. retired R held D d r \<and> policies r i = None) (store_check (store_set (ForgetPolicyRetirement i)))
      (\<lambda>x d r p. retired R held D d r \<and> (x = None \<longrightarrow> retired R held (insert i D) d r))"
    by (rule triple_post[OF triple_store_check[OF triple_store_set]])
      (auto simp: retired_forget split: if_splits, auto simp: retired_def ForgetPolicyRetirement_def delete_conv')
  show ?thesis
    unfolding removePolicyIdentity_def
    by (rule triple_check[OF del triple_ret triple_attempt[OF read_back triple_ret triple_if[OF triple_ret triple_pre[OF forget]]]]) auto
qed

lemma retire_identities_effect:
  assumes "\<forall>i\<in>set retirees. managed_name i"
  shows "triple L (\<lambda>d r p. retired R (set held) D d r) (retire_identities env held retirees)
     (\<lambda>x d r p. retired R (set held) D d r \<and> (x = [] \<longrightarrow> retired R (set held) (set retirees \<union> D) d r))"
  using assms
proof (induction retirees arbitrary: D)
  case Nil
  show ?case by (simp, rule triple_ret) simp
next
  case (Cons i retirees)
  have forget: "triple L (\<lambda>d r p. retired R (set held) D d r) (store_check (store_set (ForgetPolicyRetirement i)))
      (\<lambda>x d r p. retired R (set held) D d r \<and> (x = None \<longrightarrow> retired R (set held) (insert i D) d r))" if "i \<in> set held"
    by (rule triple_post[OF triple_store_check[OF triple_store_set]])
      (use that in \<open>auto simp: retired_forget split: if_splits, auto simp: retired_def ForgetPolicyRetirement_def delete_conv'\<close>)
  have one: "triple L (\<lambda>d r p. retired R (set held) D d r)
      (if i \<in> set held then store_check (store_set (ForgetPolicyRetirement i)) else removePolicyIdentity env i)
      (\<lambda>x d r p. retired R (set held) (if x = None then insert i D else D) d r \<and> retired R (set held) D d r)"
    by (rule triple_if[OF triple_post[OF forget] triple_post[OF removePolicyIdentity_effect]]) (use Cons.prems in auto)
  have rest: "triple L (\<lambda>d r p. retired R (set held) (if x = None then insert i D else D) d r \<and> retired R (set held) D d r) (retire_identities env held retirees)
      (\<lambda>y d r p. retired R (set held) D d r \<and> (x = None \<and> y = [] \<longrightarrow> retired R (set held) (set (i # retirees) \<union> D) d r))" for x :: "ctl_error option"
    by (rule triple_conseq[OF Cons.IH[of "if x = None then insert i D else D"]]) (use Cons.prems in \<open>auto simp: retired_def split: if_splits\<close>)
  show ?case
    unfolding retire_identities.simps
    by (rule triple_bind[OF one triple_bind[OF rest triple_ret]]) (auto split: option.splits)
qed

lemma retire_when_applied_effect:
  assumes "\<forall>i\<in>set retirees. managed_name i" and K: "retirement_stable K"
  shows "triple L (\<lambda>d r p. inv e d r p \<and> K d \<and> dom (map_of (db_policy_retirements d)) \<subseteq> set retirees) (retire_when_applied env retirees agents)
     (\<lambda>x d r p. snd x = None \<longrightarrow> K d \<and> retired (set retirees) ((OpenBaoPolicyName \<circ> row_policy) ` set (db_policies d)) (set retirees) d r)"
proof -
  have each: "triple L (\<lambda>d r p. inv e d r p \<and> K d \<and> dom (map_of (db_policy_retirements d)) \<subseteq> set retirees \<and> store_Policies (ce_hcl env) d = Inr docs)
      (retire_identities env (map (\<lambda>s. OpenBaoPolicyName (stored_Policy s)) docs) retirees)
      (\<lambda>x d r p. x = [] \<longrightarrow> K d \<and> retired (set retirees) ((OpenBaoPolicyName \<circ> row_policy) ` set (db_policies d)) (set retirees) d r)" for docs
  proof -
    let ?held = "map (\<lambda>s. OpenBaoPolicyName (stored_Policy s)) docs"
    let ?K = "\<lambda>d. K d \<and> set ?held = (OpenBaoPolicyName \<circ> row_policy) ` set (db_policies d)"
    have stable: "retirement_stable ?K" using K by (simp add: retirement_stable_def retirement_keeps)
    have held: "set ?held = (OpenBaoPolicyName \<circ> row_policy) ` set (db_policies d)" if "store_Policies (ce_hcl env) d = Inr docs" for d
    proof -
      have "set ?held = OpenBaoPolicyName ` stored_Policy ` set docs" by (simp add: image_image)
      also have "\<dots> = OpenBaoPolicyName ` row_policy ` set (db_policies d)" by (simp only: store_Policies_rows[OF that])
      finally show ?thesis by (simp only: image_comp)
    qed
    show ?thesis
      by (rule triple_conseq[OF triple_conj[OF retire_identities_triple[OF stable assms(1), of L e ?held] retire_identities_effect[OF assms(1), of L "set retirees" ?held "{}"]]])
        (use held in \<open>auto simp: retired_def simp del: set_map\<close>)
  qed
  show ?thesis
    unfolding retire_when_applied_def
    by (rule triple_attempt[OF triple_store_read triple_ret triple_bind[OF triple_pre[OF each] triple_ret]]) (auto simp: Join_errors_def)
qed

lemma settlePolicyRetirements_effect:
  "triple L (\<lambda>d r p. inv e d r p \<and> R = set (PolicyRetirements d)) (settlePolicyRetirements env)
     (\<lambda>x d r p. snd x = None \<longrightarrow> R = {} \<and> PolicyRetirements d = [] \<or>
        (\<forall>row\<in>set (db_bindings d). brow_applied row) \<and> retired R ((OpenBaoPolicyName \<circ> row_policy) ` set (db_policies d)) R d r)"
    (is "triple L _ _ ?Q")
proof -
  let ?dom = "\<lambda>d. dom (map_of (db_policy_retirements d))"
  let ?all = "\<lambda>d. \<forall>row\<in>set (db_bindings d). brow_applied row"
  have dom: "?dom d = set (PolicyRetirements d)" for d
    by (simp add: PolicyRetirements_def)
  have sync: "triple L (\<lambda>d r p. (inv e d r p \<and> p = pending) \<and> ?dom d = R) (if pending then syncPolicies env else ret None) (\<lambda>_ d r p. inv e d r p \<and> ?dom d = R)" for pending
    by (intro triple_if triple_ret triple_conseq[OF syncPolicies_triple[of L "\<lambda>d. ?dom d = R"]]) (auto simp: ctl_inv_def)
  have apply_them: "triple L (\<lambda>d r p. inv e d r p \<and> ?dom d = R \<and> bs = Bindings [] d) (apply_all env (filter (\<lambda>b. \<not> bind_Applied b) bs))
      (\<lambda>xs d r p. failures_of xs = [] \<longrightarrow> inv e d r p \<and> ?all d \<and> ?dom d = R)" for bs
  proof -
    let ?K = "\<lambda>d p. ?dom d = R \<and> (\<forall>row\<in>set (db_bindings d). brow_applied row \<or> (\<exists>b\<in>set (filter (\<lambda>b. \<not> bind_Applied b) bs). bind_ID b = brow_id row))"
    have stable: "mark_stable ?K"
      by (auto simp: mark_stable_def MarkBindingApplied_rows)
    have all: "?all d" if a: "inv e d r p" "?K d p" "\<forall>b\<in>set (filter (\<lambda>b. \<not> bind_Applied b) bs). applied_in d b" for d r p
    proof
      fix row assume row: "row \<in> set (db_bindings d)"
      show "brow_applied row"
      proof (rule ccontr)
        assume "\<not> brow_applied row"
        then obtain b where b: "b \<in> set (filter (\<lambda>b. \<not> bind_Applied b) bs)" "bind_ID b = brow_id row" using a(2) row by blast
        then obtain row' where "row' \<in> set (db_bindings d)" "brow_id row' = brow_id row" "brow_applied row'"
          using a(3) by (auto simp: applied_in_def)
        then show False using binding_row_unique[of d row' row] row a(1) \<open>\<not> brow_applied row\<close> by (auto simp: ctl_inv_def stored_ok_def)
      qed
    qed
    have start: "(\<forall>b\<in>set (filter (\<lambda>b. \<not> bind_Applied b) bs). stored_as d b) \<and> ?K d p" if "?dom d = R" "bs = Bindings [] d" for d p
      using that by (auto simp: set_Bindings stored_as_scan) (auto simp: scanBinding_def)
    show ?thesis
      by (rule triple_conseq[OF apply_all_applied[OF stable, of L e "filter (\<lambda>b. \<not> bind_Applied b) bs"]]) (use start all in blast)+
  qed
  have retire: "triple L (\<lambda>d r p. inv e d r p \<and> ?all d \<and> ?dom d = R) (retire_when_applied env retirees agents) ?Q" if "R = set retirees" for retirees agents
  proof (rule triple_fact)
    assume "\<forall>i\<in>set retirees. managed_name i"
    moreover have "retirement_stable ?all" by (simp add: retirement_stable_def ForgetPolicyRetirement_def recordPolicyRetirement_def)
    ultimately show "triple L (\<lambda>d r p. inv e d r p \<and> ?all d \<and> ?dom d = R) (retire_when_applied env retirees agents) ?Q"
      by (rule triple_conseq[OF retire_when_applied_effect[where e = e]]) (use that in auto)
  qed (use that in \<open>auto simp: ctl_inv_def stored_ok_def names_ok_def\<close>)
  show ?thesis
    unfolding settlePolicyRetirements_def Let_def
  proof (rule triple_attempt[OF triple_store_read triple_ret], goal_cases)
    case (2 retirees)
    show ?case
    proof (rule triple_fact[of "R = set retirees"], goal_cases)
      case 1
      have pre: "?dom d = R" if "R = set (PolicyRetirements d)" for d using that by (simp only: dom)
      show ?case
      proof (rule triple_if)
        assume "retirees = []"
        then show "triple L (\<lambda>d r p. (inv e d r p \<and> R = set (PolicyRetirements d)) \<and> (\<forall>y. Inr retirees = Inr y \<longrightarrow> Inr (PolicyRetirements d) = Inr y) \<and>
            (\<forall>e. Inr retirees = Inl (StoreErr e) \<longrightarrow> Inr (PolicyRetirements d) = Inl e)) (ret ([], None)) ?Q"
          by (intro triple_ret) auto
      next
        show "triple L (\<lambda>d r p. (inv e d r p \<and> R = set (PolicyRetirements d)) \<and> (\<forall>y. Inr retirees = Inr y \<longrightarrow> Inr (PolicyRetirements d) = Inr y) \<and>
            (\<forall>e. Inr retirees = Inl (StoreErr e) \<longrightarrow> Inr (PolicyRetirements d) = Inl e)) (do {
              pending \<leftarrow> get_pending;
              check (if pending then syncPolicies env else ret None) (\<lambda>e. ret ([], Some e))
                (attempt (store_read (\<lambda>d. Inr (Bindings [] d))) (\<lambda>e. ret ([], Some (StoreFail e)))
                   (\<lambda>bindings. do {
                      results \<leftarrow> apply_all env (filter (\<lambda>b. \<not> bind_Applied b) bindings);
                      if failures_of results \<noteq> [] then ret (map (bind_Agent \<circ> fst) (filter (\<lambda>r. snd r = None) results), Join_errors (failures_of results))
                      else retire_when_applied env retirees (map (bind_Agent \<circ> fst) (filter (\<lambda>r. snd r = None) results))
                    })) }) ?Q"
          by (rule triple_pre[OF triple_bind[OF triple_get_pending triple_check[OF triple_pre[OF sync] triple_ret
                  triple_attempt[OF triple_store_read triple_ret triple_bind[OF triple_pre[OF apply_them] triple_if[OF triple_ret triple_pre[OF retire[OF 1]]]]]]],
                where P = "\<lambda>d r p. (inv e d r p \<and> R = set (PolicyRetirements d)) \<and> (\<forall>y. Inr retirees = Inr y \<longrightarrow> Inr (PolicyRetirements d) = Inr y) \<and>
            (\<forall>e. Inr retirees = Inl (StoreErr e) \<longrightarrow> Inr (PolicyRetirements d) = Inl e)" and P' = "\<lambda>d r p. inv e d r p \<and> ?dom d = R"])
            (simp_all add: Join_errors_def pre)
      qed
    qed auto
  qed simp
qed

end

section \<open>Properties\<close>




text \<open>A rename whose cleanup is cut off.\<close>

definition run_renamed :: "scripted world" where
  "run_renamed = snd (run_state (ctl_RenamePolicy scripted_env
      \<lparr>rename_Name = ''web'', rename_NewName = ''site'', rename_Revision = 1, rename_Generation = 1\<rparr> ''op'')
      (at_start run_saved (replicate 6 Healthy @ [Broken])))"


end
