(* ===== verification/Token_Reports.thy ===== *)
theory Token_Reports
  imports Controller_Effects
begin

text \<open>
  What the controller answers an agent that reports the accessor of a token (\<^verbatim>\<open>recordAccessor\<close> of
  \<^verbatim>\<open>internal/controller/session.go\<close>): the acknowledgement lets the agent forget the token's accessor, so it
  must come only when the controller can still revoke the token or no longer needs to.
\<close>

definition sent_to :: "nat \<Rightarrow> 'r world \<Rightarrow> sent list" where
  "sent_to i w = as_sent (w_sessions w ! i)"

lemma run_session_send:
  assumes "run_state (session_send i m) w = (ok, w')"
  shows "w_db w' = w_db w \<and> w_bao w' = w_bao w \<and> (sent_to i w' = sent_to i w \<or> sent_to i w' = sent_to i w @ [m])"
  using assms by (auto simp: session_send_def Let_def sent_to_def split: if_splits list.splits)

lemma run_store_read:
  assumes "run_state (store_read f) w = (x, w')"
  shows "w_db w' = w_db w \<and> w_bao w' = w_bao w \<and> sent_to i w' = sent_to i w"
    "x = Inr y \<Longrightarrow> f (w_db w) = Inr y" "x = Inl (StoreErr e) \<Longrightarrow> f (w_db w) = Inl e"
  using assms by (auto simp: store_read_def sent_to_def split: if_splits sum.splits)

lemma run_bind: "run_state (State_Monad.bind m k) w = (x, w') \<longleftrightarrow> (\<exists>y w1. run_state m w = (y, w1) \<and> run_state (k y) w1 = (x, w'))"
  by (cases "run_state m w") auto

text \<open>From \<open>w\<close> to \<open>w'\<close> nothing was sent to the session, or only \<open>m\<close>, and then \<open>R\<close> holds.\<close>

definition acks :: "nat \<Rightarrow> sent \<Rightarrow> bool \<Rightarrow> 'r world \<Rightarrow> 'r world \<Rightarrow> bool" where
  "acks i m R w w' \<longleftrightarrow> sent_to i w' = sent_to i w \<or> sent_to i w' = sent_to i w @ [m] \<and> R"

lemma acks_after: "acks i m R w1 w' \<Longrightarrow> sent_to i w1 = sent_to i w \<Longrightarrow> (R \<Longrightarrow> R') \<Longrightarrow> acks i m R' w w'"
  by (auto simp: acks_def)

lemma acks_none: "sent_to i w' = sent_to i w \<Longrightarrow> acks i m R w w'"
  by (simp add: acks_def)

lemma acks_send: "run_state (session_send i m) w = (ok, w') \<Longrightarrow> R \<Longrightarrow> acks i m R w w'"
  using run_session_send by (fastforce simp: acks_def)

context openbao_service
begin

lemma revoke_and_acknowledge_acks:
  assumes "run_state (revoke_and_acknowledge env i report) w = (ok, w')" "bao = ce_bao env"
  shows "acks i (SentAccessorRecorded (TokenAccessor_Acknowledge report)) (accessor_Accessor report \<in> revoked (w_bao w')) w w'"
proof -
  obtain e w1 where run: "run_state (bao_check (ob_RevokeAccessor (ce_bao env) (accessor_Accessor report))) w = (e, w1)"
      "run_state (case e of Some _ \<Rightarrow> ret True | None \<Rightarrow> session_send i (SentAccessorRecorded (TokenAccessor_Acknowledge report))) w1 = (ok, w')"
    using assms(1) unfolding revoke_and_acknowledge_def check_def run_bind by blast
  obtain c r where c: "ob_RevokeAccessor (ce_bao env) (accessor_Accessor report) (w_bao w) = (c, r)" by fastforce
  then have w1: "w1 = w\<lparr>w_bao := r\<rparr>" "e = map_option BaoFail c"
    using run(1) by (auto simp: bao_check_def bao_call_def)
  have sent: "sent_to i w1 = sent_to i w" by (simp add: w1 sent_to_def)
  show ?thesis
  proof (cases e)
    case None
    then have "accessor_Accessor report \<in> revoked r" using RevokeAccessor[of "accessor_Accessor report" "w_bao w" c r] c w1 assms(2) by simp
    moreover have "w_bao w' = r" using run_session_send[of i _ w1 ok w'] run(2) None w1 by simp
    ultimately show ?thesis using run(2) None by (intro acks_after[OF acks_send sent]) auto
  qed (use run(2) sent in \<open>auto intro: acks_none\<close>)
qed

lemma retired_accessor_acks:
  assumes "run_state (retired_accessor env i agent report) w = (ok, w')" "bao = ce_bao env"
  shows "acks i (SentAccessorRecorded (TokenAccessor_Acknowledge report))
     (accessor_Accessor report \<in> revoked (w_bao w') \<or> RetiredBindingAgent (accessor_Binding report) (w_db w) \<noteq> Inr agent) w w'"
proof -
  obtain x w1 where run: "run_state (store_read (RetiredBindingAgent (accessor_Binding report))) w = (x, w1)"
      "run_state (case x of
       Inl e \<Rightarrow> if e = StoreErr ErrNotFound then session_send i (SentAccessorRecorded (TokenAccessor_Acknowledge report)) else ret True
     | Inr owner \<Rightarrow>
         if owner \<noteq> agent then session_send i (SentAccessorRecorded (TokenAccessor_Acknowledge report))
         else revoke_and_acknowledge env i report) w1 = (ok, w')"
    using assms(1) unfolding retired_accessor_def run_bind by blast
  note read = run_store_read[OF run(1)]
  have sent: "sent_to i w1 = sent_to i w" using read(1) by blast
  show ?thesis
  proof (cases x)
    case (Inl e)
    then show ?thesis using run(2) sent read(3)
      by (cases "e = StoreErr ErrNotFound") (auto intro: acks_none acks_after[OF acks_send sent])
  next
    case (Inr owner)
    show ?thesis
    proof (cases "owner = agent")
      case True
      then show ?thesis using run(2) Inr by (intro acks_after[OF revoke_and_acknowledge_acks[OF _ assms(2)] sent]) auto
    next
      case False
      then show ?thesis using run(2) Inr read(2) by (intro acks_after[OF acks_send sent]) auto
    qed
  qed
qed

lemma run_store_exec:
  assumes "run_state (store_exec f) w = (x, w')"
  shows "w_bao w' = w_bao w \<and> sent_to i w' = sent_to i w" "x = None \<Longrightarrow> f (w_db w) = Inr (w_db w')"
    "w_db w' = w_db w \<or> f (w_db w) = Inr (w_db w')"
  using assms
  by (auto simp: store_exec_def store_write_def Let_def sent_to_def split: fault.splits sum.splits prod.splits; cases "f (w_db w)"; auto)+

lemma recordAccessor_acks:
  assumes "run_state (recordAccessor env i agent report) w = (ok, w')" "bao = ce_bao env"
  shows "acks i (SentAccessorRecorded (TokenAccessor_Acknowledge report))
     (accessor_Accessor report \<in> revoked (w_bao w') \<or> TokenAccessor_of (accessor_Binding report) (w_db w') = Inr (accessor_Accessor report)
        \<or> (case store_Binding (accessor_Binding report) (w_db w) of
              Inr b \<Rightarrow> bind_Agent b \<noteq> agent | Inl _ \<Rightarrow> RetiredBindingAgent (accessor_Binding report) (w_db w) \<noteq> Inr agent)) w w'"
    (is "acks i ?m ?R w w'")
proof -
  obtain x w1 where read_run: "run_state (store_read (store_Binding (accessor_Binding report))) w = (x, w1)"
    and run: "run_state (case x of
       Inr binding \<Rightarrow>
         if bind_Agent binding \<noteq> agent then session_send i ?m
         else if accessor_Assignment report \<noteq> ce_Assignment env binding \<or> \<not> bind_Applied binding
         then revoke_and_acknowledge env i report
         else do {
           t \<leftarrow> now_read;
           e \<leftarrow> store_exec (SaveAssignmentAccessor binding (accessor_Accessor report) t);
           case e of
             None \<Rightarrow> session_send i ?m
           | Some err \<Rightarrow>
               if err = StoreErr ErrConflict then revoke_and_acknowledge env i report
               else do {
                 again \<leftarrow> store_read (store_Binding (accessor_Binding report));
                 if again = Inl (StoreErr ErrNotFound) then retired_accessor env i agent report else ret True
               }
         }
     | Inl e \<Rightarrow> if e = StoreErr ErrNotFound then retired_accessor env i agent report else ret True) w1 = (ok, w')"
    using assms(1) unfolding recordAccessor_def run_bind by blast
  note read = run_store_read[OF read_run]
  have sent: "sent_to i w1 = sent_to i w" and db: "w_db w1 = w_db w" using read(1) by blast+
  show ?thesis
  proof (cases x)
    case (Inl e)
    show ?thesis
    proof (cases "e = StoreErr ErrNotFound")
      case True
      then have "store_Binding (accessor_Binding report) (w_db w) = Inl ErrNotFound" using Inl read(3) by simp
      then show ?thesis
        using run Inl True db by (intro acks_after[OF retired_accessor_acks[OF _ assms(2)] sent]) auto
    qed (use run Inl sent in \<open>auto intro: acks_none\<close>)
  next
    case (Inr b)
    then have b: "store_Binding (accessor_Binding report) (w_db w) = Inr b" using read(2) by simp
    then have id: "bind_ID b = accessor_Binding report" by (auto elim!: store_Binding_scan simp: scanBinding_def)
    consider (other) "bind_Agent b \<noteq> agent"
      | (stale) "bind_Agent b = agent" "accessor_Assignment report \<noteq> ce_Assignment env b \<or> \<not> bind_Applied b"
      | (current) "bind_Agent b = agent" "\<not> (accessor_Assignment report \<noteq> ce_Assignment env b \<or> \<not> bind_Applied b)"
      by blast
    then show ?thesis
    proof cases
      case other
      then show ?thesis using run Inr b by (intro acks_after[OF acks_send sent]) auto
    next
      case stale
      then show ?thesis using run Inr by (intro acks_after[OF revoke_and_acknowledge_acks[OF _ assms(2)] sent]) auto
    next
      case current
      obtain t w2 where now: "run_state now_read w1 = (t, w2)" by fastforce
      then have w2: "w_db w2 = w_db w1" "sent_to i w2 = sent_to i w1" by (auto simp: now_read_def sent_to_def)
      obtain e w3 where save: "run_state (store_exec (SaveAssignmentAccessor b (accessor_Accessor report) t)) w2 = (e, w3)"
        and rest: "run_state (case e of
             None \<Rightarrow> session_send i ?m
           | Some err \<Rightarrow>
               if err = StoreErr ErrConflict then revoke_and_acknowledge env i report
               else do {
                 again \<leftarrow> store_read (store_Binding (accessor_Binding report));
                 if again = Inl (StoreErr ErrNotFound) then retired_accessor env i agent report else ret True
               }) w3 = (ok, w')"
        using run Inr current now by (auto simp: run_bind simp del: run_state_bind)
      note exec = run_store_exec[OF save]
      have sent3: "sent_to i w3 = sent_to i w" using exec(1) w2 sent by simp
      show ?thesis
      proof (cases e)
        case None
        then have "SaveAssignmentAccessor b (accessor_Accessor report) t (w_db w2) = Inr (w_db w3)" using exec(2) by simp
        then have "w_db w3 = (w_db w2)\<lparr>db_binding_tokens := AList.update (bind_ID b) (accessor_Accessor report, t) (db_binding_tokens (w_db w2))\<rparr>"
          by (rule SaveAssignmentAccessor_Inr(1))
        then have "TokenAccessor_of (accessor_Binding report) (w_db w3) = Inr (accessor_Accessor report)"
          using id by (simp add: TokenAccessor_of_def)
        then show ?thesis
          using rest None run_session_send[of i ?m w3 ok w'] by (intro acks_after[OF acks_send sent3]) auto
      next
        case (Some err)
        show ?thesis
        proof (cases "err = StoreErr ErrConflict")
          case True
          then show ?thesis using rest Some by (intro acks_after[OF revoke_and_acknowledge_acks[OF _ assms(2)] sent3]) auto
        next
          case False
          then obtain again w4 where again: "run_state (store_read (store_Binding (accessor_Binding report))) w3 = (again, w4)"
            and last: "run_state (if again = Inl (StoreErr ErrNotFound) then retired_accessor env i agent report else ret True) w4 = (ok, w')"
            using rest Some by (auto simp: run_bind simp del: run_state_bind)
          have "store_Binding (accessor_Binding report) (w_db w3) = store_Binding (accessor_Binding report) (w_db w2)"
          proof -
            have "db_bindings (w_db w3) = db_bindings (w_db w2)" "db_binding_policies (w_db w3) = db_binding_policies (w_db w2)"
              using exec(3) by (auto dest!: SaveAssignmentAccessor_Inr(1))
            moreover from this have "scanBinding (w_db w3) = scanBinding (w_db w2)"
              by (intro ext) (simp add: scanBinding_def binding_names_def)
            ultimately show ?thesis by (simp add: store_Binding_def split: option.split)
          qed
          then have "again \<noteq> Inl (StoreErr ErrNotFound)" using run_store_read(3)[OF again] b w2 db by auto
          then show ?thesis using last run_store_read(1)[OF again] sent3 by (auto intro: acks_none)
        qed
      qed
    qed
  qed
qed

end


definition run_connected :: "scripted world" where
  "run_connected = run_bound\<lparr>w_sessions := [new_session ''host'' None]\<rparr>"

definition example_report :: TokenAccessor where
  "example_report = \<lparr>accessor_Assignment = ''b-6162636465666768'', accessor_Binding = ''b-6162636465666768'', accessor_Accessor = ''acc''\<rparr>"


end
