(* ===== verification/OpenBao_Manager.thy ===== *)
theory OpenBao_Manager
  imports Controller_Operations
begin

text \<open>
  The controller's credential and the operations its bounded policy allows (\<^verbatim>\<open>Manager\<close> of
  \<^verbatim>\<open>internal/openbao/manager.go\<close>). The client library is a parameter: its calls take the token, the path and the
  body of a request and may change the service. \<open>manager_bao\<close> puts together the operations the controller uses; that they
  are a service as \<open>Controller_State\<close> asks for one is shown in \<open>OpenBao_Service\<close>.
\<close>

section \<open>The client library\<close>

datatype req_value = RString string | RStrings "string list" | RBool bool | RInt int | RMap "(string \<times> string) list"

type_synonym request = "(string, req_value) gomap"

record secret =
  sec_Data :: "(string, api_value) gomap"
  sec_Auth :: "auth option"
  sec_WrapToken :: "string option"

text \<open>A call gives an error or a decoded answer, which is absent when OpenBao sent none. A write may ask for the answer to be
  wrapped for a time.\<close>

record 's api =
  api_Write :: "string \<Rightarrow> string \<Rightarrow> request \<Rightarrow> string option \<Rightarrow> 's \<Rightarrow> (api_error + secret option) \<times> 's"
  api_Read :: "string \<Rightarrow> string \<Rightarrow> 's \<Rightarrow> (api_error + secret option) \<times> 's"
  api_Delete :: "string \<Rightarrow> string \<Rightarrow> 's \<Rightarrow> (api_error + secret option) \<times> 's"
  api_List :: "string \<Rightarrow> string \<Rightarrow> 's \<Rightarrow> (api_error + secret option) \<times> 's"
  api_RenewSelf :: "string \<Rightarrow> 's \<Rightarrow> (api_error + secret option) \<times> 's"

record Mounts =
  mounts_AppRole :: string
  mounts_Transit :: string
  mounts_SSH :: string
  mounts_KV :: "string list"

text \<open>Other library code: whether a client can be cloned, \<^verbatim>\<open>json.Marshal\<close>, \<^verbatim>\<open>Duration.String\<close>, \<^verbatim>\<open>fmt.Sprint\<close> and the
  parser of public keys.\<close>

record 's mgr_env =
  me_api :: "'s api"
  me_mounts :: Mounts
  me_roleID :: string
  me_Namespace :: string
  me_NewClient :: bool
  me_Marshal :: "(string, string) gomap \<Rightarrow> string"
  me_String :: "int \<Rightarrow> string"
  me_Sprint :: "api_value option \<Rightarrow> string"
  me_parseKey :: "string \<Rightarrow> string \<Rightarrow> string option"

text \<open>The state: the service, the token, and what the clock and the file with the secret identifier give next.\<close>

record 's manager =
  mg_service :: 's
  mg_token :: Token
  mg_clock :: "nat \<Rightarrow> int"
  mg_secretID :: "nat \<Rightarrow> string option"

definition mg_call :: "('s \<Rightarrow> 'a \<times> 's) \<Rightarrow> ('s manager, 'a) state" where
  "mg_call f = State (\<lambda>m. case f (mg_service m) of (x, s) \<Rightarrow> (x, m\<lparr>mg_service := s\<rparr>))"

definition mg_now :: "('s manager, int) state" where
  "mg_now = State (\<lambda>m. (mg_clock m 0, m\<lparr>mg_clock := (\<lambda>n. mg_clock m (Suc n))\<rparr>))"

definition mg_secret :: "('s manager, string option) state" where
  "mg_secret = State (\<lambda>m. (mg_secretID m 0, m\<lparr>mg_secretID := (\<lambda>n. mg_secretID m (Suc n))\<rparr>))"

definition mg_current :: "('s manager, Token) state" where
  "mg_current = State (\<lambda>m. (mg_token m, m))"

definition mg_set_token :: "Token \<Rightarrow> ('s manager, unit) state" where
  "mg_set_token token = State (\<lambda>m. ((), m\<lparr>mg_token := token\<rparr>))"

text \<open>A request whose answer is dropped, and one whose answer is read.\<close>

definition done_or :: "('s manager, api_error + 'a) state \<Rightarrow> ('s manager, Category option) state" where
  "done_or m = do { x \<leftarrow> m; ret (case x of Inl e \<Rightarrow> Some (categorize e) | Inr _ \<Rightarrow> None) }"

definition answered :: "('s manager, api_error + 'a) state \<Rightarrow> ('s manager, Category + 'a) state" where
  "answered m = do { x \<leftarrow> m; ret (case x of Inl e \<Rightarrow> Inl (categorize e) | Inr a \<Rightarrow> Inr a) }"

section \<open>Logging in\<close>

definition login_path :: "string \<Rightarrow> string" where
  "login_path mount = ''auth/'' @ mount @ ''/login''"

definition AppRoleLogin :: "'s mgr_env \<Rightarrow> string \<Rightarrow> string \<Rightarrow> string \<Rightarrow> ('s manager, Category + Token) state" where
  "AppRoleLogin env mount roleID secretID =
     attempt (answered (mg_call (api_Write (me_api env) [] (login_path mount)
         [(''role_id'', RString roleID), (''secret_id'', RString secretID)] None)))
       (\<lambda>c. ret (Inl c))
       (\<lambda>secret. do { t \<leftarrow> mg_now; ret (tokenFromAuth (Option.bind secret sec_Auth) t) })"

definition mgr_Login :: "'s mgr_env \<Rightarrow> ('s manager, Category option) state" where
  "mgr_Login env = do {
     secretID \<leftarrow> mg_secret;
     case secretID of
       None \<Rightarrow> ret (Some CategoryInvalid)
     | Some s \<Rightarrow>
         attempt (AppRoleLogin env (mounts_AppRole (me_mounts env)) (me_roleID env) s) (\<lambda>c. ret (Some c))
           (\<lambda>token. do { mg_set_token token; ret None })
   }"

text \<open>A client is named by the token it carries.\<close>

definition withToken :: "'s mgr_env \<Rightarrow> string \<Rightarrow> Category + string" where
  "withToken env token = (if me_NewClient env then Inr token else Inl CategoryInvalid)"

definition mgr_renew :: "'s mgr_env \<Rightarrow> Token \<Rightarrow> ('s manager, Category option) state" where
  "mgr_renew env token =
     (case withToken env (tok_value token) of
        Inl c \<Rightarrow> ret (Some c)
      | Inr client \<Rightarrow>
          attempt (answered (mg_call (api_RenewSelf (me_api env) client))) (\<lambda>c. ret (Some c))
            (\<lambda>secret. do {
               t \<leftarrow> mg_now;
               case tokenFromAuth (Option.bind secret sec_Auth) t of
                 Inl c \<Rightarrow> ret (Some c)
               | Inr renewed \<Rightarrow> do { mg_set_token renewed; ret None }
             }))"

text \<open>\<^verbatim>\<open>Maintain\<close>: how long a round waits, and what it does then with the token it read before.\<close>

definition half :: "int \<Rightarrow> int" where
  "half d = (if d < 0 then - (- d div 2) else d div 2)"

definition maintain_wait :: "Token \<Rightarrow> int \<Rightarrow> ('s manager, int) state" where
  "maintain_wait token retry = do {
     t1 \<leftarrow> mg_now;
     wait \<leftarrow> (if Token_Valid token t1 \<and> tok_TTL token > 0
       then do { t2 \<leftarrow> mg_now; ret (half (Token_Expires token - t2)) }
       else do { t2 \<leftarrow> mg_now; ret (if Token_Valid token t2 then 60 * minute else retry) });
     ret (if wait < second then second else wait)
   }"

definition maintain_round :: "'s mgr_env \<Rightarrow> Token \<Rightarrow> ('s manager, unit) state" where
  "maintain_round env token = do {
     t \<leftarrow> mg_now;
     if \<not> Token_Valid token t \<or> \<not> tok_Renewable token then do { mgr_Login env; ret () }
     else check (mgr_renew env token) (\<lambda>_. do { mgr_Login env; ret () }) (ret ())
   }"

definition authorized :: "'s mgr_env \<Rightarrow> ('s manager, Category + string) state" where
  "authorized env = do {
     token \<leftarrow> mg_current;
     t \<leftarrow> mg_now;
     if \<not> Token_Valid token t
     then check (mgr_Login env) (\<lambda>c. ret (Inl c)) (do { token \<leftarrow> mg_current; ret (withToken env (tok_value token)) })
     else ret (withToken env (tok_value token))
   }"

section \<open>Policies and roles\<close>

definition managed :: "string \<Rightarrow> Category option" where
  "managed name =
     (if \<not> HasPrefix name ManagedPrefix \<or> length name \<le> length ManagedPrefix then Some CategoryInvalid else None)"

definition accessor_path :: "'s mgr_env \<Rightarrow> string" where
  "accessor_path env = ''sys/internal/ui/mounts/auth/'' @ mounts_AppRole (me_mounts env)"

definition appRoleAccessor :: "'s mgr_env \<Rightarrow> string \<Rightarrow> ('s manager, Category + string) state" where
  "appRoleAccessor env client =
     attempt (answered (mg_call (api_Read (me_api env) client (accessor_path env))))
       (\<lambda>c. ret (Inl c))
       (\<lambda>secret. ret (case secret of None \<Rightarrow> Inl CategoryNotFound | Some s \<Rightarrow> requireString (sec_Data s) ''accessor''))"

definition acl_path :: "string \<Rightarrow> string" where
  "acl_path name = ''sys/policies/acl/'' @ name"

definition role_path :: "'s mgr_env \<Rightarrow> string \<Rightarrow> string" where
  "role_path env role = ''auth/'' @ mounts_AppRole (me_mounts env) @ ''/role/'' @ role"

definition mgr_WritePolicy :: "'s mgr_env \<Rightarrow> string \<Rightarrow> string \<Rightarrow> ('s manager, Category option) state" where
  "mgr_WritePolicy env name hcl =
     (case managed name of
        Some c \<Rightarrow> ret (Some c)
      | None \<Rightarrow>
          attempt (authorized env) (\<lambda>c. ret (Some c))
         (\<lambda>client.
          attempt (if HasBindingValues hcl
              then attempt (appRoleAccessor env client) (\<lambda>c. ret (Inl c)) (\<lambda>accessor. ret (Inr (IdentityTemplates hcl accessor)))
              else ret (Inr hcl))
            (\<lambda>c. ret (Some c))
         (\<lambda>hcl. done_or (mg_call (api_Write (me_api env) client (acl_path name) [(''policy'', RString hcl)] None)))))"

definition mgr_DeletePolicy :: "'s mgr_env \<Rightarrow> string \<Rightarrow> ('s manager, Category option) state" where
  "mgr_DeletePolicy env name =
     (case managed name of
        Some c \<Rightarrow> ret (Some c)
      | None \<Rightarrow>
          attempt (authorized env) (\<lambda>c. ret (Some c))
            (\<lambda>client. done_or (mg_call (api_Delete (me_api env) client (acl_path name)))))"

definition mgr_PolicyExists :: "'s mgr_env \<Rightarrow> string \<Rightarrow> ('s manager, Category + bool) state" where
  "mgr_PolicyExists env name =
     (case managed name of
        Some c \<Rightarrow> ret (Inl c)
      | None \<Rightarrow>
          attempt (authorized env) (\<lambda>c. ret (Inl c))
            (\<lambda>client. attempt (answered (mg_call (api_Read (me_api env) client (acl_path name)))) (\<lambda>c. ret (Inl c))
               (\<lambda>secret. ret (Inr (secret \<noteq> None)))))"

fun role_policies_error :: "string list \<Rightarrow> string list \<Rightarrow> Category option" where
  "role_policies_error seen [] = None"
| "role_policies_error seen (name # names) =
     (case managed name of
        Some c \<Rightarrow> Some c
      | None \<Rightarrow> if name \<in> set seen then Some CategoryInvalid else role_policies_error (name # seen) names)"

definition MaximumWrapTTL :: int where
  "MaximumWrapTTL = 5 * minute"

definition role_request :: "string list \<Rightarrow> int \<Rightarrow> int \<Rightarrow> request" where
  "role_request policyNames tokenTTL tokenMaxTTL =
     [(''token_policies'', RStrings policyNames),
      (''token_no_default_policy'', RBool True),
      (''token_ttl'', RString (Itoa (whole_seconds tokenTTL))),
      (''token_max_ttl'', RString (Itoa (whole_seconds tokenMaxTTL))),
      (''token_type'', RString ''service''),
      (''secret_id_num_uses'', RInt 1),
      (''secret_id_ttl'', RString (Itoa (whole_seconds MaximumWrapTTL))),
      (''bind_secret_id'', RBool True)]"

definition mgr_WriteRole :: "'s mgr_env \<Rightarrow> string \<Rightarrow> string list \<Rightarrow> int \<Rightarrow> int \<Rightarrow> ('s manager, Category option) state" where
  "mgr_WriteRole env role policyNames tokenTTL tokenMaxTTL =
     (case managed role of
        Some c \<Rightarrow> ret (Some c)
      | None \<Rightarrow>
          if policyNames = [] then ret (Some CategoryInvalid)
          else
            (case role_policies_error [] policyNames of
               Some c \<Rightarrow> ret (Some c)
             | None \<Rightarrow>
                 attempt (authorized env) (\<lambda>c. ret (Some c))
                   (\<lambda>client. done_or (mg_call (api_Write (me_api env) client (role_path env role)
                      (role_request policyNames tokenTTL tokenMaxTTL) None)))))"

definition mgr_DeleteRole :: "'s mgr_env \<Rightarrow> string \<Rightarrow> ('s manager, Category option) state" where
  "mgr_DeleteRole env role =
     (case managed role of
        Some c \<Rightarrow> ret (Some c)
      | None \<Rightarrow>
          attempt (authorized env) (\<lambda>c. ret (Some c))
            (\<lambda>client. done_or (mg_call (api_Delete (me_api env) client (role_path env role)))))"

text \<open>The one answer that also means the token is gone.\<close>

definition token_not_found :: api_error where
  "token_not_found = ResponseError 400 [''token not found'']"

definition mgr_RevokeAccessor :: "'s mgr_env \<Rightarrow> string \<Rightarrow> ('s manager, Category option) state" where
  "mgr_RevokeAccessor env accessor =
     (if \<not> ValidAccessor accessor then ret (Some CategoryInvalid)
      else
        attempt (authorized env) (\<lambda>c. ret (Some c))
          (\<lambda>client. do {
             x \<leftarrow> mg_call (api_Write (me_api env) client ''auth/token/revoke-accessor'' [(''accessor'', RString accessor)] None);
             ret (case x of Inl e \<Rightarrow> if e = token_not_found then None else Some (categorize e) | Inr _ \<Rightarrow> None)
           }))"

definition mgr_RoleID :: "'s mgr_env \<Rightarrow> string \<Rightarrow> ('s manager, Category + string) state" where
  "mgr_RoleID env role =
     (case managed role of
        Some c \<Rightarrow> ret (Inl c)
      | None \<Rightarrow>
          attempt (authorized env) (\<lambda>c. ret (Inl c))
            (\<lambda>client. attempt (answered (mg_call (api_Read (me_api env) client (role_path env role @ ''/role-id'')))) (\<lambda>c. ret (Inl c))
               (\<lambda>secret. ret (case secret of None \<Rightarrow> Inl CategoryNotFound | Some s \<Rightarrow> requireString (sec_Data s) ''role_id''))))"

definition mgr_WrappedSecretID :: "'s mgr_env \<Rightarrow> string \<Rightarrow> int \<Rightarrow> (string, string) gomap \<Rightarrow> ('s manager, Category + string) state" where
  "mgr_WrappedSecretID env role wrapTTL metadata =
     (case managed role of
        Some c \<Rightarrow> ret (Inl c)
      | None \<Rightarrow>
          let wrapTTL = (if wrapTTL \<le> 0 \<or> wrapTTL > MaximumWrapTTL then MaximumWrapTTL else wrapTTL);
              request = (if metadata \<noteq> [] then [(''metadata'', RString (me_Marshal env metadata))] else [])
          in attempt (authorized env) (\<lambda>c. ret (Inl c))
            (\<lambda>client. attempt (answered (mg_call (api_Write (me_api env) client (role_path env role @ ''/secret-id'') request (Some (me_String env wrapTTL)))))
               (\<lambda>c. ret (Inl c))
               (\<lambda>secret. ret (case Option.bind secret sec_WrapToken of
                  None \<Rightarrow> Inl CategoryInvalid
                | Some token \<Rightarrow> if token = [] then Inl CategoryInvalid else Inr token))))"

section \<open>Keys, roles and paths an operator may browse\<close>

definition listNames :: "'s mgr_env \<Rightarrow> string \<Rightarrow> string \<Rightarrow> ('s manager, Category + string list) state" where
  "listNames env client path =
     attempt (answered (mg_call (api_List (me_api env) client path))) (\<lambda>c. ret (Inl c))
       (\<lambda>secret. ret (Inr (case secret of
          None \<Rightarrow> []
        | Some s \<Rightarrow>
            (case map_of (sec_Data s) ''keys'' of
               Some (VList raw) \<Rightarrow> sort (List.map_filter (\<lambda>v. case v of VString name \<Rightarrow> Some name | _ \<Rightarrow> None) raw)
             | _ \<Rightarrow> []))))"

definition validKVDirectory :: "string \<Rightarrow> bool" where
  "validKVDirectory prefix =
     (if prefix = [] then True
      else if \<not> HasSuffix prefix ''/'' \<or> ContainsAny prefix [CHR ''%'', CHR 0x5C, CHR ''?'', CHR ''#'', CHR 0x00, CHR 0x0D, CHR 0x0A] then False
      else list_all (\<lambda>segment. segment \<noteq> [] \<and> segment \<noteq> ''.'' \<and> segment \<noteq> ''..'') (Split (TrimSuffix prefix ''/'') (CHR ''/'')))"

definition trim_slashes :: "string \<Rightarrow> string" where
  "trim_slashes s = rev (dropWhile (\<lambda>c. c = CHR ''/'') (rev (dropWhile (\<lambda>c. c = CHR ''/'') s)))"

definition ListKVPaths :: "'s mgr_env \<Rightarrow> string \<Rightarrow> string \<Rightarrow> ('s manager, Category + string list) state" where
  "ListKVPaths env mount prefix =
     (let namespace = trim_slashes (me_Namespace env)
      in if namespace = [] \<or> namespace = ''root'' \<or> mount \<notin> set (mounts_KV (me_mounts env)) \<or> \<not> validKVDirectory prefix
         then ret (Inl CategoryInvalid)
         else attempt (authorized env) (\<lambda>c. ret (Inl c)) (\<lambda>client. listNames env client (mount @ ''/metadata/'' @ prefix)))"

record TransitKey =
  tk_Name :: string
  tk_Type :: string
  tk_LatestVersion :: int
  tk_PublicKey :: "string option"

definition string_at :: "(string, api_value) gomap \<Rightarrow> string \<Rightarrow> string" where
  "string_at data key = (case map_of data key of Some (VString v) \<Rightarrow> v | _ \<Rightarrow> [])"

definition map_at :: "(string, api_value) gomap \<Rightarrow> string \<Rightarrow> (string, api_value) gomap" where
  "map_at data key = (case map_of data key of Some (VMap m) \<Rightarrow> m | _ \<Rightarrow> [])"

text \<open>\<^verbatim>\<open>json.Number.Int64\<close> gives the nearest representable value of a number out of range.\<close>

fun intValue :: "api_value option \<Rightarrow> int" where
  "intValue (Some (VNumber n)) = max (- (2 ^ 63)) (min (2 ^ 63 - 1) n)"
| "intValue _ = 0"

definition transit_key :: "'s mgr_env \<Rightarrow> string \<Rightarrow> secret \<Rightarrow> TransitKey" where
  "transit_key env name secret =
     (let keyType = string_at (sec_Data secret) ''type'';
          latest = intValue (map_of (sec_Data secret) ''latest_version'');
          publicKey = string_at (map_at (map_at (sec_Data secret) ''keys'') (Itoa latest)) ''public_key''
      in \<lparr>tk_Name = name, tk_Type = keyType, tk_LatestVersion = latest,
           tk_PublicKey = (if publicKey \<noteq> [] then me_parseKey env keyType publicKey else None)\<rparr>)"

definition ReadTransitKey :: "'s mgr_env \<Rightarrow> string \<Rightarrow> string \<Rightarrow> string \<Rightarrow> ('s manager, Category + TransitKey) state" where
  "ReadTransitKey env client mount name =
     attempt (answered (mg_call (api_Read (me_api env) client (mount @ ''/keys/'' @ name)))) (\<lambda>c. ret (Inl c))
       (\<lambda>secret. ret (case secret of None \<Rightarrow> Inl CategoryNotFound | Some s \<Rightarrow> Inr (transit_key env name s)))"

fun read_keys :: "'s mgr_env \<Rightarrow> string \<Rightarrow> string list \<Rightarrow> ('s manager, Category + TransitKey list) state" where
  "read_keys env client [] = ret (Inr [])"
| "read_keys env client (name # names) =
     attempt (ReadTransitKey env client (mounts_Transit (me_mounts env)) name) (\<lambda>c. ret (Inl c))
       (\<lambda>key. attempt (read_keys env client names) (\<lambda>c. ret (Inl c)) (\<lambda>keys. ret (Inr (key # keys))))"

definition ListTransitKeys :: "'s mgr_env \<Rightarrow> ('s manager, Category + TransitKey list) state" where
  "ListTransitKeys env =
     attempt (authorized env) (\<lambda>c. ret (Inl c))
       (\<lambda>client. attempt (listNames env client (mounts_Transit (me_mounts env) @ ''/keys'')) (\<lambda>c. ret (Inl c)) (read_keys env client))"

definition mgr_TransitKeyExists :: "'s mgr_env \<Rightarrow> string \<Rightarrow> ('s manager, Category + bool) state" where
  "mgr_TransitKeyExists env name =
     attempt (authorized env) (\<lambda>c. ret (Inl c))
       (\<lambda>client. attempt (answered (mg_call (api_Read (me_api env) client (mounts_Transit (me_mounts env) @ ''/keys/'' @ name)))) (\<lambda>c. ret (Inl c))
          (\<lambda>secret. ret (Inr (secret \<noteq> None))))"

definition CreateTransitKey :: "'s mgr_env \<Rightarrow> string \<Rightarrow> string \<Rightarrow> ('s manager, Category option) state" where
  "CreateTransitKey env name keyType =
     (if keyType \<notin> set [''ed25519'', ''rsa-2048'', ''rsa-3072'', ''rsa-4096''] then ret (Some CategoryInvalid)
      else attempt (authorized env) (\<lambda>c. ret (Some c))
        (\<lambda>client. done_or (mg_call (api_Write (me_api env) client (mounts_Transit (me_mounts env) @ ''/keys/'' @ name) [(''type'', RString keyType)] None))))"

definition RotateTransitKey :: "'s mgr_env \<Rightarrow> string \<Rightarrow> ('s manager, Category option) state" where
  "RotateTransitKey env name =
     attempt (authorized env) (\<lambda>c. ret (Some c))
       (\<lambda>client. done_or (mg_call (api_Write (me_api env) client (mounts_Transit (me_mounts env) @ ''/keys/'' @ name @ ''/rotate'') [] None)))"

record SSHRole =
  sr_Name :: string
  sr_KeyType :: string
  sr_AllowedUsers :: string
  sr_TTL :: string

fun read_roles :: "'s mgr_env \<Rightarrow> string \<Rightarrow> string list \<Rightarrow> ('s manager, Category + SSHRole list) state" where
  "read_roles env client [] = ret (Inr [])"
| "read_roles env client (name # names) =
     attempt (answered (mg_call (api_Read (me_api env) client (mounts_SSH (me_mounts env) @ ''/roles/'' @ name)))) (\<lambda>c. ret (Inl c))
       (\<lambda>secret. attempt (read_roles env client names) (\<lambda>c. ret (Inl c))
          (\<lambda>roles. ret (Inr ((case secret of
              None \<Rightarrow> \<lparr>sr_Name = name, sr_KeyType = [], sr_AllowedUsers = [], sr_TTL = []\<rparr>
            | Some s \<Rightarrow> \<lparr>sr_Name = name, sr_KeyType = string_at (sec_Data s) ''key_type'', sr_AllowedUsers = string_at (sec_Data s) ''allowed_users'',
                sr_TTL = me_Sprint env (map_of (sec_Data s) ''ttl'')\<rparr>) # roles))))"

definition ListSSHRoles :: "'s mgr_env \<Rightarrow> ('s manager, Category + SSHRole list) state" where
  "ListSSHRoles env =
     attempt (authorized env) (\<lambda>c. ret (Inl c))
       (\<lambda>client. attempt (listNames env client (mounts_SSH (me_mounts env) @ ''/roles'')) (\<lambda>c. ret (Inl c)) (read_roles env client))"

definition mgr_SSHRoleExists :: "'s mgr_env \<Rightarrow> string \<Rightarrow> ('s manager, Category + bool) state" where
  "mgr_SSHRoleExists env name =
     attempt (authorized env) (\<lambda>c. ret (Inl c))
       (\<lambda>client. attempt (answered (mg_call (api_Read (me_api env) client (mounts_SSH (me_mounts env) @ ''/roles/'' @ name)))) (\<lambda>c. ret (Inl c))
          (\<lambda>secret. ret (Inr (secret \<noteq> None))))"

definition firstUser :: "string \<Rightarrow> string" where
  "firstUser allowed = (let first = fst (Cut allowed (CHR '','')) in if first = ''*'' then [] else TrimSpace first)"

definition CreateSSHRole :: "'s mgr_env \<Rightarrow> string \<Rightarrow> string \<Rightarrow> string \<Rightarrow> ('s manager, Category option) state" where
  "CreateSSHRole env name allowedUsers ttl =
     attempt (authorized env) (\<lambda>c. ret (Some c))
       (\<lambda>client. done_or (mg_call (api_Write (me_api env) client (mounts_SSH (me_mounts env) @ ''/roles/'' @ name)
          [(''key_type'', RString ''ca''),
           (''allow_user_certificates'', RBool True),
           (''allowed_users'', RString allowedUsers),
           (''default_user'', RString (firstUser allowedUsers)),
           (''ttl'', RString ttl),
           (''default_extensions'', RMap [(''permit-pty'', [])]),
           (''allowed_extensions'', RString ''permit-pty,permit-agent-forwarding,permit-port-forwarding'')] None)))"

section \<open>The service the controller uses\<close>

definition manager_bao :: "'s mgr_env \<Rightarrow> 's manager bao" where
  "manager_bao env =
     \<lparr>ob_WritePolicy = (\<lambda>n h. run_state (mgr_WritePolicy env n h)),
      ob_DeletePolicy = (\<lambda>n. run_state (mgr_DeletePolicy env n)),
      ob_PolicyExists = (\<lambda>n. run_state (mgr_PolicyExists env n)),
      ob_WriteRole = (\<lambda>n ps ttl maxttl. run_state (mgr_WriteRole env n ps ttl maxttl)),
      ob_DeleteRole = (\<lambda>n. run_state (mgr_DeleteRole env n)),
      ob_RevokeAccessor = (\<lambda>a. run_state (mgr_RevokeAccessor env a)),
      ob_RoleID = (\<lambda>n. run_state (mgr_RoleID env n)),
      ob_WrappedSecretID = (\<lambda>n ttl md. run_state (mgr_WrappedSecretID env n ttl md)),
      ob_TransitKeyExists = (\<lambda>n. run_state (mgr_TransitKeyExists env n)),
      ob_SSHRoleExists = (\<lambda>n. run_state (mgr_SSHRoleExists env n))\<rparr>"

section \<open>Triples\<close>

text \<open>Of a program of the manager, over the service.\<close>

definition mg_triple :: "('s \<Rightarrow> bool) \<Rightarrow> ('s manager, 'a) state \<Rightarrow> ('a \<Rightarrow> 's \<Rightarrow> bool) \<Rightarrow> bool" where
  "mg_triple P m Q \<longleftrightarrow> (\<forall>w x w'. P (mg_service w) \<longrightarrow> run_state m w = (x, w') \<longrightarrow> Q x (mg_service w'))"

lemma mg_tripleD: "mg_triple P m Q \<Longrightarrow> run_state m w = (x, w') \<Longrightarrow> P (mg_service w) \<Longrightarrow> Q x (mg_service w')"
  by (auto simp: mg_triple_def)

lemma mg_ret: "(\<And>s. P s \<Longrightarrow> Q x s) \<Longrightarrow> mg_triple P (ret x) Q"
  by (auto simp: mg_triple_def)

lemma mg_bind: "mg_triple P m R \<Longrightarrow> (\<And>x. mg_triple (R x) (k x) Q) \<Longrightarrow> mg_triple P (State_Monad.bind m k) Q"
  unfolding mg_triple_def by (fastforce split: prod.splits)

lemma mg_conseq: "mg_triple P' m Q' \<Longrightarrow> (\<And>s. P s \<Longrightarrow> P' s) \<Longrightarrow> (\<And>x s. Q' x s \<Longrightarrow> Q x s) \<Longrightarrow> mg_triple P m Q"
  unfolding mg_triple_def by blast

lemma mg_attempt:
  "mg_triple P m R \<Longrightarrow> (\<And>e. mg_triple (R (Inl e)) (h e) Q) \<Longrightarrow> (\<And>x. mg_triple (R (Inr x)) (k x) Q) \<Longrightarrow> mg_triple P (attempt m h k) Q"
  unfolding attempt_def by (rule mg_bind) (auto split: sum.splits)

lemma mg_check:
  "mg_triple P m R \<Longrightarrow> (\<And>e. mg_triple (R (Some e)) (h e) Q) \<Longrightarrow> mg_triple (R None) k Q \<Longrightarrow> mg_triple P (check m h k) Q"
  unfolding check_def by (rule mg_bind) (auto split: option.splits)

lemma mg_if: "(c \<Longrightarrow> mg_triple P m Q) \<Longrightarrow> (\<not> c \<Longrightarrow> mg_triple P m' Q) \<Longrightarrow> mg_triple P (if c then m else m') Q"
  by simp

lemma mg_quiet:
  "mg_triple P mg_now (\<lambda>_. P)" "mg_triple P mg_secret (\<lambda>_. P)" "mg_triple P mg_current (\<lambda>_. P)" "mg_triple P (mg_set_token t) (\<lambda>_. P)"
  by (auto simp: mg_triple_def mg_now_def mg_secret_def mg_current_def mg_set_token_def)

lemma mg_call_triple: "mg_triple P (mg_call f) (\<lambda>x s. \<exists>s0. P s0 \<and> f s0 = (x, s))"
  by (auto simp: mg_triple_def mg_call_def split: prod.splits)

lemma map_sum_Inr: "Inr x = map_sum f id y \<Longrightarrow> y = Inr x"
  by (cases y) auto

lemma mg_answered: "mg_triple P (answered (mg_call f)) (\<lambda>x s. \<exists>s0 y. P s0 \<and> f s0 = (y, s) \<and> x = map_sum categorize id y)"
  unfolding answered_def by (rule mg_bind[OF mg_call_triple mg_ret]) (fastforce split: sum.splits)

lemma mg_done_or: "mg_triple P (done_or (mg_call f)) (\<lambda>x s. \<exists>s0 y. P s0 \<and> f s0 = (y, s) \<and> x = (case y of Inl e \<Rightarrow> Some (categorize e) | Inr _ \<Rightarrow> None))"
  unfolding done_or_def by (rule mg_bind[OF mg_call_triple mg_ret]) blast

end
