(* ===== verification/OpenBao_Service.thy ===== *)
theory OpenBao_Service
  imports OpenBao_Manager
begin

text \<open>
  The manager is the service the controller relies on. The locale \<open>openbao_api\<close> states what OpenBao documents of the endpoints
  the manager calls; it extends to \<open>openbao_service\<close>, the interface of \<open>Controller_State\<close>, with the manager's own operations,
  and is interpreted on an API that decodes the paths and bodies of its requests and may refuse a request or lose its answer.
\<close>

section \<open>What OpenBao documents of its endpoints\<close>

definition untouched :: "('s \<Rightarrow> 'p) \<Rightarrow> ('s \<Rightarrow> 'q) \<Rightarrow> ('s \<Rightarrow> string set) \<Rightarrow> 's \<Rightarrow> 's \<Rightarrow> bool" where
  "untouched policies roles revoked s s' \<longleftrightarrow> policies s' = policies s \<and> roles s' = roles s \<and> revoked s \<subseteq> revoked s'"

definition kept_as :: "string \<Rightarrow> string \<Rightarrow> string" where
  "kept_as accessor hcl = (if HasBindingValues hcl then IdentityTemplates hcl accessor else hcl)"

text \<open>
  A request that succeeds took effect, one that fails may have; a policy text answered with a bad request was not stored.
  Reading changes nothing, and the accessor of a mount never changes. A token accessor is revoked when the request to
  revoke it succeeds or is answered with \<open>token_not_found\<close>.
\<close>

locale openbao_api =
  fixes env :: "'s mgr_env"
    and policies :: "'s \<Rightarrow> string \<Rightarrow> string option"
    and roles :: "'s \<Rightarrow> string \<Rightarrow> ob_role option"
    and revoked :: "'s \<Rightarrow> string set"
    and accessor :: string
  assumes api_login: "api_Write (me_api env) client (login_path (mounts_AppRole (me_mounts env))) body wrap s = (x, s') \<Longrightarrow>
      untouched policies roles revoked s s'"
    and api_read: "api_Read (me_api env) client path s = (x, s') \<Longrightarrow> untouched policies roles revoked s s'"
    and api_accessor: "api_Read (me_api env) client (accessor_path env) s = (Inr (Some got), s') \<Longrightarrow>
      requireString (sec_Data got) ''accessor'' = Inr a \<Longrightarrow> a = accessor"
    and api_read_acl: "api_Read (me_api env) client (acl_path n) s = (Inr reply, s') \<Longrightarrow> managed_name n \<Longrightarrow> (reply \<noteq> None \<longleftrightarrow> policies s n \<noteq> None)"
    and api_role_id: "api_Read (me_api env) client (role_path env n @ ''/role-id'') s = (Inr (Some got), s') \<Longrightarrow> managed_name n \<Longrightarrow> roles s n \<noteq> None"
    and api_write_acl: "api_Write (me_api env) client (acl_path n) [(''policy'', RString h)] None s = (x, s') \<Longrightarrow> managed_name n \<Longrightarrow>
      (policies s' = (policies s)(n \<mapsto> h) \<and> (\<forall>e. x = Inl e \<longrightarrow> categorize e \<noteq> CategoryInvalid) \<or> isl x \<and> policies s' = policies s)
      \<and> roles s' = roles s \<and> revoked s \<subseteq> revoked s'"
    and api_delete_acl: "api_Delete (me_api env) client (acl_path n) s = (x, s') \<Longrightarrow> managed_name n \<Longrightarrow>
      (policies s' = (policies s)(n := None) \<or> isl x \<and> policies s' = policies s) \<and> roles s' = roles s \<and> revoked s \<subseteq> revoked s'"
    and api_write_role: "api_Write (me_api env) client (role_path env n) (role_request ps ttl maxttl) None s = (x, s') \<Longrightarrow> managed_name n \<Longrightarrow>
      (roles s' = (roles s)(n \<mapsto> granted ps ttl maxttl) \<or> isl x \<and> roles s' = roles s) \<and> policies s' = policies s \<and> revoked s \<subseteq> revoked s'"
    and api_delete_role: "api_Delete (me_api env) client (role_path env n) s = (x, s') \<Longrightarrow> managed_name n \<Longrightarrow>
      (roles s' = (roles s)(n := None) \<or> isl x \<and> roles s' = roles s) \<and> policies s' = policies s \<and> revoked s \<subseteq> revoked s'"
    and api_secret_id: "api_Write (me_api env) client (role_path env n @ ''/secret-id'') body wrap s = (x, s') \<Longrightarrow> managed_name n \<Longrightarrow>
      untouched policies roles revoked s s'"
    and api_revoke: "api_Write (me_api env) client ''auth/token/revoke-accessor'' [(''accessor'', RString a)] None s = (x, s') \<Longrightarrow>
      untouched policies roles revoked s s' \<and> ((\<exists>y. x = Inr y) \<or> x = Inl token_not_found \<longrightarrow> a \<in> revoked s')"
begin

abbreviation same :: "'s \<Rightarrow> 's \<Rightarrow> bool" where
  "same \<equiv> untouched policies roles revoked"

abbreviation compiled :: "string \<Rightarrow> string" where
  "compiled \<equiv> kept_as accessor"

lemma same_refl: "same s s"
  by (simp add: untouched_def)

lemma same_trans: "same r s \<Longrightarrow> same s t \<Longrightarrow> same r t"
  by (auto simp: untouched_def)

lemma read_same: "mg_triple (same s0) (answered (mg_call (api_Read (me_api env) client path))) (\<lambda>_. same s0)"
  by (rule mg_conseq[OF mg_answered]) (blast intro: same_trans[OF _ api_read])+

lemma Login_same: "mg_triple (same s0) (mgr_Login env) (\<lambda>_. same s0)"
proof -
  have login: "mg_triple (same s0) (AppRoleLogin env (mounts_AppRole (me_mounts env)) (me_roleID env) v) (\<lambda>_. same s0)" for v
    unfolding AppRoleLogin_def
    by (rule mg_attempt[OF mg_conseq[OF mg_answered] mg_ret mg_bind[OF mg_quiet(1) mg_ret]]) (blast intro: same_trans[OF _ api_login])+
  have "mg_triple (same s0) (case x of None \<Rightarrow> ret (Some CategoryInvalid) | Some v \<Rightarrow>
      attempt (AppRoleLogin env (mounts_AppRole (me_mounts env)) (me_roleID env) v) (\<lambda>c. ret (Some c)) (\<lambda>token. do { mg_set_token token; ret None })) (\<lambda>_. same s0)" for x
    by (cases x) (auto intro!: mg_ret mg_attempt[OF login] mg_bind[OF mg_quiet(4)])
  then show ?thesis
    unfolding mgr_Login_def by (rule mg_bind[OF mg_quiet(2)])
qed

lemma authorized_same: "mg_triple (same s0) (authorized env) (\<lambda>_. same s0)"
  unfolding authorized_def
  by (rule mg_bind[OF mg_quiet(3) mg_bind[OF mg_quiet(1) mg_if[OF mg_check[OF Login_same mg_ret mg_bind[OF mg_quiet(3) mg_ret]] mg_ret]]])

lemma WritePolicy_law:
  assumes "managed_name n"
  shows "mg_triple (same s0) (mgr_WritePolicy env n h) (\<lambda>e s.
      (policies s = (policies s0)(n \<mapsto> compiled h) \<and> e \<noteq> Some CategoryInvalid \<or> e \<noteq> None \<and> policies s = policies s0)
      \<and> roles s = roles s0 \<and> revoked s0 \<subseteq> revoked s)"
    (is "mg_triple _ _ ?Q")
proof -
  have fail: "mg_triple (same s0) (ret (Some c)) ?Q" for c
    by (rule mg_ret) (simp add: untouched_def)
  have acc: "mg_triple (same s0) (appRoleAccessor env client) (\<lambda>x s. same s0 s \<and> (\<forall>a. x = Inr a \<longrightarrow> a = accessor))" for client
    unfolding appRoleAccessor_def
  proof (rule mg_attempt[OF mg_answered mg_ret mg_ret])
    fix got s
    assume "\<exists>s1 y. same s0 s1 \<and> api_Read (me_api env) client (accessor_path env) s1 = (y, s) \<and> Inr got = map_sum categorize id y"
    then obtain s1 where s1: "same s0 s1" "api_Read (me_api env) client (accessor_path env) s1 = (Inr got, s)"
      by (auto dest: map_sum_Inr)
    then show "same s0 s \<and> (\<forall>a. (case got of None \<Rightarrow> Inl CategoryNotFound | Some v \<Rightarrow> requireString (sec_Data v) ''accessor'') = Inr a \<longrightarrow> a = accessor)"
      using same_trans[OF s1(1) api_read[OF s1(2)]] s1(2) by (auto dest: api_accessor split: option.splits)
  qed (blast intro: same_trans[OF _ api_read])+
  have compile: "mg_triple (same s0) (if HasBindingValues h then attempt (appRoleAccessor env client) (\<lambda>c. ret (Inl c)) (\<lambda>a. ret (Inr (IdentityTemplates h a))) else ret (Inr h))
      (\<lambda>x s. same s0 s \<and> (\<forall>k. x = Inr k \<longrightarrow> k = compiled h))" for client
    by (intro mg_if mg_attempt[OF acc] mg_ret) (auto simp: kept_as_def)
  have wr: "mg_triple (\<lambda>s. same s0 s \<and> (\<forall>k'. Inr k = Inr k' \<longrightarrow> k' = compiled h)) (done_or (mg_call (api_Write (me_api env) client (acl_path n) [(''policy'', RString k)] None))) ?Q" for client and k
  proof (rule mg_conseq[OF mg_done_or[where P = "\<lambda>s. same s0 s \<and> k = compiled h"]])
    fix x s
    assume "\<exists>s1 y. (same s0 s1 \<and> k = compiled h) \<and> api_Write (me_api env) client (acl_path n) [(''policy'', RString k)] None s1 = (y, s)
        \<and> x = (case y of Inl e \<Rightarrow> Some (categorize e) | Inr _ \<Rightarrow> None)"
    then obtain s1 y where s1: "same s0 s1" "k = compiled h" "x = (case y of Inl e \<Rightarrow> Some (categorize e) | Inr _ \<Rightarrow> None)"
      and w: "api_Write (me_api env) client (acl_path n) [(''policy'', RString k)] None s1 = (y, s)" by auto
    show "?Q x s"
      using api_write_acl[OF w assms] s1 by (cases y) (auto simp: untouched_def)
  qed simp
  show ?thesis
  proof (cases "managed n")
    case None
    show ?thesis
      unfolding mgr_WritePolicy_def None option.case
      by (rule mg_attempt[OF authorized_same fail mg_attempt[OF compile mg_conseq[OF fail] wr]]) auto
  next
    case (Some c)
    show ?thesis
      unfolding mgr_WritePolicy_def Some option.case by (rule fail)
  qed
qed

text \<open>Every other operation asks for a client and sends one request.\<close>

lemma one_request:
  assumes "\<And>client s x s'. send client s = (x, s') \<Longrightarrow> same s0 s \<Longrightarrow> Q (after x) s'"
    and "\<And>c s. same s0 s \<Longrightarrow> Q (Inl c) s"
    and "\<And>e. after (Inl e) = Inl (categorize e)"
  shows "mg_triple (same s0) (attempt (authorized env) (\<lambda>c. ret (Inl c))
      (\<lambda>client. attempt (answered (mg_call (send client))) (\<lambda>c. ret (Inl c)) (\<lambda>x. ret (after (Inr x))))) Q"
proof (rule mg_attempt[OF authorized_same mg_ret mg_attempt[OF mg_answered mg_ret mg_ret]])
  fix client c s
  assume "\<exists>r y. same s0 r \<and> send client r = (y, s) \<and> Inl c = map_sum categorize id y"
  then obtain r y where y: "same s0 r" "send client r = (y, s)" "Inl c = map_sum categorize id y" by blast
  then obtain e where "y = Inl e" "c = categorize e" by (cases y) auto
  then show "Q (Inl c) s" using assms(1)[OF y(2) y(1)] assms(3) by simp
next
  fix client x s
  assume "\<exists>r y. same s0 r \<and> send client r = (y, s) \<and> Inr x = map_sum categorize id y"
  then obtain r y where y: "same s0 r" "send client r = (y, s)" "Inr x = map_sum categorize id y" by blast
  then have "y = Inr x" by (cases y) auto
  then show "Q (after (Inr x)) s" using assms(1)[OF y(2) y(1)] by simp
qed (rule assms(2))

lemma one_change:
  assumes "\<And>client s x s'. send client s = (x, s') \<Longrightarrow> same s0 s \<Longrightarrow> Q (case x of Inl e \<Rightarrow> Some (categorize e) | Inr _ \<Rightarrow> None) s'"
    and "\<And>c s. same s0 s \<Longrightarrow> Q (Some c) s"
  shows "mg_triple (same s0) (attempt (authorized env) (\<lambda>c. ret (Some c)) (\<lambda>client. done_or (mg_call (send client)))) Q"
  by (rule mg_attempt[OF authorized_same mg_ret mg_conseq[OF mg_done_or[where P = "same s0"]]]) (auto intro: assms)

lemma DeletePolicy_law:
  assumes "managed_name n"
  shows "mg_triple (same s0) (mgr_DeletePolicy env n) (\<lambda>e s. (policies s = (policies s0)(n := None) \<or> e \<noteq> None \<and> policies s = policies s0)
      \<and> roles s = roles s0 \<and> revoked s0 \<subseteq> revoked s)" (is "mg_triple _ _ ?Q")
proof -
  have "mg_triple (same s0) (attempt (authorized env) (\<lambda>c. ret (Some c)) (\<lambda>client. done_or (mg_call (api_Delete (me_api env) client (acl_path n))))) ?Q"
    by (rule one_change) (auto simp: untouched_def dest!: api_delete_acl[OF _ assms] split: sum.splits)
  then show ?thesis
    unfolding mgr_DeletePolicy_def by (cases "managed n") (auto intro!: mg_ret simp: untouched_def)
qed

lemma DeleteRole_law:
  assumes "managed_name n"
  shows "mg_triple (same s0) (mgr_DeleteRole env n) (\<lambda>e s. (roles s = (roles s0)(n := None) \<or> e \<noteq> None \<and> roles s = roles s0)
      \<and> policies s = policies s0 \<and> revoked s0 \<subseteq> revoked s)" (is "mg_triple _ _ ?Q")
proof -
  have "mg_triple (same s0) (attempt (authorized env) (\<lambda>c. ret (Some c)) (\<lambda>client. done_or (mg_call (api_Delete (me_api env) client (role_path env n))))) ?Q"
    by (rule one_change) (auto simp: untouched_def dest!: api_delete_role[OF _ assms] split: sum.splits)
  then show ?thesis
    unfolding mgr_DeleteRole_def by (cases "managed n") (auto intro!: mg_ret simp: untouched_def)
qed

lemma WriteRole_law:
  assumes "managed_name n"
  shows "mg_triple (same s0) (mgr_WriteRole env n ps ttl maxttl) (\<lambda>e s. (roles s = (roles s0)(n \<mapsto> granted ps ttl maxttl) \<or> e \<noteq> None \<and> roles s = roles s0)
      \<and> policies s = policies s0 \<and> revoked s0 \<subseteq> revoked s)" (is "mg_triple _ _ ?Q")
proof -
  have "mg_triple (same s0) (attempt (authorized env) (\<lambda>c. ret (Some c))
      (\<lambda>client. done_or (mg_call (api_Write (me_api env) client (role_path env n) (role_request ps ttl maxttl) None)))) ?Q"
    by (rule one_change) (auto simp: untouched_def dest!: api_write_role[OF _ assms] split: sum.splits)
  moreover have "mg_triple (same s0) (ret (Some c)) ?Q" for c
    by (rule mg_ret) (simp add: untouched_def)
  ultimately show ?thesis
    unfolding mgr_WriteRole_def by (auto split: option.split)
qed

lemma RevokeAccessor_law:
  "mg_triple (same s0) (mgr_RevokeAccessor env a) (\<lambda>e s. (e = None \<longrightarrow> a \<in> revoked s) \<and> policies s = policies s0 \<and> roles s = roles s0 \<and> revoked s0 \<subseteq> revoked s)"
    (is "mg_triple _ _ ?Q")
proof -
  have fail: "mg_triple (same s0) (ret (Some c)) ?Q" for c
    by (rule mg_ret) (simp add: untouched_def)
  have "mg_triple (same s0) (do {
      x \<leftarrow> mg_call (api_Write (me_api env) client ''auth/token/revoke-accessor'' [(''accessor'', RString a)] None);
      ret (case x of Inl e \<Rightarrow> if e = token_not_found then None else Some (categorize e) | Inr _ \<Rightarrow> None) }) ?Q" for client
    by (rule mg_bind[OF mg_call_triple mg_ret]) (fastforce simp: untouched_def dest!: api_revoke split: sum.splits)
  then show ?thesis
    unfolding mgr_RevokeAccessor_def by (auto intro!: fail mg_attempt[OF authorized_same])
qed

lemma PolicyExists_law:
  assumes "managed_name n"
  shows "mg_triple (same s0) (mgr_PolicyExists env n) (\<lambda>x s. (\<forall>b. x = Inr b \<longrightarrow> (b \<longleftrightarrow> policies s0 n \<noteq> None)) \<and> same s0 s)" (is "mg_triple _ _ ?Q")
proof -
  have "mg_triple (same s0) (attempt (authorized env) (\<lambda>c. ret (Inl c))
      (\<lambda>client. attempt (answered (mg_call (api_Read (me_api env) client (acl_path n)))) (\<lambda>c. ret (Inl c))
        (\<lambda>got. ret (map_sum categorize (\<lambda>v. v \<noteq> None) (Inr got))))) ?Q"
  proof (rule one_request)
    fix client s x s'
    assume read: "api_Read (me_api env) client (acl_path n) s = (x, s')" and same: "same s0 s"
    have "\<forall>b. map_sum categorize (\<lambda>v. v \<noteq> None) x = Inr b \<longrightarrow> b = (policies s n \<noteq> None)"
      using read api_read_acl[OF _ assms] by (cases x) auto
    then show "?Q (map_sum categorize (\<lambda>v. v \<noteq> None) x) s'"
      using same same_trans[OF same api_read[OF read]] by (simp add: untouched_def)
  qed auto
  then show ?thesis
    unfolding mgr_PolicyExists_def by (cases "managed n") (auto intro!: mg_ret)
qed

lemma RoleID_law:
  assumes "managed_name n"
  shows "mg_triple (same s0) (mgr_RoleID env n) (\<lambda>x s. (\<forall>k. x = Inr k \<longrightarrow> roles s0 n \<noteq> None) \<and> same s0 s)" (is "mg_triple _ _ ?Q")
proof -
  define after where "after x = (case x of Inl e \<Rightarrow> Inl (categorize e) | Inr None \<Rightarrow> Inl CategoryNotFound
    | Inr (Some v) \<Rightarrow> requireString (sec_Data v) ''role_id'')" for x :: "api_error + secret option"
  have "mg_triple (same s0) (attempt (authorized env) (\<lambda>c. ret (Inl c))
      (\<lambda>client. attempt (answered (mg_call (api_Read (me_api env) client (role_path env n @ ''/role-id'')))) (\<lambda>c. ret (Inl c)) (\<lambda>got. ret (after (Inr got))))) ?Q"
  proof (rule one_request)
    fix client s x s'
    assume read: "api_Read (me_api env) client (role_path env n @ ''/role-id'') s = (x, s')" and same: "same s0 s"
    have "roles s n \<noteq> None" if "after x = Inr k" for k
      using that read api_role_id[OF _ assms] by (fastforce simp: after_def split: sum.splits option.splits)
    then show "?Q (after x) s'"
      using same same_trans[OF same api_read[OF read]] by (simp add: untouched_def)
  qed (auto simp: after_def)
  then show ?thesis
    unfolding mgr_RoleID_def after_def by (cases "managed n") (auto intro!: mg_ret)
qed

lemma WrappedSecretID_law:
  assumes "managed_name n"
  shows "mg_triple (same s0) (mgr_WrappedSecretID env n ttl md) (\<lambda>_. same s0)"
proof -
  have "mg_triple (same s0) (answered (mg_call (api_Write (me_api env) client (role_path env n @ ''/secret-id'') body wrap))) (\<lambda>_. same s0)" for client body wrap
    by (rule mg_conseq[OF mg_answered]) (blast intro: same_trans[OF _ api_secret_id[OF _ assms]])+
  then show ?thesis
    unfolding mgr_WrappedSecretID_def Let_def by (cases "managed n") (auto intro!: mg_ret mg_attempt[OF authorized_same] mg_attempt)
qed

lemma Exists_law:
  "mg_triple (same s0) (mgr_TransitKeyExists env n) (\<lambda>_. same s0)" "mg_triple (same s0) (mgr_SSHRoleExists env n) (\<lambda>_. same s0)"
  unfolding mgr_TransitKeyExists_def mgr_SSHRoleExists_def
  by (rule mg_attempt[OF authorized_same mg_ret mg_attempt[OF read_same mg_ret mg_ret]]; simp)+

lemmas triple_at_start = mg_tripleD[where P = "same (mg_service w)" and w = w for w]

lemma manager_service:
  "openbao_service (manager_bao env) (policies \<circ> mg_service) compiled (roles \<circ> mg_service) (revoked \<circ> mg_service)"
proof (unfold_locales, goal_cases)
  case (1 n h r e r')
  then show ?case using triple_at_start[OF WritePolicy_law[OF 1(2)] _ same_refl, of h r e r'] by (simp add: manager_bao_def)
next
  case (2 n r e r')
  then show ?case using triple_at_start[OF DeletePolicy_law[OF 2(2)] _ same_refl, of r e r'] by (simp add: manager_bao_def)
next
  case (3 n r x r')
  then show ?case using triple_at_start[OF PolicyExists_law[OF 3(2)] _ same_refl, of r x r'] by (simp add: manager_bao_def untouched_def)
next
  case (4 n ps ttl maxttl r e r')
  then show ?case using triple_at_start[OF WriteRole_law[OF 4(2)] _ same_refl, of ps ttl maxttl r e r'] by (simp add: manager_bao_def)
next
  case (5 n r e r')
  then show ?case using triple_at_start[OF DeleteRole_law[OF 5(2)] _ same_refl, of r e r'] by (simp add: manager_bao_def)
next
  case (6 a r e r')
  then show ?case using triple_at_start[OF RevokeAccessor_law _ same_refl, of a r e r'] by (simp add: manager_bao_def)
next
  case (7 n r i r')
  then show ?case using triple_at_start[OF RoleID_law[OF 7(2)] _ same_refl, of r i r'] by (simp add: manager_bao_def untouched_def)
next
  case (8 n ttl md r i r')
  then show ?case using triple_at_start[OF WrappedSecretID_law[OF 8(2)] _ same_refl, of ttl md r i r'] by (simp add: manager_bao_def untouched_def)
next
  case (9 n r x r')
  then show ?case using triple_at_start[OF Exists_law(1) _ same_refl, of n r x r'] by (simp add: manager_bao_def untouched_def)
next
  case (10 n r x r')
  then show ?case using triple_at_start[OF Exists_law(2) _ same_refl, of n r x r'] by (simp add: manager_bao_def untouched_def)
qed

end

sublocale openbao_api \<subseteq> service: openbao_service "manager_bao env" "policies \<circ> mg_service" "kept_as accessor" "roles \<circ> mg_service" "revoked \<circ> mg_service"
  by (rule manager_service)

section \<open>An API that decodes its requests\<close>

record api_state =
  as_policies :: "string \<Rightarrow> string option"
  as_roles :: "string \<Rightarrow> ob_role option"
  as_revoked :: "string set"
  as_fates :: "fault list"

definition decode_int :: "string \<Rightarrow> int" where
  "decode_int s = (case s of [] \<Rightarrow> 0 | c # ds \<Rightarrow> if c = CHR ''-'' then - int (digits_nat ds) else int (digits_nat s))"

definition decode_role :: "request \<Rightarrow> ob_role" where
  "decode_role body =
     \<lparr>role_Policies = (case map_of body ''token_policies'' of Some (RStrings ps) \<Rightarrow> ps | _ \<Rightarrow> []),
      role_TTL = (case map_of body ''token_ttl'' of Some (RString s) \<Rightarrow> decode_int s | _ \<Rightarrow> 0),
      role_MaxTTL = (case map_of body ''token_max_ttl'' of Some (RString s) \<Rightarrow> decode_int s | _ \<Rightarrow> 0)\<rparr>"

definition after_prefix :: "string \<Rightarrow> string \<Rightarrow> string option" where
  "after_prefix prefix path = (if take (length prefix) path = prefix then Some (drop (length prefix) path) else None)"

definition single :: "string \<Rightarrow> bool" where
  "single name \<longleftrightarrow> CHR ''/'' \<notin> set name"

definition api_effect :: "string \<Rightarrow> request \<Rightarrow> api_state \<Rightarrow> api_state" where
  "api_effect path body s =
     (case after_prefix ''sys/policies/acl/'' path of
        Some n \<Rightarrow> s\<lparr>as_policies := (as_policies s)(n := (case map_of body ''policy'' of Some (RString h) \<Rightarrow> Some h | _ \<Rightarrow> None))\<rparr>
      | None \<Rightarrow>
     (case after_prefix ''auth/approle/role/'' path of
        Some n \<Rightarrow> if single n then s\<lparr>as_roles := (as_roles s)(n := (if body = [] then None else Some (decode_role body)))\<rparr> else s
      | None \<Rightarrow>
     (case map_of body ''accessor'' of
        Some (RString a) \<Rightarrow> if path = ''auth/token/revoke-accessor'' then s\<lparr>as_revoked := insert a (as_revoked s)\<rparr> else s
      | _ \<Rightarrow> s)))"

definition api_answer :: "string \<Rightarrow> secret" where
  "api_answer path = \<lparr>sec_Data = [(''accessor'', VString ''auth_approle_1''), (''role_id'', VString ''role-id'')],
     sec_Auth = Some (''token'', ''accessor'', [''wyrwood''], 3600, True),
     sec_WrapToken = Some ''wrapped''\<rparr>"

definition api_change :: "(api_state \<Rightarrow> api_state) \<Rightarrow> string \<Rightarrow> api_state \<Rightarrow> (api_error + secret option) \<times> api_state" where
  "api_change f path s =
     (let s' = s\<lparr>as_fates := tl (as_fates s)\<rparr>
      in case next_fault (as_fates s) of
           Healthy \<Rightarrow> (Inr (Some (api_answer path)), f s') | Broken \<Rightarrow> (Inl OtherError, s') | Lost \<Rightarrow> (Inl DeadlineExceeded, f s'))"

definition api_found :: "string \<Rightarrow> api_state \<Rightarrow> secret option" where
  "api_found path s =
     (case after_prefix ''sys/policies/acl/'' path of
        Some n \<Rightarrow> if as_policies s n = None then None else Some (api_answer path)
      | None \<Rightarrow>
     (case after_prefix ''auth/approle/role/'' path of
        Some n \<Rightarrow> if as_roles s (takeWhile (\<lambda>c. c \<noteq> CHR ''/'') n) = None then None else Some (api_answer path)
      | None \<Rightarrow> Some (api_answer path)))"

definition scripted_api :: "api_state api" where
  "scripted_api =
     \<lparr>api_Write = (\<lambda>client path body wrap. api_change (api_effect path body) path),
      api_Read = (\<lambda>client path s. (if next_fault (as_fates s) = Healthy then Inr (api_found path s) else Inl OtherError, s\<lparr>as_fates := tl (as_fates s)\<rparr>)),
      api_Delete = (\<lambda>client path. api_change (api_effect path []) path),
      api_List = (\<lambda>client path s. (Inr None, s)),
      api_RenewSelf = (\<lambda>client s. (Inr (Some (api_answer [])), s))\<rparr>"

definition scripted_manager :: "api_state mgr_env" where
  "scripted_manager =
     \<lparr>me_api = scripted_api, me_mounts = \<lparr>mounts_AppRole = ''approle'', mounts_Transit = ''transit'', mounts_SSH = ''ssh'', mounts_KV = [''kv'']\<rparr>,
      me_roleID = ''controller'', me_Namespace = ''team'', me_NewClient = True, me_Marshal = (\<lambda>m. concat (map fst m)),
      me_String = Itoa, me_Sprint = (\<lambda>_. []), me_parseKey = (\<lambda>_ _. None)\<rparr>"

lemma decode_int_Itoa: "decode_int (Itoa i) = i"
proof -
  have "nat_digits n = c # ds \<Longrightarrow> c \<noteq> CHR ''-''" for n c ds
    using all_digits_nat_digits[of n] by (auto simp: all_digits_def is_digit_def)
  then show ?thesis
    using digits_nat_digits[of "nat i"] by (cases "nat_digits (nat i)") (auto simp: decode_int_def Itoa_def)
qed

lemma decode_role_request: "decode_role (role_request ps ttl maxttl) = granted ps ttl maxttl"
  by (simp add: decode_role_def role_request_def granted_def decode_int_Itoa)

lemma role_request_not_Nil: "role_request ps ttl maxttl \<noteq> []"
  by (simp add: role_request_def)

lemma managed_single: "managed_name n \<Longrightarrow> single n"
  by (auto simp: managed_name_def single_def list_all_iff managed_char_def)

lemma after_prefix_acl [simp]:
  "after_prefix ''sys/policies/acl/'' (acl_path n) = Some n"
  "after_prefix ''sys/policies/acl/'' (role_path scripted_manager n) = None"
  "after_prefix ''sys/policies/acl/'' (role_path scripted_manager n @ p) = None"
  "after_prefix ''sys/policies/acl/'' ''auth/token/revoke-accessor'' = None"
  "after_prefix ''sys/policies/acl/'' (login_path m) = None"
  "after_prefix ''sys/policies/acl/'' (accessor_path env) = None"
  by (simp_all add: after_prefix_def acl_path_def role_path_def login_path_def accessor_path_def)

lemma after_prefix_role [simp]:
  "after_prefix ''auth/approle/role/'' (role_path scripted_manager n) = Some n"
  "after_prefix ''auth/approle/role/'' (role_path scripted_manager n @ p) = Some (n @ p)"
  "after_prefix ''auth/approle/role/'' ''auth/token/revoke-accessor'' = None"
  "after_prefix ''auth/approle/role/'' (login_path (mounts_AppRole (me_mounts scripted_manager))) = None"
  "after_prefix ''auth/approle/role/'' (accessor_path env) = None"
  by (simp_all add: after_prefix_def role_path_def scripted_manager_def login_path_def accessor_path_def)

lemma login_not_revoke: "login_path m \<noteq> ''auth/token/revoke-accessor''"
proof
  assume "login_path m = ''auth/token/revoke-accessor''"
  then have "last (login_path m) = last ''auth/token/revoke-accessor''" by (rule arg_cong)
  then show False by (simp add: login_path_def)
qed

lemma effect_login: "api_effect (login_path (mounts_AppRole (me_mounts scripted_manager))) body s = s"
  by (auto simp: api_effect_def login_not_revoke split: option.splits req_value.splits)

lemma effect_secret_id: "api_effect (role_path scripted_manager n @ ''/secret-id'') body s = s"
  by (simp add: api_effect_def single_def)

lemma effect_acl: "api_effect (acl_path n) body s = s\<lparr>as_policies := (as_policies s)(n := (case map_of body ''policy'' of Some (RString h) \<Rightarrow> Some h | _ \<Rightarrow> None))\<rparr>"
  by (simp add: api_effect_def)

lemma effect_role: "single n \<Longrightarrow>
    api_effect (role_path scripted_manager n) body s = s\<lparr>as_roles := (as_roles s)(n := (if body = [] then None else Some (decode_role body)))\<rparr>"
  by (simp add: api_effect_def)

lemma effect_revoke: "api_effect ''auth/token/revoke-accessor'' [(''accessor'', RString a)] s = s\<lparr>as_revoked := insert a (as_revoked s)\<rparr>"
  by (simp add: api_effect_def)

lemma found_role: "managed_name n \<Longrightarrow> api_found (role_path scripted_manager n @ ''/role-id'') s = Some v \<Longrightarrow> as_roles s n \<noteq> None"
  using managed_single[of n] by (auto simp: api_found_def single_def takeWhile_append split: if_splits)

lemma change_cases:
  assumes "api_change f path s = (x, s')"
  shows "s' = f (s\<lparr>as_fates := tl (as_fates s)\<rparr>) \<and> x \<in> {Inr (Some (api_answer path)), Inl DeadlineExceeded} \<or> s' = s\<lparr>as_fates := tl (as_fates s)\<rparr> \<and> x = Inl OtherError"
  using assms by (auto simp: api_change_def Let_def split: fault.splits)

lemma scripted_calls:
  "api_Write (me_api scripted_manager) client path body wrap = api_change (api_effect path body) path"
  "api_Delete (me_api scripted_manager) client path = api_change (api_effect path []) path"
  "api_Read (me_api scripted_manager) client path s =
     (if next_fault (as_fates s) = Healthy then Inr (api_found path s) else Inl OtherError, s\<lparr>as_fates := tl (as_fates s)\<rparr>)"
  by (simp_all add: scripted_manager_def scripted_api_def)

interpretation scripted_openbao: openbao_api scripted_manager as_policies as_roles as_revoked "''auth_approle_1''"
proof (unfold_locales, unfold scripted_calls, goal_cases)
  case 1
  then show ?case by (auto simp: untouched_def effect_login dest!: change_cases)
next
  case 2
  then show ?case by (auto simp: untouched_def)
next
  case 3
  then show ?case by (auto simp: api_found_def api_answer_def requireString_def split: if_splits)
next
  case 4
  then show ?case by (auto simp: api_found_def split: if_splits)
next
  case 5
  then show ?case by (auto split: if_splits dest: found_role)
next
  case 6
  then show ?case by (auto simp: effect_acl dest!: change_cases)
next
  case 7
  then show ?case by (auto simp: effect_acl dest!: change_cases)
next
  case 8
  then show ?case by (auto simp: effect_role managed_single decode_role_request role_request_not_Nil dest!: change_cases)
next
  case 9
  then show ?case by (auto simp: effect_role managed_single dest!: change_cases)
next
  case 10
  then show ?case by (auto simp: untouched_def effect_secret_id dest!: change_cases)
next
  case 11
  then show ?case by (auto simp: untouched_def effect_revoke token_not_found_def dest!: change_cases)
qed

text \<open>
  C11. The manager implements the service the controller is verified against: whatever the clock, the secret
  file and the token do, from the documented behaviour of the endpoints of OpenBao it follows that \<^verbatim>\<open>WritePolicy\<close>,
  \<^verbatim>\<open>DeletePolicy\<close>, \<^verbatim>\<open>PolicyExists\<close>, \<^verbatim>\<open>WriteRole\<close>, \<^verbatim>\<open>DeleteRole\<close>, \<^verbatim>\<open>RevokeAccessor\<close>, \<^verbatim>\<open>RoleID\<close>,
  \<^verbatim>\<open>WrappedSecretID\<close>, \<^verbatim>\<open>TransitKeyExists\<close> and \<^verbatim>\<open>SSHRoleExists\<close> have the effect the interface promises when they
  report success, and that or no effect otherwise.
\<close>

theorem manager_refines_service:
  assumes "openbao_api env policies roles revoked accessor"
  shows "openbao_service (manager_bao env) (policies \<circ> mg_service) (kept_as accessor) (roles \<circ> mg_service) (revoked \<circ> mg_service)"
  using assms by (rule openbao_api.manager_service)

theorem manager_refines_service_witness:
  "openbao_service (manager_bao scripted_manager) (as_policies \<circ> mg_service) (kept_as ''auth_approle_1'') (as_roles \<circ> mg_service) (as_revoked \<circ> mg_service)
   \<and> openbao_api scripted_manager as_policies as_roles as_revoked ''auth_approle_1''"
  using manager_refines_service[OF scripted_openbao.openbao_api_axioms] scripted_openbao.openbao_api_axioms by blast

end
