(* ===== verification/Operator_Authority.thy ===== *)
theory Operator_Authority
  imports Controller_Safety Operator_Session
begin

text \<open>
  What an operator's key can reach. A request changes no policy and no binding outside the grant of its key, no agent and
  no operator key, and answers with nothing outside the grant, whatever calls fail. The proofs are triples with the database
  fixed up to the one statement that may change it and a frame, closed under marking bindings as applied, after it.
\<close>

section \<open>What a grant leaves out\<close>

definition granted_to :: "string \<Rightarrow> db \<Rightarrow> Grant option" where
  "granted_to fingerprint d =
     (case store_OperatorKey fingerprint d of
        Inl _ \<Rightarrow> None
      | Inr key \<Rightarrow> if opk_State key = OperatorKeyApproved then Some (opk_Grant key) else None)"

definition may_write :: "Grant option \<Rightarrow> string \<Rightarrow> bool" where
  "may_write g name \<longleftrightarrow> (\<exists>grant. g = Some grant \<and> Can grant ActionPolicyWrite \<and> AllowsPolicy grant name)"

definition may_change :: "Grant option \<Rightarrow> Binding \<Rightarrow> bool" where
  "may_change g b \<longleftrightarrow> (\<exists>grant. g = Some grant \<and> (Can grant ActionBind \<or> Can grant ActionPolicyWrite) \<and> Covers grant (bind_Agent b) (bind_Policies b))"

text \<open>Whether OpenBao has applied an assignment is not the operator's to decide and left out.\<close>

definition outside_bindings :: "Grant option \<Rightarrow> db \<Rightarrow> Binding set" where
  "outside_bindings g d = (\<lambda>b. b\<lparr>bind_Applied := True\<rparr>) ` {b \<in> set (Bindings [] d). \<not> may_change g b}"

definition outside_policies :: "Grant option \<Rightarrow> db \<Rightarrow> policy_row set" where
  "outside_policies g d = {row \<in> set (db_policies d). \<not> may_write g (prow_name row)}"

definition beyond :: "Grant option \<Rightarrow> db \<Rightarrow> db \<Rightarrow> bool" where
  "beyond g d d' \<longleftrightarrow> outside_bindings g d' = outside_bindings g d \<and> outside_policies g d' = outside_policies g d
     \<and> db_agents d' = db_agents d \<and> db_operator_keys d' = db_operator_keys d"

lemma may_change_applied [simp]: "may_change g (b\<lparr>bind_Applied := x\<rparr>) = may_change g b"
  by (simp add: may_change_def)

lemma Covers_set: "set ps = set ps' \<Longrightarrow> Covers grant agent ps = Covers grant agent ps'"
  by (simp add: Covers_def list_all_iff)

lemma beyond_refl: "beyond g d d"
  by (simp add: beyond_def)

lemma outside_bindings_rows:
  "outside_bindings g d = (\<lambda>r. (scanBinding d r)\<lparr>bind_Applied := True\<rparr>) ` {r \<in> set (db_bindings d). \<not> may_change g (scanBinding d r)}"
  by (auto simp: outside_bindings_def set_Bindings)

text \<open>Rows that a change leaves alone, and rows inside the grant that it moves to rows inside the grant.\<close>

lemma outside_bindings_map:
  assumes "db_bindings d' = map f (db_bindings d)"
    and "\<And>r. r \<in> set (db_bindings d) \<Longrightarrow>
      (scanBinding d' (f r))\<lparr>bind_Applied := True\<rparr> = (scanBinding d r)\<lparr>bind_Applied := True\<rparr> \<or> may_change g (scanBinding d r) \<and> may_change g (scanBinding d' (f r))"
  shows "outside_bindings g d' = outside_bindings g d"
proof -
  have same: "may_change g (scanBinding d' (f r)) = may_change g (scanBinding d r)" if "r \<in> set (db_bindings d)" for r
    using assms(2)[OF that] may_change_applied by metis
  have "outside_bindings g d' = (\<lambda>r. (scanBinding d' (f r))\<lparr>bind_Applied := True\<rparr>) ` {r \<in> set (db_bindings d). \<not> may_change g (scanBinding d' (f r))}"
    unfolding outside_bindings_rows assms(1) by auto
  also have "\<dots> = outside_bindings g d"
    unfolding outside_bindings_rows using assms(2) same by (intro image_cong) auto
  finally show ?thesis .
qed

lemma beyond_mark: "beyond g d d0 \<Longrightarrow> beyond g d (MarkBindingApplied i d0)"
proof -
  have "outside_bindings g (MarkBindingApplied i d0) = outside_bindings g d0"
    by (rule outside_bindings_map[where f = "\<lambda>r. if brow_id r = i then r\<lparr>brow_applied := True\<rparr> else r"])
      (auto simp: MarkBindingApplied_def set_where_def scanBinding_def binding_names_def)
  then show "beyond g d d0 \<Longrightarrow> beyond g d (MarkBindingApplied i d0)"
    by (simp add: beyond_def outside_policies_def MarkBindingApplied_def)
qed

lemma beyond_create:
  assumes "CreateBinding b d = Inr d'" "may_change g b"
  shows "beyond g d d'"
proof -
  obtain b' where b': "b' = (if bind_Revision b = 0 then b\<lparr>bind_Revision := 1\<rparr> else b)" "bind_ID b' \<notin> binding_ids d"
    "writeMembership b' (d\<lparr>db_bindings := db_bindings d @ [binding_row_of b']\<rparr>) = Inr d'"
    using CreateBinding_Inr[OF assms(1)] by metis
  note n = writeMembership_names[OF b'(3)] and w = writeMembership_Inr(1)[OF b'(3)]
  have old: "scanBinding d' r = scanBinding d r" if "r \<in> set (db_bindings d)" for r
  proof -
    have "brow_id r \<noteq> bind_ID b'" using that b'(2) unfolding binding_ids_def by (metis image_eqI)
    then show ?thesis by (simp add: scanBinding_def n) (simp add: binding_names_def)
  qed
  have "set (bind_Policies (scanBinding d' (binding_row_of b'))) = set (bind_Policies b)" "bind_Agent (scanBinding d' (binding_row_of b')) = bind_Agent b"
    using b'(1) by (simp_all add: scanBinding_def binding_row_of_def n)
  then have "may_change g (scanBinding d' (binding_row_of b'))"
    using assms(2) by (simp add: may_change_def Covers_def list_all_iff)
  then have "{r \<in> set (db_bindings d'). \<not> may_change g (scanBinding d' r)} = {r \<in> set (db_bindings d). \<not> may_change g (scanBinding d r)}"
    using old by (auto simp: n)
  then have "outside_bindings g d' = outside_bindings g d"
    unfolding outside_bindings_rows using old by (intro image_cong) auto
  then show ?thesis
    by (simp add: beyond_def outside_policies_def w)
qed

lemma beyond_retire:
  assumes "RetireBinding bid now d = Inr (accessor, d')" "store_Binding bid d = Inr b" "may_change g b" "db_ok d"
  shows "beyond g d d'"
proof -
  obtain r where r: "row_by brow_id bid (db_bindings d) = Some r"
    and d': "d' = delete_binding bid (d\<lparr>db_retired_bindings := AList.update bid (brow_agent r, now) (db_retired_bindings d)\<rparr>)"
    using RetireBinding_Inr[OF assms(1)] by metis
  have mine: "may_change g (scanBinding d x)" if "x \<in> set (db_bindings d)" "brow_id x = bid" for x
  proof -
    have "x = r" using that row_by_Some[OF r] by (intro binding_row_unique[OF assms(4)]) auto
    then show ?thesis using assms(2,3) r by (auto simp: store_Binding_def)
  qed
  have "scanBinding d' x = scanBinding d x" if "brow_id x \<noteq> bid" for x
    using that by (auto simp: d' scanBinding_def binding_names_def delete_binding_def delete_where_def intro!: arg_cong[where f = sort] arg_cong[where f = "map snd"] filter_cong)
  then have "outside_bindings g d' = outside_bindings g d"
    unfolding outside_bindings_rows using mine by (force simp: d' delete_binding_def delete_where_def)
  then show ?thesis
    by (simp add: beyond_def outside_policies_def d' delete_binding_def)
qed

lemma beyond_save:
  assumes save: "SavePolicyBindings document bs operator now d = Inr (p, d')" and ok: "db_ok d"
    and bs: "next_assignments hcl d (policy_Name document) document id bs"
    and may: "may_write g (policy_Name document)"
    and held: "\<And>b. b \<in> set (Bindings [] d) \<Longrightarrow> HasPolicy b (policy_Name document) \<Longrightarrow> may_change g b"
  shows "beyond g d d'"
proof -
  let ?d = "save_policy_row document operator now d"
  have tables: "db_bindings ?d = db_bindings d" "db_binding_policies ?d = db_binding_policies d" "db_agents ?d = db_agents d" "db_operator_keys ?d = db_operator_keys d"
    by (simp_all add: save_policy_row_tables)
  note r = reassigned_rows[OF bs ok SavePolicyBindings_Inr(2)[OF save] tables(1)]
  have names: "binding_names i d' = binding_names i d" for i
    by (simp add: binding_names_def r(2) tables)
  have "outside_bindings g d' = outside_bindings g d"
  proof (rule outside_bindings_map[where f = "fold reassign bs"])
    show "db_bindings d' = map (fold reassign bs) (db_bindings d)" by (simp add: r(2))
  next
    fix x assume x: "x \<in> set (db_bindings d)"
    show "(scanBinding d' (fold reassign bs x))\<lparr>bind_Applied := True\<rparr> = (scanBinding d x)\<lparr>bind_Applied := True\<rparr> \<or>
        may_change g (scanBinding d x) \<and> may_change g (scanBinding d' (fold reassign bs x))"
    proof (cases "(brow_id x, policy_Name document) \<in> set (db_binding_policies d)")
      case False
      then show ?thesis using r(3)[OF x] by (simp add: scanBinding_def names)
    next
      case True
      then have "may_change g (scanBinding d x)"
        using held[of "scanBinding d x"] x by (simp add: HasPolicy_scan set_Bindings)
      moreover have "\<exists>b. fold reassign bs x = assigned b x" using r(4)[OF x True] by blast
      then have "may_change g (scanBinding d' (fold reassign bs x)) = may_change g (scanBinding d x)"
        by (auto simp: scanBinding_def names may_change_def assigned_def)
      ultimately show ?thesis by simp
    qed
  qed
  moreover have "outside_policies g d' = outside_policies g d"
  proof -
    have "outside_policies g d' = outside_policies g ?d" by (simp add: outside_policies_def r(2))
    also have "\<dots> = outside_policies g d"
      using may by (auto simp: outside_policies_def save_policy_row_def Let_def upsert_policy_def set_where_def policy_row_of_def saved_policy_def)
    finally show ?thesis .
  qed
  ultimately show ?thesis by (simp add: beyond_def r(2) tables)
qed

section \<open>Programs that keep a frame\<close>

text \<open>\<open>keeps K m\<close>: whatever fails, \<open>m\<close> leaves a database that satisfies \<open>K\<close> with one that does.\<close>

definition keeps :: "(db \<Rightarrow> bool) \<Rightarrow> ('r world, 'a) state \<Rightarrow> bool" where
  "keeps K m \<longleftrightarrow> triple True (\<lambda>d r p. K d) m (\<lambda>_ d r p. K d)"

named_theorems keeps_rules

lemma keeps_ret [keeps_rules]: "keeps K (ret x)"
  unfolding keeps_def by (rule triple_ret)

lemma keeps_bind [keeps_rules]: "keeps K m \<Longrightarrow> (\<And>x. keeps K (k x)) \<Longrightarrow> keeps K (State_Monad.bind m k)"
  unfolding keeps_def by (rule triple_bind)

lemma keeps_attempt [keeps_rules]: "keeps K m \<Longrightarrow> (\<And>e. keeps K (h e)) \<Longrightarrow> (\<And>x. keeps K (k x)) \<Longrightarrow> keeps K (attempt m h k)"
  unfolding keeps_def by (rule triple_attempt)

lemma keeps_check [keeps_rules]: "keeps K m \<Longrightarrow> (\<And>e. keeps K (h e)) \<Longrightarrow> keeps K k \<Longrightarrow> keeps K (check m h k)"
  unfolding keeps_def by (rule triple_check)

lemma keeps_if [keeps_rules]: "(c \<Longrightarrow> keeps K m) \<Longrightarrow> (\<not> c \<Longrightarrow> keeps K m') \<Longrightarrow> keeps K (if c then m else m')"
  by simp

lemma keeps_basic [keeps_rules]:
  "keeps K (store_read f)" "keeps K (bao_call g)" "keeps K (bao_check h)" "keeps K (log_event e)"
  "keeps K (change_session i s)" "keeps K (session_send i m)" "keeps K (set_pending b)" "keeps K get_pending"
  unfolding keeps_def
  by (rule triple_post[OF triple_store_read] triple_post[OF triple_bao_call] triple_post[OF triple_bao_check] triple_log triple_change_session triple_session_send
      triple_post[OF triple_set_pending] triple_post[OF triple_get_pending]; auto)+

lemma keeps_clock [keeps_rules]: "keeps K now_read" "keeps K (read_rest q)"
  by (auto simp: keeps_def triple_def holds_in_def now_read_def read_rest_def)

lemma keeps_reads [keeps_rules]:
  "keeps K (compose hcl names settings replacement)" "keeps K (preflight env bs)" "keeps K (recompose_saved env document bs)"
  "keeps K (ctl_record event)" "keeps K (recordBinding names event)"
  unfolding keeps_def
  by (rule triple_post[OF compose_triple] preflight_triple triple_post[OF recompose_saved_triple] ctl_record_triple recordBinding_triple; auto)+

lemma keeps_close [keeps_rules]: "keeps K (close i)"
  unfolding close_def by (intro keeps_rules)

lemma keeps_hub_send [keeps_rules]: "keeps K (hub_send agent m)"
  unfolding hub_send_def by (auto split: option.split intro!: keeps_rules)

text \<open>A frame that marking a binding as applied keeps.\<close>

locale mark_frame =
  fixes K :: "db \<Rightarrow> bool"
  assumes marked: "K d \<Longrightarrow> K (MarkBindingApplied i d)"
begin

lemma keeps_mark: "keeps K (store_check (store_set (MarkBindingApplied i)))"
  unfolding keeps_def
  by (rule triple_post[OF triple_store_check[OF triple_store_set]]) (auto split: if_splits intro: marked)

lemma keeps_applyBinding: "keeps K (applyBinding env b)"
proof -
  have "keeps K (revoke_and_mark env b a)" for a
    unfolding revoke_and_mark_def by (intro keeps_rules keeps_mark)
  then show ?thesis
    unfolding applyBinding_def by (intro keeps_rules)
qed

lemma keeps_apply_all: "keeps K (apply_all env bs)"
  by (induction bs) (auto intro!: keeps_rules keeps_applyBinding)

lemma keeps_syncPolicies: "keeps K (syncPolicies env)"
proof -
  have "keeps K (publish_all env ss)" for ss
    by (induction ss) (auto intro!: keeps_rules)
  then show ?thesis
    unfolding syncPolicies_def by (intro keeps_rules)
qed

lemma keeps_restorePolicy: "keeps K (restorePolicy env p old)"
  unfolding restorePolicy_def by (cases old) (auto intro!: keeps_rules)

lemma keeps_issue_all: "keeps K (issue_all env i agent bs)"
proof -
  have "keeps K (issue_credential env agent b)" for b
    unfolding issue_credential_def Let_def by (intro keeps_rules) (auto split: sum.split intro!: keeps_rules)
  then have "keeps K (issue env i agent b)" for b
    unfolding issue_def prepareCredential_def
    by (intro keeps_rules keeps_syncPolicies keeps_applyBinding) (auto split: option.split intro!: keeps_rules)
  then show ?thesis
    by (induction bs) (auto intro!: keeps_rules)
qed

lemma keeps_push_agents: "keeps K (push_agents env agents)"
proof (induction agents)
  case (Cons agent agents)
  have "keeps K (push env i)" for i
    unfolding push_def Let_def by (intro keeps_rules keeps_issue_all)
  then have "keeps K (pushAgent env agent)" for agent
    unfolding pushAgent_def by (intro keeps_rules) (auto split: option.split intro!: keeps_rules)
  then show ?case using Cons by (auto intro!: keeps_rules)
qed (auto intro!: keeps_rules)

lemma keeps_pushAgent: "keeps K (pushAgent env agent)"
  using keeps_push_agents[of env "[agent]"] by (simp add: State_Monad.bind_assoc)

lemmas keeps_marks = keeps_applyBinding keeps_apply_all keeps_syncPolicies keeps_restorePolicy keeps_push_agents keeps_pushAgent

end

interpretation beyond_frame: mark_frame "beyond g d" for g d
  by unfold_locales (rule beyond_mark)

section \<open>Changes inside the grant\<close>

abbreviation at :: "db \<Rightarrow> 'r assertion" where
  "at d0 \<equiv> (\<lambda>d r p. d = d0)"

abbreviation beyond_at :: "Grant option \<Rightarrow> db \<Rightarrow> 'r assertion" where
  "beyond_at g d0 \<equiv> (\<lambda>d r p. beyond g d0 d)"

lemma beyond_keeps: "keeps (beyond g d0) m \<Longrightarrow> triple True (beyond_at g d0) m (\<lambda>_. beyond_at g d0)"
  by (simp add: keeps_def)

lemma at_keeps: "(\<And>K. keeps K m) \<Longrightarrow> triple True (at d0) m (\<lambda>_. at d0)"
  by (simp add: keeps_def)

lemma at_beyond: "triple True (beyond_at g d0) m Q \<Longrightarrow> triple True (at d0) m Q"
  by (erule triple_pre) (simp add: beyond_refl)

definition saved_as :: "string \<Rightarrow> policy_result \<Rightarrow> bool" where
  "saved_as name x \<longleftrightarrow> (snd (snd x) = None \<longrightarrow> (\<exists>p. fst x = Some p \<and> policy_Name p = name))"

lemma policy_fail_triple: "(\<And>d r p. P d r p \<Longrightarrow> beyond g d0 d) \<Longrightarrow> triple L P (policy_fail agents e) (\<lambda>x d r p. beyond g d0 d \<and> saved_as name x)"
  unfolding policy_fail_def by (rule triple_ret) (simp add: saved_as_def)

lemma publish_saved_authority:
  assumes "db_ok d0" "may_write g (policy_Name document)"
    and "\<And>b. b \<in> set (Bindings [] d0) \<Longrightarrow> HasPolicy b (policy_Name document) \<Longrightarrow> may_change g b"
    and "next_assignments hcl d0 (policy_Name document) document id affected"
  shows "triple True (at d0) (publish_saved env document old affected operator) (\<lambda>x d r p. beyond g d0 d \<and> saved_as (policy_Name document) x)"
    (is "triple True _ _ ?Q")
proof -
  have fail: "triple True (beyond_at g d0) (policy_fail agents e) ?Q" for agents e
    by (rule policy_fail_triple)
  have restore: "triple True (beyond_at g d0) (check (restorePolicy env document old) (\<lambda>_. policy_fail [] e) (policy_fail [] e')) ?Q" for e e'
    by (rule triple_check[OF beyond_keeps[OF beyond_frame.keeps_restorePolicy] fail fail])
  have stmt: "triple True (at d0) (store_write (SavePolicyBindings document affected operator t))
      (\<lambda>x d r p. beyond g d0 d \<and> (\<forall>saved. x = Inr saved \<longrightarrow> policy_Name saved = policy_Name document))" for t
  proof (rule triple_post[OF triple_store_write], goal_cases)
    case (1 x d r p)
    have "beyond g d0 d \<and> policy_Name saved = policy_Name document" if "SavePolicyBindings document affected operator t d0 = Inr (saved, d)" for saved
      using beyond_save[OF that assms(1,4,2,3)] SavePolicyBindings_Inr(1)[OF that] by (simp add: saved_policy_def)
    then show ?case using 1 by (cases x) (auto simp: beyond_refl)
  qed
  have finish: "triple True (\<lambda>d r p. beyond g d0 d \<and> (\<forall>s. Inr saved = Inr s \<longrightarrow> policy_Name s = policy_Name document))
      (do { results \<leftarrow> apply_all env affected;
            ret (Some saved, map bind_Agent affected,
              if failures_of results = [] then None
              else Some (operationError (openBaoError (last (failures_of results))) SavedTransitionPending)) }) ?Q" (is "triple True ?P ?m _") for saved
  proof (rule triple_fact[where c = "policy_Name saved = policy_Name document"])
    assume "policy_Name saved = policy_Name document"
    then have "triple True (beyond_at g d0) ?m ?Q"
      by (intro triple_bind[OF beyond_keeps[OF beyond_frame.keeps_apply_all] triple_ret]) (simp add: saved_as_def)
    then show "triple True ?P ?m ?Q" by (rule triple_pre) simp
  qed simp
  have lost: "triple True (\<lambda>d r p. beyond g d0 d \<and> (\<forall>s. Inl e = Inr s \<longrightarrow> policy_Name s = policy_Name document))
      (check (restorePolicy env document old) (\<lambda>_. policy_fail [] e1) (policy_fail [] e2)) ?Q" for e :: store_failure and e1 e2
    by (rule triple_pre[OF restore]) simp
  show ?thesis
    unfolding publish_saved_def
    by (rule triple_bind[OF at_keeps[OF keeps_basic(2)]], split option.split,
        intro conjI allI impI triple_if at_beyond[OF fail] at_beyond[OF restore] triple_now[OF triple_attempt[OF stmt lost finish]])
qed

lemma savePolicy_authority:
  fixes env :: "'r ctl_env"
  assumes "db_ok d0" "may_write g (policy_Name document)"
    and "\<And>b. b \<in> set (Bindings [] d0) \<Longrightarrow> HasPolicy b (policy_Name document) \<Longrightarrow> may_change g b"
  shows "triple True (at d0) (savePolicy env document operator) (\<lambda>x d r p. beyond g d0 d \<and> saved_as (policy_Name document) x)"
    (is "triple True _ _ ?Q")
proof -
  have fail: "triple True P (policy_fail agents e) ?Q" if "\<And>d r p. P d r p \<Longrightarrow> d = d0" for P :: "'r assertion" and agents e
    using that by (intro policy_fail_triple) (auto simp: beyond_refl dest: that)
  have stored_name: "store_Policy (ce_hcl env) n d0 = Inr s \<Longrightarrow> policy_Name (stored_Policy s) = n" for n s
    using assms(1) looked_up_row(1)[of "ce_hcl env" d0 None n "stored_Policy s"] by (auto simp: looked_up_def)
  have doc: "triple True (at d0) (save_document env q old operator) ?Q" if q: "policy_Name q = policy_Name document" for q old
  proof -
    have "triple True (\<lambda>d r p. d = d0 \<and> (\<forall>as. Inr affected = Inr as \<longrightarrow>
          list_all2 (next_assignment (ce_hcl env) d q id) (filter (\<lambda>b. HasPolicy b (policy_Name q)) (Bindings [] d0)) as))
        (check (preflight env affected) (policy_fail []) (publish_saved env q old affected operator)) ?Q" for affected
    proof (rule triple_fact[where c = "next_assignments (ce_hcl env) d0 (policy_Name q) q id affected"])
      assume "next_assignments (ce_hcl env) d0 (policy_Name q) q id affected"
      then show "triple True (\<lambda>d r p. d = d0 \<and> (\<forall>as. Inr affected = Inr as \<longrightarrow>
          list_all2 (next_assignment (ce_hcl env) d q id) (filter (\<lambda>b. HasPolicy b (policy_Name q)) (Bindings [] d0)) as))
        (check (preflight env affected) (policy_fail []) (publish_saved env q old affected operator)) ?Q"
        using assms q by (intro triple_pre[OF triple_check[OF preflight_triple fail publish_saved_authority[of d0 g q, unfolded q]]]) auto
    qed (auto simp: next_assignments_def)
    then have step: "triple True (\<lambda>d r p. d = d0 \<and> bindings = Bindings [] d0)
        (attempt (recompose_saved env q bindings) (policy_fail []) (\<lambda>affected. check (preflight env affected) (policy_fail [])
          (publish_saved env q old affected operator))) ?Q" for bindings
      by (intro triple_fact[where c = "bindings = Bindings [] d0", OF triple_pre[OF triple_attempt[OF recompose_saved_triple[where P = "at d0"] fail]]]) auto
    show ?thesis
      unfolding save_document_def
      by (rule triple_attempt[OF triple_store_read[where P = "at d0"] fail triple_pre[OF step]]) auto
  qed
  have names: "keeps K (confirm_names exists unconfirmed ns)" for K exists unconfirmed ns
    by (induction ns) (auto intro!: keeps_rules)
  have unchanged: "triple True (\<lambda>d r p. d = d0 \<and> (\<forall>y. Inr old = Inr y \<longrightarrow> store_Policy (ce_hcl env) (policy_Name document) d = Inr y)
      \<and> (\<forall>e. Inr old = Inl (StoreErr e) \<longrightarrow> store_Policy (ce_hcl env) (policy_Name document) d = Inl e))
      (let document = document\<lparr>policy_Generation := policy_Generation (stored_Policy old)\<rparr>
       in if ce_DeepEqual env ((Policy_Clone (stored_Policy old))\<lparr>policy_Revision := 0\<rparr>) ((Policy_Clone document)\<lparr>policy_Revision := 0\<rparr>)
          then ret (Some (stored_Policy old), [], None)
          else save_document env (document\<lparr>policy_Revision := policy_Revision (stored_Policy old) + 1\<rparr>) (Some (stored_Policy old)) operator) ?Q" for old
    unfolding Let_def
    by (intro triple_if triple_ret triple_pre[OF doc]) (auto simp: saved_as_def beyond_refl dest: stored_name)
  show ?thesis
  proof (cases "Policy_Validate (ce_hcl env) document")
    case None
    show ?thesis
      unfolding savePolicy_def None option.case
      by (rule triple_check[OF at_keeps[OF names] fail triple_check[OF at_keeps[OF names] fail
            triple_attempt[OF triple_store_read triple_if[OF fail triple_attempt[OF triple_store_read fail triple_pre[OF doc]]] unchanged]]]) auto
  next
    case (Some e)
    show ?thesis
      unfolding savePolicy_def Some option.case by (rule fail)
  qed
qed

lemma createBinding_authority:
  fixes env :: "'r ctl_env"
  assumes "db_ok d0" "Can grant ActionBind" "Covers grant agent (sel_Policies request)"
  shows "triple True (at d0) (createBinding env random agent key request operator)
    (\<lambda>x d r p. beyond (Some grant) d0 d \<and> (\<forall>b. fst x = Some b \<longrightarrow> Covers grant (bind_Agent b) (bind_Policies b)))"
    (is "triple True _ _ ?Q")
proof -
  have fail: "triple True P (ret (None, Some e)) ?Q" if "\<And>d r p. P d r p \<Longrightarrow> d = d0" for P :: "'r assertion" and e
    by (rule triple_ret) (auto simp: beyond_refl dest: that)
  have create: "triple True (at d0) (check (preflight env [b]) (\<lambda>e. ret (None, Some e))
      (check (store_exec (CreateBinding b)) (\<lambda>_. ret (None, Some (operationError ErrorPolicyDenied KeyAlreadyBound)))
      (check (applyBinding env b) (\<lambda>e. ret (Some b, Some (operationError (openBaoError e) BindingSavedPending)))
        (ret (Some (b\<lparr>bind_Applied := True\<rparr>), None))))) ?Q"
    if b: "may_change (Some grant) b" for b
  proof -
    have cov: "Covers grant (bind_Agent b) (bind_Policies b)" using b by (simp add: may_change_def)
    have "triple True (at d0) (store_exec (CreateBinding b)) (\<lambda>_. beyond_at (Some grant) d0)"
      by (rule triple_post[OF triple_store_exec]) (auto intro: beyond_create[OF _ b] beyond_refl split: option.splits)
    then show ?thesis
      using cov by (intro triple_check[OF preflight_triple fail triple_check[OF _ triple_ret triple_check[OF beyond_keeps[OF beyond_frame.keeps_applyBinding] triple_ret triple_ret]]])
        auto
  qed
  have made: "triple True (\<lambda>d r p. d = d0 \<and> (\<forall>e. Inr effective = Inr e \<longrightarrow> composed_of (ce_hcl env) d None (sel_Policies request) (sel_Settings request) e))
      (do { t \<leftarrow> now_read;
            let b = new_binding (NewID ''b-'' random) agent key effective operator t;
            check (preflight env [b]) (\<lambda>e. ret (None, Some e))
           (check (store_exec (CreateBinding b)) (\<lambda>_. ret (None, Some (operationError ErrorPolicyDenied KeyAlreadyBound)))
           (check (applyBinding env b) (\<lambda>e. ret (Some b, Some (operationError (openBaoError e) BindingSavedPending)))
             (ret (Some (b\<lparr>bind_Applied := True\<rparr>), None)))) }) ?Q" (is "triple True ?P ?m ?Q") for effective
  proof (rule triple_fact[where c = "composed_of (ce_hcl env) d0 None (sel_Policies request) (sel_Settings request) effective"])
    assume "composed_of (ce_hcl env) d0 None (sel_Policies request) (sel_Settings request) effective"
    then have "may_change (Some grant) (new_binding (NewID ''b-'' random) agent key effective operator t)" for t
      using composed_of_facts(1)[OF _ assms(1)] assms(2,3) by (auto simp: may_change_def new_binding_def Covers_def list_all_iff)
    then have "triple True (at d0) ?m ?Q"
      unfolding Let_def by (intro triple_now create)
    then show "triple True ?P ?m ?Q" by (rule triple_pre) simp
  qed auto
  have groups: "triple True (at d0) (case validateAccessGroup groups (settings_AccessGroup (sel_Settings request)) of
        Some e \<Rightarrow> ret (None, Some e)
      | None \<Rightarrow> attempt (compose (ce_hcl env) (sel_Policies request) (sel_Settings request) None) (\<lambda>e. ret (None, Some e))
         (\<lambda>effective. do { t \<leftarrow> now_read;
            let b = new_binding (NewID ''b-'' random) agent key effective operator t;
            check (preflight env [b]) (\<lambda>e. ret (None, Some e))
           (check (store_exec (CreateBinding b)) (\<lambda>_. ret (None, Some (operationError ErrorPolicyDenied KeyAlreadyBound)))
           (check (applyBinding env b) (\<lambda>e. ret (Some b, Some (operationError (openBaoError e) BindingSavedPending)))
             (ret (Some (b\<lparr>bind_Applied := True\<rparr>), None)))) })) ?Q" for groups
    by (split option.split, intro conjI allI impI fail triple_attempt[OF compose_triple[where P = "at d0"] fail made]) auto
  show ?thesis
    unfolding createBinding_def
    by (rule triple_if[OF fail triple_attempt[OF triple_store_read[where P = "at d0"] fail triple_pre[OF triple_read_rest[OF groups]]]]) auto
qed

lemma deleteBinding_authority:
  assumes "db_ok d0" "store_Binding bid d0 = Inr b" "may_change g b"
  shows "triple True (at d0) (deleteBinding env bid operator connected) (\<lambda>_. beyond_at g d0)"
proof -
  have retire: "triple True (at d0) (store_write (RetireBinding bid t)) (\<lambda>_. beyond_at g d0)" for t
    by (rule triple_post[OF triple_store_write]) (auto intro: beyond_retire[OF _ assms(2,3,1)] beyond_refl split: sum.splits)
  show ?thesis
    unfolding deleteBinding_def
    by (rule triple_now, rule triple_attempt[OF triple_store_read[where P = "at d0"] triple_ret], simp add: beyond_refl,
        rule triple_bind[OF triple_post[OF triple_bao_call] triple_now[OF triple_bind[OF retire beyond_keeps]]])
      (auto split: sum.split prod.split intro!: keeps_rules)
qed

lemma listed_binding:
  assumes "db_ok d" "b \<in> set (Bindings agent d)"
  shows "store_Binding (bind_ID b) d = Inr b"
proof -
  obtain r where r: "r \<in> set (db_bindings d)" "b = scanBinding d r" using assms(2) by (auto simp: Bindings_def)
  then have "row_by brow_id (brow_id r) (db_bindings d) = Some r"
    using assms(1) by (simp add: row_by_distinct db_ok_def bindings_ok_def)
  then show ?thesis using r(2) by (simp add: store_Binding_def scanBinding_def)
qed

section \<open>Requests\<close>

text \<open>What an answer may show to a key with a grant.\<close>

definition within :: "Grant \<Rightarrow> op_error + op_body \<Rightarrow> bool" where
  "within grant x \<longleftrightarrow>
     (case x of
        Inr (BodyPolicies ps) \<Rightarrow> Can grant ActionRead \<and> (\<forall>p\<in>set ps. AllowsPolicy grant (opp_Name p))
      | Inr (BodyPolicy p) \<Rightarrow> (Can grant ActionRead \<or> Can grant ActionPolicyWrite) \<and> AllowsPolicy grant (opp_Name p)
      | Inr (BodyBindings bs) \<Rightarrow> Can grant ActionRead \<and> (\<forall>b\<in>set bs. Covers grant (opb_Agent b) (opb_Policies b))
      | Inr (BodyBinding b) \<Rightarrow> (Can grant ActionRead \<or> Can grant ActionBind) \<and> Covers grant (opb_Agent b) (opb_Policies b)
      | _ \<Rightarrow> True)"

lemma within_Inl [simp]: "within grant (Inl e)"
  by (simp add: within_def)

lemma stored_policy_name: "db_ok d \<Longrightarrow> store_Policy hcl n d = Inr s \<Longrightarrow> policy_Name (stored_Policy s) = n"
  using looked_up_row(1)[of hcl d None n "stored_Policy s"] by (auto simp: looked_up_def)

lemma publicPolicy_name [simp]: "opp_Name (publicPolicy hcl p) = policy_Name p"
  by (simp add: publicPolicy_def)

lemma publicBinding_of: "publicBinding co b status = Inr x \<Longrightarrow> opb_Agent x = bind_Agent b \<and> opb_Policies x = bind_Policies b"
  by (auto simp: publicBinding_def split: option.splits)

abbreviation answers :: "Grant \<Rightarrow> db \<Rightarrow> op_error + op_body \<Rightarrow> 'r assertion" where
  "answers grant d0 \<equiv> (\<lambda>x d r p. beyond (Some grant) d0 d \<and> within grant x)"

lemma refuse_triple: "(\<And>d r p. P d r p \<Longrightarrow> beyond (Some grant) d0 d) \<Longrightarrow> triple L P (ret (Inl e)) (answers grant d0)"
  by (rule triple_ret) simp

lemma readOperatorBinding_authority:
  assumes "Can grant ActionRead \<or> Can grant ActionBind" "Covers grant (bind_Agent b) (bind_Policies b)"
  shows "triple True (beyond_at (Some grant) d0) (readOperatorBinding env co b) (answers grant d0)"
proof -
  have "within grant (map_sum id BodyBinding (publicBinding co b s))" for s
    using assms publicBinding_of[of co b s] by (cases "publicBinding co b s") (auto simp: within_def)
  then show ?thesis
    unfolding readOperatorBinding_def
    by (intro triple_read_rest triple_attempt[OF triple_store_read refuse_triple triple_ret]) auto
qed

lemma operatorBindings_authority: "triple True (at d0) (operatorBindings env co key agent) (answers (opk_Grant key) d0)"
proof -
  have l: "triple True (at d0) (list_bindings env co grant statuses bs) (\<lambda>x d r p. d = d0 \<and> (\<forall>l. x = Inr l \<longrightarrow> (\<forall>b\<in>set l. Covers grant (opb_Agent b) (opb_Policies b))))"
    (is "triple True _ _ ?Q") for grant statuses bs
  proof (induction bs arbitrary: statuses)
    case (Cons b bs)
    have stat: "triple True (at d0) (case map_of statuses (bind_Agent b) of Some l \<Rightarrow> ret (Inr l) | None \<Rightarrow> operator_statuses env (bind_Agent b)) (\<lambda>_. at d0)"
      by (rule at_keeps, cases "map_of statuses (bind_Agent b)") (auto simp: operator_statuses_def intro!: keeps_rules)
    have item: "triple True (at d0) (case publicBinding co b s of Inl e \<Rightarrow> ret (Inl e)
        | Inr public \<Rightarrow> attempt (list_bindings env co grant st bs) (\<lambda>e. ret (Inl e)) (\<lambda>rest. ret (Inr (public # rest)))) ?Q"
      if "Covers grant (bind_Agent b) (bind_Policies b)" for s st
      by (cases "publicBinding co b s") (use publicBinding_of[of co b s] that in \<open>auto intro!: triple_ret triple_attempt[OF Cons.IH]\<close>)
    show ?case
      by (simp, intro conjI impI Cons.IH triple_attempt[OF stat triple_ret item]) auto
  qed (simp, rule triple_ret, simp)
  show ?thesis
    unfolding operatorBindings_def
    by (rule triple_if[OF refuse_triple triple_attempt[OF triple_store_read[where P = "at d0"] refuse_triple triple_pre[OF triple_attempt[OF l refuse_triple triple_ret]]]])
      (auto simp: beyond_refl within_def)
qed

lemma operator_reads_authority:
  assumes "db_ok d0"
  shows "triple True (at d0) (operatorPolicies env key) (answers (opk_Grant key) d0)"
    "triple True (at d0) (operatorPolicy env key name) (answers (opk_Grant key) d0)"
    "triple True (at d0) (operatorBinding env co key bid) (answers (opk_Grant key) d0)"
proof -
  show "triple True (at d0) (operatorPolicies env key) (answers (opk_Grant key) d0)"
    unfolding operatorPolicies_def
    by (rule triple_if[OF refuse_triple triple_attempt[OF triple_store_read[where P = "at d0"] refuse_triple triple_ret]]) (auto simp: beyond_refl within_def)
  show "triple True (at d0) (operatorPolicy env key name) (answers (opk_Grant key) d0)"
    unfolding operatorPolicy_def
    by (rule triple_if[OF refuse_triple triple_attempt[OF triple_store_read[where P = "at d0"] refuse_triple triple_ret]])
      (auto simp: beyond_refl within_def dest: stored_policy_name[OF assms])
  show "triple True (at d0) (operatorBinding env co key bid) (answers (opk_Grant key) d0)"
    unfolding operatorBinding_def
    by (rule triple_if[OF refuse_triple triple_attempt[OF triple_store_read[where P = "at d0"] refuse_triple
            triple_if[OF refuse_triple triple_pre[OF readOperatorBinding_authority]]]]) (auto simp: beyond_refl)
qed

lemma put_document_name: "(\<forall>s. stored = Some s \<longrightarrow> policy_Name s = put_Name put) \<Longrightarrow> policy_Name (put_document put stored) = put_Name put"
  by (auto simp: put_document_def New_def Policy_Clone_def Let_def split: option.split)

definition put_saved :: "string \<Rightarrow> put_result \<Rightarrow> bool" where
  "put_saved name x \<longleftrightarrow> (snd (snd x) = None \<longrightarrow> (\<exists>p. fst x = Some p \<and> policy_Name p = name))"

lemma authorizedPutPolicy_authority:
  fixes env :: "'r ctl_env"
  assumes "db_ok d0"
  shows "triple True (at d0) (authorizedPutPolicy env key put subject)
    (\<lambda>x d r p. beyond (Some (opk_Grant key)) d0 d \<and> (snd (snd x) = None \<longrightarrow> Can (opk_Grant key) ActionPolicyWrite \<and> AllowsPolicy (opk_Grant key) (put_Name put))
      \<and> put_saved (put_Name put) x)" (is "triple True _ _ ?Q")
proof -
  let ?g = "opk_Grant key"
  have fail: "triple True P (ret (None, agents, Some e)) ?Q" if "\<And>d r p. P d r p \<Longrightarrow> d = d0" for P :: "'r assertion" and agents e
    by (rule triple_ret) (auto simp: put_saved_def beyond_refl dest: that)
  have save: "triple True (at d0) (save_put env (put_document put stored) subject) ?Q"
    if may: "may_write (Some ?g) (put_Name put)" and held: "\<And>b. b \<in> set (Bindings [] d0) \<Longrightarrow> HasPolicy b (put_Name put) \<Longrightarrow> may_change (Some ?g) b"
      and stored: "\<forall>s. stored = Some s \<longrightarrow> policy_Name s = put_Name put" for stored
  proof -
    note name = put_document_name[OF stored]
    have "triple True (at d0) (savePolicy env (put_document put stored) subject)
        (\<lambda>x d r p. beyond (Some ?g) d0 d \<and> saved_as (put_Name put) x)"
      using savePolicy_authority[OF assms, of "Some ?g" "put_document put stored" env subject] may held unfolding name by blast
    then show ?thesis
      unfolding save_put_def
      by (rule triple_bind) (use may in \<open>auto intro!: triple_ret simp: saved_as_def put_saved_def may_write_def\<close>)
  qed
  have cont: "triple True (at d0)
      (attempt (store_read (store_Policy (ce_hcl env) (put_Name put)))
         (\<lambda>e. if e = StoreErr ErrNotFound then save_put env (put_document put None) subject
              else ret (None, [], Some (OpSession ErrorInternal SessionPolicyUnreadable)))
         (\<lambda>stored. save_put env (put_document put (Some (stored_Policy stored))) subject)) ?Q"
    if may: "may_write (Some ?g) (put_Name put)" and held: "\<And>b. b \<in> set (Bindings [] d0) \<Longrightarrow> HasPolicy b (put_Name put) \<Longrightarrow> may_change (Some ?g) b"
  proof (rule triple_attempt[OF triple_store_read[where P = "at d0"] triple_if[OF triple_pre[OF save] fail]], goal_cases)
    case (6 stored)
    show ?case
      by (rule triple_fact[where c = "policy_Name (stored_Policy stored) = put_Name put"], rule triple_pre[OF save[OF may held]])
        (auto dest: stored_policy_name[OF assms])
  qed (use may held in auto)
  show ?thesis
    unfolding authorizedPutPolicy_def
  proof (rule triple_if[OF fail triple_attempt[OF triple_store_read[where P = "at d0"] fail]], goal_cases)
    case (3 bindings)
    show ?case
    proof (rule triple_fact[where c = "bindings = Bindings [] d0"], rule triple_if[OF fail], goal_cases)
      case 2
      have may: "may_write (Some ?g) (put_Name put)" using 3 by (simp add: may_write_def)
      have held: "may_change (Some ?g) b" if "b \<in> set (Bindings [] d0)" "HasPolicy b (put_Name put)" for b
        using 2 3 that by (auto simp: may_change_def list_ex_iff)
      show ?case by (rule triple_pre[OF cont[OF may held]]) auto
    qed auto
  qed auto
qed

lemma operatorPutPolicy_authority:
  assumes "db_ok d0"
  shows "triple True (at d0) (operatorPutPolicy env key put) (answers (opk_Grant key) d0)"
proof -
  let ?g = "opk_Grant key"
  have "triple True (\<lambda>d r p. beyond (Some ?g) d0 d \<and> (err = None \<longrightarrow> Can ?g ActionPolicyWrite \<and> AllowsPolicy ?g (put_Name put)) \<and> put_saved (put_Name put) (saved, agents, err))
     (do { t \<leftarrow> now_read;
           ctl_record (policy_event ''policy-saved'' (session_code err) (boundedPolicyName (put_Name put)) (OperatorSubject (opk_Label key)) started t);
           push_agents env (remdups agents);
           ret (case (err, saved) of
              (None, Some p) \<Rightarrow> Inr (BodyPolicy (publicPolicy (ce_hcl env) p))
            | (None, None) \<Rightarrow> Inr (BodyPolicy \<lparr>opp_Name = [], opp_Revision = 0, opp_HCL = [], opp_SSH = None, opp_ValueNames = []\<rparr>)
            | (Some e, Some _) \<Rightarrow> Inl (OpPending e)
            | (Some e, None) \<Rightarrow> Inl e) }) (answers ?g d0)" (is "triple True ?P ?m _") for saved agents err started
  proof (rule triple_fact[where c = "(err = None \<longrightarrow> Can ?g ActionPolicyWrite \<and> AllowsPolicy ?g (put_Name put)) \<and> put_saved (put_Name put) (saved, agents, err)"])
    assume c: "(err = None \<longrightarrow> Can ?g ActionPolicyWrite \<and> AllowsPolicy ?g (put_Name put)) \<and> put_saved (put_Name put) (saved, agents, err)"
    have "triple True (beyond_at (Some ?g) d0) ?m (answers ?g d0)"
      by (intro triple_now triple_bind[OF ctl_record_triple] triple_bind[OF beyond_keeps[OF beyond_frame.keeps_push_agents]] triple_ret)
        (use c in \<open>auto simp: within_def put_saved_def split: option.splits\<close>)
    then show "triple True ?P ?m (answers ?g d0)" by (rule triple_pre) simp
  qed blast
  then show ?thesis
    unfolding operatorPutPolicy_def
    by (intro triple_now triple_bind[OF authorizedPutPolicy_authority[OF assms]]) (auto split: prod.split)
qed

lemma findBinding_at: "triple True (at d0) (findBinding agent k) (\<lambda>x d r p. d = d0 \<and> (\<forall>b. x = Inr (Some b) \<longrightarrow> b \<in> set (Bindings agent d0)))"
  unfolding findBinding_def
  by (rule triple_attempt[OF triple_store_read[where P = "at d0"] triple_ret triple_ret]) (auto simp: find_Some_iff)

lemma denied_triple: "triple True (beyond_at (Some grant) d0) (do { recordDenied operation agent subject; ret (Inl e) }) (answers grant d0)"
  unfolding recordDenied_def by (intro triple_bind[OF ctl_record_triple] refuse_triple)

lemma repeatBind_authority:
  "triple True (beyond_at (Some (opk_Grant key)) base) (repeatBind env key existing selection)
    (\<lambda>x d r p. beyond (Some (opk_Grant key)) base d \<and> (\<forall>b. x = Inr b \<longrightarrow> Covers (opk_Grant key) (bind_Agent b) (bind_Policies b)))"
  unfolding repeatBind_def
  by (rule triple_if[OF triple_ret triple_attempt[OF beyond_keeps[OF keeps_reads(1)] triple_ret
        triple_if[OF triple_ret triple_check[OF beyond_keeps[OF beyond_frame.keeps_applyBinding] triple_ret triple_ret]]]]) auto

lemma operatorBind_authority:
  fixes env :: "'r ctl_env"
  assumes "db_ok d0"
  shows "triple True (at d0) (operatorBind env co random key request) (answers (opk_Grant key) d0)"
proof -
  let ?g = "opk_Grant key" and ?agent = "breq_Agent request" and ?subject = "OperatorSubject (opk_Label key)"
  have existing: "triple True P (do {
       x \<leftarrow> repeatBind env key b (bind_selection request);
       case x of
         Inl e \<Rightarrow> do { (if e = outsideGrant then recordDenied ''binding-created'' ?agent ?subject else ret ()); ret (Inl e) }
       | Inr applied \<Rightarrow> do { (if \<not> bind_Applied b then pushAgent env ?agent else ret ()); readOperatorBinding env co applied } }) (answers ?g d0)"
    if "Can ?g ActionBind" "\<And>d r p. P d r p \<Longrightarrow> beyond (Some ?g) d0 d" for P :: "'r assertion" and b
  proof (rule triple_pre[OF triple_bind[OF repeatBind_authority[where base = d0]]], goal_cases)
    case (1 x)
    show ?case
    proof (cases x)
      case (Inl e)
      have "keeps K (if e = outsideGrant then recordDenied ''binding-created'' ?agent ?subject else ret ())" for K
        unfolding recordDenied_def by (intro keeps_rules)
      then show ?thesis
        unfolding Inl sum.case by (intro triple_pre[OF triple_bind[OF beyond_keeps refuse_triple]]) auto
    next
      case (Inr applied)
      show ?thesis
        unfolding Inr sum.case
        by (rule triple_fact[where c = "Covers ?g (bind_Agent applied) (bind_Policies applied)"],
            rule triple_pre[OF triple_bind[OF beyond_keeps readOperatorBinding_authority]])
          (use that in \<open>auto intro!: keeps_rules beyond_frame.keeps_pushAgent\<close>)
    qed
  qed (use that in auto)
  have new: "triple True (at d0) (do {
       result \<leftarrow> createBinding env random ?agent (breq_Key request) (bind_selection request) ?subject;
       finishCreateBinding env ?agent result ?subject started;
       case result of
         (Some _, Some e) \<Rightarrow> ret (Inl (OpPending (OpCtl e)))
       | (None, Some e) \<Rightarrow> ret (Inl (OpCtl e))
       | (Some created, None) \<Rightarrow> readOperatorBinding env co created
       | (None, None) \<Rightarrow> ret (Inl (OpSession ErrorInternal SessionStatusUnreadable)) }) (answers ?g d0)"
    if may: "Can ?g ActionBind" "Covers ?g ?agent (breq_Policies request)" for started
  proof (rule triple_bind[OF createBinding_authority[OF assms may(1)]], goal_cases)
    case (2 result)
    have fin: "keeps K (finishCreateBinding env ?agent result ?subject started)" if "mark_frame K" for K
      unfolding finishCreateBinding_def by (intro keeps_rules mark_frame.keeps_pushAgent[OF that])
    show ?case
      by (rule triple_fact[where c = "\<forall>b. fst result = Some b \<longrightarrow> Covers ?g (bind_Agent b) (bind_Policies b)"],
          rule triple_pre[OF triple_bind[OF beyond_keeps[OF fin[OF beyond_frame.mark_frame_axioms]]]])
        (use may in \<open>auto split: prod.split option.split intro!: refuse_triple readOperatorBinding_authority\<close>)
  qed (use may in \<open>auto simp: bind_selection_def\<close>)
  show ?thesis
    unfolding operatorBind_def Let_def
  proof (rule triple_if[OF at_beyond[OF denied_triple] triple_now[OF triple_bind[OF findBinding_at]]], goal_cases)
    case (1 t found)
    consider (err) e where "found = Inl e" | (none) "found = Inr None" | (some) b where "found = Inr (Some b)"
      by (metis not_None_eq sumE)
    then show ?case
    proof cases
      case err
      then show ?thesis by (simp, intro refuse_triple) (auto simp: beyond_refl)
    next
      case none
      show ?thesis
        unfolding none sum.case option.case by (rule triple_pre[OF new]) (use 1 in auto)
    next
      case some
      show ?thesis
        unfolding some sum.case option.case by (rule existing) (use 1 in \<open>auto simp: beyond_refl\<close>)
    qed
  qed
qed

lemma resolveUnbind_at:
  assumes "db_ok d0"
  shows "triple True (at d0) (resolveUnbind request) (\<lambda>x d r p. d = d0 \<and> (\<forall>b. x = Inr (Some b) \<longrightarrow> store_Binding (bind_ID b) d0 = Inr b))"
proof -
  have find: "triple True (at d0) (findBinding agent k) (\<lambda>x d r p. d = d0 \<and> (\<forall>b. x = Inr (Some b) \<longrightarrow> store_Binding (bind_ID b) d0 = Inr b))" for agent k
    by (rule triple_post[OF findBinding_at]) (use listed_binding[OF assms] in auto)
  have self: "store_Binding bid d0 = Inr b \<Longrightarrow> store_Binding (bind_ID b) d0 = Inr b" for bid b
    using row_by_Some[of brow_id bid "db_bindings d0"] by (auto simp: store_Binding_def scanBinding_def split: option.splits)
  show ?thesis
    unfolding resolveUnbind_def
    by (rule triple_if[OF _ triple_attempt[OF triple_store_read[where P = "at d0"] triple_ret triple_ret]])
      (auto split: option.split intro!: find triple_ret dest: self)
qed

lemma operatorUnbind_authority:
  fixes env :: "'r ctl_env"
  assumes "db_ok d0"
  shows "triple True (at d0) (operatorUnbind env key request) (answers (opk_Grant key) d0)"
proof -
  let ?g = "opk_Grant key" and ?subject = "OperatorSubject (opk_Label key)"
  have within_unbind: "within ?g (unbind_answer err)" for err
    by (auto simp: within_def unbind_answer_def split: option.splits ctl_error.splits if_splits)
  have after: "keeps (beyond (Some ?g) d0) (do {
      (if \<not> bindingStays err then do { hub_send (bind_Agent b) (SentUnbind (bind_ID b)); ret () } else ret ());
      pushAgent env (bind_Agent b); ret () })" for b err
    by (intro keeps_rules beyond_frame.keeps_pushAgent)
  have delete: "triple True (at d0) (do {
       connected \<leftarrow> read_rest (Connected (bind_Agent b));
       err \<leftarrow> deleteBinding env (bind_ID b) ?subject connected;
       (if \<not> bindingStays err then do { hub_send (bind_Agent b) (SentUnbind (bind_ID b)); ret () } else ret ());
       pushAgent env (bind_Agent b);
       ret (unbind_answer err) }) (answers ?g d0)"
    if "store_Binding (bind_ID b) d0 = Inr b" "may_change (Some ?g) b" for b
    by (rule triple_read_rest, rule triple_bind[OF deleteBinding_authority[OF assms that]],
        intro triple_bind[OF beyond_keeps triple_bind[OF beyond_keeps[OF beyond_frame.keeps_pushAgent] triple_ret]] conjI keeps_rules)
      (use within_unbind in auto)
  show ?thesis
    unfolding operatorUnbind_def Let_def
  proof (rule triple_if[OF refuse_triple triple_if[OF at_beyond[OF denied_triple] triple_bind[OF resolveUnbind_at[OF assms]]]], goal_cases)
    case (2 found)
    consider (err) e where "found = Inl e" | (none) "found = Inr None" | (some) b where "found = Inr (Some b)"
      by (metis not_None_eq sumE)
    then show ?case
    proof cases
      case err
      then show ?thesis by (simp, intro refuse_triple) (auto simp: beyond_refl)
    next
      case none
      then show ?thesis by (simp, intro triple_ret) (auto simp: beyond_refl within_def)
    next
      case some
      show ?thesis
        unfolding some sum.case option.case
      proof (rule triple_if[OF triple_pre[OF denied_triple]], goal_cases)
        case cov: 2
        show ?case
          by (rule triple_fact[where c = "store_Binding (bind_ID b) d0 = Inr b"], rule triple_pre[OF delete])
            (use 2 cov in \<open>auto simp: may_change_def\<close>)
      qed (auto simp: beyond_refl)
    qed
  qed (auto simp: beyond_refl)
qed

lemma run_operation_authority:
  assumes "db_ok d0"
  shows "triple True (at d0) (run_operation env co random key request) (answers (opk_Grant key) d0)"
proof -
  have dec: "triple True (at d0) (decoded x k) (answers (opk_Grant key) d0)"
    if "\<And>a. triple True (at d0) (k a) (answers (opk_Grant key) d0)" for x :: "'x option" and k
    using that by (cases x) (auto simp: decoded_def beyond_refl intro!: refuse_triple)
  show ?thesis
    unfolding run_operation_def Let_def
    by (intro triple_if dec operator_reads_authority operatorPutPolicy_authority operatorBindings_authority operatorBind_authority operatorUnbind_authority assms)
      (auto intro!: triple_ret simp: beyond_refl within_def)
qed

definition shows_only :: "Grant option \<Rightarrow> op_error + op_body \<Rightarrow> bool" where
  "shows_only g x \<longleftrightarrow> isl x \<or> (\<exists>grant. g = Some grant \<and> within grant x)"

lemma dispatchOperator_authority:
  assumes "db_ok d0"
  shows "triple True (at d0) (dispatchOperator env co random fingerprint line)
    (\<lambda>x d r p. beyond (granted_to fingerprint d0) d0 d \<and> shows_only (granted_to fingerprint d0) x)" (is "triple True _ _ ?Q")
  unfolding dispatchOperator_def
proof (rule triple_bind[OF triple_store_read[where P = "at d0"]], goal_cases)
  case (1 found)
  show ?case
  proof (cases found)
    case (Inl e)
    show ?thesis unfolding Inl sum.case by (rule triple_ret) (auto simp: beyond_refl shows_only_def)
  next
    case (Inr key)
    have run: "triple True (at d0) (run_operation env co random key request) ?Q" if "granted_to fingerprint d0 = Some (opk_Grant key)" for request
      by (rule triple_post[OF run_operation_authority[OF assms]]) (use that in \<open>auto simp: shows_only_def\<close>)
    show ?thesis
      unfolding Inr sum.case
    proof (rule triple_if[OF triple_ret], goal_cases)
      case approved: 2
      show ?case
      proof (rule triple_fact[where c = "granted_to fingerprint d0 = Some (opk_Grant key)"], goal_cases)
        case g: 1
        show ?case
          by (auto simp: decoded_def beyond_refl shows_only_def split: option.split intro!: triple_ret triple_pre[OF run[OF g], unfolded shows_only_def])
      qed (use approved in \<open>auto simp: granted_to_def\<close>)
    qed (auto simp: beyond_refl shows_only_def)
  qed
qed

lemma answerOperator_authority:
  assumes "db_ok (w_db w)" "run_state (answerOperator env co random fingerprint line) w = (response, w')"
  shows "beyond (granted_to fingerprint (w_db w)) (w_db w) (w_db w')"
    and "ors_Body response = Some body \<Longrightarrow> shows_only (granted_to fingerprint (w_db w)) (Inr body)"
proof -
  obtain x w1 where run: "run_state (dispatchOperator env co random fingerprint line) w = (x, w1)" by fastforce
  have "holds_in True (at (w_db w)) w" by (simp add: holds_in_def)
  from tripleD[OF dispatchOperator_authority[OF assms(1)] this run]
  have "beyond (granted_to fingerprint (w_db w)) (w_db w) (w_db w1) \<and> shows_only (granted_to fingerprint (w_db w)) x"
    by (simp add: holds_in_def)
  then show "beyond (granted_to fingerprint (w_db w)) (w_db w) (w_db w')"
    and "ors_Body response = Some body \<Longrightarrow> shows_only (granted_to fingerprint (w_db w)) (Inr body)"
    using assms(2) run by (auto simp: answerOperator_def split: sum.splits if_splits)
qed

section \<open>Properties\<close>

text \<open>
  C3. A request over an operator's key changes nothing outside the key's grant, whatever calls fail or lose their answers:
  every binding the grant does not cover keeps its agent, key, policies, settings and assignment, every policy the grant
  does not name keeps its document, and no agent and no operator key changes. A key without an approval, or without the
  action, changes no binding and no policy at all.
\<close>

theorem operator_request_within_grant:
  assumes "db_ok (w_db w)" and "run_state (answerOperator env co random fingerprint line) w = (response, w')"
  shows "outside_bindings (granted_to fingerprint (w_db w)) (w_db w') = outside_bindings (granted_to fingerprint (w_db w)) (w_db w)
    \<and> outside_policies (granted_to fingerprint (w_db w)) (w_db w') = outside_policies (granted_to fingerprint (w_db w)) (w_db w)
    \<and> db_agents (w_db w') = db_agents (w_db w) \<and> db_operator_keys (w_db w') = db_operator_keys (w_db w)"
  using answerOperator_authority(1)[OF assms] by (simp add: beyond_def)

text \<open>Two policies and a key that may read, bind and write one of them.\<close>

definition example_grant :: Grant where
  "example_grant = \<lparr>grant_Agents = [''host''], grant_Policies = [''web''], grant_Actions = [''read'', ''bind'', ''policy-write'']\<rparr>"

definition example_key :: OperatorKey where
  "example_key = (new_operator_key ''fp2'' ''ci'' ''pk2'' 5)\<lparr>opk_State := OperatorKeyApproved, opk_Grant := example_grant\<rparr>"

definition example_row :: "string \<Rightarrow> policy_row" where
  "example_row name = policy_row_of ((New name [])\<lparr>policy_Revision := 1, policy_Generation := 1\<rparr>) ''op'' 1"

definition example_db :: db where
  "example_db = empty_db\<lparr>db_policies := [example_row ''web'', example_row ''db''], db_policy_generations := [(''web'', 1), (''db'', 1)],
     db_operator_keys := [example_key]\<rparr>"

definition run_keyed :: "scripted world" where
  "run_keyed = scripted_world\<lparr>w_db := example_db\<rparr>"

text \<open>A codec for requests that name an operation and have a fixed body.\<close>

definition example_codec :: codec where
  "example_codec =
     \<lparr>co_request = (\<lambda>line. Some \<lparr>orq_Version = 1, orq_Operation = line, orq_Body = []\<rparr>),
      co_PolicyName = (\<lambda>_. Some ''web''), co_PolicyPut = (\<lambda>_. Some \<lparr>put_Name = ''web'', put_HCL = ''path \"kv/*\" { capabilities = [\"read\"] }'', put_SSH = None\<rparr>),
      co_BindingList = (\<lambda>_. Some []), co_BindingID = (\<lambda>_. Some ''b-6162636465666768''),
      co_BindRequest = (\<lambda>_. Some \<lparr>breq_Agent = ''host'', breq_Key = \<lparr>key_Kind = KeyName, key_Value = ''other''\<rparr>, breq_Policies = [''web''],
        breq_Settings = DefaultSettings\<rparr>),
      co_UnbindRequest = (\<lambda>_. Some \<lparr>ureq_ID = ''b-6162636465666768'', ureq_Agent = [], ureq_Key = None\<rparr>),
      co_publicStatus = Some, co_marshals = (\<lambda>_. True), co_response = (\<lambda>_. Some [])\<rparr>"

definition run_request :: "string \<Rightarrow> op_response \<times> scripted world" where
  "run_request operation = run_state (answerOperator scripted_env example_codec ''12345678'' ''fp2'' operation) run_keyed"

lemma run_keyed_ok: "db_ok (w_db run_keyed)"
  by (auto simp: run_keyed_def example_db_def empty_db_def db_ok_def keys_ok_def policies_ok_def bindings_ok_def sessions_ok_def approved_agents_def labelled_keys_def
      policy_row_ok_def binding_ids_def example_row_def policy_row_of_def New_def Let_def ran_def split: if_splits)

theorem operator_request_within_grant_witness:
  "ors_Error (fst (run_request ''policy-put'')) = None
    \<and> map prow_revision (db_policies (w_db (snd (run_request ''policy-put'')))) = [2, 1]
    \<and> outside_policies (Some example_grant) (w_db (snd (run_request ''policy-put''))) = outside_policies (Some example_grant) (w_db run_keyed)
    \<and> prow_name ` outside_policies (Some example_grant) (w_db run_keyed) = {''db''}"
proof -
  have run: "ors_Error (fst (run_request ''policy-put'')) = None" "map prow_revision (db_policies (w_db (snd (run_request ''policy-put'')))) = [2, 1]"
    and key: "granted_to ''fp2'' (w_db run_keyed) = Some example_grant"
    by code_simp+
  have rows: "map prow_name (db_policies (w_db run_keyed)) = [''web'', ''db'']" by code_simp
  have "may_write (Some example_grant) ''web''" "\<not> may_write (Some example_grant) ''db''"
    unfolding may_write_def option.inject ex_simps simp_thms by code_simp+
  then have "prow_name ` outside_policies (Some example_grant) (w_db run_keyed) = {''db''}"
    using rows by (auto simp: outside_policies_def map_eq_Cons_conv image_iff) metis
  moreover have "run_state (answerOperator scripted_env example_codec ''12345678'' ''fp2'' ''policy-put'') run_keyed = (fst (run_request ''policy-put''), snd (run_request ''policy-put''))"
    by (simp add: run_request_def)
  from operator_request_within_grant[OF run_keyed_ok this]
  have "outside_policies (Some example_grant) (w_db (snd (run_request ''policy-put''))) = outside_policies (Some example_grant) (w_db run_keyed)"
    using key by simp
  ultimately show ?thesis using run by blast
qed

text \<open>
  C6. What a request answers lies inside the grant of its key: a policy or a list of policies only with names the grant
  allows, a binding or a list of bindings only ones it covers, and only with an action that shows them. A key that is not
  approved is answered with an error.
\<close>

theorem operator_answer_within_grant:
  assumes "db_ok (w_db w)" and "run_state (answerOperator env co random fingerprint line) w = (response, w')"
    and "ors_Body response = Some body"
  shows "\<exists>grant. granted_to fingerprint (w_db w) = Some grant \<and>
    (case body of
       BodyPolicies ps \<Rightarrow> Can grant ActionRead \<and> (\<forall>p\<in>set ps. AllowsPolicy grant (opp_Name p))
     | BodyPolicy p \<Rightarrow> (Can grant ActionRead \<or> Can grant ActionPolicyWrite) \<and> AllowsPolicy grant (opp_Name p)
     | BodyBindings bs \<Rightarrow> Can grant ActionRead \<and> (\<forall>b\<in>set bs. Covers grant (opb_Agent b) (opb_Policies b))
     | BodyBinding b \<Rightarrow> (Can grant ActionRead \<or> Can grant ActionBind) \<and> Covers grant (opb_Agent b) (opb_Policies b)
     | _ \<Rightarrow> True)"
  using answerOperator_authority(2)[OF assms] by (simp add: shows_only_def within_def split: op_body.splits)

theorem operator_answer_within_grant_witness:
  "\<exists>ps. ors_Body (fst (run_request ''policy-list'')) = Some (BodyPolicies ps) \<and> map opp_Name ps = [''web''] \<and> (\<forall>p\<in>set ps. AllowsPolicy example_grant (opp_Name p))"
proof -
  have body: "map_option (\<lambda>b. case b of BodyPolicies ps \<Rightarrow> map opp_Name ps | _ \<Rightarrow> []) (ors_Body (fst (run_request ''policy-list''))) = Some [''web'']"
    and key: "granted_to ''fp2'' (w_db run_keyed) = Some example_grant"
    by code_simp+
  then obtain ps where ps: "ors_Body (fst (run_request ''policy-list'')) = Some (BodyPolicies ps)" "map opp_Name ps = [''web'']"
    by (cases "ors_Body (fst (run_request ''policy-list''))"; cases "the (ors_Body (fst (run_request ''policy-list'')))") auto
  have "run_state (answerOperator scripted_env example_codec ''12345678'' ''fp2'' ''policy-list'') run_keyed = (fst (run_request ''policy-list''), snd (run_request ''policy-list''))"
    by (simp add: run_request_def)
  from operator_answer_within_grant[OF run_keyed_ok this ps(1)] have "\<forall>p\<in>set ps. AllowsPolicy example_grant (opp_Name p)"
    using key by simp
  then show ?thesis using ps by (intro exI[of _ ps]) simp
qed

end
