(* ===== verification/Operator_Effects.thy ===== *)
theory Operator_Effects
  imports Operator_Authority
begin

text \<open>
  Who gets a session at all (\<^verbatim>\<open>authenticate\<close>), and what the answer to an unbind says about the binding.
\<close>

section \<open>Authentication\<close>

lemma run_store_read_db: "run_state (store_read f) w = (x, w') \<Longrightarrow> w_db w' = w_db w \<and> (\<forall>y. x = Inr y \<longrightarrow> f (w_db w) = Inr y) \<and> (\<forall>e. x = Inl (StoreErr e) \<longrightarrow> f (w_db w) = Inl e)"
  using tripleD[OF triple_store_read[of True "\<lambda>d r p. d = w_db w" f], of w x w'] by (auto simp: holds_in_def)

lemma run_store_write_db:
  "run_state (store_write f) w = (x, w') \<Longrightarrow> w_db w' = w_db w \<or> (\<exists>y. f (w_db w) = Inr (y, w_db w'))"
  using tripleD[OF triple_store_write[of True "\<lambda>d r p. d = w_db w" f], of w x w'] by (cases x) (auto simp: holds_in_def)

text \<open>A key that nobody knows is at most recorded, and only while fewer than the maximum wait.\<close>

lemma ask_cases:
  assumes "run_state (attempt (store_read (\<lambda>d. Inr (pending d))) (\<lambda>_. ret None)
      (\<lambda>n. if n \<ge> maximumPendingKeys then ret None else do { t \<leftarrow> now_read; store_write (record t); ret None })) w = (x, w')"
  shows "x = None \<and> (w_db w' = w_db w \<or> pending (w_db w) < maximumPendingKeys \<and> (\<exists>t y. record t (w_db w) = Inr (y, w_db w')))"
proof -
  obtain n w1 where r: "run_state (store_read (\<lambda>d. Inr (pending d))) w = (n, w1)" by fastforce
  note db = run_store_read_db[OF r]
  show ?thesis
  proof (cases n)
    case (Inl e)
    then show ?thesis using assms r db by (auto simp: attempt_def)
  next
    case (Inr k)
    then have k: "k = pending (w_db w)" using db by simp
    show ?thesis
    proof (cases "k \<ge> maximumPendingKeys")
      case True
      then show ?thesis using assms r db Inr by (auto simp: attempt_def)
    next
      case False
      obtain t w2 where t: "run_state now_read w1 = (t, w2)" by fastforce
      then have w2: "w_db w2 = w_db w" using db by (auto simp: now_read_def)
      obtain y w3 where wr: "run_state (store_write (record t)) w2 = (y, w3)" by fastforce
      have "x = None" "w' = w3"
        using assms r Inr False t wr by (auto simp: attempt_def)
      then show ?thesis
        using run_store_write_db[OF wr] w2 False k by auto
    qed
  qed
qed

text \<open>
  C7. A connection is authenticated only as what its user name says: as an agent only with a key that is approved for exactly
  that host name, as an operator only with an approved operator key and an operator's user name. Any other key is refused,
  and refusing changes the database at most by recording an unknown key as pending while fewer than 256 keys wait.
\<close>

theorem authenticate_exact:
  assumes "run_state (authenticate name key) w = (x, w')"
  shows "case x of
      Some (AgentIdentity fingerprint agent) \<Rightarrow> fingerprint = pk_Fingerprint key \<and> agent = name \<and> ParseUser name = None \<and> ValidAgentName name
        \<and> w_db w' = w_db w \<and> (\<exists>a. store_Agent fingerprint (w_db w) = Inr a \<and> agent_State a = AgentApproved \<and> agent_Name a = name)
    | Some (OperatorIdentity fingerprint) \<Rightarrow> fingerprint = pk_Fingerprint key \<and> ParseUser name \<noteq> None
        \<and> w_db w' = w_db w \<and> (\<exists>k. store_OperatorKey fingerprint (w_db w) = Inr k \<and> opk_State k = OperatorKeyApproved)
    | None \<Rightarrow> w_db w' = w_db w
        \<or> store_Agent (pk_Fingerprint key) (w_db w) = Inl ErrNotFound \<and> PendingCount (w_db w) < maximumPendingKeys
          \<and> (\<exists>t a. RecordKey (pk_Fingerprint key) name (TrimSpace (pk_Authorized key)) t (w_db w) = Inr (a, w_db w'))
        \<or> store_OperatorKey (pk_Fingerprint key) (w_db w) = Inl ErrNotFound \<and> PendingOperatorKeyCount (w_db w) < maximumPendingKeys
          \<and> (\<exists>t k label. RecordOperatorKey (pk_Fingerprint key) label (pk_Authorized key) t (w_db w) = Inr (k, w_db w'))"
proof (cases "ParseUser name")
  case (Some label)
  obtain found w1 where r: "run_state (store_read (store_OperatorKey (pk_Fingerprint key))) w = (found, w1)" by fastforce
  note db = run_store_read_db[OF r]
  show ?thesis
  proof (cases "found = Inl (StoreErr ErrNotFound)")
    case True
    then have ask: "run_state (attempt (store_read (\<lambda>d. Inr (PendingOperatorKeyCount d))) (\<lambda>_. ret None)
        (\<lambda>pending. if pending \<ge> maximumPendingKeys then ret None
           else do { t \<leftarrow> now_read; store_write (RecordOperatorKey (pk_Fingerprint key) label (pk_Authorized key) t); ret None })) w1 = (x, w')"
      using assms Some r by (simp add: authenticate_def authenticateOperator_def)
    show ?thesis using ask_cases[OF ask] db True by auto
  next
    case False
    then show ?thesis
      using assms Some r db by (auto simp: authenticate_def authenticateOperator_def split: sum.splits if_splits)
  qed
next
  case None
  show ?thesis
  proof (cases "ValidAgentName name")
    case True
    obtain found w1 where r: "run_state (store_read (store_Agent (pk_Fingerprint key))) w = (found, w1)" by fastforce
    note db = run_store_read_db[OF r]
    show ?thesis
    proof (cases "found = Inl (StoreErr ErrNotFound)")
      case nf: True
      then have ask: "run_state (attempt (store_read (\<lambda>d. Inr (PendingCount d))) (\<lambda>_. ret None)
          (\<lambda>pending. if pending \<ge> maximumPendingKeys then ret None
             else do { t \<leftarrow> now_read; store_write (RecordKey (pk_Fingerprint key) name (TrimSpace (pk_Authorized key)) t); ret None })) w1 = (x, w')"
        using assms None True r by (simp add: authenticate_def)
      show ?thesis using ask_cases[OF ask] db nf by auto
    next
      case False
      then show ?thesis
        using assms None True r db by (auto simp: authenticate_def split: sum.splits if_splits)
    qed
  qed (use assms None in \<open>auto simp: authenticate_def\<close>)
qed

theorem authenticate_exact_witness:
  "fst (run_state (authenticate ''operator:ci'' \<lparr>pk_Fingerprint = ''fp2'', pk_Authorized = ''pk2''\<rparr>) run_keyed) = Some (OperatorIdentity ''fp2'')
    \<and> w_db (snd (run_state (authenticate ''operator:ci'' \<lparr>pk_Fingerprint = ''fp2'', pk_Authorized = ''pk2''\<rparr>) run_keyed)) = w_db run_keyed"
proof -
  let ?r = "run_state (authenticate ''operator:ci'' \<lparr>pk_Fingerprint = ''fp2'', pk_Authorized = ''pk2''\<rparr>) run_keyed"
  have got: "fst ?r = Some (OperatorIdentity ''fp2'')" by code_simp
  moreover have "?r = (fst ?r, snd ?r)" by simp
  from authenticate_exact[OF this] have "w_db (snd ?r) = w_db run_keyed" unfolding got by simp
  ultimately show ?thesis by blast
qed

section \<open>What an unbind answers\<close>

definition gone :: "string \<Rightarrow> db \<Rightarrow> bool" where
  "gone bid d \<longleftrightarrow> bid \<notin> binding_ids d"

interpretation gone_frame: mark_frame "gone bid" for bid
  by unfold_locales (auto simp: gone_def binding_ids_def MarkBindingApplied_rows)

definition missing_report :: "ctl_error option \<Rightarrow> bool" where
  "missing_report err \<longleftrightarrow> err = Some (operationError ErrorNotBound BindingMissing)"

lemma retired_gone: "RetireBinding bid t d = Inr (accessor, d') \<Longrightarrow> gone bid d'"
  by (auto simp: RetireBinding_def Let_def delete_binding_def delete_where_def gone_def binding_ids_def split: option.splits)

lemma deleteBinding_gone:
  "triple True (\<lambda>d r p. True) (deleteBinding env bid operator connected)
     (\<lambda>err d r p. isl (unbind_answer err) \<or> missing_report err \<or> gone bid d)"
proof -
  have report: "isl (unbind_answer (snd (delete_report True roleCode tokenCode)))" for roleCode tokenCode
    by (simp add: delete_report_def unbind_answer_def operationError_def ErrorInternal_def ErrorNone_def Let_def)
  have retire: "triple True (\<lambda>d r p. True) (store_write (RetireBinding bid t)) (\<lambda>x d r p. isl x \<or> gone bid d)" for t
    by (rule triple_post[OF triple_store_write]) (auto intro: retired_gone split: sum.splits)
  have rest: "triple True (\<lambda>d r p. isl retired \<or> gone bid d) (do {
      tokenCode \<leftarrow> (case retired of
          Inl _ \<Rightarrow> ret []
        | Inr accessor \<Rightarrow>
            if accessor \<noteq> [] then do { e \<leftarrow> bao_call (ob_RevokeAccessor (ce_bao env) accessor); ret (code_of e) }
            else ret (if connected then [] else ErrorControllerUnavailable));
      let (code, err) = delete_report (isl retired) roleCode tokenCode;
      t2 \<leftarrow> now_read;
      recordBinding names (event code t2);
      ret err }) (\<lambda>err d r p. isl (unbind_answer err) \<or> missing_report err \<or> gone bid d)" for retired code_of roleCode names and event :: "string \<Rightarrow> time \<Rightarrow> Event"
  proof -
    let ?P = "\<lambda>d r p. isl retired \<or> gone bid d"
    have token: "triple True ?P (case retired of
          Inl _ \<Rightarrow> ret []
        | Inr accessor \<Rightarrow>
            if accessor \<noteq> [] then do { e \<leftarrow> bao_call (ob_RevokeAccessor (ce_bao env) accessor); ret (code_of e) }
            else ret (if connected then [] else ErrorControllerUnavailable)) (\<lambda>_. ?P)"
    proof (cases retired)
      case (Inr accessor)
      have "triple True (\<lambda>d r p. gone bid d) (do { e \<leftarrow> bao_call (ob_RevokeAccessor (ce_bao env) accessor); ret (code_of e) }) (\<lambda>_ d r p. gone bid d)"
        by (rule triple_bind[OF triple_bao_call triple_ret]) simp
      then show ?thesis using Inr by (auto intro: triple_ret)
    qed (auto intro: triple_ret)
    have "isl (unbind_answer err)" if "delete_report (isl retired) roleCode tokenCode = (code, err)" "isl retired" for tokenCode code err
      using report[of roleCode tokenCode] that by simp
    then show ?thesis
      unfolding Let_def
      by (intro triple_bind[OF token]) (auto split: prod.split intro!: triple_now triple_bind[OF recordBinding_triple] triple_ret)
  qed
  show ?thesis
    unfolding deleteBinding_def
    by (rule triple_now, rule triple_attempt[OF triple_post[OF triple_store_read[where P = "\<lambda>d r p. True"]] triple_ret
          triple_bind[OF triple_post[OF triple_bao_call[where P = "\<lambda>d r p. True"]] triple_now[OF triple_bind[OF retire rest]]]])
      (auto simp: missing_report_def)
qed

definition unbind_true :: "string \<Rightarrow> db \<Rightarrow> op_error + op_body \<Rightarrow> db \<Rightarrow> bool" where
  "unbind_true bid d0 x d \<longleftrightarrow> (\<forall>res. x = Inr (BodyUnbind res) \<longrightarrow>
     (if ures_Removed res then gone bid d \<or> ures_Warning res = Some (OperationText BindingMissing)
      else d = d0 \<and> store_Binding bid d0 = Inl ErrNotFound))"

lemma unbind_answer_true:
  "isl (unbind_answer err) \<or> missing_report err \<or> gone bid d \<Longrightarrow> unbind_true bid d0 (unbind_answer err) d"
  by (auto simp: unbind_true_def unbind_answer_def missing_report_def operationError_def ErrorInternal_def ErrorNotBound_def
      split: option.splits ctl_error.splits if_splits)

lemma operatorUnbind_true:
  fixes env :: "'r ctl_env"
  assumes "ureq_ID request \<noteq> []"
  shows "triple True (at d0) (operatorUnbind env key request) (\<lambda>x d r p. unbind_true (ureq_ID request) d0 x d)" (is "triple True _ _ ?Q")
proof -
  let ?bid = "ureq_ID request" and ?subject = "OperatorSubject (opk_Label key)"
  have refuse: "triple True P (ret (Inl e)) ?Q" for P :: "'r assertion" and e
    by (rule triple_ret) (simp add: unbind_true_def)
  have denied: "triple True P (do { recordDenied operation agent subject; ret (Inl e) }) ?Q" for P :: "'r assertion" and operation agent subject e
    unfolding recordDenied_def by (rule triple_bind[OF ctl_record_triple refuse])
  have resolve: "triple True (at d0) (resolveUnbind request)
      (\<lambda>x d r p. d = d0 \<and> (x = Inr None \<longrightarrow> store_Binding ?bid d0 = Inl ErrNotFound) \<and> (\<forall>b. x = Inr (Some b) \<longrightarrow> bind_ID b = ?bid))"
    unfolding resolveUnbind_def using assms
    by (simp, intro triple_attempt[OF triple_store_read[where P = "at d0"] triple_ret triple_ret]) (auto elim!: store_Binding_scan simp: scanBinding_def)
  have delete: "triple True (\<lambda>d r p. True) (do {
      connected \<leftarrow> read_rest f;
      err \<leftarrow> deleteBinding env ?bid ?subject connected;
      (if \<not> bindingStays err then do { hub_send agent m; ret () } else ret ());
      pushAgent env agent;
      ret (unbind_answer err) }) ?Q" for f agent m
  proof (rule triple_read_rest, rule triple_bind[OF deleteBinding_gone], goal_cases)
    case (1 connected err)
    show ?case
    proof (cases "isl (unbind_answer err) \<or> missing_report err")
      case True
      have any: "triple True (\<lambda>d r p. True) m (\<lambda>_ d r p. True)" for m :: "('r world, 'b) state" by (simp add: triple_def holds_in_def)
      show ?thesis
        by (rule triple_pre[OF triple_bind[OF any triple_bind[OF any triple_ret]]]) (use True unbind_answer_true in blast)+
    next
      case False
      have "keeps (gone ?bid) (if \<not> bindingStays err then do { hub_send agent m; ret () } else ret ())" by (intro keeps_rules)
      note send = this[unfolded keeps_def]
      note push = gone_frame.keeps_pushAgent[where bid = ?bid and env = env and agent = agent, unfolded keeps_def]
      show ?thesis
        by (rule triple_pre[OF triple_bind[OF send triple_bind[OF push triple_ret]]]) (use False unbind_answer_true in blast)+
    qed
  qed
  show ?thesis
    unfolding operatorUnbind_def Let_def
  proof (rule triple_if[OF refuse triple_if[OF denied triple_bind[OF resolve]]], goal_cases)
    case (1 found)
    consider (err) e where "found = Inl e" | (none) "found = Inr None" | (some) b where "found = Inr (Some b)"
      by (metis not_None_eq sumE)
    then show ?case
    proof cases
      case err
      show ?thesis unfolding err sum.case by (rule refuse)
    next
      case none
      show ?thesis unfolding none sum.case option.case by (rule triple_ret) (auto simp: unbind_true_def)
    next
      case some
      show ?thesis
        unfolding some sum.case option.case
        by (rule triple_fact[where c = "bind_ID b = ?bid"], rule triple_if[OF denied], simp, rule triple_pre[OF delete]) auto
    qed
  qed
qed


text \<open>
  One binding, and an unbind of it whose store accesses meet the given faults. The exception happens: when the second read of
  the binding fails, the answer is that it was removed.
\<close>

definition bound_row :: binding_row where
  "bound_row = \<lparr>brow_id = ''b-6162636465666768'', brow_agent = ''host'', brow_key = \<lparr>key_Kind = KeyName, key_Value = ''web''\<rparr>,
     brow_settings = DefaultSettings, brow_revision = 1,
     brow_effective = \<lparr>eff_Sources = [], eff_OpenBao = \<lparr>openbao_Policy = [], openbao_AgentTokenRenewal = None\<rparr>, eff_SSH = None,
       eff_Contract = DefaultContract, eff_Settings = DefaultSettings\<rparr>,
     brow_applied = True, brow_role = ''wyrwood-r'', brow_created_at = 1, brow_created_by = ''op''\<rparr>"

definition bound_world :: "fault list \<Rightarrow> scripted world" where
  "bound_world faults = run_keyed\<lparr>w_db := example_db\<lparr>db_bindings := [bound_row], db_binding_policies := [(''b-6162636465666768'', ''web'')]\<rparr>,
     w_faults := faults\<rparr>"

definition unbind_bound :: UnbindRequest where
  "unbind_bound = \<lparr>ureq_ID = ''b-6162636465666768'', ureq_Agent = [], ureq_Key = None\<rparr>"

definition run_unbind :: "fault list \<Rightarrow> (op_error + op_body) \<times> scripted world" where
  "run_unbind faults = run_state (operatorUnbind scripted_env example_key unbind_bound) (bound_world faults)"

lemma unbind_unreadable:
  "fst (run_unbind [Healthy, Broken]) = Inr (BodyUnbind \<lparr>ures_Removed = True, ures_TokenLive = False, ures_Warning = Some (OperationText BindingMissing)\<rparr>)
    \<and> map brow_id (db_bindings (w_db (snd (run_unbind [Healthy, Broken])))) = [''b-6162636465666768'']"
  by code_simp


end
