(* ===== verification/SSH_Endpoint.thy ===== *)
theory SSH_Endpoint
  imports OpenBao_Manager
begin

text \<open>
  The ssh-agent socket of a container (\<^verbatim>\<open>internal/sshagent/endpoint.go\<close>) and the calls of OpenBao it makes
  (\<^verbatim>\<open>internal/openbao/agent.go\<close>). The state is that of one socket: the service, the cache of certificates and their keys,
  the clock, what \<^verbatim>\<open>lookup\<close> returns next, and for each connection whether it was forwarded. Keys, certificates and
  signatures are what the SSH library makes of them (\<open>ssh_lib\<close>): a public key is its wire form.
\<close>

section \<open>The library\<close>

text \<open>A certificate: its wire form and its validity in seconds.\<close>

record ssh_certificate =
  cert_Blob :: string
  cert_ValidAfter :: "64 word"
  cert_ValidBefore :: "64 word"

record Signature =
  sig_Format :: string
  sig_Blob :: string

text \<open>A message of the extension \<^verbatim>\<open>session-bind@openssh.com\<close>.\<close>

record session_bind =
  sb_HostKey :: string
  sb_SessionID :: string
  sb_Signature :: string
  sb_Forwarding :: bool

record ssh_lib =
  sl_PublicKey :: "string \<Rightarrow> string option"
  sl_Authorized :: "string \<Rightarrow> string"
  sl_ParseCertificate :: "string \<Rightarrow> ssh_certificate option"
  sl_Fingerprint :: "string \<Rightarrow> string"
  sl_Type :: "string \<Rightarrow> string"
  sl_Sign :: "string \<Rightarrow> string \<Rightarrow> Signature option"
  sl_Verify :: "string \<Rightarrow> string \<Rightarrow> Signature \<Rightarrow> bool"
  sl_Base64 :: "string \<Rightarrow> string"
  sl_Decode64 :: "string \<Rightarrow> string option"
  sl_UnmarshalBind :: "string \<Rightarrow> session_bind option"
  sl_ParsePublicKey :: "string \<Rightarrow> string option"
  sl_UnmarshalSignature :: "string \<Rightarrow> Signature option"

section \<open>State\<close>

record view_Mounts =
  vm_Transit :: string
  vm_SSH :: string

record View =
  view_ID :: string
  view_ContainerKey :: string
  view_Policy :: Effective
  view_OpenBao :: OpenBao_Client.OpenBao
  view_Mounts :: view_Mounts
  view_Client :: bool
  view_Token :: Token
  view_HasToken :: bool

record certificate =
  ce_signer :: string
  ce_certificate :: ssh_certificate

datatype ssh_error = errRefused | errNotBound | errNoToken | errUnknownKey | errUnsupported | BaoErr Category | OtherErr

record 's ssh_world =
  sw_service :: 's
  sw_clock :: "nat \<Rightarrow> int"
  sw_lookups :: "nat \<Rightarrow> View option"
  sw_generated :: "nat \<Rightarrow> string option"
  sw_entries :: "(string, certificate) gomap"
  sw_keys :: "(string, string) gomap"
  sw_forwarded :: "bool list"
  sw_log :: "Event list"

definition sw_call :: "('s \<Rightarrow> 'a \<times> 's) \<Rightarrow> ('s ssh_world, 'a) state" where
  "sw_call f = State (\<lambda>w. case f (sw_service w) of (x, s) \<Rightarrow> (x, w\<lparr>sw_service := s\<rparr>))"

definition sw_now :: "('s ssh_world, int) state" where
  "sw_now = State (\<lambda>w. (sw_clock w 0, w\<lparr>sw_clock := (\<lambda>n. sw_clock w (Suc n))\<rparr>))"

definition sw_lookup :: "('s ssh_world, View option) state" where
  "sw_lookup = State (\<lambda>w. (sw_lookups w 0, w\<lparr>sw_lookups := (\<lambda>n. sw_lookups w (Suc n))\<rparr>))"

definition sw_generate :: "('s ssh_world, string option) state" where
  "sw_generate = State (\<lambda>w. (sw_generated w 0, w\<lparr>sw_generated := (\<lambda>n. sw_generated w (Suc n))\<rparr>))"

definition sw_get :: "('s ssh_world \<Rightarrow> 'a) \<Rightarrow> ('s ssh_world, 'a) state" where
  "sw_get f = State (\<lambda>w. (f w, w))"

definition sw_update :: "('s ssh_world \<Rightarrow> 's ssh_world) \<Rightarrow> ('s ssh_world, unit) state" where
  "sw_update f = State (\<lambda>w. ((), f w))"

section \<open>Calls of OpenBao\<close>

definition TransitPublicKey :: "'s mgr_env \<Rightarrow> Token \<Rightarrow> string \<Rightarrow> string \<Rightarrow> ('s ssh_world, Category + TransitKey) state" where
  "TransitPublicKey env token mount name =
     (case withToken env (tok_value token) of
        Inl c \<Rightarrow> ret (Inl c)
      | Inr client \<Rightarrow> do {
          x \<leftarrow> sw_call (api_Read (me_api env) client (mount @ ''/keys/'' @ name));
          ret (case x of
             Inl e \<Rightarrow> Inl (categorize e)
           | Inr None \<Rightarrow> Inl CategoryNotFound
           | Inr (Some secret) \<Rightarrow>
               let key = transit_key env name secret in if tk_PublicKey key = None then Inl CategoryInvalid else Inr key)
        })"

definition TransitSign ::
  "'s mgr_env \<Rightarrow> ssh_lib \<Rightarrow> Token \<Rightarrow> string \<Rightarrow> string \<Rightarrow> string \<Rightarrow> string \<Rightarrow> string \<Rightarrow> ('s ssh_world, Category + string) state" where
  "TransitSign env lib token mount name keyType hash data =
     (case withToken env (tok_value token) of
        Inl c \<Rightarrow> ret (Inl c)
      | Inr client \<Rightarrow>
          let rsa = HasPrefix keyType ''rsa-'';
              path = mount @ ''/sign/'' @ name @ (if rsa then ''/'' @ hash else []);
              request = [(''input'', RString (sl_Base64 lib data))] @ (if rsa then [(''signature_algorithm'', RString ''pkcs1v15'')] else [])
          in do {
            x \<leftarrow> sw_call (api_Write (me_api env) client path request None);
            ret (case x of
               Inl e \<Rightarrow> Inl (categorize e)
             | Inr None \<Rightarrow> Inl CategoryInvalid
             | Inr (Some secret) \<Rightarrow>
                 (case requireString (sec_Data secret) ''signature'' of
                    Inl c \<Rightarrow> Inl c
                  | Inr encoded \<Rightarrow>
                      let parts = Split encoded (CHR '':'')
                      in if length parts \<noteq> 3 \<or> parts ! 0 \<noteq> ''vault'' then Inl CategoryInvalid
                         else case sl_Decode64 lib (parts ! 2) of None \<Rightarrow> Inl CategoryInvalid | Some signature \<Rightarrow> Inr signature))
          })"

text \<open>The endpoint asks for no principals.\<close>

definition SignSSHKey :: "'s mgr_env \<Rightarrow> ssh_lib \<Rightarrow> Token \<Rightarrow> string \<Rightarrow> string \<Rightarrow> string \<Rightarrow> ('s ssh_world, Category + ssh_certificate) state" where
  "SignSSHKey env lib token mount role publicKey =
     (case withToken env (tok_value token) of
        Inl c \<Rightarrow> ret (Inl c)
      | Inr client \<Rightarrow> do {
          x \<leftarrow> sw_call (api_Write (me_api env) client (mount @ ''/sign/'' @ role)
                 [(''public_key'', RString (sl_Authorized lib publicKey)), (''cert_type'', RString ''user'')] None);
          ret (case x of
             Inl e \<Rightarrow> Inl (categorize e)
           | Inr None \<Rightarrow> Inl CategoryInvalid
           | Inr (Some secret) \<Rightarrow>
               (case requireString (sec_Data secret) ''signed_key'' of
                  Inl c \<Rightarrow> Inl c
                | Inr signed_key \<Rightarrow> (case sl_ParseCertificate lib signed_key of None \<Rightarrow> Inl CategoryInvalid | Some c \<Rightarrow> Inr c)))
        })"

section \<open>Events\<close>

definition outcome_of_error :: "ssh_error option \<Rightarrow> string \<times> string" where
  "outcome_of_error err =
     (case err of
        None \<Rightarrow> (OutcomeOK, ErrorNone)
      | Some errNotBound \<Rightarrow> (OutcomeDenied, ErrorNotBound)
      | Some errNoToken \<Rightarrow> (OutcomeFailed, ''no-token'')
      | Some errUnknownKey \<Rightarrow> (OutcomeDenied, ErrorPolicyDenied)
      | Some errUnsupported \<Rightarrow> (OutcomeDenied, ErrorPolicyDenied)
      | Some errRefused \<Rightarrow> (OutcomeDenied, ErrorPolicyDenied)
      | Some OtherErr \<Rightarrow> (OutcomeFailed, ''openbao-unavailable'')
      | Some (BaoErr c) \<Rightarrow>
          if c = CategoryDenied \<or> c = CategoryInvalid \<or> c = CategoryNotFound then (OutcomeDenied, ''openbao-denied'')
          else if c = CategoryTimeout then (OutcomeTimeout, ''openbao-timeout'')
          else (OutcomeFailed, ''openbao-unavailable''))"

text \<open>The view of an unbound container is Go's zero value.\<close>

definition ssh_recordOutcome :: "string \<Rightarrow> View option \<Rightarrow> string \<Rightarrow> int \<Rightarrow> int \<Rightarrow> ssh_error option \<Rightarrow> ('s ssh_world, unit) state" where
  "ssh_recordOutcome operation view fingerprint started finished err =
     sw_update (\<lambda>w. w\<lparr>sw_log := sw_log w @ [no_event\<lparr>ev_Time := finished, ev_Operation := operation,
       ev_Outcome := fst (outcome_of_error err), ev_ErrorCode := snd (outcome_of_error err), ev_Latency := word_of_int (finished - started),
       ev_Binding := (case view of None \<Rightarrow> [] | Some v \<Rightarrow> view_ID v),
       ev_ContainerKey := (case view of None \<Rightarrow> [] | Some v \<Rightarrow> view_ContainerKey v), ev_Fingerprint := fingerprint\<rparr>]\<rparr>)"

definition record_now :: "string \<Rightarrow> View option \<Rightarrow> string \<Rightarrow> int \<Rightarrow> ssh_error option \<Rightarrow> ('s ssh_world, unit) state" where
  "record_now operation view fingerprint started err = do { t \<leftarrow> sw_now; ssh_recordOutcome operation view fingerprint started t err }"

section \<open>Certificates\<close>

text \<open>
  \<^verbatim>\<open>time.Unix\<close> of a number of seconds, in nanoseconds since 1970: the seconds are reckoned from year 1 in 64 bits.
  A difference of times saturates, a time plus a duration wraps its seconds.
\<close>

definition wrap_seconds :: "int \<Rightarrow> int" where
  "wrap_seconds s = sint (word_of_int (s + 62135596800) :: 64 word) - 62135596800"

definition time_Unix :: "64 word \<Rightarrow> int" where
  "time_Unix s = wrap_seconds (sint s) * second"

definition time_Sub :: "int \<Rightarrow> int \<Rightarrow> int" where
  "time_Sub t u = max (- (2 ^ 63)) (min (2 ^ 63 - 1) (t - u))"

definition time_Add :: "int \<Rightarrow> int \<Rightarrow> int" where
  "time_Add t d = wrap_seconds ((t + d) div second) * second + (t + d) mod second"

definition third :: "int \<Rightarrow> int" where
  "third d = (if d < 0 then - (- d div 3) else d div 3)"

definition needsReissue :: "certificate \<Rightarrow> int \<Rightarrow> bool" where
  "needsReissue entry now =
     (let validAfter = time_Unix (cert_ValidAfter (ce_certificate entry));
          validBefore = time_Unix (cert_ValidBefore (ce_certificate entry))
      in now > time_Add validBefore (third (sint (- (word_of_int (time_Sub validBefore validAfter) :: 64 word)))))"

definition cacheKey :: "string \<Rightarrow> string \<Rightarrow> string" where
  "cacheKey bindingID role = bindingID @ [CHR 0x00] @ role"

definition cache_get :: "string \<Rightarrow> string \<Rightarrow> ('s ssh_world, certificate option) state" where
  "cache_get bindingID role = sw_get (\<lambda>w. map_of (sw_entries w) (cacheKey bindingID role))"

definition cache_key :: "string \<Rightarrow> string \<Rightarrow> ('s ssh_world, string option) state" where
  "cache_key bindingID role = do {
     known \<leftarrow> sw_get (\<lambda>w. map_of (sw_keys w) (cacheKey bindingID role));
     case known of
       Some private \<Rightarrow> ret (Some private)
     | None \<Rightarrow> do {
         generated \<leftarrow> sw_generate;
         case generated of
           None \<Rightarrow> ret None
         | Some private \<Rightarrow> do {
             sw_update (\<lambda>w. w\<lparr>sw_keys := AList.update (cacheKey bindingID role) private (sw_keys w)\<rparr>);
             ret (Some private)
           }
       }
   }"

definition cache_put :: "string \<Rightarrow> string \<Rightarrow> certificate \<Rightarrow> ('s ssh_world, unit) state" where
  "cache_put bindingID role entry = sw_update (\<lambda>w. w\<lparr>sw_entries := AList.update (cacheKey bindingID role) entry (sw_entries w)\<rparr>)"

definition ssh_issue :: "'s mgr_env \<Rightarrow> ssh_lib \<Rightarrow> View \<Rightarrow> string \<Rightarrow> ('s ssh_world, ssh_error + certificate) state" where
  "ssh_issue env lib view role = do {
     started \<leftarrow> sw_now;
     key \<leftarrow> cache_key (view_ID view) role;
     case key of
       None \<Rightarrow> ret (Inl OtherErr)
     | Some private \<Rightarrow>
         (case sl_PublicKey lib private of
            None \<Rightarrow> ret (Inl OtherErr)
          | Some public \<Rightarrow> do {
              x \<leftarrow> SignSSHKey env lib (view_Token view) (vm_SSH (view_Mounts view)) role public;
              record_now ''ssh-certificate'' (Some view) (sl_Fingerprint lib public) started
                (case x of Inl c \<Rightarrow> Some (BaoErr c) | Inr _ \<Rightarrow> None);
              case x of
                Inl c \<Rightarrow> ret (Inl (BaoErr c))
              | Inr issued \<Rightarrow> do {
                  cache_put (view_ID view) role \<lparr>ce_signer = private, ce_certificate = issued\<rparr>;
                  ret (Inr \<lparr>ce_signer = private, ce_certificate = issued\<rparr>)
                }
            })
   }"

text \<open>One tick of \<^verbatim>\<open>refresh\<close>.\<close>

fun refresh_roles :: "'s mgr_env \<Rightarrow> ssh_lib \<Rightarrow> View \<Rightarrow> string list \<Rightarrow> ('s ssh_world, unit) state" where
  "refresh_roles env lib view [] = ret ()"
| "refresh_roles env lib view (role # roles) = do {
     entry \<leftarrow> cache_get (view_ID view) role;
     (case entry of
        None \<Rightarrow> ret ()
      | Some e \<Rightarrow> do { t \<leftarrow> sw_now; if needsReissue e t then do { ssh_issue env lib view role; ret () } else ret () });
     refresh_roles env lib view roles
   }"

definition refresh :: "'s mgr_env \<Rightarrow> ssh_lib \<Rightarrow> ('s ssh_world, unit) state" where
  "refresh env lib = do {
     found \<leftarrow> sw_lookup;
     case found of
       None \<Rightarrow> ret ()
     | Some view \<Rightarrow> if \<not> view_HasToken view then ret () else refresh_roles env lib view (eff_CARoles (view_Policy view))
   }"

section \<open>Identities\<close>

datatype identity_source = TransitIdentity TransitKey | CertificateIdentity certificate

record ssh_identity =
  id_Format :: string
  id_Blob :: string
  id_Comment :: string
  id_source :: identity_source
  id_notForwardable :: bool

definition ssh_current :: "('s ssh_world, View option \<times> ssh_error option) state" where
  "ssh_current = do {
     found \<leftarrow> sw_lookup;
     ret (case found of
        None \<Rightarrow> (None, Some errNotBound)
      | Some view \<Rightarrow> if \<not> view_HasToken view \<or> \<not> view_Client view then (Some view, Some errNoToken) else (Some view, None))
   }"

fun transit_identities :: "'s mgr_env \<Rightarrow> ssh_lib \<Rightarrow> View \<Rightarrow> string list \<Rightarrow> string list \<Rightarrow> ('s ssh_world, ssh_identity list \<times> ssh_error option) state" where
  "transit_identities env lib view restricted [] = ret ([], None)"
| "transit_identities env lib view restricted (name # names) = do {
     x \<leftarrow> TransitPublicKey env (view_Token view) (vm_Transit (view_Mounts view)) name;
     (rest, e) \<leftarrow> transit_identities env lib view restricted names;
     ret (case x of
        Inl c \<Rightarrow> (rest, Some (BaoErr c))
      | Inr key \<Rightarrow>
          let blob = the (tk_PublicKey key)
          in (\<lparr>id_Format = sl_Type lib blob, id_Blob = blob, id_Comment = name, id_source = TransitIdentity key,
               id_notForwardable = (name \<in> set restricted)\<rparr> # rest, e))
   }"

definition first_error :: "ssh_error option \<Rightarrow> ssh_error option \<Rightarrow> ssh_error option" where
  "first_error e f = (case e of None \<Rightarrow> f | Some _ \<Rightarrow> e)"

definition role_entry :: "'s mgr_env \<Rightarrow> ssh_lib \<Rightarrow> View \<Rightarrow> string \<Rightarrow> ('s ssh_world, ssh_error + certificate) state" where
  "role_entry env lib view role = do {
     entry \<leftarrow> cache_get (view_ID view) role;
     case entry of
       None \<Rightarrow> ssh_issue env lib view role
     | Some e \<Rightarrow> do {
         t \<leftarrow> sw_now;
         if needsReissue e t then do {
           issued \<leftarrow> ssh_issue env lib view role;
           ret (case issued of Inl _ \<Rightarrow> Inr e | Inr i \<Rightarrow> Inr i)
         }
         else ret (Inr e)
       }
   }"

fun role_identities :: "'s mgr_env \<Rightarrow> ssh_lib \<Rightarrow> View \<Rightarrow> string list \<Rightarrow> string list \<Rightarrow> ('s ssh_world, ssh_identity list \<times> ssh_error option) state" where
  "role_identities env lib view restricted [] = ret ([], None)"
| "role_identities env lib view restricted (role # roles) = do {
     x \<leftarrow> role_entry env lib view role;
     (rest, e) \<leftarrow> role_identities env lib view restricted roles;
     ret (case x of
        Inl err \<Rightarrow> (rest, Some err)
      | Inr entry \<Rightarrow>
          (\<lparr>id_Format = sl_Type lib (cert_Blob (ce_certificate entry)), id_Blob = cert_Blob (ce_certificate entry), id_Comment = role,
             id_source = CertificateIdentity entry, id_notForwardable = (role \<in> set restricted)\<rparr> # rest, e))
   }"

text \<open>The names a policy marks as not forwardable.\<close>

definition restricted_of :: "Effective \<Rightarrow> string list \<times> string list" where
  "restricted_of e =
     (case Option.bind (eff_SSH e) ssh_NotForwardable of
        None \<Rightarrow> ([], [])
      | Some marked \<Rightarrow> (names_TransitKeys marked, names_CARoles marked))"

definition identities :: "'s mgr_env \<Rightarrow> ssh_lib \<Rightarrow> View \<Rightarrow> ('s ssh_world, ssh_error + ssh_identity list) state" where
  "identities env lib view = do {
     (keys, e) \<leftarrow> transit_identities env lib view (fst (restricted_of (view_Policy view))) (eff_TransitKeys (view_Policy view));
     (roles, f) \<leftarrow> role_identities env lib view (snd (restricted_of (view_Policy view))) (eff_CARoles (view_Policy view));
     ret (case first_error e f of
        Some err \<Rightarrow> if keys @ roles = [] then Inl err else Inr (keys @ roles)
      | None \<Rightarrow> Inr (keys @ roles))
   }"

section \<open>A connection\<close>

definition ssh_List :: "'s mgr_env \<Rightarrow> ssh_lib \<Rightarrow> ('s ssh_world, ssh_error + (string \<times> string \<times> string) list) state" where
  "ssh_List env lib = do {
     started \<leftarrow> sw_now;
     (found, err) \<leftarrow> ssh_current;
     case (found, err) of
       (Some view, None) \<Rightarrow> do {
         resolved \<leftarrow> identities env lib view;
         record_now ''ssh-list'' found [] started (case resolved of Inl e \<Rightarrow> Some e | Inr _ \<Rightarrow> None);
         ret (case resolved of Inl e \<Rightarrow> Inl e | Inr items \<Rightarrow> Inr (map (\<lambda>i. (id_Format i, id_Blob i, id_Comment i)) items))
       }
     | _ \<Rightarrow> do { record_now ''ssh-list'' found [] started err; ret (Inr []) }
   }"

definition SignatureFlagRsaSha256 :: "32 word" where
  "SignatureFlagRsaSha256 = 2"

definition SignatureFlagRsaSha512 :: "32 word" where
  "SignatureFlagRsaSha512 = 4"

definition transit_algorithm :: "string \<Rightarrow> 32 word \<Rightarrow> (string \<times> string) option" where
  "transit_algorithm keyType flags =
     (if HasPrefix keyType ''rsa-'' then
        (if and flags SignatureFlagRsaSha512 \<noteq> 0 then Some (''rsa-sha2-512'', ''sha2-512'')
         else if and flags SignatureFlagRsaSha256 \<noteq> 0 then Some (''rsa-sha2-256'', ''sha2-256'')
         else None)
      else if keyType \<noteq> ''ed25519'' then None
      else Some (''ssh-ed25519'', []))"

definition signTransit :: "'s mgr_env \<Rightarrow> ssh_lib \<Rightarrow> View \<Rightarrow> TransitKey \<Rightarrow> string \<Rightarrow> 32 word \<Rightarrow> ('s ssh_world, ssh_error + Signature) state" where
  "signTransit env lib view key data flags =
     (case transit_algorithm (tk_Type key) flags of
        None \<Rightarrow> ret (Inl errUnsupported)
      | Some (format, hash) \<Rightarrow> do {
          x \<leftarrow> TransitSign env lib (view_Token view) (vm_Transit (view_Mounts view)) (tk_Name key) (tk_Type key) hash data;
          ret (case x of
             Inl c \<Rightarrow> Inl (BaoErr c)
           | Inr raw \<Rightarrow>
               let signature = \<lparr>sig_Format = format, sig_Blob = raw\<rparr>
               in if sl_Verify lib (the (tk_PublicKey key)) data signature then Inr signature else Inl OtherErr)
        })"

definition signCertificate :: "ssh_lib \<Rightarrow> string \<Rightarrow> string \<Rightarrow> 32 word \<Rightarrow> ssh_error + Signature" where
  "signCertificate lib signer data flags =
     (if and flags (or SignatureFlagRsaSha256 SignatureFlagRsaSha512) \<noteq> 0 then Inl errUnsupported
      else case sl_Sign lib signer data of None \<Rightarrow> Inl OtherErr | Some s \<Rightarrow> Inr s)"

definition sign_identity ::
  "'s mgr_env \<Rightarrow> ssh_lib \<Rightarrow> nat \<Rightarrow> View \<Rightarrow> ssh_identity \<Rightarrow> string \<Rightarrow> 32 word \<Rightarrow> ('s ssh_world, ssh_error + Signature) state" where
  "sign_identity env lib connection view item data flags = do {
     forwarded \<leftarrow> sw_get (\<lambda>w. sw_forwarded w ! connection);
     if forwarded \<and> id_notForwardable item then ret (Inl errRefused)
     else case id_source item of
            TransitIdentity key \<Rightarrow> signTransit env lib view key data flags
          | CertificateIdentity entry \<Rightarrow> ret (signCertificate lib (ce_signer entry) data flags)
   }"

definition SignWithFlags ::
  "'s mgr_env \<Rightarrow> ssh_lib \<Rightarrow> nat \<Rightarrow> string \<Rightarrow> string \<Rightarrow> 32 word \<Rightarrow> ('s ssh_world, ssh_error + Signature) state" where
  "SignWithFlags env lib connection blob data flags = do {
     started \<leftarrow> sw_now;
     (found, err) \<leftarrow> ssh_current;
     result \<leftarrow> (case (found, err) of
         (Some view, None) \<Rightarrow>
           attempt (identities env lib view) (\<lambda>e. ret (Inl e))
             (\<lambda>resolved. case find (\<lambda>i. id_Blob i = blob) resolved of
                None \<Rightarrow> ret (Inl errUnknownKey)
              | Some item \<Rightarrow> sign_identity env lib connection view item data flags)
       | (_, Some e) \<Rightarrow> ret (Inl e)
       | (None, None) \<Rightarrow> ret (Inl errNotBound));
     record_now ''ssh-sign'' found (sl_Fingerprint lib blob) started (case result of Inl e \<Rightarrow> Some e | Inr _ \<Rightarrow> None);
     ret result
   }"

text \<open>\<open>None\<close> is the library's answer that the extension is not supported.\<close>

definition bind_verified :: "ssh_lib \<Rightarrow> session_bind \<Rightarrow> bool" where
  "bind_verified lib message =
     (case sl_ParsePublicKey lib (sb_HostKey message) of
        None \<Rightarrow> False
      | Some hostKey \<Rightarrow>
          (case sl_UnmarshalSignature lib (sb_Signature message) of
             None \<Rightarrow> False
           | Some signature \<Rightarrow> sl_Verify lib hostKey (sb_SessionID message) signature))"

definition Extension :: "ssh_lib \<Rightarrow> nat \<Rightarrow> string \<Rightarrow> string \<Rightarrow> ('s ssh_world, ssh_error option option) state" where
  "Extension lib connection extensionType contents =
     (if extensionType \<noteq> ''session-bind@openssh.com'' then ret None
      else do {
        started \<leftarrow> sw_now;
        view \<leftarrow> sw_lookup;
        case sl_UnmarshalBind lib contents of
          None \<Rightarrow> do { record_now ''ssh-session-bind'' view [] started (Some errRefused); ret (Some (Some errRefused)) }
        | Some message \<Rightarrow>
            if \<not> bind_verified lib message
            then do { record_now ''ssh-session-bind'' view [] started (Some errRefused); ret (Some (Some errRefused)) }
            else do {
              sw_update (\<lambda>w. w\<lparr>sw_forwarded := (sw_forwarded w)[connection := sw_forwarded w ! connection \<or> sb_Forwarding message]\<rparr>);
              record_now ''ssh-session-bind'' view [] started None;
              ret (Some None)
            }
      })"

text \<open>The requests of a connection. Adding, removing and locking identities and handing out signers are refused.\<close>

datatype ssh_request =
    RequestList
  | RequestSign string string "32 word"
  | RequestExtension string string
  | RequestAdministration

datatype ssh_answer =
    AnswerKeys "(string \<times> string \<times> string) list"
  | AnswerSignature Signature
  | AnswerDone
  | AnswerUnsupported
  | AnswerError ssh_error

definition administration :: ssh_answer where
  "administration = AnswerError errRefused"

fun ssh_request_run :: "'s mgr_env \<Rightarrow> ssh_lib \<Rightarrow> nat \<Rightarrow> ssh_request \<Rightarrow> ('s ssh_world, ssh_answer) state" where
  "ssh_request_run env lib connection RequestList = do {
     x \<leftarrow> ssh_List env lib; ret (case x of Inl e \<Rightarrow> AnswerError e | Inr keys \<Rightarrow> AnswerKeys keys) }"
| "ssh_request_run env lib connection (RequestSign blob data flags) = do {
     x \<leftarrow> SignWithFlags env lib connection blob data flags; ret (case x of Inl e \<Rightarrow> AnswerError e | Inr s \<Rightarrow> AnswerSignature s) }"
| "ssh_request_run env lib connection (RequestExtension extensionType contents) = do {
     x \<leftarrow> Extension lib connection extensionType contents;
     ret (case x of None \<Rightarrow> AnswerUnsupported | Some None \<Rightarrow> AnswerDone | Some (Some e) \<Rightarrow> AnswerError e) }"
| "ssh_request_run env lib connection RequestAdministration = ret administration"

text \<open>
  What happens on a socket: a connection opens, a connection has a request, \<^verbatim>\<open>refresh\<close> ticks, or the world around it changes:
  the service, the clock, the binding and its token, the next random keys.
\<close>

inductive ssh_step :: "'s mgr_env \<Rightarrow> ssh_lib \<Rightarrow> 's ssh_world \<Rightarrow> 's ssh_world \<Rightarrow> bool" for env lib where
  Opened: "ssh_step env lib w (w\<lparr>sw_forwarded := sw_forwarded w @ [False]\<rparr>)"
| Requested: "connection < length (sw_forwarded w) \<Longrightarrow> run_state (ssh_request_run env lib connection request) w = (answer, w') \<Longrightarrow> ssh_step env lib w w'"
| Refreshed: "run_state (refresh env lib) w = (u, w') \<Longrightarrow> ssh_step env lib w w'"
| Around: "ssh_step env lib w (w\<lparr>sw_service := s, sw_clock := clock, sw_lookups := lookups, sw_generated := generated\<rparr>)"

definition served :: "'s ssh_world \<Rightarrow> bool" where
  "served w \<longleftrightarrow> sw_entries w = [] \<and> sw_keys w = [] \<and> sw_forwarded w = []"

section \<open>Programs that keep a property\<close>

definition hoare :: "('w \<Rightarrow> bool) \<Rightarrow> ('w, 'a) state \<Rightarrow> ('a \<Rightarrow> 'w \<Rightarrow> bool) \<Rightarrow> bool" where
  "hoare P m Q \<longleftrightarrow> (\<forall>w x w'. P w \<longrightarrow> run_state m w = (x, w') \<longrightarrow> Q x w')"

lemma hoareD: "hoare P m Q \<Longrightarrow> P w \<Longrightarrow> run_state m w = (x, w') \<Longrightarrow> Q x w'"
  by (auto simp: hoare_def)

lemma hoare_conseq: "hoare P' m Q' \<Longrightarrow> (\<And>w. P w \<Longrightarrow> P' w) \<Longrightarrow> (\<And>x w. Q' x w \<Longrightarrow> Q x w) \<Longrightarrow> hoare P m Q"
  unfolding hoare_def by blast

lemma hoare_bind: "hoare P m R \<Longrightarrow> (\<And>x. hoare (R x) (k x) Q) \<Longrightarrow> hoare P (State_Monad.bind m k) Q"
  unfolding hoare_def by (fastforce split: prod.splits)

lemma hoare_ret: "(\<And>w. P w \<Longrightarrow> Q x w) \<Longrightarrow> hoare P (ret x) Q"
  by (auto simp: hoare_def)

lemma hoare_attempt:
  "hoare P m R \<Longrightarrow> (\<And>e. hoare (R (Inl e)) (h e) Q) \<Longrightarrow> (\<And>a. hoare (R (Inr a)) (k a) Q) \<Longrightarrow> hoare P (attempt m h k) Q"
  unfolding attempt_def by (rule hoare_bind) (auto split: sum.splits)

lemma hoare_if: "(c \<Longrightarrow> hoare P m Q) \<Longrightarrow> (\<not> c \<Longrightarrow> hoare P m' Q) \<Longrightarrow> hoare P (if c then m else m') Q"
  by simp

lemma hoare_option: "(x = None \<Longrightarrow> hoare P m Q) \<Longrightarrow> (\<And>a. x = Some a \<Longrightarrow> hoare P (k a) Q) \<Longrightarrow> hoare P (case x of None \<Rightarrow> m | Some a \<Rightarrow> k a) Q"
  by (cases x) auto

lemma hoare_sum: "(\<And>e. x = Inl e \<Longrightarrow> hoare P (h e) Q) \<Longrightarrow> (\<And>a. x = Inr a \<Longrightarrow> hoare P (k a) Q) \<Longrightarrow> hoare P (case x of Inl e \<Rightarrow> h e | Inr a \<Rightarrow> k a) Q"
  by (cases x) auto

lemma hoare_prod: "(\<And>a b. x = (a, b) \<Longrightarrow> hoare P (k a b) Q) \<Longrightarrow> hoare P (case x of (a, b) \<Rightarrow> k a b) Q"
  by (cases x) auto

end
