(* ===== verification/SSH_Safety.thy ===== *)
theory SSH_Safety
  imports SSH_Endpoint
begin

text \<open>
  What a container can have signed. \<open>cache_frame\<close> collects what every request and every tick of \<^verbatim>\<open>refresh\<close> keeps of the
  cache, \<open>socket_frame\<close> what any sequence of steps keeps; the properties are interpretations of the two.
\<close>

section \<open>What steps keep\<close>

locale cache_frame =
  fixes K :: "'s ssh_world \<Rightarrow> bool"
  assumes service [simp]: "K (w\<lparr>sw_service := s\<rparr>) = K w"
    and clock [simp]: "K (w\<lparr>sw_clock := c\<rparr>) = K w"
    and lookups [simp]: "K (w\<lparr>sw_lookups := l\<rparr>) = K w"
    and generated [simp]: "K (w\<lparr>sw_generated := g\<rparr>) = K w"
    and log [simp]: "K (w\<lparr>sw_log := es\<rparr>) = K w"
    and fresh_key: "K w \<Longrightarrow> map_of (sw_keys w) k = None \<Longrightarrow> K (w\<lparr>sw_keys := AList.update k p (sw_keys w)\<rparr>)"
    and new_entry: "K w \<Longrightarrow> map_of (sw_keys w) k = Some (ce_signer e) \<Longrightarrow> K (w\<lparr>sw_entries := AList.update k e (sw_entries w)\<rparr>)"
begin

definition stays :: "('s ssh_world, 'a) state \<Rightarrow> bool" where
  "stays m \<longleftrightarrow> hoare K m (\<lambda>_. K)"

lemma stays_ret: "stays (ret x)"
  by (simp add: stays_def hoare_ret)

lemma stays_bind: "stays m \<Longrightarrow> (\<And>x. stays (k x)) \<Longrightarrow> stays (State_Monad.bind m k)"
  unfolding stays_def by (rule hoare_bind)

lemma stays_attempt: "stays m \<Longrightarrow> (\<And>e. stays (h e)) \<Longrightarrow> (\<And>a. stays (k a)) \<Longrightarrow> stays (attempt m h k)"
  unfolding stays_def by (rule hoare_attempt)

lemma stays_if: "stays m \<Longrightarrow> stays m' \<Longrightarrow> stays (if c then m else m')"
  by simp

lemma stays_option: "stays m \<Longrightarrow> (\<And>a. stays (k a)) \<Longrightarrow> stays (case x of None \<Rightarrow> m | Some a \<Rightarrow> k a)"
  by (cases x) auto

lemma stays_sum: "(\<And>e. stays (h e)) \<Longrightarrow> (\<And>a. stays (k a)) \<Longrightarrow> stays (case x of Inl e \<Rightarrow> h e | Inr a \<Rightarrow> k a)"
  by (cases x) auto

lemma stays_prod: "(\<And>a b. stays (k a b)) \<Longrightarrow> stays (case x of (a, b) \<Rightarrow> k a b)"
  by (cases x) auto

lemma stays_basic: "stays (sw_call f)" "stays sw_now" "stays sw_lookup" "stays sw_generate" "stays (sw_get f')"
  by (auto simp: stays_def hoare_def sw_call_def sw_now_def sw_lookup_def sw_generate_def sw_get_def split: prod.splits)

lemma stays_record_now: "stays (record_now operation view fingerprint started err)"
  by (auto simp: stays_def hoare_def record_now_def ssh_recordOutcome_def sw_update_def sw_now_def)

lemmas stay_rules = stays_ret stays_bind stays_attempt stays_if stays_option stays_sum stays_prod stays_basic stays_record_now

lemma stays_calls:
  "stays (TransitPublicKey env token mount name)" "stays (TransitSign env lib token mount name keyType hash data)"
  "stays (SignSSHKey env lib token mount role public)"
  unfolding TransitPublicKey_def TransitSign_def SignSSHKey_def Let_def by (intro stay_rules)+

lemma generated_key: "K w \<Longrightarrow> map_of (sw_keys w) k = None \<Longrightarrow> K (w\<lparr>sw_generated := g, sw_keys := AList.update k p (sw_keys w)\<rparr>)"
  using fresh_key[of "w\<lparr>sw_generated := g\<rparr>" k p] by simp

lemma cache_key_hoare: "hoare K (cache_key b r) (\<lambda>x w. K w \<and> (\<forall>p. x = Some p \<longrightarrow> map_of (sw_keys w) (cacheKey b r) = Some p))"
  by (auto simp: hoare_def cache_key_def sw_get_def sw_generate_def sw_update_def update_conv' intro: generated_key split: option.splits)

lemma stays_issue: "stays (ssh_issue env lib view role)"
proof -
  have put: "hoare (\<lambda>w. K w \<and> map_of (sw_keys w) (cacheKey b r) = Some p) (cache_put b r \<lparr>ce_signer = p, ce_certificate = c\<rparr>) (\<lambda>_. K)" for b r p c
    by (auto simp: hoare_def cache_put_def sw_update_def intro: new_entry)
  have call: "hoare (\<lambda>w. K w \<and> map_of (sw_keys w) k = Some p) (SignSSHKey env lib token mount r public) (\<lambda>_ w. K w \<and> map_of (sw_keys w) k = Some p)" for k p token mount r public
    by (auto simp: hoare_def SignSSHKey_def sw_call_def split: sum.splits prod.splits)
  have event: "hoare (\<lambda>w. K w \<and> map_of (sw_keys w) k = Some p) (record_now operation v f started err) (\<lambda>_ w. K w \<and> map_of (sw_keys w) k = Some p)"
    for k p operation v f started err
    by (auto simp: hoare_def record_now_def ssh_recordOutcome_def sw_update_def sw_now_def)
  show ?thesis
    unfolding ssh_issue_def stays_def
    apply (rule hoare_bind[OF stays_basic(2)[unfolded stays_def] hoare_bind[OF cache_key_hoare]])
    apply (rule hoare_option, rule hoare_ret, simp)
    apply (rule hoare_option, rule hoare_ret, simp)
    apply (simp, rule hoare_bind[OF call hoare_bind[OF event]], rule hoare_sum, rule hoare_ret, simp)
    apply (rule hoare_bind[OF put hoare_ret], assumption)
    done
qed

lemma stays_role_entry: "stays (role_entry env lib view role)"
  unfolding role_entry_def cache_get_def by (intro stay_rules stays_issue)

lemma stays_refresh_roles: "stays (refresh_roles env lib view roles)"
proof (induction roles)
  case (Cons role roles)
  then show ?case unfolding refresh_roles.simps cache_get_def by (intro stay_rules stays_issue)
qed (simp add: stays_ret)

lemma stays_refresh: "stays (refresh env lib)"
  unfolding refresh_def by (intro stay_rules stays_refresh_roles)

lemma stays_transit_identities: "stays (transit_identities env lib view restricted names)"
proof (induction names)
  case (Cons name names)
  then show ?case unfolding transit_identities.simps by (intro stay_rules stays_calls)
qed (simp add: stays_ret)

lemma stays_role_identities: "stays (role_identities env lib view restricted roles)"
proof (induction roles)
  case (Cons role roles)
  then show ?case unfolding role_identities.simps by (intro stay_rules stays_role_entry)
qed (simp add: stays_ret)

lemma stays_identities: "stays (identities env lib view)"
  unfolding identities_def by (intro stay_rules stays_transit_identities stays_role_identities)

lemma stays_List: "stays (ssh_List env lib)"
  unfolding ssh_List_def ssh_current_def by (intro stay_rules stays_identities)

lemma stays_signTransit: "stays (signTransit env lib view key data flags)"
  unfolding signTransit_def by (intro stay_rules stays_calls)

lemma stays_sign_identity: "stays (sign_identity env lib connection view item data flags)"
proof -
  have "stays (case id_source item of TransitIdentity key \<Rightarrow> signTransit env lib view key data flags
      | CertificateIdentity entry \<Rightarrow> ret (signCertificate lib (ce_signer entry) data flags))"
    by (cases "id_source item") (auto intro: stays_signTransit stays_ret)
  then show ?thesis unfolding sign_identity_def by (intro stay_rules)
qed

lemma stays_Sign: "stays (SignWithFlags env lib connection blob data flags)"
  unfolding SignWithFlags_def ssh_current_def by (intro stay_rules stays_identities stays_sign_identity)

end

locale socket_frame = cache_frame +
  assumes bound: "K w \<Longrightarrow> c < length (sw_forwarded w) \<Longrightarrow> K (w\<lparr>sw_forwarded := (sw_forwarded w)[c := sw_forwarded w ! c \<or> b]\<rparr>)"
    and opened: "K w \<Longrightarrow> K (w\<lparr>sw_forwarded := sw_forwarded w @ [False]\<rparr>)"
begin

lemma Extension_keeps: "hoare (\<lambda>w. K w \<and> c < length (sw_forwarded w)) (Extension lib c extensionType contents) (\<lambda>_. K)"
proof -
  let ?P = "\<lambda>w. K w \<and> c < length (sw_forwarded w)"
  have read: "hoare ?P sw_now (\<lambda>_. ?P)" "hoare ?P sw_lookup (\<lambda>_. ?P)"
    by (auto simp: hoare_def sw_now_def sw_lookup_def)
  have bind: "hoare ?P (sw_update (\<lambda>w. w\<lparr>sw_forwarded := (sw_forwarded w)[c := sw_forwarded w ! c \<or> b]\<rparr>)) (\<lambda>_. K)" for b
    by (auto simp: hoare_def sw_update_def intro: bound)
  have event: "hoare K (do { record_now operation view f started err; ret x }) (\<lambda>_. K)" for operation view f started err and x :: "ssh_error option option"
    using stays_bind[OF stays_record_now stays_ret] by (simp add: stays_def)
  note refused = hoare_conseq[OF event, where P = ?P]
  show ?thesis
    unfolding Extension_def
    by (intro hoare_if hoare_bind[OF read(1) hoare_bind[OF read(2)]] hoare_option hoare_bind[OF bind event] refused hoare_ret) simp_all
qed

lemma step_keeps: "ssh_step env lib w w' \<Longrightarrow> K w \<Longrightarrow> K w'"
proof (induction rule: ssh_step.induct)
  case (Opened w)
  then show ?case by (rule opened)
next
  case (Requested c w request answer w')
  show ?case
  proof (cases request)
    case (RequestExtension t x)
    then have "hoare (\<lambda>w. K w \<and> c < length (sw_forwarded w)) (ssh_request_run env lib c request) (\<lambda>_. K)"
      by (auto intro!: hoare_bind[OF Extension_keeps] hoare_ret)
    then show ?thesis using Requested by (auto dest: hoareD)
  next
    case RequestList
    then have "stays (ssh_request_run env lib c request)" by (auto intro!: stays_bind stays_List stays_ret)
    then show ?thesis using Requested by (auto simp: stays_def dest: hoareD)
  next
    case (RequestSign b d f)
    then have "stays (ssh_request_run env lib c request)" by (auto intro!: stays_bind stays_Sign stays_ret)
    then show ?thesis using Requested by (auto simp: stays_def dest: hoareD)
  next
    case RequestAdministration
    then show ?thesis using Requested by simp
  qed
next
  case (Refreshed w u w')
  then show ?case using stays_refresh by (auto simp: stays_def dest: hoareD)
next
  case (Around w s c l g)
  then show ?case by simp
qed

lemma run_keeps: "(ssh_step env lib)\<^sup>*\<^sup>* w w' \<Longrightarrow> K w \<Longrightarrow> K w'"
  by (induction rule: rtranclp_induct) (auto intro: step_keeps)

end

text \<open>Three instances: a cached certificate belongs to the key of its binding and role, a key stays once there is
  one, and a connection that was forwarded stays so.\<close>

definition cache_ok :: "'s ssh_world \<Rightarrow> bool" where
  "cache_ok w \<longleftrightarrow> (\<forall>k e. map_of (sw_entries w) k = Some e \<longrightarrow> map_of (sw_keys w) k = Some (ce_signer e))"

interpretation cache_ok_frame: socket_frame cache_ok
  by unfold_locales (auto simp: cache_ok_def update_conv')

interpretation key_frame: socket_frame "\<lambda>w. map_of (sw_keys w) k = Some p" for k p
  by unfold_locales (auto simp: update_conv')

interpretation forwarded_frame: socket_frame "\<lambda>w. c < length (sw_forwarded w) \<and> sw_forwarded w ! c" for c
  by unfold_locales (auto simp: nth_list_update nth_append)

interpretation same_forwarded: cache_frame "\<lambda>w. sw_forwarded w = fw" for fw
  by unfold_locales auto

section \<open>Identities come from the policy\<close>

text \<open>A key OpenBao answered under a name with the container's own token.\<close>

definition read_key :: "'s mgr_env \<Rightarrow> View \<Rightarrow> string \<Rightarrow> TransitKey \<Rightarrow> bool" where
  "read_key env view name key \<longleftrightarrow>
     (\<exists>s secret s'. api_Read (me_api env) (tok_value (view_Token view)) (vm_Transit (view_Mounts view) @ ''/keys/'' @ name) s = (Inr (Some secret), s')
        \<and> key = transit_key env name secret \<and> tk_PublicKey key \<noteq> None)"

definition key_of :: "View \<Rightarrow> string \<Rightarrow> 's ssh_world \<Rightarrow> string option" where
  "key_of view role w = map_of (sw_keys w) (cacheKey (view_ID view) role)"

fun offers :: "'s mgr_env \<Rightarrow> View \<Rightarrow> ssh_identity \<Rightarrow> 's ssh_world \<Rightarrow> bool" where
  "offers env view \<lparr>id_Format = f, id_Blob = blob, id_Comment = name, id_source = TransitIdentity key, id_notForwardable = marked\<rparr> w \<longleftrightarrow>
     name \<in> set (eff_TransitKeys (view_Policy view)) \<and> read_key env view name key \<and> tk_PublicKey key = Some blob
     \<and> marked = (name \<in> set (fst (restricted_of (view_Policy view))))"
| "offers env view \<lparr>id_Format = f, id_Blob = blob, id_Comment = role, id_source = CertificateIdentity e, id_notForwardable = marked\<rparr> w \<longleftrightarrow>
     role \<in> set (eff_CARoles (view_Policy view)) \<and> key_of view role w = Some (ce_signer e) \<and> cert_Blob (ce_certificate e) = blob
     \<and> marked = (role \<in> set (snd (restricted_of (view_Policy view))))"

lemma withToken_value: "withToken env token = Inr client \<Longrightarrow> client = token"
  by (auto simp: withToken_def split: if_splits)

lemma TransitPublicKey_reads:
  "run_state (TransitPublicKey env (view_Token view) (vm_Transit (view_Mounts view)) name) w = (Inr key, w') \<Longrightarrow> read_key env view name key"
  by (fastforce simp: TransitPublicKey_def sw_call_def read_key_def Let_def dest!: withToken_value split: sum.splits option.splits prod.splits if_splits)

lemma read_key_public: "read_key env view name key \<Longrightarrow> tk_PublicKey key = Some (the (tk_PublicKey key))"
  by (auto simp: read_key_def)

lemma issue_cached:
  "hoare cache_ok (ssh_issue env lib view role) (\<lambda>x w. cache_ok w \<and> (\<forall>e. x = Inr e \<longrightarrow> key_of view role w = Some (ce_signer e)))"
proof -
  have "key_of view role w' = Some (ce_signer e)"
    if "run_state (ssh_issue env lib view role) w = (Inr e, w')" "cache_ok w'" for w w' e
  proof -
    have "map_of (sw_entries w') (cacheKey (view_ID view) role) = Some e"
      using that(1) by (auto simp: ssh_issue_def cache_put_def sw_update_def update_conv' split: prod.splits option.splits sum.splits)
    then show ?thesis using that(2) by (auto simp: cache_ok_def key_of_def)
  qed
  moreover have "hoare cache_ok (ssh_issue env lib view role) (\<lambda>_. cache_ok)"
    using cache_ok_frame.stays_issue by (simp add: cache_ok_frame.stays_def)
  ultimately show ?thesis unfolding hoare_def by blast
qed

lemma role_entry_cached:
  "hoare cache_ok (role_entry env lib view role) (\<lambda>x w. cache_ok w \<and> (\<forall>e. x = Inr e \<longrightarrow> key_of view role w = Some (ce_signer e)))"
proof -
  have get: "hoare cache_ok (cache_get (view_ID view) role) (\<lambda>x w. cache_ok w \<and> (\<forall>e. x = Some e \<longrightarrow> key_of view role w = Some (ce_signer e)))"
    by (auto simp: hoare_def cache_get_def sw_get_def cache_ok_def key_of_def)
  have now: "hoare (\<lambda>w. cache_ok w \<and> key_of view role w = k) sw_now (\<lambda>_ w. cache_ok w \<and> key_of view role w = k)" for k
    by (auto simp: hoare_def sw_now_def key_of_def cache_ok_def)
  have again: "hoare (\<lambda>w. cache_ok w \<and> key_of view role w = Some p) (ssh_issue env lib view role)
      (\<lambda>x w. cache_ok w \<and> key_of view role w = Some p \<and> (\<forall>e. x = Inr e \<longrightarrow> key_of view role w = Some (ce_signer e)))" for p
    using issue_cached[of env lib view role] key_frame.stays_issue[of "cacheKey (view_ID view) role" p env lib view role]
    unfolding key_frame.stays_def hoare_def key_of_def by blast
  show ?thesis
    unfolding role_entry_def
    apply (rule hoare_bind[OF get], rule hoare_option)
     apply (rule hoare_conseq[OF issue_cached], simp, simp)
    apply (simp, rule hoare_bind[OF now], rule hoare_if)
     apply (rule hoare_bind[OF again], rule hoare_ret)
     apply (auto intro: hoare_ret split: sum.splits)
    done
qed

text \<open>Keys do not change, so what the first identities say of theirs stays true while the others are resolved.\<close>

lemma key_of_keeps:
  "run_state (role_identities env lib view restricted roles) w = (x, w') \<Longrightarrow> key_of v r w = Some p \<Longrightarrow> key_of v r w' = Some p"
  unfolding key_of_def by (rule hoareD[OF key_frame.stays_role_identities[unfolded key_frame.stays_def]])

lemma transit_identities_offer:
  assumes "run_state (transit_identities env lib view (fst (restricted_of (view_Policy view))) names) w = ((items, e), w')"
    and "set names \<subseteq> set (eff_TransitKeys (view_Policy view))" and "item \<in> set items"
  shows "offers env view item any"
  using assms
proof (induction names arbitrary: w items e w')
  case (Cons name names)
  obtain x w1 where x: "run_state (TransitPublicKey env (view_Token view) (vm_Transit (view_Mounts view)) name) w = (x, w1)" by fastforce
  obtain rest f w2 where rest: "run_state (transit_identities env lib view (fst (restricted_of (view_Policy view))) names) w1 = ((rest, f), w2)"
    by (metis surj_pair)
  have "item \<in> set rest \<Longrightarrow> ?case" using Cons.IH[OF rest] Cons.prems by auto
  then show ?case
    using Cons.prems x rest TransitPublicKey_reads[of env view name w] read_key_public[of env view name] by (cases x) (auto simp: Let_def)
qed simp

lemma role_identities_offer:
  assumes "run_state (role_identities env lib view (snd (restricted_of (view_Policy view))) roles) w = ((items, e), w')" and "cache_ok w"
    and "set roles \<subseteq> set (eff_CARoles (view_Policy view))" and "item \<in> set items"
  shows "offers env view item w'"
  using assms
proof (induction roles arbitrary: w items e w')
  case (Cons role roles)
  obtain x w1 where x: "run_state (role_entry env lib view role) w = (x, w1)" by fastforce
  obtain rest f w2 where rest: "run_state (role_identities env lib view (snd (restricted_of (view_Policy view))) roles) w1 = ((rest, f), w2)"
    by (metis surj_pair)
  have w1: "cache_ok w1" "\<And>e. x = Inr e \<Longrightarrow> key_of view role w1 = Some (ce_signer e)"
    using hoareD[OF role_entry_cached Cons.prems(2) x] by auto
  have w': "w' = w2" using Cons.prems(1) x rest by (auto split: sum.splits)
  have "item \<in> set rest \<Longrightarrow> ?case" using Cons.IH[OF rest w1(1)] Cons.prems w' by auto
  then show ?case
    using Cons.prems x rest w1 w' key_of_keeps[OF rest, of view role] by (cases x) auto
qed simp

lemma identities_offer:
  assumes "run_state (identities env lib view) w = (Inr items, w')" and "cache_ok w" and "item \<in> set items"
  shows "offers env view item w'"
proof -
  obtain keys e w1 where keys: "run_state (transit_identities env lib view (fst (restricted_of (view_Policy view))) (eff_TransitKeys (view_Policy view))) w = ((keys, e), w1)"
    by (metis surj_pair)
  obtain roles f w2 where roles: "run_state (role_identities env lib view (snd (restricted_of (view_Policy view))) (eff_CARoles (view_Policy view))) w1 = ((roles, f), w2)"
    by (metis surj_pair)
  have "cache_ok w1"
    using hoareD[OF cache_ok_frame.stays_transit_identities[unfolded cache_ok_frame.stays_def] assms(2) keys] .
  moreover have "items = keys @ roles" "w' = w2"
    using assms(1) keys roles by (auto simp: identities_def split: option.splits if_splits)
  ultimately show ?thesis
    using transit_identities_offer[OF keys] role_identities_offer[OF roles] assms(3) by auto
qed

section \<open>Signing\<close>

text \<open>What one signature rests on.\<close>

fun signed_with :: "ssh_lib \<Rightarrow> identity_source \<Rightarrow> string \<Rightarrow> string \<Rightarrow> Signature \<Rightarrow> bool" where
  "signed_with lib (TransitIdentity key) blob data s \<longleftrightarrow> sl_Verify lib blob data s \<and> sig_Format s \<in> {''ssh-ed25519'', ''rsa-sha2-256'', ''rsa-sha2-512''}"
| "signed_with lib (CertificateIdentity e) blob data s \<longleftrightarrow> sl_Sign lib (ce_signer e) data = Some s"

lemma signTransit_signs:
  "run_state (signTransit env lib view key data flags) w = (Inr s, w') \<Longrightarrow>
     sl_Verify lib (the (tk_PublicKey key)) data s \<and> sig_Format s \<in> {''ssh-ed25519'', ''rsa-sha2-256'', ''rsa-sha2-512''}"
  by (auto simp: signTransit_def transit_algorithm_def Let_def split: option.splits sum.splits if_splits prod.splits)

lemma sign_identity_signs:
  assumes "run_state (sign_identity env lib c view item data flags) w = (Inr s, w')" and "offers env view item w0"
  shows "signed_with lib (id_source item) (id_Blob item) data s \<and> (sw_forwarded w ! c \<longrightarrow> \<not> id_notForwardable item)"
  using assms
  by (cases item; cases "id_source item")
    (auto simp: sign_identity_def sw_get_def signCertificate_def split: if_splits option.splits dest: signTransit_signs)

lemma SignWithFlags_signs:
  assumes "cache_ok w" and "run_state (SignWithFlags env lib c blob data flags) w = (Inr s, w')"
  shows "\<exists>view item. sw_lookups w 0 = Some view \<and> view_HasToken view \<and> offers env view item w' \<and> id_Blob item = blob
    \<and> signed_with lib (id_source item) blob data s \<and> (sw_forwarded w ! c \<longrightarrow> \<not> id_notForwardable item)"
proof -
  define w1 where "w1 = w\<lparr>sw_clock := (\<lambda>n. sw_clock w (Suc n)), sw_lookups := (\<lambda>n. sw_lookups w (Suc n))\<rparr>"
  have w1: "cache_ok w1" "sw_forwarded w1 = sw_forwarded w" using assms(1) by (simp_all add: w1_def cache_ok_def)
  obtain view where view: "sw_lookups w 0 = Some view" "view_HasToken view" "view_Client view"
    using assms(2) by (auto simp: SignWithFlags_def sw_now_def ssh_current_def sw_lookup_def split: option.splits if_splits prod.splits)
  obtain x w2 where ids: "run_state (identities env lib view) w1 = (x, w2)" by fastforce
  have forwarded: "sw_forwarded w2 = sw_forwarded w"
    using hoareD[OF same_forwarded.stays_identities[unfolded same_forwarded.stays_def] w1(2) ids] .
  obtain items where items: "x = Inr items"
    using assms(2) view ids by (auto simp: SignWithFlags_def sw_now_def ssh_current_def sw_lookup_def attempt_def w1_def split: sum.splits prod.splits)
  obtain item w3 where item: "find (\<lambda>i. id_Blob i = blob) items = Some item"
    "run_state (sign_identity env lib c view item data flags) w2 = (Inr s, w3)"
    and w': "run_state (record_now ''ssh-sign'' (Some view) (sl_Fingerprint lib blob) (sw_clock w 0) None) w3 = ((), w')"
    using assms(2) view ids items
    by (auto simp: SignWithFlags_def sw_now_def ssh_current_def sw_lookup_def attempt_def w1_def split: option.splits prod.splits sum.splits)
  have offer: "item \<in> set items" "id_Blob item = blob" using item(1) by (auto simp: find_Some_iff)
  have o2: "offers env view item w2" using identities_offer[OF ids[unfolded items] w1(1) offer(1)] .
  have keys: "key_of view role w2 = Some p \<Longrightarrow> key_of view role w' = Some p" for role p
    using hoareD[OF key_frame.stays_sign_identity[unfolded key_frame.stays_def] _ item(2), of "cacheKey (view_ID view) role" p]
      hoareD[OF key_frame.stays_record_now[unfolded key_frame.stays_def] _ w', of "cacheKey (view_ID view) role" p]
    by (simp add: key_of_def)
  have "offers env view item w'" using o2 keys by (cases item; cases "id_source item") auto
  moreover note sign_identity_signs[OF item(2) o2]
  ultimately show ?thesis using view offer forwarded by auto
qed


text \<open>An example: two Transit keys, one of them not forwardable, and a service that has every key and signs everything.\<close>

definition example_lib :: ssh_lib where
  "example_lib = \<lparr>sl_PublicKey = Some, sl_Authorized = id, sl_ParseCertificate = (\<lambda>_. None), sl_Fingerprint = id, sl_Type = (\<lambda>_. ''ssh-ed25519''),
     sl_Sign = (\<lambda>_ _. None), sl_Verify = (\<lambda>_ _ s. sig_Blob s = ''sig''), sl_Base64 = id, sl_Decode64 = Some,
     sl_UnmarshalBind = (\<lambda>c. Some \<lparr>sb_HostKey = ''host'', sb_SessionID = ''id'', sb_Signature = [], sb_Forwarding = (c = ''forward'')\<rparr>),
     sl_ParsePublicKey = Some, sl_UnmarshalSignature = (\<lambda>_. Some \<lparr>sig_Format = [], sig_Blob = ''sig''\<rparr>)\<rparr>"

definition example_key_secret :: "string \<Rightarrow> secret" where
  "example_key_secret path = \<lparr>sec_Data = [(''type'', VString ''ed25519''), (''latest_version'', VNumber 1), (''keys'', VMap [(''1'', VMap [(''public_key'', VString path)])])],
     sec_Auth = None, sec_WrapToken = None\<rparr>"

definition example_client :: "unit mgr_env" where
  "example_client = \<lparr>me_api = \<lparr>api_Write = (\<lambda>_ _ _ _ s. (Inr (Some \<lparr>sec_Data = [(''signature'', VString ''vault:v1:sig'')], sec_Auth = None, sec_WrapToken = None\<rparr>), s)),
       api_Read = (\<lambda>_ path s. (Inr (Some (example_key_secret path)), s)), api_Delete = (\<lambda>_ _ s. (Inr None, s)), api_List = (\<lambda>_ _ s. (Inr None, s)),
       api_RenewSelf = (\<lambda>_ s. (Inr None, s))\<rparr>,
     me_mounts = \<lparr>mounts_AppRole = [], mounts_Transit = [], mounts_SSH = [], mounts_KV = []\<rparr>, me_roleID = [], me_Namespace = [], me_NewClient = True,
     me_Marshal = (\<lambda>_. []), me_String = (\<lambda>_. []), me_Sprint = (\<lambda>_. []), me_parseKey = (\<lambda>_ text. Some text)\<rparr>"

definition example_view :: View where
  "example_view = \<lparr>view_ID = ''b'', view_ContainerKey = ''name:web'',
     view_Policy = \<lparr>eff_Sources = [], eff_OpenBao = \<lparr>openbao_Policy = [], openbao_AgentTokenRenewal = None\<rparr>,
       eff_SSH = Some \<lparr>ssh_TransitKeys = [''deploy'', ''home''], ssh_CARoles = [],
         ssh_NotForwardable = Some \<lparr>names_TransitKeys = [''home''], names_CARoles = []\<rparr>\<rparr>,
       eff_Contract = DefaultContract, eff_Settings = DefaultSettings\<rparr>,
     view_OpenBao = \<lparr>bao_Address = [], bao_CAPEM = [], bao_Namespace = [], bao_TransitMount = [], bao_SSHMount = []\<rparr>,
     view_Mounts = \<lparr>vm_Transit = ''transit'', vm_SSH = ''ssh''\<rparr>, view_Client = True,
     view_Token = \<lparr>tok_value = ''t'', tok_Accessor = [], tok_Policies = [], tok_TTL = 0, tok_Renewable = True, tok_Obtained = 0\<rparr>, view_HasToken = True\<rparr>"

definition example_socket :: "unit ssh_world" where
  "example_socket = \<lparr>sw_service = (), sw_clock = (\<lambda>n. int n), sw_lookups = (\<lambda>_. Some example_view), sw_generated = (\<lambda>_. None),
     sw_entries = [], sw_keys = [], sw_forwarded = [], sw_log = []\<rparr>"

definition example_opened :: "unit ssh_world" where
  "example_opened = example_socket\<lparr>sw_forwarded := sw_forwarded example_socket @ [False]\<rparr>"

definition example_sign :: "string \<Rightarrow> unit ssh_world \<Rightarrow> (ssh_error + Signature) \<times> unit ssh_world" where
  "example_sign name = run_state (SignWithFlags example_client example_lib 0 (''transit/keys/'' @ name) ''data'' 0)"

definition example_forwarded :: "unit ssh_world" where
  "example_forwarded = snd (run_state (Extension example_lib 0 ''session-bind@openssh.com'' ''forward'') example_opened)"

lemma example_run: "served example_socket" "(ssh_step example_client example_lib)\<^sup>*\<^sup>* example_socket example_opened"
  unfolding example_opened_def by (simp add: served_def example_socket_def) (rule r_into_rtranclp, rule Opened)


text \<open>
  C35. Forwarding is remembered: after a verified bind message that says a connection is forwarded, every later signature
  on that connection, whatever other messages, connections and certificate renewals come between, is made with an
  identity the current policy does not mark as not forwardable.
\<close>

theorem forwarded_refuses_restricted:
  assumes "served w0" and "(ssh_step env lib)\<^sup>*\<^sup>* w0 w" and "c < length (sw_forwarded w)"
    and "run_state (Extension lib c ''session-bind@openssh.com'' contents) w = (Some None, w1)"
    and "sl_UnmarshalBind lib contents = Some message" and "sb_Forwarding message"
    and "(ssh_step env lib)\<^sup>*\<^sup>* w1 w2" and "run_state (SignWithFlags env lib c blob data flags) w2 = (Inr s, w3)"
    and "sw_lookups w2 0 = Some view"
  shows "(\<exists>name key. name \<in> set (eff_TransitKeys (view_Policy view)) \<and> name \<notin> set (fst (restricted_of (view_Policy view)))
        \<and> read_key env view name key \<and> tk_PublicKey key = Some blob \<and> sl_Verify lib blob data s)
    \<or> (\<exists>role private. role \<in> set (eff_CARoles (view_Policy view)) \<and> role \<notin> set (snd (restricted_of (view_Policy view)))
        \<and> map_of (sw_keys w3) (cacheKey (view_ID view) role) = Some private \<and> sl_Sign lib private data = Some s)"
proof -
  have "cache_ok w0" using assms(1) by (simp add: served_def cache_ok_def)
  then have w: "cache_ok w" using cache_ok_frame.run_keeps[OF assms(2)] by blast
  have "cache_ok w1" using hoareD[OF cache_ok_frame.Extension_keeps _ assms(4)] w assms(3) by blast
  then have w2: "cache_ok w2" using cache_ok_frame.run_keeps[OF assms(7)] by blast
  have "c < length (sw_forwarded w1) \<and> sw_forwarded w1 ! c"
    using assms(3,4,5,6)
    by (auto simp: Extension_def sw_now_def sw_lookup_def sw_update_def record_now_def ssh_recordOutcome_def split: if_splits)
  then have "sw_forwarded w2 ! c" using forwarded_frame.run_keeps[OF assms(7)] by blast
  with SignWithFlags_signs[OF w2 assms(8)] assms(9) obtain item where
    "offers env view item w3" "id_Blob item = blob" "signed_with lib (id_source item) blob data s" "\<not> id_notForwardable item" by auto
  then show ?thesis by (cases item; cases "id_source item") (auto simp: key_of_def)
qed

text \<open>On the forwarded connection the other key still signs, the marked one is refused.\<close>

theorem forwarded_refuses_restricted_witness:
  "fst (example_sign ''home'' example_forwarded) = Inl errRefused
    \<and> (\<exists>s. fst (example_sign ''deploy'' example_forwarded) = Inr s \<and> sl_Verify example_lib ''transit/keys/deploy'' ''data'' s)"
proof -
  have refused: "fst (example_sign ''home'' example_forwarded) = Inl errRefused" by code_simp
  have "\<not> isl (fst (example_sign ''deploy'' example_forwarded))" by code_simp
  then obtain s where s: "fst (example_sign ''deploy'' example_forwarded) = Inr s" by (cases "fst (example_sign ''deploy'' example_forwarded)") auto
  then have sign: "run_state (SignWithFlags example_client example_lib 0 ''transit/keys/deploy'' ''data'' 0) example_forwarded = (Inr s, snd (example_sign ''deploy'' example_forwarded))"
    by (simp add: example_sign_def prod_eq_iff)
  have "fst (run_state (Extension example_lib 0 ''session-bind@openssh.com'' ''forward'') example_opened) = Some None" by code_simp
  then have bind: "run_state (Extension example_lib 0 ''session-bind@openssh.com'' ''forward'') example_opened = (Some None, example_forwarded)"
    by (simp add: example_forwarded_def prod_eq_iff)
  have "sw_lookups example_forwarded 0 = Some example_view"
    by (simp add: example_forwarded_def Extension_def sw_now_def sw_lookup_def sw_update_def record_now_def ssh_recordOutcome_def
        example_opened_def example_socket_def example_lib_def bind_verified_def)
  note view = this
  have open0: "0 < length (sw_forwarded example_opened)" by (simp add: example_opened_def)
  have message: "sl_UnmarshalBind example_lib ''forward'' = Some \<lparr>sb_HostKey = ''host'', sb_SessionID = ''id'', sb_Signature = [], sb_Forwarding = True\<rparr>"
    by (simp add: example_lib_def)
  have "eff_CARoles (view_Policy example_view) = []" by (simp add: example_view_def eff_CARoles_def)
  with forwarded_refuses_restricted[OF example_run open0 bind message _ rtranclp.rtrancl_refl sign view]
  have "sl_Verify example_lib ''transit/keys/deploy'' ''data'' s" by auto
  then show ?thesis using refused s by blast
qed

section \<open>Renewal of certificates\<close>

lemma sint_small: "- (2 ^ 63) \<le> x \<Longrightarrow> x < 2 ^ 63 \<Longrightarrow> sint (word_of_int x :: 64 word) = x"
  by (simp add: sint_sbintrunc' signed_take_bit_int_eq_self)

lemma wrap_seconds_exact: "- (2 ^ 62) \<le> s \<Longrightarrow> s < 2 ^ 62 \<Longrightarrow> wrap_seconds s = s"
  unfolding wrap_seconds_def by (subst sint_small) simp_all

lemma time_Unix_exact: "uint s < 2 ^ 61 \<Longrightarrow> time_Unix s = uint s * second"
proof -
  assume small: "uint s < 2 ^ 61"
  have "sint s = uint s" using sint_small[of "uint s"] small uint_ge_0[of s] by simp
  then show ?thesis using small wrap_seconds_exact[of "uint s"] uint_ge_0[of s] by (simp add: time_Unix_def)
qed



end
