(* ===== verification/Container_Contract.thy ===== *)
theory Container_Contract
  imports Controller_Operations
begin

text \<open>
  The containers of a host as the engine describes them (\<^verbatim>\<open>internal/engine/engine.go\<close>), the check of a container against
  its contract and the request that recreates it with the contract applied (\<^verbatim>\<open>internal/contract/contract.go\<close>), and what the agent
  reports of a container (\<^verbatim>\<open>Keys\<close> and \<^verbatim>\<open>Report\<close> of \<^verbatim>\<open>internal/agent/agent.go\<close>).

  JSON is a parameter: its decoder gives values of type \<open>json\<close>, as \<^verbatim>\<open>map[string]any\<close> holds them. A slice that stays nil is
  written as \<open>JNull\<close>.
\<close>

section \<open>Containers\<close>

datatype json =
    JNull
  | JBool bool
  | JNumber string
  | JString string
  | JArray "json list"
  | JObject "(string \<times> json) list"

record engine_Mount =
  em_Type :: string
  em_Name :: string
  em_Source :: string
  em_Destination :: string
  em_RW :: bool

record engine_Container =
  ec_ID :: string
  ec_Name :: string
  ec_Image :: string
  ec_Status :: string
  ec_Error :: string
  ec_ConfigImage :: string
  ec_User :: string
  ec_Labels :: "(string, string) gomap"
  ec_Env :: "string list"
  ec_StopTimeout :: "int option"
  ec_GroupAdd :: "string list"
  ec_RestartPolicy :: string
  ec_Mounts :: "engine_Mount list"
  ec_RawConfig :: string
  ec_RawHostConfig :: string
  ec_RawNetworkSettings :: string

definition ShortName :: "engine_Container \<Rightarrow> string" where
  "ShortName container = TrimPrefix (ec_Name container) ''/''"

fun env_value :: "string \<Rightarrow> string list \<Rightarrow> string option" where
  "env_value name [] = None"
| "env_value name (entry # entries) =
     (case Cut entry (CHR ''='') of
        (key, v, found) \<Rightarrow> if key = name then (if found then Some v else None) else env_value name entries)"

definition EnvValue :: "engine_Container \<Rightarrow> string \<Rightarrow> string option" where
  "EnvValue container name = env_value name (ec_Env container)"

section \<open>The check\<close>

text \<open>
  What \<^verbatim>\<open>strings.Contains\<close> of an ASCII text sees of \<^verbatim>\<open>strings.ToLower\<close>: capital letters, and the two characters beyond ASCII whose
  small letter is an ASCII one (the dotted capital I and the Kelvin sign).
\<close>

fun lower :: "string \<Rightarrow> string" where
  "lower (c # d # e # s) =
     (if [c, d] = [CHR 0xC4, CHR 0xB0] then CHR ''i'' # lower (e # s)
      else if [c, d, e] = [CHR 0xE2, CHR 0x84, CHR 0xAA] then CHR ''k'' # lower s
      else (if CHR ''A'' \<le> c \<and> c \<le> CHR ''Z'' then char_of (of_char c + 32 :: nat) else c) # lower (d # e # s))"
| "lower [c, d] =
     (if [c, d] = [CHR 0xC4, CHR 0xB0] then ''i''
      else (if CHR ''A'' \<le> c \<and> c \<le> CHR ''Z'' then char_of (of_char c + 32 :: nat) else c) # lower [d])"
| "lower [c] = [if CHR ''A'' \<le> c \<and> c \<le> CHR ''Z'' then char_of (of_char c + 32 :: nat) else c]"
| "lower [] = []"

definition path_chars :: string where
  "path_chars = ''/-_.abcdefghijklmnopqrstuvwxyzABCDEFGHIJKLMNOPQRSTUVWXYZ0123456789''"

text \<open>The first occurrence of a text: what follows it.\<close>

fun after_first :: "string \<Rightarrow> string \<Rightarrow> string option" where
  "after_first p [] = (if p = [] then Some [] else None)"
| "after_first p (c # s) = (if HasPrefix (c # s) p then Some (drop (length p) (c # s)) else after_first p s)"

lemma after_first_split: "after_first p s = Some rest \<Longrightarrow> \<exists>u. s = u @ p @ rest"
proof (induction s)
  case (Cons c s)
  show ?case
  proof (cases "HasPrefix (c # s) p")
    case True
    then have "c # s = p @ rest" using Cons.prems append_take_drop_id[of "length p" "c # s"] by (auto simp: HasPrefix_def)
    then show ?thesis by (intro exI[of _ "[]"]) simp
  next
    case False
    then obtain u where "s = u @ p @ rest" using Cons by auto
    then show ?thesis by (intro exI[of _ "c # u"]) simp
  qed
qed (auto split: if_splits)

text \<open>The path is that of a directory and not empty; with an empty one the loop would not advance.\<close>

function namesPath :: "string \<Rightarrow> string \<Rightarrow> bool" where
  "namesPath message path =
     (case after_first path message of
        None \<Rightarrow> False
      | Some rest \<Rightarrow>
          if rest = [] \<or> hd rest \<notin> set path_chars then True
          else if path = [] then False
          else namesPath rest path)"
  by auto
termination
  by (relation "measure (\<lambda>(m, p). length m)") (auto dest: after_first_split)

declare namesPath.simps [simp del]

definition StartFailedOnMount :: "engine_Container \<Rightarrow> string \<Rightarrow> bool" where
  "StartFailedOnMount container consumerDirectory =
     (if ec_Status container \<noteq> ''exited'' then False
      else if ec_RestartPolicy container \<notin> {''always'', ''unless-stopped'', ''on-failure''} then False
      else
        let directory = Clean consumerDirectory
        in if \<not> list_ex (\<lambda>m. em_Type m = ''bind'' \<and> Clean (em_Source m) = directory) (ec_Mounts container) then False
           else if \<not> Contains (lower (ec_Error container)) ''no such file or directory''
             \<and> \<not> Contains (lower (ec_Error container)) ''bind source path does not exist'' then False
           else namesPath (ec_Error container) directory)"

definition FailedMount :: FailedItem where "FailedMount = ''mount''"
definition FailedEnv :: FailedItem where "FailedEnv = ''env''"
definition FailedAccessGroup :: FailedItem where "FailedAccessGroup = ''access-group''"

definition Check :: "engine_Container \<Rightarrow> Contract \<Rightarrow> string \<Rightarrow> (32 word \<Rightarrow> bool) \<Rightarrow> FailedItem list" where
  "Check container contract consumerDirectory canAssign =
     (if list_ex (\<lambda>m. em_Type m = ''bind'' \<and> Clean (em_Source m) = Clean consumerDirectory
          \<and> Clean (em_Destination m) = contract_MountTarget contract) (ec_Mounts container) then [] else [FailedMount])
     @ (if list_ex (\<lambda>entry. EnvValue container (entry_Name entry) \<noteq> Some (entry_Value entry)) (ExpandedEnv contract) then [FailedEnv] else [])
     @ (case contract_AccessGroup contract of Some g \<Rightarrow> if \<not> canAssign g then [FailedAccessGroup] else [] | None \<Rightarrow> [])"

text \<open>\<^verbatim>\<open>os.Geteuid\<close> is an argument.\<close>

definition OwnerOnlyReachable :: "nat \<Rightarrow> string \<Rightarrow> bool" where
  "OwnerOnlyReachable euid user =
     (case Cut user (CHR '':'') of
        (uid, _) \<Rightarrow>
          if uid = [] \<or> uid = ''root'' then True
          else case ParseUint32 uid of None \<Rightarrow> False | Some numeric \<Rightarrow> numeric = 0 \<or> numeric = euid)"

definition SocketReachable :: "nat \<Rightarrow> engine_Container \<Rightarrow> 32 word option \<Rightarrow> bool" where
  "SocketReachable euid container accessGroup =
     (if OwnerOnlyReachable euid (ec_User container) then True
      else case accessGroup of
             None \<Rightarrow> False
           | Some wanted \<Rightarrow>
               (case Cut (ec_User container) (CHR '':'') of
                  (uid, gid, _) \<Rightarrow>
                    if ParseUint32 uid = None then False
                    else list_ex (\<lambda>g. ParseUint32 g = Some (unat wanted)) (gid # ec_GroupAdd container)))"

section \<open>Recreating a container\<close>

record CreateRequest =
  cr_Name :: string
  cr_Body :: string
  cr_Running :: bool
  cr_Stop :: int

text \<open>The decoder and the encoder of JSON.\<close>

record json_lib =
  jl_Unmarshal :: "string \<Rightarrow> json option"
  jl_Marshal :: "json \<Rightarrow> string option"

datatype create_error = NoConfiguration | NoHostConfiguration | InvalidNetworkSettings | BodyUnencodable

definition as_object :: "json_lib \<Rightarrow> string \<Rightarrow> (string, json) gomap option" where
  "as_object js raw = (case jl_Unmarshal js raw of Some (JObject m) \<Rightarrow> Some m | _ \<Rightarrow> None)"

definition slice :: "json list \<Rightarrow> json" where
  "slice xs = (if xs = [] then JNull else JArray xs)"

text \<open>Type assertions: a value of another type gives the zero value.\<close>

definition as_string :: "json option \<Rightarrow> string" where
  "as_string v = (case v of Some (JString s) \<Rightarrow> s | _ \<Rightarrow> [])"

definition as_array :: "json option \<Rightarrow> json list" where
  "as_array v = (case v of Some (JArray xs) \<Rightarrow> xs | _ \<Rightarrow> [])"

definition as_map :: "json \<Rightarrow> (string, json) gomap" where
  "as_map v = (case v of JObject m \<Rightarrow> m | _ \<Rightarrow> [])"

definition item_name :: "json \<Rightarrow> string" where
  "item_name item = fst (Cut (as_string (Some item)) (CHR ''=''))"

definition environment :: "Contract \<Rightarrow> (string, json) gomap \<Rightarrow> json list" where
  "environment contract config =
     filter (\<lambda>item. item_name item \<notin> entry_Name ` set (ExpandedEnv contract)) (as_array (map_of config ''Env''))
     @ map (\<lambda>entry. JString (entry_Name entry @ ''='' @ entry_Value entry)) (ExpandedEnv contract)"

definition bindTarget :: "string \<Rightarrow> string" where
  "bindTarget text = (let parts = Split text (CHR '':'') in if length parts < 2 then [] else Clean (parts ! 1))"

definition bind_item_target :: "json \<Rightarrow> string" where
  "bind_item_target item = bindTarget (as_string (Some item))"

definition mount_item_target :: "json \<Rightarrow> string" where
  "mount_item_target item = Clean (as_string (map_of (as_map item) ''Target''))"

definition kept_binds :: "Contract \<Rightarrow> (string, json) gomap \<Rightarrow> json list" where
  "kept_binds contract host = filter (\<lambda>item. bind_item_target item \<noteq> contract_MountTarget contract) (as_array (map_of host ''Binds''))"

definition kept_mounts :: "Contract \<Rightarrow> (string, json) gomap \<Rightarrow> json list" where
  "kept_mounts contract host = filter (\<lambda>item. mount_item_target item \<noteq> contract_MountTarget contract) (as_array (map_of host ''Mounts''))"

definition anonymousVolumeName :: "string \<Rightarrow> bool" where
  "anonymousVolumeName name \<longleftrightarrow> length name = 64 \<and> list_all (\<lambda>c. c \<in> set ''0123456789abcdef'') name"

definition volume_bind :: "engine_Mount \<Rightarrow> json" where
  "volume_bind m = JString (em_Name m @ '':'' @ Clean (em_Destination m) @ '':'' @ (if em_RW m then ''rw'' else ''ro''))"

text \<open>The anonymous volumes that no kept bind or mount covers, each target once.\<close>

fun volume_binds :: "string \<Rightarrow> string set \<Rightarrow> engine_Mount list \<Rightarrow> json list" where
  "volume_binds target covered [] = []"
| "volume_binds target covered (m # ms) =
     (let destination = Clean (em_Destination m)
      in if em_Type m \<noteq> ''volume'' \<or> \<not> anonymousVolumeName (em_Name m) \<or> destination \<in> covered \<or> destination = target
         then volume_binds target covered ms
         else volume_bind m # volume_binds target (insert destination covered) ms)"

definition contract_mount :: "Contract \<Rightarrow> string \<Rightarrow> json" where
  "contract_mount contract consumerDirectory =
     JObject [(''Type'', JString ''bind''), (''Source'', JString consumerDirectory), (''Target'', JString (contract_MountTarget contract)),
       (''ReadOnly'', JBool False)]"

definition group_add :: "32 word \<Rightarrow> (string, json) gomap \<Rightarrow> json list" where
  "group_add g host =
     (let text = JString (Itoa (uint g)); existing = as_array (map_of host ''GroupAdd'')
      in if text \<in> set existing then existing else existing @ [text])"

definition host_config :: "engine_Container \<Rightarrow> Contract \<Rightarrow> string \<Rightarrow> (string, json) gomap \<Rightarrow> (string, json) gomap" where
  "host_config container contract consumerDirectory host =
     (let binds = kept_binds contract host; mounts = kept_mounts contract host;
          covered = bind_item_target ` set binds \<union> mount_item_target ` set mounts;
          binds = binds @ volume_binds (contract_MountTarget contract) covered (ec_Mounts container);
          host' = AList.update ''Mounts'' (JArray (mounts @ [contract_mount contract consumerDirectory])) (AList.update ''Binds'' (slice binds) host)
      in case contract_AccessGroup contract of
           None \<Rightarrow> host'
         | Some g \<Rightarrow> AList.update ''GroupAdd'' (JArray (group_add g host)) host')"

definition kept_endpoint :: "string \<Rightarrow> (string, json) gomap \<Rightarrow> (string, json) gomap" where
  "kept_endpoint shortID endpoint =
     filter (\<lambda>(k, v). k \<in> {''IPAMConfig'', ''Links'', ''MacAddress'', ''DriverOpts'', ''GwPriority''} \<and> v \<noteq> JNull) endpoint
     @ (let user = filter (\<lambda>alias. alias \<noteq> JString shortID) (as_array (map_of endpoint ''Aliases''))
        in if user = [] then [] else [(''Aliases'', JArray user)])"

text \<open>The decoder into \<^verbatim>\<open>struct{Networks map[string]map[string]any}\<close>: objects of objects, absent ones and null being empty.\<close>

fun endpoint_map :: "json \<Rightarrow> (string, json) gomap option" where
  "endpoint_map JNull = Some []"
| "endpoint_map (JObject m) = Some m"
| "endpoint_map _ = None"

definition networks_of :: "json \<Rightarrow> (string, (string, json) gomap) gomap option" where
  "networks_of v =
     (case v of
        JNull \<Rightarrow> Some []
      | JObject m \<Rightarrow>
          (case map_of m ''Networks'' of
             None \<Rightarrow> Some []
           | Some JNull \<Rightarrow> Some []
           | Some (JObject ns) \<Rightarrow>
               if list_all (\<lambda>(_, e). endpoint_map e \<noteq> None) ns then Some (map (\<lambda>(n, e). (n, the (endpoint_map e))) ns) else None
           | Some _ \<Rightarrow> None)
      | _ \<Rightarrow> None)"

definition networkingConfig :: "json_lib \<Rightarrow> string \<Rightarrow> string \<Rightarrow> create_error + json option" where
  "networkingConfig js raw containerID =
     (if raw = [] then Inr None
      else case Option.bind (jl_Unmarshal js raw) networks_of of
             None \<Rightarrow> Inl InvalidNetworkSettings
           | Some networks \<Rightarrow>
               if networks = [] then Inr None
               else Inr (Some (JObject [(''EndpointsConfig'',
                      JObject (map (\<lambda>(name, endpoint). (name, JObject (kept_endpoint (take 12 containerID) endpoint))) networks))])))"

definition create_body :: "engine_Container \<Rightarrow> Contract \<Rightarrow> string \<Rightarrow> string \<Rightarrow> (string, json) gomap \<Rightarrow> (string, json) gomap \<Rightarrow> json option \<Rightarrow> (string, json) gomap" where
  "create_body container contract consumerDirectory configuredImageID config host networking =
     (let config = (if configuredImageID \<noteq> ec_Image container \<and> ec_Image container \<noteq> [] then AList.update ''Image'' (JString (ec_Image container)) config else config);
          config = AList.update ''Env'' (slice (environment contract config)) config;
          body = AList.update ''HostConfig'' (JObject (host_config container contract consumerDirectory host)) config
      in case networking of None \<Rightarrow> body | Some n \<Rightarrow> AList.update ''NetworkingConfig'' n body)"

definition running :: "engine_Container \<Rightarrow> bool" where
  "running container \<longleftrightarrow> ec_Status container \<in> {''running'', ''restarting'', ''paused''}"

definition BuildCreateRequest :: "json_lib \<Rightarrow> engine_Container \<Rightarrow> Contract \<Rightarrow> string \<Rightarrow> string \<Rightarrow> create_error + CreateRequest" where
  "BuildCreateRequest js container contract consumerDirectory configuredImageID =
     (case as_object js (ec_RawConfig container) of
        None \<Rightarrow> Inl NoConfiguration
      | Some config \<Rightarrow>
          (case as_object js (ec_RawHostConfig container) of
             None \<Rightarrow> Inl NoHostConfiguration
           | Some host \<Rightarrow>
               try_bind (networkingConfig js (ec_RawNetworkSettings container) (ec_ID container)) (\<lambda>networking.
                 case jl_Marshal js (JObject (create_body container contract consumerDirectory configuredImageID config host networking)) of
                   None \<Rightarrow> Inl BodyUnencodable
                 | Some encoded \<Rightarrow>
                     Inr \<lparr>cr_Name = ShortName container, cr_Body = encoded, cr_Running = running container,
                       cr_Stop = (case ec_StopTimeout container of None \<Rightarrow> 10 | Some t \<Rightarrow> t)\<rparr>)))"

section \<open>What the agent reports\<close>

definition label :: "engine_Container \<Rightarrow> string \<Rightarrow> string" where
  "label container name = (case map_of (ec_Labels container) name of None \<Rightarrow> [] | Some v \<Rightarrow> v)"

definition candidate_keys :: "engine_Container \<Rightarrow> Key list" where
  "candidate_keys container =
     (let folder = label container ''devcontainer.local_folder''; config = label container ''devcontainer.config_file'';
          project = label container ''com.docker.compose.project''; service = label container ''com.docker.compose.service''
      in (if folder \<noteq> [] then [\<lparr>key_Kind = KeyDevcontainer, key_Value = folder @ (if config \<noteq> [] then ''|'' @ config else [])\<rparr>] else [])
       @ (if project \<noteq> [] \<and> service \<noteq> [] then [\<lparr>key_Kind = KeyCompose, key_Value = project @ ''/'' @ service\<rparr>] else [])
       @ (if ShortName container \<noteq> [] then [\<lparr>key_Kind = KeyName, key_Value = ShortName container\<rparr>] else []))"

definition container_keys :: "engine_Container \<Rightarrow> Key list" where
  "container_keys container = filter (\<lambda>key. Key_Validate key = None) (candidate_keys container)"

definition report_state :: "string \<Rightarrow> State" where
  "report_state status =
     (if status \<in> set [''created'', ''running'', ''paused'', ''restarting'', ''exited'', ''dead''] then status
      else if status = ''removing'' then ''dead'' else ''exited'')"

fun env_names :: "string list \<Rightarrow> string list \<Rightarrow> string list" where
  "env_names seen [] = []"
| "env_names seen (entry # entries) =
     (let name = fst (Cut entry (CHR ''=''))
      in if name \<noteq> [] \<and> name \<notin> set seen then name # env_names (name # seen) entries else env_names seen entries)"

definition Report :: "engine_Container \<Rightarrow> Container \<times> bool" where
  "Report container =
     (let report = \<lparr>container_ID = ec_ID container, container_Name = ShortName container, container_State = report_state (ec_Status container),
            container_Image = (if length (ec_ConfigImage container) > 512 then [] else ec_ConfigImage container),
            container_ConsumerDirectory = [], container_Keys = container_keys container,
            container_Mounts = map (\<lambda>m. \<lparr>mount_Source = em_Source m, mount_Target = em_Destination m\<rparr>) (ec_Mounts container),
            container_EnvNames = sort (env_names [] (ec_Env container))\<rparr>
      in (report, Container_Validate report = None))"

section \<open>Recreating\<close>

text \<open>
  What is used of the engine: a container made from a request body has the environment of the body and a mount for every
  entry of its \<^verbatim>\<open>Mounts\<close>.
\<close>

definition made_from :: "(string, json) gomap \<Rightarrow> engine_Container \<Rightarrow> bool" where
  "made_from body c \<longleftrightarrow>
     ec_Env c = map (\<lambda>item. as_string (Some item)) (as_array (map_of body ''Env''))
     \<and> (\<forall>item \<in> set (as_array (map_of (as_map (the (map_of body ''HostConfig''))) ''Mounts'')).
          \<exists>m \<in> set (ec_Mounts c). em_Type m = as_string (map_of (as_map item) ''Type'')
            \<and> em_Source m = as_string (map_of (as_map item) ''Source'') \<and> em_Destination m = as_string (map_of (as_map item) ''Target''))"

lemma as_array_slice [simp]: "as_array (Some (slice xs)) = xs"
  by (simp add: as_array_def slice_def)

lemma as_simps [simp]: "as_array (Some (JArray xs)) = xs" "as_map (JObject m) = m" "as_string (Some (JString s)) = s"
  by (simp_all add: as_array_def as_map_def as_string_def)

lemma create_body_lookup:
  fixes c :: engine_Container and contract :: Contract and dir configured :: string and config host :: "(string, json) gomap" and networking :: "json option"
  defines "body \<equiv> create_body c contract dir configured config host networking"
  shows "map_of body ''Env'' = Some (slice (environment contract config))"
    and "map_of body ''HostConfig'' = Some (JObject (host_config c contract dir host))"
    and "k \<notin> {''Env'', ''HostConfig'', ''NetworkingConfig'', ''Image''} \<Longrightarrow> map_of body k = map_of config k"
    and "map_of body ''Image'' = (if configured \<noteq> ec_Image c \<and> ec_Image c \<noteq> [] then Some (JString (ec_Image c)) else map_of config ''Image'')"
    and "map_of body ''NetworkingConfig'' = (case networking of None \<Rightarrow> map_of config ''NetworkingConfig'' | Some n \<Rightarrow> Some n)"
  unfolding body_def create_body_def Let_def by (auto simp: environment_def split: option.splits)

lemma host_config_lookup:
  "map_of (host_config c contract dir host) ''Mounts'' = Some (JArray (kept_mounts contract host @ [contract_mount contract dir]))"
  "map_of (host_config c contract dir host) ''Binds'' = Some (slice (kept_binds contract host @ volume_binds (contract_MountTarget contract)
     (bind_item_target ` set (kept_binds contract host) \<union> mount_item_target ` set (kept_mounts contract host)) (ec_Mounts c)))"
  "k \<notin> {''Binds'', ''Mounts'', ''GroupAdd''} \<Longrightarrow> map_of (host_config c contract dir host) k = map_of host k"
  unfolding host_config_def Let_def by (auto split: option.splits)

text \<open>Entries under other names do not hide those of the contract.\<close>

lemma env_value_skip: "\<forall>e \<in> set xs. fst (Cut e (CHR ''='')) \<noteq> name \<Longrightarrow> env_value name (xs @ ys) = env_value name ys"
  by (induction xs) (auto split: prod.splits)

lemma Cut_entry: "CHR ''='' \<notin> set name \<Longrightarrow> Cut (name @ ''='' @ v) (CHR ''='') = (name, v, True)"
  by (induction name) (auto simp: Cut_def)

lemma env_value_entries:
  assumes "\<forall>e \<in> set es. CHR ''='' \<notin> set (entry_Name e)" and "\<forall>e \<in> set es. entry_Name e = entry_Name entry \<longrightarrow> entry_Value e = entry_Value entry"
    and "entry \<in> set es"
  shows "env_value (entry_Name entry) (map (\<lambda>e. entry_Name e @ ''='' @ entry_Value e) es) = Some (entry_Value entry)"
  using assms
proof (induction es)
  case (Cons e es)
  have "Cut (entry_Name e @ ''='' @ entry_Value e) (CHR ''='') = (entry_Name e, entry_Value e, True)"
    by (rule Cut_entry) (use Cons.prems(1) in simp)
  then have "env_value (entry_Name entry) (map (\<lambda>e. entry_Name e @ ''='' @ entry_Value e) (e # es)) =
      (if entry_Name e = entry_Name entry then Some (entry_Value e)
       else env_value (entry_Name entry) (map (\<lambda>e. entry_Name e @ ''='' @ entry_Value e) es))" by simp
  note step = this
  show ?case
  proof (cases "entry_Name e = entry_Name entry")
    case True
    then have "entry_Value e = entry_Value entry" using Cons.prems(2) by (meson list.set_intros(1))
    then show ?thesis unfolding step if_P[OF True] by (rule arg_cong)
  next
    case False
    show ?thesis
      unfolding step if_not_P[OF False]
      by (rule Cons.IH) (use Cons.prems False in \<open>auto simp del: map_map\<close>)
  qed
qed simp

lemma contract_names:
  assumes "Contract_Validate contract = None" and "e \<in> set (ExpandedEnv contract)"
  shows "CHR ''='' \<notin> set (entry_Name e)"
proof -
  from assms(2) have "entry_Name e \<in> fst ` set (contract_Env contract)"
    by (force simp: ExpandedEnv_def dom_map_of_conv_image_fst)
  then have "MatchString envNamePattern (entry_Name e)"
    using assms(1) by (auto simp: Contract_Validate_None contract_ok_def list_all_iff env_entry_ok_def)
  then show ?thesis
    by (auto simp: MatchString_iff envNamePattern_def lang_head_class less_eq_char_def simp del: lang.simps dest!: bspec[of _ _ "CHR ''=''"])
qed


text \<open>An example: a container with a setting of its own, one in the contract's place and an anonymous volume.\<close>

definition example_mount :: engine_Mount where
  "example_mount = \<lparr>em_Type = ''volume'', em_Name = replicate 64 (CHR ''a''), em_Source = [], em_Destination = ''/data'', em_RW = True\<rparr>"

definition example_container :: "string list \<Rightarrow> engine_Mount list \<Rightarrow> engine_Container" where
  "example_container env mounts = \<lparr>ec_ID = ''c1'', ec_Name = ''/web'', ec_Image = ''sha256:1'', ec_Status = ''running'', ec_Error = [], ec_ConfigImage = ''web'',
     ec_User = [], ec_Labels = [], ec_Env = env, ec_StopTimeout = None, ec_GroupAdd = [], ec_RestartPolicy = ''no'', ec_Mounts = mounts,
     ec_RawConfig = [], ec_RawHostConfig = [], ec_RawNetworkSettings = []\<rparr>"

definition example_config :: "(string, json) gomap" where
  "example_config = [(''Image'', JString ''web''), (''User'', JString ''app''), (''Env'', JArray [JString ''KEEP=1'', JString ''VAULT_ADDR=wrong''])]"

definition example_body :: "(string, json) gomap" where
  "example_body = create_body (example_container [''KEEP=1'', ''VAULT_ADDR=wrong''] [example_mount]) DefaultContract ''/run/w/web'' ''sha256:2''
     example_config [(''Memory'', JNumber ''7'')] None"

definition example_made :: engine_Container where
  "example_made = example_container (map (\<lambda>item. as_string (Some item)) (as_array (map_of example_body ''Env'')))
     [example_mount, \<lparr>em_Type = ''bind'', em_Name = [], em_Source = ''/run/w/web'', em_Destination = ''/run/wyrwood'', em_RW = True\<rparr>]"


lemma volume_binds_cover:
  assumes "m \<in> set ms" "em_Type m = ''volume''" "anonymousVolumeName (em_Name m)" "Clean (em_Destination m) \<noteq> target"
  shows "Clean (em_Destination m) \<in> covered \<or> (\<exists>m' \<in> set ms. Clean (em_Destination m') = Clean (em_Destination m) \<and> volume_bind m' \<in> set (volume_binds target covered ms))"
  using assms(1)
proof (induction ms arbitrary: covered)
  case (Cons x ms)
  show ?case
  proof (cases "m = x")
    case True
    then show ?thesis using assms(2-4) by (auto simp: Let_def)
  next
    case False
    then show ?thesis using Cons.IH[of covered] Cons.IH[of "insert (Clean (em_Destination x)) covered"] Cons.prems by (auto simp: Let_def)
  qed
qed simp



end
