(* ===== verification/Go_Url.thy ===== *)
theory Go_Url
  imports Go_Strings Go_Regexp
begin

text \<open>
  What the code uses of Go's \<^verbatim>\<open>net/url\<close>: escaping of path segments and query components, parsing and writing of a
  query. A query is the list of its pairs; \<open>values_of\<close> is the list a key has in \<^verbatim>\<open>url.Values\<close>.
\<close>

section \<open>Escapes\<close>

definition hex_digit :: "nat \<Rightarrow> char" where
  "hex_digit n = ''0123456789ABCDEF'' ! n"

definition unhex :: "char \<Rightarrow> nat option" where
  "unhex c =
     (if CHR ''0'' \<le> c \<and> c \<le> CHR ''9'' then Some (of_char c - 48)
      else if CHR ''a'' \<le> c \<and> c \<le> CHR ''f'' then Some (of_char c - 87)
      else if CHR ''A'' \<le> c \<and> c \<le> CHR ''F'' then Some (of_char c - 55)
      else None)"

fun unescape :: "bool \<Rightarrow> string \<Rightarrow> string option" where
  "unescape query [] = Some []"
| "unescape query (c # s) =
     (if c = CHR ''%'' then
        (case s of
           h # l # rest \<Rightarrow>
             (case (unhex h, unhex l) of
                (Some a, Some b) \<Rightarrow> map_option ((#) (char_of (16 * a + b))) (unescape query rest)
              | _ \<Rightarrow> None)
         | _ \<Rightarrow> None)
      else map_option ((#) (if query \<and> c = CHR ''+'' then CHR '' '' else c)) (unescape query s))"

definition PathUnescape :: "string \<Rightarrow> string option" where
  "PathUnescape = unescape False"

definition QueryUnescape :: "string \<Rightarrow> string option" where
  "QueryUnescape = unescape True"

definition unreserved :: "char \<Rightarrow> bool" where
  "unreserved c \<longleftrightarrow> in_class [range_az, range_AZ, range_09] c \<or> c \<in> set ''-_.~''"

definition percent :: "char \<Rightarrow> string" where
  "percent c = [CHR ''%'', hex_digit (of_char c div 16), hex_digit (of_char c mod 16)]"

definition PathEscape :: "string \<Rightarrow> string" where
  "PathEscape s = concat (map (\<lambda>c. if unreserved c \<or> c \<in> set ''$&+:=@'' then [c] else percent c) s)"

definition QueryEscape :: "string \<Rightarrow> string" where
  "QueryEscape s = concat (map (\<lambda>c. if c = CHR '' '' then ''+'' else if unreserved c then [c] else percent c) s)"

section \<open>Queries\<close>

type_synonym url_values = "(string \<times> string) list"

definition values_of :: "url_values \<Rightarrow> string \<Rightarrow> string list" where
  "values_of qs k = map snd (filter (\<lambda>p. fst p = k) qs)"

definition keys_of :: "url_values \<Rightarrow> string list" where
  "keys_of qs = remdups (map fst qs)"

text \<open>One part of a query; \<open>None\<close> is an error, an empty part gives nothing.\<close>

definition parse_part :: "string \<Rightarrow> url_values option" where
  "parse_part part =
     (if CHR '';'' \<in> set part then None
      else if part = [] then Some []
      else case Cut part (CHR ''='') of
        (k, v, _) \<Rightarrow> (case (QueryUnescape k, QueryUnescape v) of (Some key, Some value) \<Rightarrow> Some [(key, value)] | _ \<Rightarrow> None))"

fun parse_parts :: "string list \<Rightarrow> url_values option" where
  "parse_parts [] = Some []"
| "parse_parts (p # ps) = (case (parse_part p, parse_parts ps) of (Some a, Some b) \<Rightarrow> Some (a @ b) | _ \<Rightarrow> None)"

definition ParseQuery :: "string \<Rightarrow> url_values option" where
  "ParseQuery query = parse_parts (Split query (CHR ''&''))"

definition Encode :: "url_values \<Rightarrow> string" where
  "Encode qs = Join (concat (map (\<lambda>k. map (\<lambda>v. QueryEscape k @ ''='' @ QueryEscape v) (values_of qs k)) (sort (keys_of qs)))) (CHR ''&'')"

section \<open>Round trips\<close>

lemma unhex_hex: "n < 16 \<Longrightarrow> unhex (hex_digit n) = Some n"
proof -
  assume "n < 16"
  then have "n \<in> set [0..<16]" by simp
  moreover have "list_all (\<lambda>n. unhex (hex_digit n) = Some n) [0..<16]" by code_simp
  ultimately show ?thesis by (auto simp: list_all_iff)
qed

lemma char_nibbles: "(of_char c :: nat) div 16 < 16" "(of_char c :: nat) mod 16 < 16"
  using nat_of_char_less_256[of c] by (simp_all add: div_less_iff_less_mult)

lemma unescape_percent: "unescape query (percent c @ s) = map_option ((#) c) (unescape query s)"
  using char_nibbles[of c] by (simp add: percent_def unhex_hex)

lemma unreserved_plain: "unreserved c \<Longrightarrow> c \<noteq> CHR ''%'' \<and> c \<noteq> CHR ''+'' \<and> c \<noteq> CHR '';'' \<and> c \<noteq> CHR ''&'' \<and> c \<noteq> CHR ''='' \<and> c \<noteq> CHR ''/'' \<and> c \<noteq> CHR '' ''"
  by (auto simp: unreserved_def less_eq_char_def)

lemma PathUnescape_PathEscape [simp]: "PathUnescape (PathEscape s) = Some s"
  unfolding PathUnescape_def PathEscape_def by (induction s) (auto simp: unescape_percent dest: unreserved_plain)

lemma QueryUnescape_QueryEscape [simp]: "QueryUnescape (QueryEscape s) = Some s"
  unfolding QueryUnescape_def QueryEscape_def by (induction s) (auto simp: unescape_percent dest: unreserved_plain)

lemma unescape_plain: "CHR ''%'' \<notin> set s \<Longrightarrow> unescape False s = Some s"
  by (induction s) auto

lemma hex_digit_unreserved: "n < 16 \<Longrightarrow> unreserved (hex_digit n)"
proof -
  assume "n < 16"
  then have "n \<in> set [0..<16]" by simp
  moreover have "list_all (\<lambda>n. unreserved (hex_digit n)) [0..<16]" by code_simp
  ultimately show ?thesis by (auto simp: list_all_iff)
qed

lemma percent_chars: "c \<in> set (percent a) \<Longrightarrow> unreserved c \<or> c = CHR ''%''"
  using hex_digit_unreserved[OF char_nibbles(1)[of a]] hex_digit_unreserved[OF char_nibbles(2)[of a]] by (auto simp: percent_def)

lemma QueryEscape_chars: "c \<in> set (QueryEscape s) \<Longrightarrow> unreserved c \<or> c = CHR ''%'' \<or> c = CHR ''+''"
  unfolding QueryEscape_def by (auto split: if_splits dest: percent_chars)

lemma QueryEscape_separators: "CHR ''&'' \<notin> set (QueryEscape s)" "CHR ''='' \<notin> set (QueryEscape s)" "CHR '';'' \<notin> set (QueryEscape s)"
  using QueryEscape_chars[of _ s] unreserved_plain by blast+

lemma parse_part_pair: "parse_part (QueryEscape k @ ''='' @ QueryEscape v) = Some [(k, v)]"
proof -
  have "Cut (QueryEscape k @ ''='' @ QueryEscape v) (CHR ''='') = (QueryEscape k, QueryEscape v, True)"
    using Cut_word[OF QueryEscape_separators(2)] by simp
  then show ?thesis using QueryEscape_separators(3) by (simp add: parse_part_def)
qed

lemma parse_parts_pairs: "parse_parts (map (\<lambda>(k, v). QueryEscape k @ ''='' @ QueryEscape v) qs) = Some qs"
  by (induction qs) (auto simp: parse_part_pair simp del: append.simps)

text \<open>The pairs in the order in which a query is written.\<close>

definition ordered :: "url_values \<Rightarrow> url_values" where
  "ordered qs = concat (map (\<lambda>k. map (Pair k) (values_of qs k)) (sort (keys_of qs)))"

lemma ordered_values: "values_of (ordered qs) k = values_of qs k"
proof -
  have *: "distinct ks \<Longrightarrow> values_of (concat (map (\<lambda>k. map (Pair k) (values_of qs k)) ks)) k = (if k \<in> set ks then values_of qs k else [])" for ks
  proof (induction ks)
    case (Cons a ks)
    have "values_of (map (Pair a) vs) k = (if a = k then vs else [])" for vs by (induction vs) (auto simp: values_of_def)
    moreover have "values_of (xs @ ys) k = values_of xs k @ values_of ys k" for xs ys by (simp add: values_of_def)
    ultimately show ?case using Cons by auto
  qed (simp add: values_of_def)
  have "k \<notin> set (keys_of qs) \<Longrightarrow> values_of qs k = []" by (auto simp: keys_of_def values_of_def filter_empty_conv)
  then show ?thesis unfolding ordered_def by (subst *) (auto simp: keys_of_def)
qed

lemma ParseQuery_Encode: "qs \<noteq> [] \<Longrightarrow> ParseQuery (Encode qs) = Some (ordered qs)"
proof -
  assume "qs \<noteq> []"
  then obtain k v where "(k, v) \<in> set qs" by (cases qs) auto
  then have "k \<in> set (sort (keys_of qs))" "values_of qs k \<noteq> []" by (force simp: keys_of_def values_of_def filter_empty_conv)+
  then have ne: "ordered qs \<noteq> []" by (auto simp: ordered_def)
  have parts: "concat (map (\<lambda>k. map (\<lambda>v. QueryEscape k @ ''='' @ QueryEscape v) (values_of qs k)) (sort (keys_of qs)))
      = map (\<lambda>(k, v). QueryEscape k @ ''='' @ QueryEscape v) (ordered qs)"
    by (simp add: ordered_def map_concat comp_def)
  have "CHR ''&'' \<notin> set p" if "p \<in> set (map (\<lambda>(k, v). QueryEscape k @ ''='' @ QueryEscape v) (ordered qs))" for p
    using that QueryEscape_separators(1) by auto
  then have "Split (Encode qs) (CHR ''&'') = map (\<lambda>(k, v). QueryEscape k @ ''='' @ QueryEscape v) (ordered qs)"
    unfolding Encode_def parts using ne by (intro Split_Join) auto
  then show ?thesis unfolding ParseQuery_def by (metis parse_parts_pairs)
qed

end
