(* ===== verification/Engine_Proxy.thy ===== *)
theory Engine_Proxy
  imports Go_Url Go_Regexp
begin

text \<open>
  The proxy between the agent and Docker Engine (\<^verbatim>\<open>internal/engineproxy/policy.go\<close>): which requests it forwards, in which form.
  Beside it the requests the agent's client makes (\<^verbatim>\<open>internal/engine/engine.go\<close>), so that the two can be compared.

  A request is what Go's HTTP server made of it. The JSON decoder is a parameter: \<open>entries\<close> gives the entries of an object in
  their order, each value as a list of strings if it is one, and nothing for a text that is not exactly one object.
\<close>

section \<open>Requests\<close>

record http_request =
  rq_Method :: string
  rq_IsAbs :: bool
  rq_Opaque :: string
  rq_User :: bool
  rq_Fragment :: string
  rq_RequestURI :: string
  rq_Headers :: "string list"
  rq_EscapedPath :: string
  rq_RawQuery :: string
  rq_MediaType :: "string option"
  rq_HasBody :: bool
  rq_ContentLength :: int
  rq_TransferEncoding :: "string list"

text \<open>What is forwarded: method, escaped and decoded path, query.\<close>

record forwarded =
  fw_Path :: string
  fw_RawPath :: string
  fw_RawQuery :: string

section \<open>The proxy's policy\<close>

type_synonym entries = "string \<Rightarrow> (string \<times> string list option) list option"

definition containerName :: rx where
  "containerName = Seq (Cls [range_az, range_AZ, range_09]) (Star (Cls [range_az, range_AZ, range_09, only (CHR ''_''), only (CHR ''.''), only (CHR ''-'')]))"

definition imageReference :: rx where
  "imageReference = Seq (Cls [range_az, range_AZ, range_09])
     (Star (Cls [range_az, range_AZ, range_09, only (CHR ''.''), only (CHR ''_''), only (CHR '':''), only (CHR ''/''), only (CHR ''@''), only (CHR ''-'')]))"

text \<open>The match of \<^verbatim>\<open>^/v[0-9]+\.[0-9]+/\<close> at the start of a path, without its last slash; empty when there is none.\<close>

definition apiPrefix :: "string \<Rightarrow> string" where
  "apiPrefix path =
     (if \<not> HasPrefix path ''/v'' then []
      else
        let major = takeWhile is_digit (drop 2 path); rest = drop (2 + length major) path;
            minor = takeWhile is_digit (drop 1 rest); last_part = drop (1 + length minor) rest
        in if major = [] \<or> \<not> HasPrefix rest ''.'' \<or> minor = [] \<or> \<not> HasPrefix last_part ''/'' then []
           else ''/v'' @ major @ ''.'' @ minor)"

definition exactQuery :: "url_values \<Rightarrow> (string \<times> string) list \<Rightarrow> bool" where
  "exactQuery vals want \<longleftrightarrow> length (keys_of vals) = length want \<and> list_all (\<lambda>(k, v). values_of vals k = [v]) want"

definition single :: "url_values \<Rightarrow> string \<Rightarrow> bool" where
  "single query k \<longleftrightarrow> length (keys_of query) = 1 \<and> length (values_of query k) = 1"

definition first_value :: "url_values \<Rightarrow> string \<Rightarrow> string" where
  "first_value query k = (case values_of query k of [] \<Rightarrow> [] | v # _ \<Rightarrow> v)"

fun filters_ok :: "string list \<Rightarrow> (string \<times> string list option) list \<Rightarrow> bool" where
  "filters_ok seen [] \<longleftrightarrow> length seen = 2"
| "filters_ok seen ((name, vals) # rest) \<longleftrightarrow>
     name \<notin> set seen
     \<and> (case vals of
          None \<Rightarrow> False
        | Some vs \<Rightarrow>
            if name = ''type'' then sort vs = [''container'']
            else if name = ''event'' then sort vs = [''create'', ''destroy'', ''die'', ''rename'', ''start'']
            else False)
     \<and> filters_ok (name # seen) rest"

definition validFilters :: "entries \<Rightarrow> string \<Rightarrow> bool" where
  "validFilters js v = (case js v of None \<Rightarrow> False | Some es \<Rightarrow> filters_ok [] es)"

definition reference_ok :: "string \<Rightarrow> bool" where
  "reference_ok reference \<longleftrightarrow> MatchString imageReference reference \<and> \<not> Contains reference ''//''
     \<and> ''..'' \<notin> set (Split reference (CHR ''/'')) \<and> ''.'' \<notin> set (Split reference (CHR ''/''))"

definition overrides :: "string list" where
  "overrides = [''Upgrade'', ''X-Http-Method-Override'', ''X-Method-Override'', ''X-Http-Method'']"

text \<open>The operation of a request, whether it writes, and its path; \<open>None\<close> when it is none of them. \<open>parts ! 0\<close> is what stands before
  the first slash.\<close>

definition operation_of :: "entries \<Rightarrow> string \<Rightarrow> string \<Rightarrow> url_values \<Rightarrow> (string \<times> bool \<times> string) option" where
  "operation_of js verb path query =
     (let parts = Split path (CHR ''/''); n = length parts;
          container = (n \<ge> 3 \<and> parts ! 1 = ''containers'' \<and> MatchString containerName (parts ! 2))
      in if verb = ''GET'' \<and> path = ''/containers/json'' \<and> exactQuery query [(''all'', ''1'')] then Some (''list'', False, path)
         else if verb = ''GET'' \<and> n = 4 \<and> container \<and> parts ! 3 = ''json'' \<and> query = [] then Some (''inspect'', False, path)
         else if verb = ''GET'' \<and> path = ''/events'' \<and> single query ''filters'' \<and> validFilters js (first_value query ''filters'') then Some (''events'', False, path)
         else if verb = ''GET'' \<and> n = 4 \<and> parts ! 1 = ''images'' \<and> parts ! 3 = ''json'' \<and> query = [] then
           (case PathUnescape (parts ! 2) of
              None \<Rightarrow> None
            | Some reference \<Rightarrow> if reference_ok reference then Some (''image-inspect'', False, ''/images/'' @ PathEscape reference @ ''/json'') else None)
         else if verb = ''POST'' \<and> path = ''/containers/create'' \<and> single query ''name'' \<and> MatchString containerName (first_value query ''name'') then Some (''create'', True, path)
         else if verb = ''DELETE'' \<and> n = 3 \<and> container \<and> exactQuery query [(''v'', ''0''), (''force'', ''0'')] then Some (''remove'', True, path)
         else if verb = ''POST'' \<and> n = 4 \<and> container then
           (if parts ! 3 = ''start'' \<and> query = [] then Some (''start'', False, path)
            else if parts ! 3 = ''stop'' \<and> single query ''t'' then
              (case Atoi (first_value query ''t'') of
                 None \<Rightarrow> None
               | Some t \<Rightarrow> if t \<ge> -1 then Some (''stop'', True, path) else None)
            else None)
         else None)"

text \<open>A rejection with its status, or the operation and the forwarded request.\<close>

definition authorize :: "entries \<Rightarrow> http_request \<Rightarrow> bool \<Rightarrow> string \<times> (int + forwarded)" where
  "authorize js r recreate =
     (if rq_IsAbs r \<or> rq_Opaque r \<noteq> [] \<or> rq_User r \<or> rq_Fragment r \<noteq> [] \<or> \<not> HasPrefix (rq_RequestURI r) ''/'' then (''request'', Inl 400)
      else if list_ex (\<lambda>h. h \<in> set (rq_Headers r)) overrides then (''request'', Inl 403)
      else
        let prefix = apiPrefix (rq_EscapedPath r); path = drop (length prefix) (rq_EscapedPath r)
        in case ParseQuery (rq_RawQuery r) of
             None \<Rightarrow> (''request'', Inl 400)
           | Some query \<Rightarrow>
               (case operation_of js (rq_Method r) path query of
                  None \<Rightarrow> (''request'', Inl 403)
                | Some (operation, writes, path) \<Rightarrow>
                    if writes \<and> \<not> recreate then (operation, Inl 403)
                    else if operation = ''create'' \<and> (rq_MediaType r \<noteq> Some ''application/json'' \<or> \<not> rq_HasBody r) then (operation, Inl 400)
                    else if operation \<noteq> ''create'' \<and> (rq_ContentLength r \<noteq> 0 \<or> rq_TransferEncoding r \<noteq> []) then (operation, Inl 400)
                    else case PathUnescape (prefix @ path) of
                           None \<Rightarrow> (operation, Inl 400)
                         | Some decoded \<Rightarrow> (operation, Inr \<lparr>fw_Path = decoded, fw_RawPath = prefix @ path, fw_RawQuery = Encode query\<rparr>)))"

section \<open>The agent's client\<close>

datatype engine_call =
    CallList
  | CallInspect string
  | CallEvents
  | CallImage string
  | CallStop string int
  | CallRemove string
  | CallCreate string
  | CallStart string

text \<open>The text \<^verbatim>\<open>json.Marshal\<close> writes of the filters, keys in order, is an argument.\<close>

fun call_parts :: "string \<Rightarrow> engine_call \<Rightarrow> string \<times> string \<times> url_values \<times> bool" where
  "call_parts filters CallList = (''GET'', ''/containers/json'', [(''all'', ''1'')], False)"
| "call_parts filters (CallInspect cid) = (''GET'', ''/containers/'' @ PathEscape cid @ ''/json'', [], False)"
| "call_parts filters CallEvents = (''GET'', ''/events'', [(''filters'', filters)], False)"
| "call_parts filters (CallImage reference) = (''GET'', ''/images/'' @ PathEscape reference @ ''/json'', [], False)"
| "call_parts filters (CallStop cid seconds) = (''POST'', ''/containers/'' @ PathEscape cid @ ''/stop'', [(''t'', Itoa seconds)], False)"
| "call_parts filters (CallRemove cid) = (''DELETE'', ''/containers/'' @ PathEscape cid, [(''v'', ''0''), (''force'', ''0'')], False)"
| "call_parts filters (CallCreate name) = (''POST'', ''/containers/create'', [(''name'', name)], True)"
| "call_parts filters (CallStart cid) = (''POST'', ''/containers/'' @ PathEscape cid @ ''/start'', [], False)"

definition client_do :: "string \<Rightarrow> engine_call \<Rightarrow> int \<Rightarrow> http_request" where
  "client_do filters call bodyLength =
     (case call_parts filters call of
        (verb, path, query, body) \<Rightarrow>
          \<lparr>rq_Method = verb, rq_IsAbs = False, rq_Opaque = [], rq_User = False, rq_Fragment = [],
           rq_RequestURI = path @ (if query = [] then [] else ''?'' @ Encode query), rq_Headers = (if body then [''Content-Type''] else []),
           rq_EscapedPath = path, rq_RawQuery = (if query = [] then [] else Encode query),
           rq_MediaType = (if body then Some ''application/json'' else None), rq_HasBody = body,
           rq_ContentLength = (if body then bodyLength else 0), rq_TransferEncoding = []\<rparr>)"

section \<open>Queries of one and two keys\<close>

lemma values_of_keys: "k \<in> set (keys_of qs) \<longleftrightarrow> values_of qs k \<noteq> []"
  by (force simp: keys_of_def values_of_def filter_empty_conv)

lemma distinct_keys [simp]: "distinct (keys_of qs)"
  by (simp add: keys_of_def)

lemma single_Encode:
  assumes "single query k"
  shows "Encode query = QueryEscape k @ ''='' @ QueryEscape (first_value query k)"
proof -
  obtain v where v: "values_of query k = [v]"
    using assms by (auto simp: single_def length_Suc_conv)
  then have "k \<in> set (keys_of query)" by (simp add: values_of_keys)
  then have "keys_of query = [k]" using assms by (auto simp: single_def length_Suc_conv)
  then show ?thesis using v by (simp add: Encode_def first_value_def)
qed

lemma exact_one_Encode: "exactQuery query [(k, v)] \<Longrightarrow> Encode query = QueryEscape k @ ''='' @ QueryEscape v"
  using single_Encode[of query k] by (simp add: exactQuery_def single_def first_value_def)

lemma exact_two_Encode:
  assumes "exactQuery query [(k, v), (l, u)]" and "l < k"
  shows "Encode query = QueryEscape l @ ''='' @ QueryEscape u @ ''&'' @ QueryEscape k @ ''='' @ QueryEscape v"
proof -
  have vals: "values_of query k = [v]" "values_of query l = [u]" and len: "length (keys_of query) = 2"
    using assms(1) by (auto simp: exactQuery_def)
  then have "{l, k} \<subseteq> set (keys_of query)" by (simp add: values_of_keys)
  moreover have "card (set (keys_of query)) = 2" using len distinct_card[OF distinct_keys] by metis
  ultimately have "set (keys_of query) = {l, k}"
    using assms(2) card_seteq[of "set (keys_of query)" "{l, k}"] by auto
  then have "sort (keys_of query) = [l, k]"
    using assms(2) by (intro sorted_distinct_set_unique) auto
  then show ?thesis using vals by (simp add: Encode_def)
qed

section \<open>What is forwarded\<close>

definition name_ok :: "string \<Rightarrow> bool" where
  "name_ok name \<longleftrightarrow> MatchString containerName name"

text \<open>The requests the proxy lets through, with the permission for each.\<close>

inductive allowed :: "entries \<Rightarrow> bool \<Rightarrow> string \<Rightarrow> string \<Rightarrow> string \<Rightarrow> bool" for js recreate where
  List: "allowed js recreate ''GET'' ''/containers/json'' ''all=1''"
| Inspect: "name_ok name \<Longrightarrow> allowed js recreate ''GET'' (''/containers/'' @ name @ ''/json'') []"
| Events: "validFilters js filters \<Longrightarrow> allowed js recreate ''GET'' ''/events'' (''filters='' @ QueryEscape filters)"
| Image: "reference_ok reference \<Longrightarrow> allowed js recreate ''GET'' (''/images/'' @ PathEscape reference @ ''/json'') []"
| Start: "name_ok name \<Longrightarrow> allowed js recreate ''POST'' (''/containers/'' @ name @ ''/start'') []"
| Stop: "recreate \<Longrightarrow> name_ok name \<Longrightarrow> Atoi t = Some seconds \<Longrightarrow> -1 \<le> seconds \<Longrightarrow>
    allowed js recreate ''POST'' (''/containers/'' @ name @ ''/stop'') (''t='' @ QueryEscape t)"
| Create: "recreate \<Longrightarrow> name_ok name \<Longrightarrow> allowed js recreate ''POST'' ''/containers/create'' (''name='' @ QueryEscape name)"
| Remove: "recreate \<Longrightarrow> name_ok name \<Longrightarrow> allowed js recreate ''DELETE'' (''/containers/'' @ name) ''force=0&v=0''"

inductive_cases allowed_cases: "allowed js recreate verb path query"

lemma Split_parts:
  assumes "HasPrefix path ''/''" and "Split path (CHR ''/'') = p # ps"
  shows "path = concat (map (\<lambda>q. CHR ''/'' # q) ps)"
proof -
  have "p = []" using assms by (cases path) (auto simp: HasPrefix_def split: if_splits)
  moreover have "Join (p # ps) (CHR ''/'') = path" using assms(2) Join_Split[of path "CHR ''/''"] by simp
  moreover have "Join ([] # qs) d = concat (map (\<lambda>q. d # q) qs)" for qs :: "string list" and d
  proof (induction qs)
    case (Cons q qs)
    then show ?case by (cases qs) auto
  qed simp
  ultimately show ?thesis by simp
qed

lemma path_of_parts:
  assumes "HasPrefix path ''/''"
  shows "length (Split path (CHR ''/'')) = 4 \<Longrightarrow> path = ''/'' @ Split path (CHR ''/'') ! 1 @ ''/'' @ Split path (CHR ''/'') ! 2 @ ''/'' @ Split path (CHR ''/'') ! 3"
    and "length (Split path (CHR ''/'')) = 3 \<Longrightarrow> path = ''/'' @ Split path (CHR ''/'') ! 1 @ ''/'' @ Split path (CHR ''/'') ! 2"
  using Split_parts[OF assms] by (auto simp: numeral_eq_Suc length_Suc_conv)

lemma if_SomeE: "(if c then x else y) = Some z \<Longrightarrow> (c \<Longrightarrow> x = Some z \<Longrightarrow> P) \<Longrightarrow> (y = Some z \<Longrightarrow> P) \<Longrightarrow> P"
  by (simp split: if_split_asm)

lemma option_SomeE: "(case v of None \<Rightarrow> None | Some a \<Rightarrow> f a) = Some z \<Longrightarrow> (\<And>a. v = Some a \<Longrightarrow> f a = Some z \<Longrightarrow> P) \<Longrightarrow> P"
  by (cases v) simp_all

lemma triple_SomeE: "Some (a, b, c) = Some (x, y, z) \<Longrightarrow> (x = a \<Longrightarrow> y = b \<Longrightarrow> z = c \<Longrightarrow> P) \<Longrightarrow> P" "None = Some w \<Longrightarrow> P"
  by simp_all

lemma escaped_keys:
  "QueryEscape ''all'' = ''all''" "QueryEscape ''1'' = ''1''" "QueryEscape ''filters'' = ''filters''" "QueryEscape ''name'' = ''name''" "QueryEscape ''t'' = ''t''"
  "QueryEscape ''v'' = ''v''" "QueryEscape ''0'' = ''0''" "QueryEscape ''force'' = ''force''" "''force'' < (''v'' :: string)"
  by code_simp+

text \<open>The branches of the policy, one by one.\<close>

lemma list_allowed: "exactQuery query [(''all'', ''1'')] \<Longrightarrow> allowed js recreate ''GET'' ''/containers/json'' (Encode query)"
  using exact_one_Encode[of query "''all''" "''1''"] allowed.List[of js recreate] by (simp add: escaped_keys)

lemma parts_allowed:
  assumes "HasPrefix path ''/''"
  defines "parts \<equiv> Split path (CHR ''/'')"
  assumes "parts ! 1 = ''containers''" and "MatchString containerName (parts ! 2)"
  shows "length parts = 4 \<Longrightarrow> parts ! 3 = ''json'' \<Longrightarrow> allowed js recreate ''GET'' path (Encode [])"
    and "length parts = 4 \<Longrightarrow> parts ! 3 = ''start'' \<Longrightarrow> allowed js recreate ''POST'' path (Encode [])"
    and "length parts = 3 \<Longrightarrow> recreate \<Longrightarrow> exactQuery query [(''v'', ''0''), (''force'', ''0'')] \<Longrightarrow> allowed js recreate ''DELETE'' path (Encode query)"
    and "length parts = 4 \<Longrightarrow> parts ! 3 = ''stop'' \<Longrightarrow> recreate \<Longrightarrow> single query ''t'' \<Longrightarrow> Atoi (first_value query ''t'') = Some seconds \<Longrightarrow> -1 \<le> seconds \<Longrightarrow>
      allowed js recreate ''POST'' path (Encode query)"
proof -
  have empty: "Encode [] = []" by (simp add: Encode_def keys_of_def)
  have name: "name_ok (parts ! 2)" using assms(4) by (simp add: name_ok_def)
  note four = path_of_parts(1)[OF assms(1), folded parts_def] and three = path_of_parts(2)[OF assms(1), folded parts_def]
  show "allowed js recreate ''GET'' path (Encode [])" if "length parts = 4" "parts ! 3 = ''json''"
    using allowed.Inspect[OF name, of js recreate] four[OF that(1)] that(2) assms(3) empty by simp
  show "allowed js recreate ''POST'' path (Encode [])" if "length parts = 4" "parts ! 3 = ''start''"
    using allowed.Start[OF name, of js recreate] four[OF that(1)] that(2) assms(3) empty by simp
  show "allowed js recreate ''DELETE'' path (Encode query)" if "length parts = 3" recreate "exactQuery query [(''v'', ''0''), (''force'', ''0'')]"
    using allowed.Remove[OF that(2) name, of js] exact_two_Encode[OF that(3) escaped_keys(9)] three[OF that(1)] assms(3) by (simp add: escaped_keys)
  show "allowed js recreate ''POST'' path (Encode query)"
    if "length parts = 4" "parts ! 3 = ''stop''" recreate "single query ''t''" "Atoi (first_value query ''t'') = Some seconds" "-1 \<le> seconds"
    using allowed.Stop[OF that(3) name that(5,6), of js] single_Encode[OF that(4)] four[OF that(1)] that(2) assms(3) by (simp add: escaped_keys)
qed

lemma single_allowed:
  "single query ''filters'' \<Longrightarrow> validFilters js (first_value query ''filters'') \<Longrightarrow> allowed js recreate ''GET'' ''/events'' (Encode query)"
  "single query ''name'' \<Longrightarrow> MatchString containerName (first_value query ''name'') \<Longrightarrow> recreate \<Longrightarrow> allowed js recreate ''POST'' ''/containers/create'' (Encode query)"
  using single_Encode[of query "''filters''"] allowed.Events[of js "first_value query ''filters''" recreate]
    single_Encode[of query "''name''"] allowed.Create[of recreate "first_value query ''name''" js]
  by (simp_all add: escaped_keys name_ok_def)

lemma image_allowed: "reference_ok reference \<Longrightarrow> allowed js recreate ''GET'' (''/images/'' @ PathEscape reference @ ''/json'') (Encode [])"
  using allowed.Image[of reference js recreate] by (simp add: Encode_def keys_of_def)

lemma operation_allowed:
  assumes "HasPrefix path ''/''" and "operation_of js verb path query = Some (operation, writes, path')" and "writes \<longrightarrow> recreate"
  shows "allowed js recreate verb path' (Encode query)"
  using assms(2,3) unfolding operation_of_def Let_def
  apply (elim if_SomeE option_SomeE conjE triple_SomeE; hypsubst)
  subgoal by (rule list_allowed)
  subgoal by (rule parts_allowed(1)[OF assms(1)])
  subgoal by (rule single_allowed(1))
  subgoal by (rule image_allowed)
  subgoal by (rule single_allowed(2)) blast+
  subgoal by (rule parts_allowed(3)[OF assms(1)]) blast+
  subgoal by (rule parts_allowed(2)[OF assms(1)])
  subgoal by (rule parts_allowed(4)[OF assms(1)]) blast+
  done

definition version_ok :: "string \<Rightarrow> bool" where
  "version_ok v \<longleftrightarrow> v = [] \<or> (\<exists>major minor. all_digits major \<and> all_digits minor \<and> v = ''/v'' @ major @ ''.'' @ minor)"

lemma apiPrefix_version: "version_ok (apiPrefix path)"
proof (cases "apiPrefix path = []")
  case False
  let ?major = "takeWhile is_digit (drop 2 path)"
  let ?minor = "takeWhile is_digit (drop 1 (drop (2 + length ?major) path))"
  have digits: "xs \<noteq> [] \<Longrightarrow> xs = takeWhile is_digit s \<Longrightarrow> all_digits xs" for xs s
    by (auto simp: all_digits_def list_all_iff dest: set_takeWhileD)
  have "apiPrefix path = ''/v'' @ ?major @ ''.'' @ ?minor" "?major \<noteq> []" "?minor \<noteq> []"
    using False by (auto simp: apiPrefix_def Let_def split: if_splits)
  then show ?thesis unfolding version_ok_def using digits[OF _ refl] by metis
qed (simp add: version_ok_def)

lemma apiPrefix_rest:
  assumes "HasPrefix path ''/''"
  shows "HasPrefix (drop (length (apiPrefix path)) path) ''/''"
proof (cases "apiPrefix path = []")
  case False
  let ?major = "takeWhile is_digit (drop 2 path)"
  let ?minor = "takeWhile is_digit (drop 1 (drop (2 + length ?major) path))"
  have "apiPrefix path = ''/v'' @ ?major @ ''.'' @ ?minor" "HasPrefix (drop (1 + length ?minor) (drop (2 + length ?major) path)) ''/''"
    using False by (auto simp: apiPrefix_def Let_def split: if_splits)
  then show ?thesis by (simp add: add.commute add.left_commute)
qed (use assms in simp)

text \<open>
  C39. The proxy forwards only what its policy lists: with the host's recreate permission or without, a forwarded request is a
  container list, inspection, start, event stream or image inspection, or with the permission a stop, creation or removal that keeps volumes,
  each in its one canonical form with a well-formed name, under an optional version, with no header that overrides the
  method, and a body only for a creation.
\<close>

theorem proxy_forwards_only_allowed:
  assumes "HasPrefix (rq_EscapedPath r) ''/''" and "authorize js r recreate = (operation, Inr fw)"
  shows "\<exists>version path. fw_RawPath fw = version @ path \<and> version_ok version \<and> allowed js recreate (rq_Method r) path (fw_RawQuery fw)
    \<and> PathUnescape (fw_RawPath fw) = Some (fw_Path fw) \<and> set overrides \<inter> set (rq_Headers r) = {}
    \<and> (rq_ContentLength r \<noteq> 0 \<or> rq_TransferEncoding r \<noteq> [] \<longrightarrow> operation = ''create'')"
proof -
  let ?version = "apiPrefix (rq_EscapedPath r)"
  obtain query op writes path where run: "operation_of js (rq_Method r) (drop (length ?version) (rq_EscapedPath r)) query = Some (op, writes, path)"
    and perm: "writes \<longrightarrow> recreate" and fw: "fw_RawPath fw = ?version @ path" "fw_RawQuery fw = Encode query" "PathUnescape (?version @ path) = Some (fw_Path fw)"
    and heads: "\<not> list_ex (\<lambda>h. h \<in> set (rq_Headers r)) overrides" and body: "op = operation" "operation = ''create'' \<or> rq_ContentLength r = 0 \<and> rq_TransferEncoding r = []"
    using assms(2) unfolding authorize_def Let_def by (auto split: if_split_asm option.split_asm prod.split_asm)
  have "allowed js recreate (rq_Method r) path (fw_RawQuery fw)"
    unfolding fw(2) by (rule operation_allowed[OF apiPrefix_rest[OF assms(1)] run perm])
  then show ?thesis
    using fw heads body apiPrefix_version by (intro exI[of _ ?version] exI[of _ path]) (auto simp: list_ex_iff)
qed

text \<open>A JSON decoder for the example that knows one text.\<close>

definition example_entries :: entries where
  "example_entries text = (if text = ''F'' then Some [(''event'', Some [''start'', ''create'', ''die'', ''destroy'', ''rename'']), (''type'', Some [''container''])] else None)"

theorem proxy_forwards_only_allowed_witness:
  "(\<exists>fw version path. authorize example_entries (client_do ''F'' (CallRemove ''web'') 0) True = (''remove'', Inr fw) \<and> fw_RawPath fw = version @ path
      \<and> allowed example_entries True ''DELETE'' path (fw_RawQuery fw))
   \<and> authorize example_entries (client_do ''F'' (CallRemove ''web'') 0) False = (''remove'', Inl 403)"
proof -
  have denied: "authorize example_entries (client_do ''F'' (CallRemove ''web'') 0) False = (''remove'', Inl 403)" by code_simp
  let ?r = "client_do ''F'' (CallRemove ''web'') 0"
  have "fst (authorize example_entries ?r True) = ''remove'' \<and> \<not> isl (snd (authorize example_entries ?r True))" by code_simp
  then obtain fw where run: "authorize example_entries ?r True = (''remove'', Inr fw)"
    by (cases "authorize example_entries ?r True"; cases "snd (authorize example_entries ?r True)") auto
  have "HasPrefix (rq_EscapedPath ?r) ''/''" "rq_Method ?r = ''DELETE''" by code_simp+
  with proxy_forwards_only_allowed[OF _ run] denied run show ?thesis by auto
qed

section \<open>The agent behind the proxy\<close>

text \<open>Calls with well-formed arguments, as the engine names its containers and images.\<close>

fun call_ok :: "engine_call \<Rightarrow> bool" where
  "call_ok (CallInspect cid) = name_ok cid"
| "call_ok (CallImage reference) = reference_ok reference"
| "call_ok (CallStop cid seconds) = (name_ok cid \<and> 0 \<le> seconds \<and> seconds < 2 ^ 63)"
| "call_ok (CallRemove cid) = name_ok cid"
| "call_ok (CallCreate name) = name_ok name"
| "call_ok (CallStart cid) = name_ok cid"
| "call_ok _ = True"

fun call_writes :: "engine_call \<Rightarrow> bool" where
  "call_writes (CallStop _ _) = True"
| "call_writes (CallRemove _) = True"
| "call_writes (CallCreate _) = True"
| "call_writes _ = False"

lemma name_chars:
  assumes "name_ok name"
  shows "name \<noteq> [] \<and> (\<forall>c\<in>set name. unreserved c)"
proof -
  have tail: "unreserved c" if "in_class [range_az, range_AZ, range_09, only (CHR ''_''), only (CHR ''.''), only (CHR ''-'')] c" for c
    using that unfolding unreserved_def in_class_simps fst_conv snd_conv by (auto dest: antisym)
  obtain c rest where "name = c # rest" "unreserved c"
      "\<forall>d\<in>set rest. in_class [range_az, range_AZ, range_09, only (CHR ''_''), only (CHR ''.''), only (CHR ''-'')] d"
    using assms unfolding name_ok_def containerName_def MatchString_iff lang_head_class unreserved_def by blast
  then show ?thesis using tail by (simp del: in_class_simps)
qed

lemma PathEscape_unreserved: "\<forall>c\<in>set s. unreserved c \<Longrightarrow> PathEscape s = s"
  unfolding PathEscape_def by (induction s) auto

lemma apiPrefix_none: "\<not> HasPrefix path ''/v'' \<Longrightarrow> apiPrefix path = []"
  by (simp add: apiPrefix_def)

lemma Split_slashes:
  assumes "CHR ''/'' \<notin> set a" "CHR ''/'' \<notin> set b"
  shows "Split (''/'' @ a @ ''/'' @ b) (CHR ''/'') = [[], a, b]"
    and "CHR ''/'' \<notin> set c \<Longrightarrow> Split (''/'' @ a @ ''/'' @ b @ ''/'' @ c) (CHR ''/'') = [[], a, b, c]"
  using assms by (simp_all add: Split_append_sep Split_word)

lemma query_one: "keys_of [(k, v)] = [k]" "values_of [(k, v)] k = [v]"
  by (simp_all add: keys_of_def values_of_def)

lemma name_plain:
  assumes "name_ok name"
  shows "CHR ''/'' \<notin> set name" "PathEscape name = name"
  using name_chars[OF assms] PathEscape_unreserved[of name] by (auto dest: unreserved_plain)

lemma PathEscape_no_slash: "CHR ''/'' \<notin> set (PathEscape s)"
proof
  assume "CHR ''/'' \<in> set (PathEscape s)"
  then show False by (auto simp: PathEscape_def unreserved_def less_eq_char_def split: if_splits dest: percent_chars)
qed

lemma ordered_query: "ordered [(k, v)] = [(k, v)]" "ordered [(''v'', ''0''), (''force'', ''0'')] = [(''force'', ''0''), (''v'', ''0'')]"
proof -
  show "ordered [(k, v)] = [(k, v)]" by (simp add: ordered_def query_one)
  show "ordered [(''v'', ''0''), (''force'', ''0'')] = [(''force'', ''0''), (''v'', ''0'')]" by code_simp
qed

fun call_name :: "engine_call \<Rightarrow> string" where
  "call_name CallList = ''list''"
| "call_name (CallInspect _) = ''inspect''"
| "call_name CallEvents = ''events''"
| "call_name (CallImage _) = ''image-inspect''"
| "call_name (CallStop _ _) = ''stop''"
| "call_name (CallRemove _) = ''remove''"
| "call_name (CallCreate _) = ''create''"
| "call_name (CallStart _) = ''start''"

lemma fixed_paths:
  "Split ''/events'' (CHR ''/'') = [[], ''events'']" "Split ''/containers/create'' (CHR ''/'') = [[], ''containers'', ''create'']"
  by code_simp+

lemma call_operation:
  assumes "call_ok call" and "validFilters js filters"
  shows "case call_parts filters call of (verb, path, query, body) \<Rightarrow>
    operation_of js verb path (ordered query) = Some (call_name call, call_writes call, path)"
proof -
  have none: "ordered [] = []" by (simp add: ordered_def keys_of_def)
  show ?thesis
  proof (cases call)
    case CallList
    show ?thesis unfolding CallList by (simp add: operation_of_def Let_def ordered_query exactQuery_def query_one)
  next
    case (CallInspect cid)
    then have "name_ok cid" using assms by simp
    then show ?thesis unfolding CallInspect using name_plain[of cid] Split_slashes(2)[of "''containers''" cid "''json''"]
      by (simp add: operation_of_def Let_def name_ok_def none)
  next
    case CallEvents
    show ?thesis unfolding CallEvents
      using assms(2) by (simp add: operation_of_def Let_def ordered_query single_def query_one first_value_def fixed_paths)
  next
    case (CallImage reference)
    then have "reference_ok reference" using assms by simp
    then show ?thesis unfolding CallImage using PathEscape_no_slash[of reference] Split_slashes(2)[of "''images''" "PathEscape reference" "''json''"]
      by (simp add: operation_of_def Let_def none)
  next
    case (CallStop cid seconds)
    then have "name_ok cid" "Atoi (Itoa seconds) = Some seconds" "-1 \<le> seconds" using assms Atoi_Itoa[of seconds] by simp_all
    then show ?thesis unfolding CallStop using name_plain[of cid] Split_slashes(2)[of "''containers''" cid "''stop''"]
      by (simp add: operation_of_def Let_def name_ok_def ordered_query single_def query_one first_value_def)
  next
    case (CallRemove cid)
    then have "name_ok cid" using assms by simp
    then show ?thesis unfolding CallRemove using name_plain[of cid] Split_slashes(1)[of "''containers''" cid]
      by (simp add: operation_of_def Let_def name_ok_def ordered_query exactQuery_def keys_of_def values_of_def)
  next
    case (CallCreate name)
    then have "name_ok name" using assms by simp
    then show ?thesis unfolding CallCreate
      by (simp add: operation_of_def Let_def name_ok_def ordered_query single_def query_one first_value_def fixed_paths)
  next
    case (CallStart cid)
    then have "name_ok cid" using assms by simp
    then show ?thesis unfolding CallStart using name_plain[of cid] Split_slashes(2)[of "''containers''" cid "''start''"]
      by (simp add: operation_of_def Let_def name_ok_def none)
  qed
qed

lemma Encode_ordered: "Encode (ordered qs) = Encode qs"
proof -
  have "sort (keys_of (ordered qs)) = sort (keys_of qs)"
    by (rule sorted_distinct_set_unique) (auto simp: values_of_keys ordered_values)
  then show ?thesis by (simp add: Encode_def ordered_values)
qed

lemma ParseQuery_client: "ParseQuery (if qs = [] then [] else Encode qs) = Some (ordered qs)"
  using ParseQuery_Encode[of qs] by (auto simp: ParseQuery_def parse_part_def ordered_def keys_of_def)

lemma unescape_append: "unescape plain s = Some u \<Longrightarrow> unescape plain (s @ t) = map_option ((@) u) (unescape plain t)"
proof (induction plain s arbitrary: u rule: unescape.induct)
  case (1 plain)
  then show ?case by (cases "unescape plain t") auto
next
  case (2 plain c s)
  show ?case
  proof (cases "c = CHR ''%''")
    case True
    then obtain h l rest a b v where s: "s = h # l # rest" "unhex h = Some a" "unhex l = Some b" "unescape plain rest = Some v" "u = char_of (16 * a + b) # v"
      using 2(3) by (auto split: list.splits option.splits)
    then show ?thesis using 2(1)[OF True s(1) refl refl s(2,3,4)] True by (cases "unescape plain t") auto
  next
    case False
    then show ?thesis using 2 by (cases "unescape plain t") auto
  qed
qed

text \<open>The paths of the client, decoded.\<close>

fun call_path :: "engine_call \<Rightarrow> string" where
  "call_path CallList = ''/containers/json''"
| "call_path (CallInspect cid) = ''/containers/'' @ cid @ ''/json''"
| "call_path CallEvents = ''/events''"
| "call_path (CallImage reference) = ''/images/'' @ reference @ ''/json''"
| "call_path (CallStop cid _) = ''/containers/'' @ cid @ ''/stop''"
| "call_path (CallRemove cid) = ''/containers/'' @ cid"
| "call_path (CallCreate _) = ''/containers/create''"
| "call_path (CallStart cid) = ''/containers/'' @ cid @ ''/start''"

lemma call_decodes:
  "case call_parts filters call of (verb, path, query, body) \<Rightarrow>
     PathUnescape path = Some (call_path call) \<and> HasPrefix path ''/'' \<and> apiPrefix path = [] \<and> (body \<longleftrightarrow> call_name call = ''create'')"
  using unescape_append[OF PathUnescape_PathEscape[unfolded PathUnescape_def]] PathUnescape_PathEscape[unfolded PathUnescape_def]
  by (cases call) (auto simp: apiPrefix_none HasPrefix_def PathUnescape_def unescape_plain)



end
