(* ===== verification/Spec2Isabelle.thy ===== *)
theory Spec2Isabelle
  imports Credentials_Safety Token_Reports OpenBao_Service Operator_Effects SSH_Safety Container_Contract Engine_Proxy
begin

text \<open>
  \<^bold>\<open>Wyrwood\<close> gives containers on many hosts their own OpenBao credentials. A \<^emph>\<open>controller\<close> keeps policies, agents and
  bindings in a database, publishes policies and AppRoles to OpenBao and answers operators (a web interface and an SSH
  interface); an \<^emph>\<open>agent\<close> on each host reports its containers to the controller over SSH, receives for each bound container a
  wrapped one-use credential, keeps the OpenBao token this buys and serves it to the container through sockets. A binding
  ties one container key of one agent to a selection of policies; composing the selection gives the assignment the container runs
  under.

  \<^bold>\<open>Theories and sources\<close> (paths under \<^verbatim>\<open>src/\<close>).

  \<^item> \<open>Prelude\<close>, \<open>Go_Strings\<close>, \<open>Go_Regexp\<close>, \<open>Go_Utf8\<close>: what the code uses of Go's language and library. A Go map is an
    association list without repeated keys (\<open>gomap\<close>), a string its bytes, a result with an error a sum with the error on the
    left, a sequence of checks \<open>first_err\<close>, a loop over a slice a recursion over a list.
  \<^item> \<open>Policy_Contract\<close>, \<open>Binding_Values\<close>, \<open>Lifecycle\<close>, \<open>Composition\<close>: \<^verbatim>\<open>internal/policy\<close>. A policy document, its validation, the
    placeholders of binding values, the lifecycle stanzas and the composition of an effective assignment.
  \<^item> \<open>Operator_Grant\<close>: \<^verbatim>\<open>operator/types.go\<close>. \<open>Protocol\<close>: \<^verbatim>\<open>internal/protocol\<close>, messages with their validation and the bounded
    reading of a line. \<open>Events\<close>: \<^verbatim>\<open>internal/events\<close>, with files as bytes and every system call able to fail.
  \<^item> \<open>Store\<close>, \<open>Store_Invariants\<close>, \<open>Store_Steps\<close>: \<^verbatim>\<open>internal/controller/store\<close>. A database is a record of tables (\<open>db\<close>), an SQL
    transaction one function on it with the constraints of the schema; \<open>store_step\<close> is any transaction.
  \<^item> \<open>OpenBao_Client\<close>, \<open>OpenBao_Manager\<close>, \<open>OpenBao_Service\<close>: \<^verbatim>\<open>internal/openbao\<close>. The manager is a program over the calls of the
    client library.
  \<^item> \<open>Credentials\<close>, \<open>Credentials_Safety\<close>: \<^verbatim>\<open>internal/agent/credentials.go\<close>, a state machine whose steps run from one release of
    the lock to the next, so that every interleaving of the goroutines is a run.
  \<^item> \<open>Readiness\<close>: which binding governs a container (\<^verbatim>\<open>internal/controller/session.go\<close>) and when it is ready (\<^verbatim>\<open>readiness.go\<close>).
  \<^item> \<open>Controller_State\<close>, \<open>Controller_Operations\<close>, \<open>Controller_Sessions\<close>: the controller's operations (\<^verbatim>\<open>operations.go\<close>,
    \<^verbatim>\<open>policy_delete.go\<close>, \<^verbatim>\<open>policy_rename.go\<close>, \<^verbatim>\<open>policy_retirement.go\<close>, \<^verbatim>\<open>session.go\<close>) as programs of the state monad over a
    \<open>world\<close>: database, OpenBao, the flag \<^verbatim>\<open>policySyncPending\<close>, clock, events, sessions and hub.
  \<^item> \<open>Controller_Facts\<close>, \<open>Controller_Invariant\<close>, \<open>Controller_Safety\<close>, \<open>Controller_Effects\<close>, \<open>Token_Reports\<close>: the proofs about
    them, as triples over the laws of OpenBao.
  \<^item> \<open>Operator_Session\<close>: who a connection is (\<^verbatim>\<open>sshserver.go\<close>, \<^verbatim>\<open>operator_keys.go\<close>) and the requests of an operator
    (\<^verbatim>\<open>operator_session.go\<close>), in the same monad. \<open>Operator_Authority\<close>, \<open>Operator_Effects\<close>: what such a request can change and see.
  \<^item> \<open>SSH_Endpoint\<close>, \<open>SSH_Safety\<close>: a container's ssh-agent socket (\<^verbatim>\<open>internal/sshagent/endpoint.go\<close>, \<^verbatim>\<open>internal/openbao/agent.go\<close>).
    \<open>Container_Contract\<close>: containers, their check against a contract and their recreation (\<^verbatim>\<open>internal/contract\<close>,
    \<^verbatim>\<open>internal/engine\<close>), and what the agent reports of them.
  \<^item> \<open>Go_Url\<close>: escaping and queries of Go's \<^verbatim>\<open>net/url\<close>. \<open>Engine_Proxy\<close>: which requests to the container engine the proxy lets
    through (\<^verbatim>\<open>internal/engineproxy/policy.go\<close>) and the requests of the agent's client (\<^verbatim>\<open>internal/engine/engine.go\<close>).

  \<^bold>\<open>What is shown.\<close> Of the policy layer: OpenBao names are never shared by two uses of a name, accepted contracts and times are
  exactly the documented ones, binding values cannot leave their place in a policy, composition is the order-independent
  union or an error. Of the text formats: reading inverts writing, and no buffer size changes what is received. Of the store:
  an invariant of every reachable database, decisions that stay final, identities that are never reused, stale edits that are
  refused. Of the events: what was acknowledged survives torn writes and failing calls. Of the agent's tokens: none is lost
  and a superseded delivery installs nothing, under every interleaving. Of the controller: in every state it reaches, whatever
  calls fail, the roles of applied bindings carry exactly their assignments and stored policies are published or issuance is
  blocked; issued credentials are exact; what deletion, retirement and acknowledgement report is true. Of the operators: a connection is
  only what its key is approved for, a request changes and shows nothing outside the grant of its key. Of a container's sockets: it signs only with identities its
  policy offers. Of containers: recreating one makes it conform and keeps the rest of it. Of the engine proxy: it forwards only
  eight canonical forms of request, and among them every request of the agent's client. Of the manager: its
  operations implement the service the controller relies on.

  \<^bold>\<open>Parameters.\<close> Code outside the repository enters as arguments: the HCL parser (\<open>hcl_lib\<close>), the text of times and JSON
  (\<open>text_lib\<close>), SHA-256 and the digests of assignments, \<^verbatim>\<open>protocol.Encode\<close> and \<^verbatim>\<open>reflect.DeepEqual\<close>
  (fields of \<open>ctl_env\<close>), the JSON of operator requests (\<open>codec\<close>) and of containers (\<open>json_lib\<close>), the JSON of engine filters (the argument \<open>js\<close>),
  the SSH library (\<open>ssh_lib\<close>), the OpenBao client library (\<open>api\<close>). Named hypotheses say what is used of them: the locale
  \<open>openbao_service\<close> for the operations the controller calls and \<open>openbao_api\<close> for the endpoints the manager calls, from which
  the first follows (\<open>manager_refines_service\<close>). Both are interpreted on services that can refuse a call or lose its answer.

  \<^bold>\<open>Failures.\<close> Each call to the database is healthy, fails without effect or fails after it took effect (\<open>fault\<close>); each call to
  OpenBao that reports an error may have taken effect. A crash is a run whose later calls all fail. The one exception is a lost answer
  to the statement that saves a policy: there the code leaves the database and OpenBao apart (\<open>lost_save_unpublished\<close>), and the
  invariant is stated without it. Operations under \<^verbatim>\<open>mutationMu\<close> run whole; so do the handlers of a session's messages, whose
  interleaving with a deletion is not modelled. No model runs on fuel: every recursion is structural or has a
  termination proof. Times are nanoseconds in \<open>int\<close>; latencies, generations and group identifiers keep their width where it
  matters.

  \<^bold>\<open>Not modelled.\<close> The web interface and its sign-in, the command line and configuration files, the transport of calls to the container engine and
  of a container's Vault socket (\<^verbatim>\<open>internal/vaultproxy\<close>), the agent's reconciliation of directories and sockets, packaging and
  updates: they are input and output around the parts above.
  Of modelled files, what remains is decoding and encoding of JSON, SQL text, timers, goroutine start-up and logging.
\<close>

end
